(* ===== verification/Prelude.thy ===== *)
theory Prelude
  imports Main "HOL-Library.Word" "HOL-Library.Monad_Syntax"
begin

text \<open>
  Shared vocabulary of the development.  The target is the S3C6410, a 32-bit little-endian ARM11:
  \<open>unsigned int\<close>, \<open>unsigned long\<close>, \<open>size_t\<close> and every pointer are 32 bits wide, \<open>char\<close> is an
  unsigned byte (the ARM default) and \<open>long long\<close> has 64 bits.  The theory fixes these types, the
  byte-addressed memory the C library works on, the regions and NUL-terminated strings found in it,
  and the word lemmas that the component theories rest on.
\<close>

unbundle bit_operations_syntax

section \<open>Machine types\<close>

type_synonym u8 = "8 word"
type_synonym u16 = "16 word"
type_synonym u32 = "32 word"
type_synonym u64 = "64 word"

text \<open>Signed C integers are kept as words of their width and read with \<^const>\<open>sint\<close>.\<close>

type_synonym s32 = "32 word"
type_synonym ptr = "32 word"
type_synonym mem = "32 word \<Rightarrow> 8 word"

text \<open>The kernel's error codes; a function that fails returns the negative code.\<close>

definition EIO :: s32 where "EIO = 5"
definition EAGAIN :: s32 where "EAGAIN = 11"
definition EFAULT :: s32 where "EFAULT = 14"
definition EBUSY :: s32 where "EBUSY = 16"
definition ENODEV :: s32 where "ENODEV = 19"
definition EINVAL :: s32 where "EINVAL = 22"
definition EROFS :: s32 where "EROFS = 30"
definition EBADMSG :: s32 where "EBADMSG = 74"
definition EUCLEAN :: s32 where "EUCLEAN = 117"
definition ENXIO :: s32 where "ENXIO = 6"
definition ENOMEM :: s32 where "ENOMEM = 12"
definition ENOTSUPP :: s32 where "ENOTSUPP = 524"

lemmas errno_defs = EIO_def EAGAIN_def EFAULT_def EBUSY_def ENODEV_def EINVAL_def EROFS_def EBADMSG_def EUCLEAN_def
  ENOTSUPP_def ENXIO_def ENOMEM_def

abbreviation (input) NULL :: ptr where
  "NULL \<equiv> 0"

named_theorems region_simps \<open>membership and separation of memory regions\<close>
named_theorems loop_simps \<open>closed forms of the loops of the C code\<close>
named_theorems reg_simps \<open>register reads and writes\<close>

section \<open>Words as numbers\<close>

lemma u32_of_nat_less: "i < 2 ^ 32 \<Longrightarrow> unat (of_nat i :: u32) = i"
  by (simp add: unsigned_of_nat take_bit_nat_eq_self)

lemma unat_u32_less: "unat (x :: u32) < 2 ^ 32"
  by (rule order_less_le_trans [OF unsigned_less]) simp

lemma unat_u32_bound: "unat (x :: u32) < 4294967296"
  by (rule order_less_le_trans [OF unsigned_less]) simp

lemma unat_minus_one_u32: "(x :: u32) \<noteq> 0 \<Longrightarrow> unat (x - 1) = unat x - 1"
  by (simp add: unat_minus_one)

lemma unat_sub_plus_one:
  "(a :: u32) \<noteq> p \<Longrightarrow> unat (a - p) = Suc (unat (a - (p + 1)))"
proof -
  assume "a \<noteq> p"
  then have "a - p \<noteq> 0" by simp
  then have "unat (a - p - 1) = unat (a - p) - 1" by (rule unat_minus_one_u32)
  moreover have "0 < unat (a - p)" using \<open>a \<noteq> p\<close> by (simp add: unat_gt_0)
  moreover have "a - p - 1 = a - (p + 1)" by simp
  ultimately show ?thesis by (simp only: Suc_pred')
qed

lemma sint_minus_one_s32:
  "0 < sint (x :: s32) \<Longrightarrow> sint (x - 1) = sint x - 1"
proof -
  assume pos: "0 < sint x"
  have "sint x < 2 ^ 31" using sint_lt [of x] by simp
  with pos show ?thesis
    by (simp add: sint_word_ariths signed_take_bit_int_eq_self_iff)
qed

lemma sint_dec_above:
  "sint (i :: s32) < sint (n :: s32) \<Longrightarrow> sint (n - 1) = sint n - 1"
proof -
  assume less: "sint i < sint n"
  have "sint n < 2 ^ 31" "- (2 ^ 31) \<le> sint i" using sint_lt [of n] sint_ge [of i] by simp_all
  with less have "- (2 ^ 31) \<le> sint n - 1" "sint n - 1 < 2 ^ 31" by linarith+
  then show ?thesis by (simp add: sint_word_ariths signed_take_bit_int_eq_self)
qed

lemma unat_u8_bound: "unat (a :: u8) < 256"
  by (rule order_less_le_trans [OF unsigned_less]) simp

lemma unat_ucast_u8_u32 [simp]: "unat (ucast (a :: u8) :: u32) = unat a"
  using unat_u8_bound [of a] by (simp add: unsigned_ucast_eq take_bit_nat_eq_self)

lemma ucast_up_eq: "(ucast (a :: u8) :: s32) = ucast b \<longleftrightarrow> a = b"
proof
  assume "(ucast a :: s32) = ucast b"
  then have "unat (ucast a :: s32) = unat (ucast b :: s32)" by simp
  then show "a = b" by (simp add: word_unat_eq_iff)
qed simp

lemma sint_scast_u8 [simp]: "sint (scast (r :: u8) :: s32) = sint r"
  by (rule sint_up_scast) (simp add: is_up)

lemma scast_eq_0_u8: "(scast (r :: u8) :: s32) = 0 \<longleftrightarrow> r = 0"
  by (metis sint_scast_u8 signed_0 signed_word_eqI)


lemma sint_u8_ascii: "(x :: u8) < 128 \<Longrightarrow> sint x = uint x"
proof -
  assume "x < 128"
  then have "uint x < 128" by (simp add: word_less_def)
  moreover have "0 \<le> uint x" by simp
  ultimately have "- 128 \<le> uint x" "uint x < 128"
    by linarith+
  then show ?thesis
    by (subst sint_uint) (simp add: signed_take_bit_int_eq_self)
qed

lemma sint_diff_ascii:
  assumes "(x :: u8) < 128" "(y :: u8) < 128"
  shows "sint (x - y) = uint x - uint y"
proof -
  have "uint x < 128" "uint y < 128" using assms by (simp_all add: word_less_def)
  moreover have "0 \<le> uint x" "0 \<le> uint y" by simp_all
  ultimately have "- 128 \<le> uint x - uint y" "uint x - uint y < 128" by linarith+
  moreover have "sint (x - y) = signed_take_bit 7 (sint x - sint y)"
    by (simp add: sint_word_ariths)
  ultimately show ?thesis
    using assms by (simp only: sint_u8_ascii) (simp add: signed_take_bit_int_eq_self)
qed

lemma uint_pos_iff: "0 < uint (x :: 'a::len word) \<longleftrightarrow> x \<noteq> 0"
  by (metis word_gt_0 word_less_def uint_0_eq)

section \<open>Regions of memory\<close>

text \<open>
  The region of \<open>n\<close> bytes at \<open>p\<close> is read modulo the 32-bit address space, so that a region may
  wrap around, as pointer arithmetic does.
\<close>

definition in_region :: "ptr \<Rightarrow> nat \<Rightarrow> ptr \<Rightarrow> bool" where
  "in_region p n a \<longleftrightarrow> unat (a - p) < n"

definition separate :: "ptr \<Rightarrow> nat \<Rightarrow> ptr \<Rightarrow> nat \<Rightarrow> bool" where
  "separate p n q k \<longleftrightarrow> (\<forall>a. \<not> (in_region p n a \<and> in_region q k a))"

lemma in_region_0 [simp]: "\<not> in_region p 0 a"
  by (simp add: in_region_def)

lemma in_region_start [simp]: "in_region p (Suc n) p"
  by (simp add: in_region_def)

lemma in_region_Suc: "in_region p (Suc n) a \<longleftrightarrow> a = p \<or> in_region (p + 1) n a"
proof (cases "a = p")
  case False
  then show ?thesis using unat_sub_plus_one [OF False] by (simp add: in_region_def)
qed simp

lemma in_region_mono: "in_region p n a \<Longrightarrow> n \<le> k \<Longrightarrow> in_region p k a"
  by (simp add: in_region_def)

lemma in_region_offset [region_simps]:
  "i < 2 ^ 32 \<Longrightarrow> in_region p n (p + of_nat i) \<longleftrightarrow> i < n"
  by (simp add: in_region_def u32_of_nat_less)

lemma in_region_ex: "in_region p n a \<longleftrightarrow> (\<exists>i<n. i < 2 ^ 32 \<and> a = p + of_nat i)"
proof
  assume "in_region p n a"
  then have "unat (a - p) < n" by (simp add: in_region_def)
  moreover have "a = p + of_nat (unat (a - p))" by simp
  ultimately show "\<exists>i<n. i < 2 ^ 32 \<and> a = p + of_nat i"
    using unat_u32_less by blast
qed (auto simp: in_region_offset)

lemma separate_sym: "separate p n q k \<Longrightarrow> separate q k p n"
  by (auto simp: separate_def)

lemma separate_mono:
  "separate p n q k \<Longrightarrow> n' \<le> n \<Longrightarrow> k' \<le> k \<Longrightarrow> separate p n' q k'"
  unfolding separate_def by (meson in_region_mono)

lemma separate_Suc_tail:
  "separate p (Suc n) q (Suc k) \<Longrightarrow> separate (p + 1) n (q + 1) k"
  by (auto simp: separate_def in_region_Suc)

lemma separateD: "separate p n q k \<Longrightarrow> in_region p n a \<Longrightarrow> \<not> in_region q k a"
  by (auto simp: separate_def)

lemma offset_neq:
  "unat p + i < 2 ^ 32 \<Longrightarrow> unat q + j < 2 ^ 32 \<Longrightarrow> unat p + i \<noteq> unat q + j \<Longrightarrow>
   (p :: ptr) + of_nat i \<noteq> q + of_nat j"
proof
  assume a: "unat p + i < 2 ^ 32" "unat q + j < 2 ^ 32" "unat p + i \<noteq> unat q + j"
    and eq: "p + of_nat i = q + of_nat j"
  have "p + of_nat i = of_nat (unat p + i)" "q + of_nat j = of_nat (unat q + j)" by simp_all
  then have "unat (p + of_nat i) = unat p + i" "unat (q + of_nat j) = unat q + j"
    using a u32_of_nat_less by metis+
  with eq a show False by simp
qed

lemma separate_offsets:
  assumes "separate p n q n" "i < n" "j < n" "n \<le> 2 ^ 32"
  shows "p + of_nat i \<noteq> q + of_nat j"
proof
  assume "p + of_nat i = q + of_nat j"
  moreover have "in_region p n (p + of_nat i)" "in_region q n (q + of_nat j)"
    using assms by (auto simp: in_region_offset)
  ultimately show False using assms(1) by (auto simp: separate_def)
qed

section \<open>Byte lists in memory\<close>

primrec bytes_at :: "mem \<Rightarrow> ptr \<Rightarrow> u8 list \<Rightarrow> bool" where
  "bytes_at m p [] \<longleftrightarrow> True"
| "bytes_at m p (x # xs) \<longleftrightarrow> m p = x \<and> bytes_at m (p + 1) xs"

primrec load_bytes :: "mem \<Rightarrow> ptr \<Rightarrow> nat \<Rightarrow> u8 list" where
  "load_bytes m p 0 = []"
| "load_bytes m p (Suc n) = m p # load_bytes m (p + 1) n"

primrec store_bytes :: "mem \<Rightarrow> ptr \<Rightarrow> u8 list \<Rightarrow> mem" where
  "store_bytes m p [] = m"
| "store_bytes m p (x # xs) = store_bytes (m(p := x)) (p + 1) xs"

text \<open>A C string: its bytes, none of them NUL, followed by a NUL.\<close>

definition cstr_at :: "mem \<Rightarrow> ptr \<Rightarrow> u8 list \<Rightarrow> bool" where
  "cstr_at m p xs \<longleftrightarrow> bytes_at m p (xs @ [0]) \<and> 0 \<notin> set xs"

lemma load_bytes_numeral [simp]:
  "load_bytes m p (numeral k) = m p # load_bytes m (p + 1) (pred_numeral k)"
  by (simp add: numeral_eq_Suc)

lemma length_load_bytes [simp]: "length (load_bytes m p n) = n"
  by (induction n arbitrary: p) auto

lemma bytes_at_load [simp]: "bytes_at m p (load_bytes m p n)"
  by (induction n arbitrary: p) auto

lemma bytes_at_iff_load: "bytes_at m p xs \<longleftrightarrow> load_bytes m p (length xs) = xs"
  by (induction xs arbitrary: p) auto

lemma bytes_at_append:
  "bytes_at m p (xs @ ys) \<longleftrightarrow> bytes_at m p xs \<and> bytes_at m (p + of_nat (length xs)) ys"
  by (induction xs arbitrary: p) (auto simp: add.assoc add.commute)

lemma bytes_at_nth:
  "bytes_at m p xs \<longleftrightarrow> (\<forall>i<length xs. m (p + of_nat i) = xs ! i)"
proof (induction xs arbitrary: p)
  case (Cons x xs)
  have "(\<forall>i<length (x # xs). m (p + of_nat i) = (x # xs) ! i) \<longleftrightarrow>
      m p = x \<and> (\<forall>i<length xs. m (p + 1 + of_nat i) = xs ! i)"
    by (auto simp: All_less_Suc2 add.assoc)
  with Cons.IH show ?case by simp
qed simp

lemma nth_load_bytes: "i < n \<Longrightarrow> load_bytes m p n ! i = m (p + of_nat i)"
  using bytes_at_nth [of m p "load_bytes m p n"] by simp

lemma load_bytes_cong:
  "(\<And>a. in_region p n a \<Longrightarrow> m a = m' a) \<Longrightarrow> load_bytes m p n = load_bytes m' p n"
  by (induction n arbitrary: p) (auto simp: in_region_Suc)

lemma bytes_at_cong:
  "(\<And>a. in_region p (length xs) a \<Longrightarrow> m a = m' a) \<Longrightarrow> bytes_at m p xs = bytes_at m' p xs"
  by (induction xs arbitrary: p) (auto simp: in_region_Suc)

lemma bytes_at_upd_other:
  "\<not> in_region p (length xs) a \<Longrightarrow> bytes_at (m(a := v)) p xs \<longleftrightarrow> bytes_at m p xs"
  by (rule bytes_at_cong) auto

lemma store_bytes_append:
  "store_bytes m p (xs @ ys) = store_bytes (store_bytes m p xs) (p + of_nat (length xs)) ys"
  by (induction xs arbitrary: m p) (auto simp: add.assoc add.commute)

lemma store_bytes_other [region_simps]:
  "\<not> in_region p (length xs) a \<Longrightarrow> store_bytes m p xs a = m a"
  by (induction xs arbitrary: m p) (auto simp: in_region_Suc)

lemma not_in_region_tail: "n < 2 ^ 32 \<Longrightarrow> \<not> in_region (p + 1) n (p :: ptr)"
proof -
  assume n: "n < 2 ^ 32"
  have "p - (p + 1) = (- 1 :: u32)" by simp
  moreover have "unat (- 1 :: u32) = 2 ^ 32 - 1"
    by (simp add: unsigned_minus_1_eq_mask mask_eq_exp_minus_1)
  ultimately show ?thesis using n by (simp add: in_region_def)
qed

lemma bytes_at_store [simp]:
  "length xs \<le> 2 ^ 32 \<Longrightarrow> bytes_at (store_bytes m p xs) p xs"
proof (induction xs arbitrary: m p)
  case (Cons x xs)
  then have "length xs < 2 ^ 32" by simp
  then have "store_bytes (m(p := x)) (p + 1) xs p = x"
    by (simp add: store_bytes_other not_in_region_tail)
  with Cons show ?case by simp
qed simp

lemma load_store_bytes:
  "length xs \<le> 2 ^ 32 \<Longrightarrow> load_bytes (store_bytes m p xs) p (length xs) = xs"
  using bytes_at_store bytes_at_iff_load by blast

lemma store_bytes_nth:
  "length xs \<le> 2 ^ 32 \<Longrightarrow>
   store_bytes m p xs a = (if in_region p (length xs) a then xs ! unat (a - p) else m a)"
proof (cases "in_region p (length xs) a")
  case True
  assume "length xs \<le> 2 ^ 32"
  then have "\<forall>i<length xs. store_bytes m p xs (p + of_nat i) = xs ! i"
    using bytes_at_store bytes_at_nth by blast
  moreover have "unat (a - p) < length xs" using True by (simp add: in_region_def)
  ultimately have "store_bytes m p xs (p + of_nat (unat (a - p))) = xs ! unat (a - p)" by blast
  then show ?thesis using True by simp
qed (simp add: store_bytes_other)

lemma store_bytes_upd_other:
  "\<not> in_region p (length xs) a \<Longrightarrow> store_bytes (m(a := v)) p xs = (store_bytes m p xs)(a := v)"
proof (induction xs arbitrary: m p)
  case (Cons x xs)
  then have "a \<noteq> p" and "\<not> in_region (p + 1) (length xs) a" by (auto simp: in_region_Suc)
  then show ?case using Cons.IH [of "p + 1" "m(p := x)"] fun_upd_twist [of a p m v x]
    by (simp del: fun_upd_apply)
qed simp

lemma load_bytes_upd_other:
  "\<not> in_region p n a \<Longrightarrow> load_bytes (m(a := v)) p n = load_bytes m p n"
  by (rule load_bytes_cong) auto

lemma load_bytes_snoc: "load_bytes m p (Suc n) = load_bytes m p n @ [m (p + of_nat n)]"
proof (induction n arbitrary: p)
  case (Suc n)
  show ?case using Suc.IH [of "p + 1"] by (simp add: add.assoc)
qed simp

lemma cstr_at_Nil [simp]: "cstr_at m p [] \<longleftrightarrow> m p = 0"
  by (simp add: cstr_at_def)

lemma cstr_at_Cons [simp]:
  "cstr_at m p (x # xs) \<longleftrightarrow> m p = x \<and> x \<noteq> 0 \<and> cstr_at m (p + 1) xs"
  by (auto simp: cstr_at_def)

lemma cstr_at_cong:
  "(\<And>a. in_region p (Suc (length xs)) a \<Longrightarrow> m a = m' a) \<Longrightarrow> cstr_at m p xs = cstr_at m' p xs"
  using bytes_at_cong [of p "xs @ [0]" m m'] by (simp add: cstr_at_def)

lemma cstr_at_upd_other:
  "\<not> in_region p (Suc (length xs)) a \<Longrightarrow> cstr_at (m(a := v)) p xs \<longleftrightarrow> cstr_at m p xs"
  by (rule cstr_at_cong) auto

lemma cstr_at_unique: "cstr_at m p xs \<Longrightarrow> cstr_at m p ys \<Longrightarrow> xs = ys"
proof (induction xs arbitrary: p ys)
  case Nil
  then show ?case by (cases ys) auto
next
  case (Cons x xs)
  then show ?case by (cases ys) auto
qed

text \<open>A string literal of the C source, as the bytes the compiler lays out before the NUL.\<close>

definition lit :: "string \<Rightarrow> u8 list" where
  "lit s = map of_char s"

end
