(* ===== verification/Ctype.thy ===== *)
theory Ctype
  imports Prelude
begin

text \<open>
  Character classes of the bare-metal C library: the table \<open>_ctype[]\<close> of
  \<open>no-os/stdio/lib/ctype.c\<close> and the classification and case-conversion macros of
  \<open>no-os/stdio/include/ctype.h\<close>.  The lemmas replace the table lookup by ranges of bytes, which is
  the form the number and string routines use.
\<close>

section \<open>The class table\<close>

definition ct_U :: u8 where "ct_U = 0x01"
definition ct_L :: u8 where "ct_L = 0x02"
definition ct_D :: u8 where "ct_D = 0x04"
definition ct_C :: u8 where "ct_C = 0x08"
definition ct_P :: u8 where "ct_P = 0x10"
definition ct_S :: u8 where "ct_S = 0x20"
definition ct_X :: u8 where "ct_X = 0x40"
definition ct_SP :: u8 where "ct_SP = 0x80"

lemmas ct_mask_defs = ct_U_def ct_L_def ct_D_def ct_C_def ct_P_def ct_S_def ct_X_def ct_SP_def

definition ctype_table :: "u8 list" where
  "ctype_table =
    [ct_C, ct_C, ct_C, ct_C, ct_C, ct_C, ct_C, ct_C,
     ct_C, ct_C OR ct_S, ct_C OR ct_S, ct_C OR ct_S, ct_C OR ct_S, ct_C OR ct_S, ct_C, ct_C,
     ct_C, ct_C, ct_C, ct_C, ct_C, ct_C, ct_C, ct_C,
     ct_C, ct_C, ct_C, ct_C, ct_C, ct_C, ct_C, ct_C,
     ct_S OR ct_SP, ct_P, ct_P, ct_P, ct_P, ct_P, ct_P, ct_P,
     ct_P, ct_P, ct_P, ct_P, ct_P, ct_P, ct_P, ct_P,
     ct_D, ct_D, ct_D, ct_D, ct_D, ct_D, ct_D, ct_D,
     ct_D, ct_D, ct_P, ct_P, ct_P, ct_P, ct_P, ct_P,
     ct_P, ct_U OR ct_X, ct_U OR ct_X, ct_U OR ct_X, ct_U OR ct_X, ct_U OR ct_X, ct_U OR ct_X, ct_U,
     ct_U, ct_U, ct_U, ct_U, ct_U, ct_U, ct_U, ct_U,
     ct_U, ct_U, ct_U, ct_U, ct_U, ct_U, ct_U, ct_U,
     ct_U, ct_U, ct_U, ct_P, ct_P, ct_P, ct_P, ct_P,
     ct_P, ct_L OR ct_X, ct_L OR ct_X, ct_L OR ct_X, ct_L OR ct_X, ct_L OR ct_X, ct_L OR ct_X, ct_L,
     ct_L, ct_L, ct_L, ct_L, ct_L, ct_L, ct_L, ct_L,
     ct_L, ct_L, ct_L, ct_L, ct_L, ct_L, ct_L, ct_L,
     ct_L, ct_L, ct_L, ct_P, ct_P, ct_P, ct_P, ct_C,
     0, 0, 0, 0, 0, 0, 0, 0, 0, 0, 0, 0, 0, 0, 0, 0,
     0, 0, 0, 0, 0, 0, 0, 0, 0, 0, 0, 0, 0, 0, 0, 0,
     ct_S OR ct_SP, ct_P, ct_P, ct_P, ct_P, ct_P, ct_P, ct_P,
     ct_P, ct_P, ct_P, ct_P, ct_P, ct_P, ct_P, ct_P,
     ct_P, ct_P, ct_P, ct_P, ct_P, ct_P, ct_P, ct_P,
     ct_P, ct_P, ct_P, ct_P, ct_P, ct_P, ct_P, ct_P,
     ct_U, ct_U, ct_U, ct_U, ct_U, ct_U, ct_U, ct_U,
     ct_U, ct_U, ct_U, ct_U, ct_U, ct_U, ct_U, ct_U,
     ct_U, ct_U, ct_U, ct_U, ct_U, ct_U, ct_U, ct_P,
     ct_U, ct_U, ct_U, ct_U, ct_U, ct_U, ct_U, ct_L,
     ct_L, ct_L, ct_L, ct_L, ct_L, ct_L, ct_L, ct_L,
     ct_L, ct_L, ct_L, ct_L, ct_L, ct_L, ct_L, ct_L,
     ct_L, ct_L, ct_L, ct_L, ct_L, ct_L, ct_L, ct_P,
     ct_L, ct_L, ct_L, ct_L, ct_L, ct_L, ct_L, ct_L]"

definition ismask :: "u8 \<Rightarrow> u8" where
  "ismask c = ctype_table ! unat c"

definition isalnum :: "u8 \<Rightarrow> bool" where
  "isalnum c \<longleftrightarrow> ismask c AND (ct_U OR ct_L OR ct_D) \<noteq> 0"

definition isalpha :: "u8 \<Rightarrow> bool" where
  "isalpha c \<longleftrightarrow> ismask c AND (ct_U OR ct_L) \<noteq> 0"

definition iscntrl :: "u8 \<Rightarrow> bool" where
  "iscntrl c \<longleftrightarrow> ismask c AND ct_C \<noteq> 0"

definition isdigit :: "u8 \<Rightarrow> bool" where
  "isdigit c \<longleftrightarrow> ismask c AND ct_D \<noteq> 0"

definition isgraph :: "u8 \<Rightarrow> bool" where
  "isgraph c \<longleftrightarrow> ismask c AND (ct_P OR ct_U OR ct_L OR ct_D) \<noteq> 0"

definition islower :: "u8 \<Rightarrow> bool" where
  "islower c \<longleftrightarrow> ismask c AND ct_L \<noteq> 0"

definition isprint :: "u8 \<Rightarrow> bool" where
  "isprint c \<longleftrightarrow> ismask c AND (ct_P OR ct_U OR ct_L OR ct_D OR ct_SP) \<noteq> 0"

definition ispunct :: "u8 \<Rightarrow> bool" where
  "ispunct c \<longleftrightarrow> ismask c AND ct_P \<noteq> 0"

definition isspace :: "u8 \<Rightarrow> bool" where
  "isspace c \<longleftrightarrow> ismask c AND ct_S \<noteq> 0"

definition isupper :: "u8 \<Rightarrow> bool" where
  "isupper c \<longleftrightarrow> ismask c AND ct_U \<noteq> 0"

definition isxdigit :: "u8 \<Rightarrow> bool" where
  "isxdigit c \<longleftrightarrow> ismask c AND (ct_D OR ct_X) \<noteq> 0"

definition isascii :: "u8 \<Rightarrow> bool" where
  "isascii c \<longleftrightarrow> c \<le> 0x7f"

definition toascii :: "u8 \<Rightarrow> u8" where
  "toascii c = c AND 0x7f"

text \<open>\<open>c -= 'A'-'a'\<close> and \<open>c -= 'a'-'A'\<close> on an unsigned char.\<close>

definition tolower :: "u8 \<Rightarrow> u8" where
  "tolower c = (if isupper c then c - (65 - 97) else c)"

definition toupper :: "u8 \<Rightarrow> u8" where
  "toupper c = (if islower c then c - (97 - 65) else c)"

section \<open>The classes as ranges\<close>

text \<open>
  Every byte is one of 256 values, so that a decidable claim about a byte and its class is settled by
  one run over the table.
\<close>

lemma length_ctype_table: "length ctype_table = 256"
  by (simp add: ctype_table_def)

lemma all_classes:
  assumes "list_all (\<lambda>(n, k). P (of_nat n) k) (zip [0..<256] ctype_table)"
  shows "P (c :: u8) (ismask c)"
proof -
  have "unat c < 256" using unsigned_less [of c] by simp
  then have "zip [0..<256] ctype_table ! unat c = (unat c, ismask c)"
    and "unat c < length (zip [0..<256] ctype_table)"
    by (simp_all add: length_ctype_table ismask_def)
  then have "(unat c, ismask c) \<in> set (zip [0..<256] ctype_table)"
    by (metis nth_mem)
  then have "P (of_nat (unat c)) (ismask c)" using assms unfolding list_all_iff by blast
  then show ?thesis by simp
qed

lemma isdigit_range: "isdigit c \<longleftrightarrow> 48 \<le> c \<and> c \<le> 57"
  unfolding isdigit_def by (rule all_classes [where c = c]) code_simp

lemma isupper_ascii: "c \<le> 127 \<Longrightarrow> isupper c \<longleftrightarrow> 65 \<le> c \<and> c \<le> 90"
proof -
  have "c \<le> 127 \<longrightarrow> (ismask c AND ct_U \<noteq> 0) = (65 \<le> c \<and> c \<le> 90)"
    by (rule all_classes [where c = c]) code_simp
  then show "c \<le> 127 \<Longrightarrow> isupper c \<longleftrightarrow> 65 \<le> c \<and> c \<le> 90" by (simp add: isupper_def)
qed

lemma islower_ascii: "c \<le> 127 \<Longrightarrow> islower c \<longleftrightarrow> 97 \<le> c \<and> c \<le> 122"
proof -
  have "c \<le> 127 \<longrightarrow> (ismask c AND ct_L \<noteq> 0) = (97 \<le> c \<and> c \<le> 122)"
    by (rule all_classes [where c = c]) code_simp
  then show "c \<le> 127 \<Longrightarrow> islower c \<longleftrightarrow> 97 \<le> c \<and> c \<le> 122" by (simp add: islower_def)
qed

lemma isspace_range: "isspace c \<longleftrightarrow> 9 \<le> c \<and> c \<le> 13 \<or> c = 32 \<or> c = 160"
  unfolding isspace_def by (rule all_classes [where c = c]) code_simp

lemma isxdigit_range:
  "isxdigit c \<longleftrightarrow> 48 \<le> c \<and> c \<le> 57 \<or> 65 \<le> c \<and> c \<le> 70 \<or> 97 \<le> c \<and> c \<le> 102"
  unfolding isxdigit_def by (rule all_classes [where c = c]) code_simp

lemma class_of_NUL [simp]:
  "\<not> isdigit 0" "\<not> isxdigit 0" "\<not> isspace 0"
  by (simp_all add: isdigit_range isxdigit_range isspace_range)

end
