(* ===== verification/CString.thy ===== *)
theory CString
  imports Ctype
begin

text \<open>
  The string and memory routines of \<open>no-os/stdio/lib/string.c\<close> over the byte memory of
  \<open>Prelude\<close>.  A loop that stops only at a NUL is a \<open>partial_function (option)\<close>: \<^const>\<open>None\<close> is a
  loop that runs forever, and the theorems that follow show the result it returns on strings.  A loop
  bounded by \<open>count\<close> recurses on the number of iterations left.  A routine that writes returns the new
  memory beside the C result.
\<close>

section \<open>Comparison without case\<close>

text \<open>
  The \<open>do ... while (--len)\<close> of \<open>strnicmp\<close>; the last argument holds \<open>c1\<close> and \<open>c2\<close>, which keep the
  values of the last round when the length is used up.
\<close>

fun strnicmp_loop :: "mem \<Rightarrow> nat \<Rightarrow> ptr \<Rightarrow> ptr \<Rightarrow> u8 \<times> u8 \<Rightarrow> u8 \<times> u8" where
  "strnicmp_loop m 0 s1 s2 cc = cc"
| "strnicmp_loop m (Suc len) s1 s2 cc =
     (let c1 = m s1; c2 = m s2; s1' = s1 + 1; s2' = s2 + 1 in
      if c1 = 0 then (c1, c2)
      else if c2 = 0 then (c1, c2)
      else if c1 = c2 then strnicmp_loop m len s1' s2' (c1, c2)
      else let c1' = tolower c1; c2' = tolower c2 in
        if c1' \<noteq> c2' then (c1', c2')
        else strnicmp_loop m len s1' s2' (c1', c2'))"

definition strnicmp :: "mem \<Rightarrow> ptr \<Rightarrow> ptr \<Rightarrow> u32 \<Rightarrow> s32" where
  "strnicmp m s1 s2 len =
     (let (c1, c2) = (if len \<noteq> 0 then strnicmp_loop m (unat len) s1 s2 (0, 0) else (0, 0))
      in ucast c1 - ucast c2)"

section \<open>Copying strings\<close>

partial_function (option) strcpy_loop :: "mem \<Rightarrow> ptr \<Rightarrow> ptr \<Rightarrow> mem option" where
  "strcpy_loop m dest src =
     (let c = m src; m' = m(dest := c) in
      if c \<noteq> 0 then strcpy_loop m' (dest + 1) (src + 1) else Some m')"

definition strcpy :: "mem \<Rightarrow> ptr \<Rightarrow> ptr \<Rightarrow> (mem \<times> ptr) option" where
  "strcpy m dest src = do { m' \<leftarrow> strcpy_loop m dest src; Some (m', dest) }"

fun strncpy_loop :: "mem \<Rightarrow> ptr \<Rightarrow> ptr \<Rightarrow> nat \<Rightarrow> mem" where
  "strncpy_loop m dest src 0 = m"
| "strncpy_loop m dest src (Suc count) =
     (let c = m src; m' = m(dest := c) in
      if c \<noteq> 0 then strncpy_loop m' (dest + 1) (src + 1) count else m')"

definition strncpy :: "mem \<Rightarrow> ptr \<Rightarrow> ptr \<Rightarrow> u32 \<Rightarrow> mem \<times> ptr" where
  "strncpy m dest src count = (strncpy_loop m dest src (unat count), dest)"

text \<open>\<open>while (*dest) dest++;\<close> of \<open>strcat\<close> and \<open>strncat\<close>.\<close>

partial_function (option) skip_to_nul :: "mem \<Rightarrow> ptr \<Rightarrow> ptr option" where
  "skip_to_nul m dest = (if m dest \<noteq> 0 then skip_to_nul m (dest + 1) else Some dest)"

definition strcat :: "mem \<Rightarrow> ptr \<Rightarrow> ptr \<Rightarrow> (mem \<times> ptr) option" where
  "strcat m dest src = do {
     d \<leftarrow> skip_to_nul m dest;
     m' \<leftarrow> strcpy_loop m d src;
     Some (m', dest) }"

partial_function (option) strncat_loop :: "mem \<Rightarrow> ptr \<Rightarrow> ptr \<Rightarrow> u32 \<Rightarrow> mem option" where
  "strncat_loop m dest src count =
     (let c = m src; m' = m(dest := c); dest' = dest + 1; src' = src + 1 in
      if c \<noteq> 0 then
        (let count' = count - 1 in
         if count' = 0 then Some (m'(dest' := 0)) else strncat_loop m' dest' src' count')
      else Some m')"

definition strncat :: "mem \<Rightarrow> ptr \<Rightarrow> ptr \<Rightarrow> u32 \<Rightarrow> (mem \<times> ptr) option" where
  "strncat m dest src count =
     (if count \<noteq> 0 then do {
        d \<leftarrow> skip_to_nul m dest;
        m' \<leftarrow> strncat_loop m d src count;
        Some (m', dest) }
      else Some (m, dest))"

section \<open>Comparing strings\<close>

text \<open>
  \<open>__res\<close> is a \<open>signed char\<close>: the difference of two bytes is cut to eight bits before it is tested
  and returned, and the return sign-extends it.
\<close>

partial_function (option) strcmp_loop :: "mem \<Rightarrow> ptr \<Rightarrow> ptr \<Rightarrow> u8 option" where
  "strcmp_loop m cs ct =
     (let res = m cs - m ct in
      if res \<noteq> 0 \<or> m cs = 0 then Some res else strcmp_loop m (cs + 1) (ct + 1))"

definition strcmp :: "mem \<Rightarrow> ptr \<Rightarrow> ptr \<Rightarrow> s32 option" where
  "strcmp m cs ct = do { res \<leftarrow> strcmp_loop m cs ct; Some (scast res) }"

fun strncmp_loop :: "mem \<Rightarrow> ptr \<Rightarrow> ptr \<Rightarrow> nat \<Rightarrow> u8 \<Rightarrow> u8" where
  "strncmp_loop m cs ct 0 res = res"
| "strncmp_loop m cs ct (Suc count) res =
     (let res' = m cs - m ct in
      if res' \<noteq> 0 \<or> m cs = 0 then res' else strncmp_loop m (cs + 1) (ct + 1) count res')"

definition strncmp :: "mem \<Rightarrow> ptr \<Rightarrow> ptr \<Rightarrow> u32 \<Rightarrow> s32" where
  "strncmp m cs ct count = scast (strncmp_loop m cs ct (unat count) 0)"

section \<open>Searching strings\<close>

partial_function (option) strchr :: "mem \<Rightarrow> ptr \<Rightarrow> s32 \<Rightarrow> ptr option" where
  "strchr m s c =
     (if m s \<noteq> ucast c then (if m s = 0 then Some NULL else strchr m (s + 1) c) else Some s)"

partial_function (option) strlen_loop :: "mem \<Rightarrow> ptr \<Rightarrow> ptr option" where
  "strlen_loop m sc = (if m sc \<noteq> 0 then strlen_loop m (sc + 1) else Some sc)"

definition strlen :: "mem \<Rightarrow> ptr \<Rightarrow> u32 option" where
  "strlen m s = do { sc \<leftarrow> strlen_loop m s; Some (sc - s) }"

partial_function (option) strrchr_loop :: "mem \<Rightarrow> ptr \<Rightarrow> s32 \<Rightarrow> ptr \<Rightarrow> ptr option" where
  "strrchr_loop m s c p =
     (if m p = ucast c then Some p
      else let p' = p - 1 in if p' \<ge> s then strrchr_loop m s c p' else Some NULL)"

definition strrchr :: "mem \<Rightarrow> ptr \<Rightarrow> s32 \<Rightarrow> ptr option" where
  "strrchr m s c = do { n \<leftarrow> strlen m s; strrchr_loop m s c (s + n) }"

fun strnlen_loop :: "mem \<Rightarrow> ptr \<Rightarrow> nat \<Rightarrow> ptr" where
  "strnlen_loop m sc 0 = sc"
| "strnlen_loop m sc (Suc count) = (if m sc \<noteq> 0 then strnlen_loop m (sc + 1) count else sc)"

definition strnlen :: "mem \<Rightarrow> ptr \<Rightarrow> u32 \<Rightarrow> u32" where
  "strnlen m s count = strnlen_loop m s (unat count) - s"

text \<open>
  The inner loop of \<open>strspn\<close> and \<open>strpbrk\<close>: it stops at the first byte of the set that equals \<open>c\<close>,
  or at the NUL that ends the set.
\<close>

partial_function (option) find_char :: "mem \<Rightarrow> u8 \<Rightarrow> ptr \<Rightarrow> ptr option" where
  "find_char m c a = (if m a \<noteq> 0 then (if c = m a then Some a else find_char m c (a + 1)) else Some a)"

partial_function (option) strspn_loop :: "mem \<Rightarrow> ptr \<Rightarrow> ptr \<Rightarrow> u32 \<Rightarrow> u32 option" where
  "strspn_loop m p accept count =
     (if m p \<noteq> 0 then do {
        a \<leftarrow> find_char m (m p) accept;
        if m a = 0 then Some count else strspn_loop m (p + 1) accept (count + 1) }
      else Some count)"

definition strspn :: "mem \<Rightarrow> ptr \<Rightarrow> ptr \<Rightarrow> u32 option" where
  "strspn m s accept = strspn_loop m s accept 0"

partial_function (option) strpbrk :: "mem \<Rightarrow> ptr \<Rightarrow> ptr \<Rightarrow> ptr option" where
  "strpbrk m sc1 ct =
     (if m sc1 \<noteq> 0 then do {
        a \<leftarrow> find_char m (m sc1) ct;
        if m a \<noteq> 0 then Some sc1 else strpbrk m (sc1 + 1) ct }
      else Some NULL)"

section \<open>Tokens\<close>

text \<open>
  \<open>strtok\<close> keeps its position in the global \<open>___strtok\<close>, here the argument \<open>saved\<close>; the result is the
  memory, the new \<open>___strtok\<close> and the token.  \<open>strsep\<close> gets the variable it advances by reference,
  here the argument \<open>s\<close>; its new value is the second component.
\<close>

definition strtok :: "mem \<Rightarrow> ptr \<Rightarrow> ptr \<Rightarrow> ptr \<Rightarrow> (mem \<times> ptr \<times> ptr) option" where
  "strtok m saved s ct =
     (let sbegin = (if s \<noteq> NULL then s else saved) in
      if sbegin = NULL then Some (m, saved, NULL)
      else do {
        n \<leftarrow> strspn m sbegin ct;
        let sbegin = sbegin + n;
        if m sbegin = 0 then Some (m, NULL, NULL)
        else do {
          send \<leftarrow> strpbrk m sbegin ct;
          if send \<noteq> NULL \<and> m send \<noteq> 0 then Some (m(send := 0), send + 1, sbegin)
          else Some (m, send, sbegin) } })"

definition strsep :: "mem \<Rightarrow> ptr \<Rightarrow> ptr \<Rightarrow> (mem \<times> ptr \<times> ptr) option" where
  "strsep m s ct =
     (let sbegin = s in
      if sbegin = NULL then Some (m, s, NULL)
      else do {
        e \<leftarrow> strpbrk m sbegin ct;
        if e \<noteq> NULL then Some (m(e := 0), e + 1, sbegin) else Some (m, e, sbegin) })"

section \<open>Memory areas\<close>

fun memset_loop :: "mem \<Rightarrow> ptr \<Rightarrow> s32 \<Rightarrow> nat \<Rightarrow> mem" where
  "memset_loop m xs c 0 = m"
| "memset_loop m xs c (Suc count) = memset_loop (m(xs := ucast c)) (xs + 1) c count"

definition memset :: "mem \<Rightarrow> ptr \<Rightarrow> s32 \<Rightarrow> u32 \<Rightarrow> mem \<times> ptr" where
  "memset m s c count = (memset_loop m s c (unat count), s)"

text \<open>\<open>while (count--) *tmp++ = *s++;\<close>, the loop of \<open>bcopy\<close>, \<open>memcpy\<close> and the upward \<open>memmove\<close>.\<close>

fun copy_up :: "mem \<Rightarrow> ptr \<Rightarrow> ptr \<Rightarrow> nat \<Rightarrow> mem" where
  "copy_up m tmp s 0 = m"
| "copy_up m tmp s (Suc count) = copy_up (m(tmp := m s)) (tmp + 1) (s + 1) count"

fun copy_down :: "mem \<Rightarrow> ptr \<Rightarrow> ptr \<Rightarrow> nat \<Rightarrow> mem" where
  "copy_down m tmp s 0 = m"
| "copy_down m tmp s (Suc count) = copy_down (m(tmp - 1 := m (s - 1))) (tmp - 1) (s - 1) count"

definition bcopy :: "mem \<Rightarrow> ptr \<Rightarrow> ptr \<Rightarrow> u32 \<Rightarrow> mem" where
  "bcopy m src dest count = copy_up m dest src (unat count)"

definition memcpy :: "mem \<Rightarrow> ptr \<Rightarrow> ptr \<Rightarrow> u32 \<Rightarrow> mem \<times> ptr" where
  "memcpy m dest src count = (copy_up m dest src (unat count), dest)"

definition memmove :: "mem \<Rightarrow> ptr \<Rightarrow> ptr \<Rightarrow> u32 \<Rightarrow> mem \<times> ptr" where
  "memmove m dest src count =
     (if dest \<le> src then (copy_up m dest src (unat count), dest)
      else (copy_down m (dest + count) (src + count) (unat count), dest))"

fun memcmp_loop :: "mem \<Rightarrow> ptr \<Rightarrow> ptr \<Rightarrow> nat \<Rightarrow> s32 \<Rightarrow> s32" where
  "memcmp_loop m su1 su2 0 res = res"
| "memcmp_loop m su1 su2 (Suc count) res =
     (let res' = ucast (m su1) - ucast (m su2) in
      if res' \<noteq> 0 then res' else memcmp_loop m (su1 + 1) (su2 + 1) count res')"

definition memcmp :: "mem \<Rightarrow> ptr \<Rightarrow> ptr \<Rightarrow> u32 \<Rightarrow> s32" where
  "memcmp m cs ct count = memcmp_loop m cs ct (unat count) 0"

fun memscan_loop :: "mem \<Rightarrow> ptr \<Rightarrow> s32 \<Rightarrow> nat \<Rightarrow> ptr" where
  "memscan_loop m p c 0 = p"
| "memscan_loop m p c (Suc sz) = (if ucast (m p) = c then p else memscan_loop m (p + 1) c sz)"

definition memscan :: "mem \<Rightarrow> ptr \<Rightarrow> s32 \<Rightarrow> u32 \<Rightarrow> ptr" where
  "memscan m addr c sz = memscan_loop m addr c (unat sz)"

text \<open>\<open>l1\<close> and \<open>l2\<close> are \<open>int\<close>, and \<open>memcmp\<close> takes \<open>l2\<close> back to \<open>size_t\<close>.\<close>

partial_function (option) strstr_loop :: "mem \<Rightarrow> ptr \<Rightarrow> ptr \<Rightarrow> s32 \<Rightarrow> s32 \<Rightarrow> ptr option" where
  "strstr_loop m s1 s2 l1 l2 =
     (if l2 \<le>s l1 then
        (let l1' = l1 - 1 in
         if memcmp m s1 s2 l2 = 0 then Some s1 else strstr_loop m (s1 + 1) s2 l1' l2)
      else Some NULL)"

definition strstr :: "mem \<Rightarrow> ptr \<Rightarrow> ptr \<Rightarrow> ptr option" where
  "strstr m s1 s2 = do {
     l2 \<leftarrow> strlen m s2;
     if l2 = 0 then Some s1
     else do { l1 \<leftarrow> strlen m s1; strstr_loop m s1 s2 l1 l2 } }"

fun memchr_loop :: "mem \<Rightarrow> ptr \<Rightarrow> s32 \<Rightarrow> nat \<Rightarrow> ptr" where
  "memchr_loop m p c 0 = NULL"
| "memchr_loop m p c (Suc n) =
     (let b = m p; p' = p + 1 in if ucast c = b then p' - 1 else memchr_loop m p' c n)"

definition memchr :: "mem \<Rightarrow> ptr \<Rightarrow> s32 \<Rightarrow> u32 \<Rightarrow> ptr" where
  "memchr m s c n = memchr_loop m s c (unat n)"

section \<open>Lengths and copies of strings\<close>

lemma strlen_loop_cstr: "cstr_at m p xs \<Longrightarrow> strlen_loop m p = Some (p + of_nat (length xs))"
proof (induction xs arbitrary: p)
  case Nil
  then show ?case by (simp add: strlen_loop.simps)
next
  case (Cons x xs)
  then show ?case by (simp add: strlen_loop.simps [of m p] add.assoc)
qed

lemma skip_to_nul_strlen_loop: "cstr_at m p xs \<Longrightarrow> skip_to_nul m p = Some (p + of_nat (length xs))"
proof (induction xs arbitrary: p)
  case Nil
  then show ?case by (simp add: skip_to_nul.simps)
next
  case (Cons x xs)
  then show ?case by (simp add: skip_to_nul.simps [of m p] add.assoc)
qed

lemma strlen_cstr [loop_simps]: "cstr_at m p xs \<Longrightarrow> strlen m p = Some (of_nat (length xs))"
  by (simp add: strlen_def strlen_loop_cstr)

lemma strnlen_loop_cstr:
  "cstr_at m p xs \<Longrightarrow> strnlen_loop m p n = p + of_nat (min (length xs) n)"
proof (induction n arbitrary: p xs)
  case (Suc n)
  then show ?case by (cases xs) (auto simp: add.assoc)
qed simp

lemma strnlen_cstr [loop_simps]:
  "cstr_at m p xs \<Longrightarrow> strnlen m p count = of_nat (min (length xs) (unat count))"
  by (simp add: strnlen_def strnlen_loop_cstr)

lemma strcpy_loop_cstr:
  "cstr_at m src xs \<Longrightarrow> separate dest (Suc (length xs)) src (Suc (length xs)) \<Longrightarrow>
   strcpy_loop m dest src = Some (store_bytes m dest (xs @ [0]))"
proof (induction xs arbitrary: m dest src)
  case Nil
  then show ?case by (simp add: strcpy_loop.simps [of m] Let_def fun_upd_def)
next
  case (Cons x xs)
  have tail: "separate (dest + 1) (Suc (length xs)) (src + 1) (Suc (length xs))"
    using Cons.prems(2) by (simp add: separate_Suc_tail)
  have "\<not> in_region (src + 1) (Suc (length xs)) dest"
    using Cons.prems(2) by (auto simp: separate_def in_region_Suc)
  then have "cstr_at (m(dest := x)) (src + 1) xs"
    using Cons.prems(1) by (simp add: cstr_at_upd_other)
  with Cons.IH tail
  have "strcpy_loop (m(dest := x)) (dest + 1) (src + 1) = Some (store_bytes (m(dest := x)) (dest + 1) (xs @ [0]))"
    by blast
  then show ?case using Cons.prems(1) by (simp add: strcpy_loop.simps [of m dest] Let_def)
qed

section \<open>Copies of memory areas\<close>

lemma copy_up_store:
  assumes "\<And>i j. i < j \<Longrightarrow> j < n \<Longrightarrow> dest + of_nat i \<noteq> src + of_nat j" and "n \<le> 2 ^ 32"
  shows "copy_up m dest src n = store_bytes m dest (load_bytes m src n)"
  using assms
proof (induction n arbitrary: m dest src)
  case (Suc n)
  have "\<not> in_region (src + 1) n dest"
  proof
    assume "in_region (src + 1) n dest"
    then obtain j where "j < n" "dest = src + 1 + of_nat j" by (auto simp: in_region_ex)
    then show False using Suc.prems(1) [of 0 "Suc j"] by simp
  qed
  moreover have "copy_up (m(dest := m src)) (dest + 1) (src + 1) n =
      store_bytes (m(dest := m src)) (dest + 1) (load_bytes (m(dest := m src)) (src + 1) n)"
  proof (rule Suc.IH)
    fix i j assume "i < j" "j < n"
    then show "dest + 1 + of_nat i \<noteq> src + 1 + of_nat j"
      using Suc.prems(1) [of "Suc i" "Suc j"] by (simp add: add.assoc)
  qed (use Suc.prems in simp)
  ultimately show ?case by (simp add: load_bytes_upd_other)
qed simp

lemma copy_down_store:
  assumes "\<And>i j. j < i \<Longrightarrow> i < n \<Longrightarrow> dest + of_nat i \<noteq> src + of_nat j" and "n \<le> 2 ^ 32"
  shows "copy_down m (dest + of_nat n) (src + of_nat n) n = store_bytes m dest (load_bytes m src n)"
  using assms
proof (induction n arbitrary: m)
  case (Suc n)
  let ?m = "m(dest + of_nat n := m (src + of_nat n))"
  have frame: "\<not> in_region src n (dest + of_nat n)"
  proof
    assume "in_region src n (dest + of_nat n)"
    then obtain j where "j < n" "dest + of_nat n = src + of_nat j" by (auto simp: in_region_ex)
    then show False using Suc.prems(1) [of j n] by simp
  qed
  have out: "\<not> in_region dest n (dest + of_nat n)"
    using Suc.prems(2) by (simp add: in_region_offset)
  have "copy_down m (dest + of_nat (Suc n)) (src + of_nat (Suc n)) (Suc n) =
      copy_down ?m (dest + of_nat n) (src + of_nat n) n"
    by (simp add: add.assoc)
  also have "\<dots> = store_bytes ?m dest (load_bytes ?m src n)"
    by (rule Suc.IH) (use Suc.prems in auto)
  also have "\<dots> = (store_bytes m dest (load_bytes m src n))(dest + of_nat n := m (src + of_nat n))"
    using frame out by (simp add: load_bytes_upd_other store_bytes_upd_other)
  also have "\<dots> = store_bytes m dest (load_bytes m src (Suc n))"
    unfolding load_bytes_snoc by (simp add: store_bytes_append)
  finally show ?case .
qed simp

lemma memmove_store:
  assumes "unat src + unat count \<le> 2 ^ 32" and "unat dest + unat count \<le> 2 ^ 32"
  shows "memmove m dest src count = (store_bytes m dest (load_bytes m src (unat count)), dest)"
proof (cases "dest \<le> src")
  case True
  then have "unat dest \<le> unat src" by (simp add: word_le_nat_alt)
  then have "copy_up m dest src (unat count) = store_bytes m dest (load_bytes m src (unat count))"
    using assms by (intro copy_up_store offset_neq) auto
  with True show ?thesis by (simp add: memmove_def)
next
  case False
  then have "unat src < unat dest" by (simp add: word_le_nat_alt)
  then have "copy_down m (dest + of_nat (unat count)) (src + of_nat (unat count)) (unat count) =
      store_bytes m dest (load_bytes m src (unat count))"
    using assms by (intro copy_down_store offset_neq) auto
  with False show ?thesis by (simp add: memmove_def)
qed

lemma memcpy_store:
  assumes "separate dest (unat count) src (unat count)"
  shows "memcpy m dest src count = (store_bytes m dest (load_bytes m src (unat count)), dest)"
proof -
  have "unat count \<le> 2 ^ 32" using unat_u32_less [of count] by simp
  with assms have "copy_up m dest src (unat count) = store_bytes m dest (load_bytes m src (unat count))"
    by (intro copy_up_store separate_offsets [OF assms]) auto
  then show ?thesis by (simp add: memcpy_def)
qed

lemma memset_loop_store: "memset_loop m s c n = store_bytes m s (replicate n (ucast c))"
  by (induction n arbitrary: m s) auto

lemma memcmp_loop_zero:
  "memcmp_loop m p q n 0 = 0 \<longleftrightarrow> load_bytes m p n = load_bytes m q n"
proof (induction n arbitrary: p q)
  case (Suc n)
  have "(ucast (m p) :: s32) - ucast (m q) = 0 \<longleftrightarrow> m p = m q"
    by (simp add: ucast_up_eq)
  then show ?case using Suc.IH by (auto simp: Let_def)
qed simp


section \<open>Comparison\<close>

text \<open>Reference: the first difference, taken modulo 256, of two byte strings closed by NUL.\<close>

fun byte_diff :: "u8 list \<Rightarrow> u8 list \<Rightarrow> u8" where
  "byte_diff [] [] = 0"
| "byte_diff [] (y # ys) = 0 - y"
| "byte_diff (x # xs) [] = x"
| "byte_diff (x # xs) (y # ys) = (if x = y then byte_diff xs ys else x - y)"

lemma strcmp_loop_cstr:
  "cstr_at m p xs \<Longrightarrow> cstr_at m q ys \<Longrightarrow> strcmp_loop m p q = Some (byte_diff xs ys)"
proof (induction xs ys arbitrary: p q rule: byte_diff.induct)
  case (4 x xs y ys)
  then show ?case by (simp add: strcmp_loop.simps [of m p])
qed (simp_all add: strcmp_loop.simps [of m])

lemma byte_diff_eq_0: "0 \<notin> set xs \<Longrightarrow> 0 \<notin> set ys \<Longrightarrow> byte_diff xs ys = 0 \<longleftrightarrow> xs = ys"
  by (induction xs ys rule: byte_diff.induct) auto

lemma byte_diff_ascii_sign:
  assumes "\<forall>b\<in>set xs \<union> set ys. b < 128" "0 \<notin> set xs" "0 \<notin> set ys"
  shows "sint (byte_diff xs ys) < 0 \<longleftrightarrow> ord_class.lexordp xs ys"
  using assms
proof (induction xs ys rule: byte_diff.induct)
  case (2 y ys)
  then show ?case using sint_diff_ascii [of 0 y] by (simp add: uint_pos_iff)
next
  case (3 x xs)
  then show ?case using sint_u8_ascii [of x] by simp
next
  case (4 x xs y ys)
  then show ?case using sint_diff_ascii [of x y] by (auto simp: word_less_def word_uint_eq_iff)
qed simp

section \<open>Bounded copies, searches and tokens\<close>

lemma strncpy_loop_cstr:
  "cstr_at m src xs \<Longrightarrow> separate dest (Suc (length xs)) src (Suc (length xs)) \<Longrightarrow>
   strncpy_loop m dest src n = store_bytes m dest (take n (xs @ [0]))"
proof (induction n arbitrary: m dest src xs)
  case (Suc n)
  show ?case
  proof (cases xs)
    case Nil
    with Suc.prems show ?thesis by (simp add: Let_def fun_upd_def)
  next
    case (Cons x ys)
    have "\<not> in_region (src + 1) (Suc (length ys)) dest"
      using Suc.prems(2) Cons by (auto simp: separate_def in_region_Suc)
    then have "cstr_at (m(dest := x)) (src + 1) ys"
      using Suc.prems(1) Cons by (simp add: cstr_at_upd_other)
    moreover have "separate (dest + 1) (Suc (length ys)) (src + 1) (Suc (length ys))"
      using Suc.prems(2) Cons by (simp add: separate_Suc_tail)
    ultimately have "strncpy_loop (m(dest := x)) (dest + 1) (src + 1) n =
        store_bytes (m(dest := x)) (dest + 1) (take n (ys @ [0]))"
      by (rule Suc.IH)
    then show ?thesis using Suc.prems(1) Cons by (simp add: Let_def)
  qed
qed simp

text \<open>\<open>strncat\<close> copies at most \<open>count\<close> bytes and always closes the result with a NUL.\<close>

lemma strncat_loop_cstr:
  "cstr_at m src xs \<Longrightarrow> separate dest (Suc (length xs)) src (Suc (length xs)) \<Longrightarrow> count \<noteq> 0 \<Longrightarrow>
   strncat_loop m dest src count = Some (store_bytes m dest (take (unat count) xs @ [0]))"
proof (induction xs arbitrary: m dest src count)
  case Nil
  then show ?case by (simp add: strncat_loop.simps [of m] Let_def fun_upd_def)
next
  case (Cons x xs)
  let ?m = "m(dest := x)"
  have tail: "separate (dest + 1) (Suc (length xs)) (src + 1) (Suc (length xs))"
    using Cons.prems(2) by (simp add: separate_Suc_tail)
  have "\<not> in_region (src + 1) (Suc (length xs)) dest"
    using Cons.prems(2) by (auto simp: separate_def in_region_Suc)
  then have str: "cstr_at ?m (src + 1) xs"
    using Cons.prems(1) by (simp add: cstr_at_upd_other)
  have step: "strncat_loop m dest src count =
      (if count - 1 = 0 then Some (?m(dest + 1 := 0)) else strncat_loop ?m (dest + 1) (src + 1) (count - 1))"
    using Cons.prems(1) by (simp add: strncat_loop.simps [of m dest] Let_def)
  show ?case
  proof (cases "count - 1 = 0")
    case True
    then have "unat count = 1" by (simp add: eq_iff_diff_eq_0 [symmetric])
    then show ?thesis using True step by (simp add: fun_upd_def)
  next
    case False
    have "unat count = Suc (unat (count - 1))"
      using Cons.prems(3) by (simp add: unat_minus_one unat_gt_0)
    then show ?thesis using False step Cons.IH [OF str tail False] by (simp del: fun_upd_apply)
  qed
qed

lemma strncmp_loop_cstr:
  "cstr_at m p xs \<Longrightarrow> cstr_at m q ys \<Longrightarrow> strncmp_loop m p q n 0 = byte_diff (take n xs) (take n ys)"
proof (induction n arbitrary: p q xs ys)
  case (Suc n)
  then show ?case by (cases xs; cases ys) (auto simp: Let_def)
qed simp

lemma strchr_cstr_found:
  "cstr_at m s (xs @ ucast c # ys) \<Longrightarrow> ucast c \<notin> set xs \<Longrightarrow> strchr m s c = Some (s + of_nat (length xs))"
proof (induction xs arbitrary: s)
  case (Cons x xs)
  then show ?case by (auto simp: strchr.simps [of m s] add.assoc)
qed (simp add: strchr.simps)

lemma strchr_cstr_missing:
  "cstr_at m s xs \<Longrightarrow> ucast c \<notin> set xs \<Longrightarrow>
   strchr m s c = Some (if (ucast c :: u8) = 0 then s + of_nat (length xs) else NULL)"
proof (induction xs arbitrary: s)
  case (Cons x xs)
  then show ?case by (auto simp: strchr.simps [of m s] add.assoc)
qed (simp add: strchr.simps)

text \<open>The inner loop of \<open>strspn\<close> and \<open>strpbrk\<close> decides membership in the set string.\<close>

lemma find_char_cstr:
  "cstr_at m a ks \<Longrightarrow> c \<noteq> 0 \<Longrightarrow> \<exists>b. find_char m c a = Some b \<and> (m b \<noteq> 0 \<longleftrightarrow> c \<in> set ks)"
proof (induction ks arbitrary: a)
  case (Cons k ks)
  then show ?case by (auto simp: find_char.simps [of m c a])
qed (simp add: find_char.simps)

lemma strspn_loop_cstr:
  "cstr_at m s xs \<Longrightarrow> cstr_at m a ks \<Longrightarrow>
   strspn_loop m s a n = Some (n + of_nat (length (takeWhile (\<lambda>c. c \<in> set ks) xs)))"
proof (induction xs arbitrary: s n)
  case (Cons x xs)
  then obtain b where "find_char m x a = Some b" "m b \<noteq> 0 \<longleftrightarrow> x \<in> set ks"
    using find_char_cstr [of m a ks x] by auto
  with Cons show ?case by (auto simp: strspn_loop.simps [of m s] add.assoc)
qed (simp add: strspn_loop.simps)

lemma strspn_cstr [loop_simps]:
  "cstr_at m s xs \<Longrightarrow> cstr_at m a ks \<Longrightarrow>
   strspn m s a = Some (of_nat (length (takeWhile (\<lambda>c. c \<in> set ks) xs)))"
  by (simp add: strspn_def strspn_loop_cstr)

lemma strpbrk_cstr [loop_simps]:
  "cstr_at m s xs \<Longrightarrow> cstr_at m a ks \<Longrightarrow>
   strpbrk m s a =
     Some (if \<exists>c\<in>set xs. c \<in> set ks
           then s + of_nat (length (takeWhile (\<lambda>c. c \<notin> set ks) xs)) else NULL)"
proof (induction xs arbitrary: s)
  case (Cons x xs)
  then obtain b where "find_char m x a = Some b" "m b \<noteq> 0 \<longleftrightarrow> x \<in> set ks"
    using find_char_cstr [of m a ks x] by auto
  with Cons show ?case by (auto simp: strpbrk.simps [of m s] add.assoc)
qed (simp add: strpbrk.simps)

lemma memscan_loop_first:
  "memscan_loop m p c n = p + of_nat (length (takeWhile (\<lambda>b. ucast b \<noteq> c) (load_bytes m p n)))"
  by (induction n arbitrary: p) (auto simp: add.assoc)

lemma memchr_loop_first:
  "memchr_loop m p c n =
     (if ucast c \<in> set (load_bytes m p n)
      then p + of_nat (length (takeWhile (\<lambda>b. b \<noteq> ucast c) (load_bytes m p n))) else NULL)"
  by (induction n arbitrary: p) (auto simp: Let_def add.assoc)

text \<open>
  Reference for \<open>strstr\<close>: the offset of the first occurrence of one list in another.
\<close>

fun find_sub :: "'a list \<Rightarrow> 'a list \<Rightarrow> nat option" where
  "find_sub ys [] = (if ys = [] then Some 0 else None)"
| "find_sub ys (x # xs) =
     (if take (length ys) (x # xs) = ys then Some 0 else map_option Suc (find_sub ys xs))"

lemma find_sub_short: "length xs < length ys \<Longrightarrow> find_sub ys xs = None"
proof (induction xs)
  case (Cons x xs)
  then have "length (take (length ys) (x # xs)) < length ys" by simp
  then have "take (length ys) (x # xs) \<noteq> ys" by (metis less_irrefl)
  with Cons show ?case by simp
qed auto

lemma load_bytes_take: "bytes_at m p xs \<Longrightarrow> n \<le> length xs \<Longrightarrow> load_bytes m p n = take n xs"
proof (induction n arbitrary: p xs)
  case (Suc n)
  then show ?case by (cases xs) auto
qed simp

lemma sle_of_nat:
  "a < 2 ^ 31 \<Longrightarrow> b < 2 ^ 31 \<Longrightarrow> (of_nat a :: s32) \<le>s of_nat b \<longleftrightarrow> a \<le> b"
  by (simp add: word_sle_eq signed_of_nat signed_take_bit_int_eq_self)

lemma strstr_loop_cstr:
  "cstr_at m s xs \<Longrightarrow> cstr_at m q ys \<Longrightarrow> ys \<noteq> [] \<Longrightarrow> length xs < 2 ^ 31 \<Longrightarrow> length ys < 2 ^ 31 \<Longrightarrow>
   strstr_loop m s q (of_nat (length xs)) (of_nat (length ys)) =
     Some (case find_sub ys xs of None \<Rightarrow> NULL | Some i \<Rightarrow> s + of_nat i)"
proof (induction xs arbitrary: s)
  case Nil
  then show ?case by (subst strstr_loop.simps) (simp add: sle_of_nat [of _ 0, simplified])
next
  case (Cons x xs)
  show ?case
  proof (cases "length ys \<le> length (x # xs)")
    case False
    then have "\<not> (of_nat (length ys) :: s32) \<le>s of_nat (length (x # xs))"
      using Cons.prems sle_of_nat by blast
    moreover have "find_sub ys (x # xs) = None" using False by (intro find_sub_short) simp
    ultimately show ?thesis by (subst strstr_loop.simps) simp
  next
    case True
    then have guard: "(of_nat (length ys) :: s32) \<le>s of_nat (length (x # xs))"
      using Cons.prems sle_of_nat by blast
    have len: "unat (of_nat (length ys) :: u32) = length ys"
      using Cons.prems(5) by (intro u32_of_nat_less) simp
    have "load_bytes m s (length ys) = take (length ys) (x # xs)"
      using load_bytes_take [of m s "x # xs" "length ys"] Cons.prems(1) True
      by (simp add: cstr_at_def bytes_at_append)
    moreover have "load_bytes m q (length ys) = ys"
      using load_bytes_take [of m q ys "length ys"] Cons.prems(2)
      by (simp add: cstr_at_def bytes_at_append)
    ultimately have "memcmp m s q (of_nat (length ys)) = 0 \<longleftrightarrow> take (length ys) (x # xs) = ys"
      by (simp add: memcmp_def memcmp_loop_zero len)
    moreover have "(of_nat (length (x # xs)) :: s32) - 1 = of_nat (length xs)" by simp
    moreover have "strstr_loop m (s + 1) q (of_nat (length xs)) (of_nat (length ys)) =
        Some (case find_sub ys xs of None \<Rightarrow> NULL | Some i \<Rightarrow> s + 1 + of_nat i)"
      using Cons by auto
    ultimately show ?thesis using guard
      by (subst strstr_loop.simps) (simp add: Let_def add.assoc split: option.split)
  qed
qed

lemma strrchr_loop_down:
  "bytes_at m s (xs @ [z]) \<Longrightarrow> unat s + length xs < 2 ^ 32 \<Longrightarrow> s \<noteq> 0 \<Longrightarrow>
   strrchr_loop m s c (s + of_nat (length xs)) =
     Some (if ucast c \<in> set (xs @ [z])
           then s + of_nat (length (xs @ [z]) - 1 - length (takeWhile (\<lambda>b. b \<noteq> ucast c) (rev (xs @ [z]))))
           else NULL)"
proof (induction xs arbitrary: z rule: rev_induct)
  case Nil
  have "\<not> s \<le> s - 1" using Nil.prems(3) unat_gt_0 [of s]
    by (simp add: word_le_nat_alt unat_minus_one not_le)
  with Nil show ?case by (subst strrchr_loop.simps) simp
next
  case (snoc y ys)
  have z: "m (s + of_nat (length (ys @ [y]))) = z" and init: "bytes_at m s (ys @ [y])"
    using snoc.prems(1) by (simp_all add: bytes_at_append add_ac)
  have step: "s + of_nat (length (ys @ [y])) - 1 = s + of_nat (length ys)" by simp
  have "s \<le> s + of_nat (length ys)"
  proof -
    have "unat (s + of_nat (length ys)) = unat s + length ys"
      using snoc.prems(2) u32_of_nat_less [of "unat s + length ys"] by simp
    then show ?thesis by (simp add: word_le_nat_alt)
  qed
  moreover have "strrchr_loop m s c (s + of_nat (length ys)) =
     Some (if ucast c \<in> set (ys @ [y])
           then s + of_nat (length (ys @ [y]) - 1 - length (takeWhile (\<lambda>b. b \<noteq> ucast c) (rev (ys @ [y]))))
           else NULL)"
    using snoc.IH [OF init] snoc.prems by simp
  ultimately show ?case using z step
    by (subst strrchr_loop.simps) (auto simp: Let_def)
qed


lemma strrchr_cstr:
  assumes "cstr_at m s xs" "unat s + length xs < 2 ^ 32" "s \<noteq> 0" "(ucast c :: u8) \<noteq> 0"
  shows "strrchr m s c = Some (if ucast c \<in> set xs
    then s + of_nat (length xs - 1 - length (takeWhile (\<lambda>b. b \<noteq> ucast c) (rev xs))) else NULL)"
proof -
  have "bytes_at m s (xs @ [0])" using assms(1) by (simp add: cstr_at_def)
  from strrchr_loop_down [OF this assms(2,3), of c] assms(1,4) show ?thesis
    by (auto simp: strrchr_def strlen_cstr)
qed

lemma strnicmp_loop_zero:
  assumes "cstr_at m p xs" "cstr_at m q ys" "fst cc = snd cc"
  shows "fst (strnicmp_loop m n p q cc) = snd (strnicmp_loop m n p q cc) \<longleftrightarrow>
    map tolower (take n xs) = map tolower (take n ys)"
  using assms
proof (induction n arbitrary: p q xs ys cc)
  case (Suc n)
  then show ?case by (cases xs; cases ys) (auto simp: Let_def)
qed simp

lemma strnicmp_zero:
  assumes "cstr_at m p xs" "cstr_at m q ys"
  shows "strnicmp m p q n = 0 \<longleftrightarrow> map tolower (take (unat n) xs) = map tolower (take (unat n) ys)"
proof (cases "n = 0")
  case False
  have "strnicmp m p q n = 0 \<longleftrightarrow>
      fst (strnicmp_loop m (unat n) p q (0, 0)) = snd (strnicmp_loop m (unat n) p q (0, 0))"
    using False by (simp add: strnicmp_def ucast_up_eq split: prod.split)
  also have "\<dots> \<longleftrightarrow> map tolower (take (unat n) xs) = map tolower (take (unat n) ys)"
    by (rule strnicmp_loop_zero [OF assms]) simp
  finally show ?thesis .
qed (simp add: strnicmp_def)

text \<open>
  One call of \<open>strsep\<close> on a string splits off the bytes before the first separator; the
  rest of the string starts after it.  Both are strings in the new memory.
\<close>

lemma cstr_at_cut:
  assumes "cstr_at m s (xs @ k # ys)" "length xs + length ys + 2 \<le> 2 ^ 32"
  shows "cstr_at (m(s + of_nat (length xs) := 0)) s xs"
    and "cstr_at (m(s + of_nat (length xs) := 0)) (s + of_nat (length xs) + 1) ys"
proof -
  let ?e = "s + of_nat (length xs)"
  have parts: "bytes_at m s xs" "bytes_at m (?e + 1) (ys @ [0])" "0 \<notin> set xs" "0 \<notin> set ys"
    using assms(1) by (auto simp: cstr_at_def bytes_at_append)
  have "\<not> in_region s (length xs) ?e" using assms(2) by (simp add: in_region_offset)
  then have "bytes_at (m(?e := 0)) s xs"
    using parts(1) by (simp add: bytes_at_upd_other)
  then show "cstr_at (m(?e := 0)) s xs" using parts by (simp add: cstr_at_def bytes_at_append)
  have "\<not> in_region (?e + 1) (Suc (length ys)) ?e"
    using assms(2) by (intro not_in_region_tail) simp
  then show "cstr_at (m(?e := 0)) (?e + 1) ys"
    using parts by (simp add: cstr_at_def bytes_at_upd_other)
qed

lemma strsep_cstr:
  assumes "cstr_at m s (xs @ k # ys)" "cstr_at m ct ks" "set xs \<inter> set ks = {}" "k \<in> set ks"
    "s \<noteq> NULL" "s + of_nat (length xs) \<noteq> NULL"
  shows "strsep m s ct =
    Some (m(s + of_nat (length xs) := 0), s + of_nat (length xs) + 1, s)"
proof -
  have "takeWhile (\<lambda>c. c \<notin> set ks) (xs @ k # ys) = xs"
    using assms(3,4) by (subst takeWhile_append2) auto
  then have "strpbrk m s ct = Some (s + of_nat (length xs))"
    using strpbrk_cstr [OF assms(1,2)] assms(4) by auto
  then show ?thesis using assms(5,6) by (simp add: strsep_def)
qed

lemma strsep_last:
  assumes "cstr_at m s xs" "cstr_at m ct ks" "set xs \<inter> set ks = {}" "s \<noteq> NULL"
  shows "strsep m s ct = Some (m, NULL, s)"
  using assms strpbrk_cstr [OF assms(1,2)] by (auto simp: strsep_def)


text \<open>
  Reference for \<open>strtok\<close>: the maximal runs of bytes outside the separator set.
\<close>

function tokens :: "u8 list \<Rightarrow> u8 list \<Rightarrow> u8 list list" where
  "tokens ks xs =
     (let ys = dropWhile (\<lambda>c. c \<in> set ks) xs in
      if ys = [] then []
      else takeWhile (\<lambda>c. c \<notin> set ks) ys # tokens ks (dropWhile (\<lambda>c. c \<notin> set ks) ys))"
  by pat_completeness auto
termination
proof (relation "measure (length \<circ> snd)")
  fix ks xs ys :: "u8 list"
  assume ys: "ys = dropWhile (\<lambda>c. c \<in> set ks) xs" and "ys \<noteq> []"
  then have "hd ys \<notin> set ks" using hd_dropWhile [of "\<lambda>c. c \<in> set ks" xs] by simp
  then have "length (dropWhile (\<lambda>c. c \<notin> set ks) ys) < length ys"
    using \<open>ys \<noteq> []\<close> by (cases ys) (auto simp: le_imp_less_Suc length_dropWhile_le)
  also have "\<dots> \<le> length xs" using ys by (simp add: length_dropWhile_le)
  finally show "((ks, dropWhile (\<lambda>c. c \<notin> set ks) ys), ks, xs) \<in> measure (length \<circ> snd)" by simp
qed simp

declare tokens.simps [simp del]

lemma cstr_at_drop:
  "cstr_at m s (xs @ ys) \<Longrightarrow> cstr_at m (s + of_nat (length xs)) ys"
  by (auto simp: cstr_at_def bytes_at_append)

lemma tokens_skip: "tokens ks (k # xs) = tokens ks xs" if "k \<in> set ks"
  using that by (simp add: tokens.simps [of ks "k # xs"] tokens.simps [of ks xs])

lemma takeWhile_exact:
  "(\<And>c. c \<in> set xs \<Longrightarrow> P c) \<Longrightarrow> ys = [] \<or> \<not> P (hd ys) \<Longrightarrow> takeWhile P (xs @ ys) = xs"
  by (induction xs) (auto simp: takeWhile_eq_Nil_iff)

lemma strtok_token:
  assumes str: "cstr_at m sb (pre @ t @ k # r)" and sep: "cstr_at m ct ks"
    and sb: "sb = (if s \<noteq> NULL then s else saved)" "sb \<noteq> NULL"
    and nowrap: "unat sb + length (pre @ t @ k # r) < 2 ^ 32"
    and pre: "set pre \<subseteq> set ks" and t: "set t \<inter> set ks = {}" "t \<noteq> []" and k: "k \<in> set ks"
  shows "strtok m saved s ct =
    Some (m(sb + of_nat (length pre + length t) := 0), sb + of_nat (length pre + length t) + 1,
      sb + of_nat (length pre))"
proof -
  let ?p = "sb + of_nat (length pre)" and ?e = "sb + of_nat (length pre + length t)"
  have ys: "cstr_at m ?p (t @ k # r)" by (rule cstr_at_drop [OF str])
  have e: "?p + of_nat (length t) = ?e" by (simp add: add.assoc)
  have "hd t \<notin> set ks" using t by (cases t) auto
  then have "takeWhile (\<lambda>c. c \<in> set ks) (pre @ t @ k # r) = pre"
    using pre t(2) by (intro takeWhile_exact) auto
  then have span: "strspn m sb ct = Some (of_nat (length pre))"
    using strspn_cstr [OF str sep] by simp
  have "takeWhile (\<lambda>c. c \<notin> set ks) (t @ k # r) = t"
    using t k by (intro takeWhile_exact) auto
  then have brk: "strpbrk m ?p ct = Some ?e"
    using strpbrk_cstr [OF ys sep] k e by simp
  have "m ?p \<noteq> 0" using ys t(2) by (cases t) auto
  moreover have "m ?e \<noteq> 0" using cstr_at_drop [OF ys] by (simp only: e cstr_at_Cons) simp
  moreover have "?e \<noteq> NULL"
  proof -
    have "unat ?e = unat sb + (length pre + length t)"
      using nowrap u32_of_nat_less [of "unat sb + (length pre + length t)"] by simp
    moreover have "0 < unat sb" using sb(2) by (simp add: unat_gt_0)
    ultimately have "unat ?e \<noteq> 0" by simp
    then show ?thesis by auto
  qed
  ultimately show ?thesis using span brk sb(2) unfolding strtok_def sb(1) [symmetric] Let_def
    by simp
qed

lemma strtok_last:
  assumes str: "cstr_at m sb (pre @ t)" and sep: "cstr_at m ct ks"
    and sb: "sb = (if s \<noteq> NULL then s else saved)" "sb \<noteq> NULL"
    and pre: "set pre \<subseteq> set ks" and t: "set t \<inter> set ks = {}"
  shows "strtok m saved s ct = Some (m, NULL, if t = [] then NULL else sb + of_nat (length pre))"
proof -
  let ?p = "sb + of_nat (length pre)"
  have ys: "cstr_at m ?p t" by (rule cstr_at_drop [OF str])
  have "takeWhile (\<lambda>c. c \<in> set ks) (pre @ t) = pre"
    using pre t by (intro takeWhile_exact) (auto simp: neq_Nil_conv)
  then have span: "strspn m sb ct = Some (of_nat (length pre))"
    using strspn_cstr [OF str sep] by simp
  have brk: "strpbrk m ?p ct = Some NULL" using strpbrk_cstr [OF ys sep] t by auto
  have "m ?p = 0 \<longleftrightarrow> t = []" using ys by (cases t) auto
  then show ?thesis using span brk sb(2) unfolding strtok_def sb(1) [symmetric] Let_def by simp
qed

text \<open>How a string decomposes at its first token.\<close>

lemma token_split:
  obtains (none) pre where "xs = pre" "set pre \<subseteq> set ks" "tokens ks xs = []"
  | (only) pre t where "xs = pre @ t" "set pre \<subseteq> set ks" "t \<noteq> []" "set t \<inter> set ks = {}"
      "tokens ks xs = [t]"
  | (more) pre t k r where "xs = pre @ t @ k # r" "set pre \<subseteq> set ks" "t \<noteq> []"
      "set t \<inter> set ks = {}" "k \<in> set ks" "tokens ks xs = t # tokens ks r"
proof -
  define pre where "pre = takeWhile (\<lambda>c. c \<in> set ks) xs"
  define ys where "ys = dropWhile (\<lambda>c. c \<in> set ks) xs"
  define t where "t = takeWhile (\<lambda>c. c \<notin> set ks) ys"
  define r where "r = dropWhile (\<lambda>c. c \<notin> set ks) ys"
  have xs: "xs = pre @ ys" "ys = t @ r" by (simp_all add: pre_def ys_def t_def r_def)
  have sets: "set pre \<subseteq> set ks" "set t \<inter> set ks = {}"
    by (auto simp: pre_def t_def dest: set_takeWhileD)
  have tok: "tokens ks xs = (if ys = [] then [] else t # tokens ks r)"
    by (subst tokens.simps) (simp add: Let_def ys_def t_def r_def)
  have t_ne: "t \<noteq> []" if "ys \<noteq> []"
    using that hd_dropWhile [of "\<lambda>c. c \<in> set ks" xs] by (simp add: t_def ys_def takeWhile_eq_Nil_iff)
  consider "ys = []" | "ys \<noteq> []" "r = []" | k r' where "ys \<noteq> []" "r = k # r'" by (cases r) auto
  then show thesis
  proof cases
    case 1
    then show thesis using none [of pre] xs sets tok by simp
  next
    case 2
    then show thesis using only [of pre t] xs sets tok t_ne tokens.simps [of ks "[]"] by simp
  next
    case 3
    then have "k \<in> set ks" using hd_dropWhile [of "\<lambda>c. c \<notin> set ks" ys] by (simp add: r_def)
    then show thesis using more [of pre t k r'] 3 xs sets tok t_ne tokens_skip by simp
  qed
qed

section \<open>Properties\<close>

text \<open>
  C13: \<open>memmove\<close> is correct on overlapping areas.  For any two areas that do not run over the end of the
  address space, the destination afterwards holds the bytes the source held before the call, every
  byte outside the destination keeps its value, and the call returns the destination.
\<close>

theorem memmove_correct:
  assumes "unat src + unat count \<le> 2 ^ 32" and "unat dest + unat count \<le> 2 ^ 32"
    and "memmove m dest src count = (m', r)"
  shows "load_bytes m' dest (unat count) = load_bytes m src (unat count) \<and>
    (\<forall>a. \<not> in_region dest (unat count) a \<longrightarrow> m' a = m a) \<and> r = dest"
proof -
  have m': "m' = store_bytes m dest (load_bytes m src (unat count))" and "r = dest"
    using assms(3) memmove_store [OF assms(1,2), of m] by auto
  moreover have "unat count \<le> 2 ^ 32" using unat_u32_less [of count] by simp
  ultimately show ?thesis
    using load_store_bytes [of "load_bytes m src (unat count)" m dest] by (simp add: store_bytes_other)
qed

theorem memmove_correct_witness:
  "load_bytes (fst (memmove (\<lambda>a. ucast a) 0x1002 0x1000 4)) 0x1002 4 = [0, 1, 2, 3]"
proof -
  obtain m' r where call: "memmove (\<lambda>a. ucast a) 0x1002 0x1000 4 = (m', r)"
    by (cases "memmove (\<lambda>a. ucast a) 0x1002 0x1000 4")
  have "load_bytes m' 0x1002 (unat (4 :: u32)) = load_bytes (\<lambda>a. ucast a) 0x1000 (unat (4 :: u32))"
    using memmove_correct [OF _ _ call] by simp
  then show ?thesis using call by simp
qed

text \<open>
  C24: successive calls of \<open>strtok\<close> yield the tokens of a string.  A call on a string (or, with a null
  first argument, on the saved position) returns the first maximal run of bytes that are not
  separators, as a NUL-terminated string, and saves a position whose string has exactly the
  remaining tokens; when no token is left it returns NULL.  The separator string stays intact.
\<close>

theorem strtok_tokens:
  assumes str: "cstr_at m sb xs" and sep: "cstr_at m ct ks"
    and sb: "sb = (if s \<noteq> NULL then s else saved)" "sb \<noteq> NULL"
    and nowrap: "unat sb + length xs < 2 ^ 32"
    and apart: "separate sb (Suc (length xs)) ct (Suc (length ks))"
  shows "case tokens ks xs of
      [] \<Rightarrow> strtok m saved s ct = Some (m, NULL, NULL)
    | t # ts \<Rightarrow> \<exists>m' sv p. strtok m saved s ct = Some (m', sv, p) \<and> cstr_at m' p t \<and> cstr_at m' ct ks \<and>
        (if sv = NULL then ts = [] else \<exists>ys. cstr_at m' sv ys \<and> tokens ks ys = ts)"
proof (cases rule: token_split [of xs ks])
  case (none pre)
  then show ?thesis using strtok_last [of m sb pre "[]" ct ks s saved] str sep sb by simp
next
  case (only pre t)
  then show ?thesis
    using strtok_last [of m sb pre t ct ks s saved] cstr_at_drop [of m sb pre t] str sep sb by simp
next
  case (more pre t k r)
  let ?e = "sb + of_nat (length pre + length t)"
  have call: "strtok m saved s ct = Some (m(?e := 0), ?e + 1, sb + of_nat (length pre))"
    using strtok_token [of m sb pre t k r ct ks s saved] str sep sb nowrap more by simp
  have "unat (?e + 1) = unat sb + (length pre + length t) + 1"
    using nowrap more u32_of_nat_less [of "unat sb + (length pre + length t) + 1"] by (simp add: add_ac)
  then have e1: "?e + 1 \<noteq> NULL" by (metis add_is_0 unat_0 zero_neq_one)
  have "cstr_at m (sb + of_nat (length pre)) (t @ k # r)"
    using cstr_at_drop [of m sb pre "t @ k # r"] str more by simp
  then have cut: "cstr_at (m(?e := 0)) (sb + of_nat (length pre)) t" "cstr_at (m(?e := 0)) (?e + 1) r"
    using cstr_at_cut [of m "sb + of_nat (length pre)" t k r] nowrap more by (simp_all add: add_ac)
  have "in_region sb (Suc (length xs)) ?e"
    using more nowrap by (subst in_region_offset) auto
  then have "cstr_at (m(?e := 0)) ct ks"
    using sep apart by (simp add: cstr_at_upd_other separate_def)
  then show ?thesis using call e1 cut more by auto
qed


theorem strtok_tokens_witness:
  "tokens [44] [97, 44, 98] = [[97], [98]] \<and>
   (\<exists>m' sv p. strtok (store_bytes (store_bytes (\<lambda>_. 0) 0x1000 [97, 44, 98, 0]) 0x2000 [44, 0])
        NULL 0x1000 0x2000 = Some (m', sv, p) \<and> cstr_at m' p [97])"
proof -
  let ?m = "store_bytes (store_bytes (\<lambda>_. 0) 0x1000 [97, 44, 98, 0]) 0x2000 [44, 0]"
  have tok: "tokens [44] [97, 44, 98] = [[97], [98]]"
    by (simp add: tokens.simps)
  have strs: "cstr_at ?m 0x1000 [97, 44, 98]" "cstr_at ?m 0x2000 [44]"
    by simp_all
  have apart: "separate 0x1000 (Suc (length [97, 44, 98 :: u8])) 0x2000 (Suc (length [44 :: u8]))"
    by (auto simp: separate_def in_region_Suc)
  have "0x1000 = (if (0x1000 :: ptr) \<noteq> NULL then 0x1000 else NULL)" by simp
  from strtok_tokens [OF strs this _ _ apart] tok show ?thesis by auto
qed

text \<open>
  \<open>strstr\<close> returns the first occurrence of a string in another, or NULL when there is none, for
  strings whose length fits an \<open>int\<close>.
\<close>

lemma strstr_first:
  assumes "cstr_at m s xs" "cstr_at m q ys" "length xs < 2 ^ 31" "length ys < 2 ^ 31"
  shows "strstr m s q = Some (case find_sub ys xs of None \<Rightarrow> NULL | Some i \<Rightarrow> s + of_nat i)"
proof (cases "ys = []")
  case True
  have "find_sub [] xs = Some 0" by (cases xs) auto
  with True show ?thesis using strlen_cstr [OF assms(2)] by (simp add: strstr_def)
next
  case False
  have "(of_nat (length ys) :: u32) \<noteq> 0"
    using False assms(4) u32_of_nat_less [of "length ys"] by auto
  then show ?thesis
    using False assms strstr_loop_cstr [OF assms(1,2) False assms(3,4)]
    by (simp add: strstr_def strlen_cstr)
qed

lemma strstr_first_witness:
  "strstr (store_bytes (store_bytes (\<lambda>_. 0) 0x1000 [97, 98, 99, 0]) 0x2000 [98, 99, 0]) 0x1000 0x2000
     = Some 0x1001"
proof -
  let ?m = "store_bytes (store_bytes (\<lambda>_. 0) 0x1000 [97, 98, 99, 0]) 0x2000 [98, 99, 0]"
  have "cstr_at ?m 0x1000 [97, 98, 99]" "cstr_at ?m 0x2000 [98, 99]" by simp_all
  from strstr_first [OF this] show ?thesis by simp
qed

text \<open>
  \<open>strcmp\<close> always returns on two strings, its result is zero exactly when the strings are equal,
  and on strings of 7-bit characters its sign is the lexicographic order.
\<close>

lemma strcmp_correct:
  assumes "cstr_at m cs xs" "cstr_at m ct ys"
  shows "\<exists>r. strcmp m cs ct = Some r \<and> (r = 0 \<longleftrightarrow> xs = ys) \<and>
    ((\<forall>b\<in>set xs \<union> set ys. b < 128) \<longrightarrow> (r <s 0 \<longleftrightarrow> ord_class.lexordp xs ys))"
proof -
  have "0 \<notin> set xs" "0 \<notin> set ys" using assms by (auto simp: cstr_at_def)
  then show ?thesis
    using strcmp_loop_cstr [OF assms] byte_diff_eq_0 byte_diff_ascii_sign
    by (auto simp: strcmp_def scast_eq_0_u8 word_sless_alt)
qed

lemma strcmp_correct_witness:
  "\<exists>r. strcmp (store_bytes (store_bytes (\<lambda>_. 0) 0x1000 [97, 98, 0]) 0x2000 [97, 99, 0]) 0x1000 0x2000
     = Some r \<and> r \<noteq> 0 \<and> r <s 0"
proof -
  let ?m = "store_bytes (store_bytes (\<lambda>_. 0) 0x1000 [97, 98, 0]) 0x2000 [97, 99, 0]"
  have "cstr_at ?m 0x1000 [97, 98]" "cstr_at ?m 0x2000 [97, 99]" by simp_all
  from strcmp_correct [OF this] show ?thesis by auto
qed

text \<open>
  Beyond 7-bit characters the result of \<open>strcmp\<close> has the wrong sign: the difference is cut to a
  signed char, so the string of the byte 255 compares less than the string of the byte 1.
\<close>

lemma strcmp_sign_wrong_beyond_ascii:
  "strcmp (store_bytes (store_bytes (\<lambda>_. 0) 0x1000 [255, 0]) 0x2000 [1, 0]) 0x1000 0x2000 = Some (- 2)
     \<and> ord_class.lexordp [1 :: u8] [255]"
  by (simp add: strcmp_def strcmp_loop.simps)

end
