(* ===== verification/Vsprintf.thy ===== *)
theory Vsprintf
  imports CString
begin

text \<open>
  Number parsing and formatted output of the bare-metal C library, \<open>no-os/stdio/lib/vsprintf.c\<close>, with
  the variable-argument macros of \<open>no-os/stdio/lib/vsprintf.h\<close>.

  Code that only reads takes a reader \<open>rd :: ptr \<rightharpoonup> u8\<close>.  The program runs it with the total reader
  \<open>reader m\<close> of its memory; the specification runs the same code with a partial reader, whose domain is
  the set of addresses the call is allowed to read.  Characters are written as their codes:
  32 is the space, 35 \<open>#\<close>, 37 \<open>%\<close>, 42 \<open>*\<close>, 43 \<open>+\<close>, 45 \<open>-\<close>, 46 \<open>.\<close> and 48 the digit 0.
\<close>

type_synonym reader = "ptr \<rightharpoonup> u8"

definition reader :: "mem \<Rightarrow> reader" where
  "reader m = (\<lambda>a. Some (m a))"

section \<open>Parsing numbers\<close>

text \<open>
  The base prefix: base 0 means decimal, octal after a \<open>0\<close>, hexadecimal after \<open>0x\<close> and a
  hexadecimal digit; base 16 skips a \<open>0x\<close>.
\<close>

definition strto_prefix :: "mem \<Rightarrow> ptr \<Rightarrow> u32 \<Rightarrow> u32 \<times> ptr" where
  "strto_prefix m cp base =
     (if base = 0 then
        (if m cp = 48 then
           (let cp = cp + 1 in
            if toupper (m cp) = 88 \<and> isxdigit (m (cp + 1)) then (16, cp + 1) else (8, cp))
         else (10, cp))
      else if base = 16 then
        (if m cp = 48 \<and> toupper (m (cp + 1)) = 88 then (16, cp + 2) else (16, cp))
      else (base, cp))"

definition strtoul_value :: "u8 \<Rightarrow> u32" where
  "strtoul_value c = (if isdigit c then ucast c - 48 else ucast (toupper c) - 65 + 10)"

partial_function (option) strtoul_loop :: "mem \<Rightarrow> ptr \<Rightarrow> u32 \<Rightarrow> u32 \<Rightarrow> (u32 \<times> ptr) option" where
  "strtoul_loop m cp base result =
     (if isxdigit (m cp) \<and> strtoul_value (m cp) < base
      then strtoul_loop m (cp + 1) base (result * base + strtoul_value (m cp))
      else Some (result, cp))"

text \<open>The result and the end pointer that the code stores through \<open>endp\<close> when that is not null.\<close>

definition simple_strtoul :: "mem \<Rightarrow> ptr \<Rightarrow> u32 \<Rightarrow> (u32 \<times> ptr) option" where
  "simple_strtoul m cp base =
     (let (base, cp) = strto_prefix m cp base in strtoul_loop m cp base 0)"

definition simple_strtol :: "mem \<Rightarrow> ptr \<Rightarrow> u32 \<Rightarrow> (s32 \<times> ptr) option" where
  "simple_strtol m cp base =
     (if m cp = 45 then do { (r, e) \<leftarrow> simple_strtoul m (cp + 1) base; Some (- r, e) }
      else simple_strtoul m cp base)"

definition strtoull_value :: "u8 \<Rightarrow> u64" where
  "strtoull_value c =
     (if isdigit c then ucast c - 48 else ucast (if islower c then toupper c else c) - 65 + 10)"

partial_function (option) strtoull_loop :: "mem \<Rightarrow> ptr \<Rightarrow> u32 \<Rightarrow> u64 \<Rightarrow> (u64 \<times> ptr) option" where
  "strtoull_loop m cp base result =
     (if isxdigit (m cp) \<and> strtoull_value (m cp) < ucast base
      then strtoull_loop m (cp + 1) base (result * ucast base + strtoull_value (m cp))
      else Some (result, cp))"

definition simple_strtoull :: "mem \<Rightarrow> ptr \<Rightarrow> u32 \<Rightarrow> (u64 \<times> ptr) option" where
  "simple_strtoull m cp base =
     (let (base, cp) = strto_prefix m cp base in strtoull_loop m cp base 0)"

definition simple_strtoll :: "mem \<Rightarrow> ptr \<Rightarrow> u32 \<Rightarrow> (u64 \<times> ptr) option" where
  "simple_strtoll m cp base =
     (if m cp = 45 then do { (r, e) \<leftarrow> simple_strtoull m (cp + 1) base; Some (- r, e) }
      else simple_strtoull m cp base)"

partial_function (option) skip_atoi_loop :: "reader \<Rightarrow> ptr \<Rightarrow> s32 \<Rightarrow> (s32 \<times> ptr) option" where
  "skip_atoi_loop rd s i = do {
     c \<leftarrow> rd s;
     if isdigit c then skip_atoi_loop rd (s + 1) (i * 10 + ucast c - 48) else Some (i, s) }"

definition skip_atoi :: "reader \<Rightarrow> ptr \<Rightarrow> (s32 \<times> ptr) option" where
  "skip_atoi rd s = skip_atoi_loop rd s 0"

section \<open>Variable arguments\<close>

text \<open>
  \<open>va_list\<close> is a pointer into the argument area; \<open>va_arg(ap, T)\<close> reads a \<open>T\<close> there and advances
  \<open>ap\<close> by the size of \<open>T\<close> rounded up to a word.
\<close>

definition load32 :: "reader \<Rightarrow> ptr \<Rightarrow> u32 option" where
  "load32 rd p = do {
     a \<leftarrow> rd p; b \<leftarrow> rd (p + 1); c \<leftarrow> rd (p + 2); d \<leftarrow> rd (p + 3);
     Some (ucast a + 0x100 * ucast b + 0x10000 * ucast c + 0x1000000 * ucast d) }"

definition store32 :: "mem \<Rightarrow> ptr \<Rightarrow> u32 \<Rightarrow> mem" where
  "store32 m p v =
     store_bytes m p [ucast v, ucast (drop_bit 8 v), ucast (drop_bit 16 v), ucast (drop_bit 24 v)]"

definition va_arg32 :: "reader \<Rightarrow> ptr \<Rightarrow> (u32 \<times> ptr) option" where
  "va_arg32 rd ap = do { v \<leftarrow> load32 rd ap; Some (v, ap + 4) }"

definition va_arg64 :: "reader \<Rightarrow> ptr \<Rightarrow> (u64 \<times> ptr) option" where
  "va_arg64 rd ap = do {
     lo \<leftarrow> load32 rd ap; hi \<leftarrow> load32 rd (ap + 4);
     Some (ucast lo + 0x100000000 * ucast hi, ap + 8) }"

section \<open>Printing a number\<close>

definition ZEROPAD :: s32 where "ZEROPAD = 1"
definition SIGN :: s32 where "SIGN = 2"
definition PLUS :: s32 where "PLUS = 4"
definition SPACE :: s32 where "SPACE = 8"
definition LEFT :: s32 where "LEFT = 16"
definition SPECIAL :: s32 where "SPECIAL = 32"
definition LARGE :: s32 where "LARGE = 64"

lemmas flag_defs = ZEROPAD_def SIGN_def PLUS_def SPACE_def LEFT_def SPECIAL_def LARGE_def

definition has_flag :: "s32 \<Rightarrow> s32 \<Rightarrow> bool" where
  "has_flag ty f \<longleftrightarrow> ty AND f \<noteq> 0"

definition small_digits :: "u8 list" where
  "small_digits = lit ''0123456789abcdefghijklmnopqrstuvwxyz''"

definition large_digits :: "u8 list" where
  "large_digits = lit ''0123456789ABCDEFGHIJKLMNOPQRSTUVWXYZ''"

text \<open>\<open>if (buf <= end) *buf = c; ++buf;\<close>\<close>

definition emit :: "mem \<Rightarrow> ptr \<Rightarrow> ptr \<Rightarrow> u8 \<Rightarrow> mem \<times> ptr" where
  "emit m e buf c = (if buf \<le> e then m(buf := c) else m, buf + 1)"

primrec emit_list :: "mem \<Rightarrow> ptr \<Rightarrow> ptr \<Rightarrow> u8 list \<Rightarrow> mem \<times> ptr" where
  "emit_list m e buf [] = (m, buf)"
| "emit_list m e buf (c # cs) = (let (m', buf') = emit m e buf c in emit_list m' e buf' cs)"

text \<open>\<open>while (size-- > 0) { emit c }\<close>, with the value it leaves in \<open>size\<close>.\<close>

function pad_loop :: "mem \<Rightarrow> ptr \<Rightarrow> ptr \<Rightarrow> u8 \<Rightarrow> s32 \<Rightarrow> mem \<times> ptr \<times> s32" where
  "pad_loop m e buf c sz =
     (if 0 <s sz then (let (m', buf') = emit m e buf c in pad_loop m' e buf' c (sz - 1))
      else (m, buf, sz - 1))"
  by pat_completeness auto
termination
  by (relation "measure (\<lambda>(m, e, buf, c, sz). nat (sint sz))")
    (auto simp: word_sless_alt sint_minus_one_s32)

text \<open>\<open>while (i < n--) { emit c }\<close>, with the value it leaves in \<open>n\<close>.\<close>

function fill_loop :: "mem \<Rightarrow> ptr \<Rightarrow> ptr \<Rightarrow> u8 \<Rightarrow> s32 \<Rightarrow> s32 \<Rightarrow> mem \<times> ptr \<times> s32" where
  "fill_loop m e buf c i n =
     (if i <s n then (let (m', buf') = emit m e buf c in fill_loop m' e buf' c i (n - 1))
      else (m, buf, n - 1))"
  by pat_completeness auto
termination
  by (relation "measure (\<lambda>(m, e, buf, c, i, n). nat (sint n - sint i))")
    (auto simp: word_sless_alt sint_dec_above)

text \<open>\<open>while (--n > 0) { emit c }\<close>, with the value it leaves in \<open>n\<close>.\<close>

function predec_loop :: "mem \<Rightarrow> ptr \<Rightarrow> ptr \<Rightarrow> u8 \<Rightarrow> s32 \<Rightarrow> mem \<times> ptr \<times> s32" where
  "predec_loop m e buf c n =
     (let n' = n - 1 in
      if 0 <s n' then (let (m', buf') = emit m e buf c in predec_loop m' e buf' c n')
      else (m, buf, n'))"
  by pat_completeness auto
termination
proof (relation "measure (\<lambda>(m, e, buf, c, n). nat (sint (n - 1)))", goal_cases)
  case (2 m e buf c n x y m' b)
  then show ?case using sint_minus_one_s32 [of "n - 1"] by (simp add: word_sless_alt)
qed simp

declare pad_loop.simps [simp del] fill_loop.simps [simp del] predec_loop.simps [simp del]

text \<open>
  \<open>do_div(num, base)\<close> leaves the quotient in \<open>num\<close> and yields the remainder; \<open>tmp\<close> collects the
  digits from the least significant one, \<open>i\<close> is its length.
\<close>

partial_function (option) digit_loop :: "u8 list \<Rightarrow> u64 \<Rightarrow> u64 \<Rightarrow> u8 list \<Rightarrow> u8 list option" where
  "digit_loop digits num base tmp =
     (if num \<noteq> 0 then digit_loop digits (num div base) base (tmp @ [digits ! unat (num mod base)])
      else Some tmp)"

definition number ::
  "mem \<Rightarrow> ptr \<Rightarrow> ptr \<Rightarrow> u64 \<Rightarrow> s32 \<Rightarrow> s32 \<Rightarrow> s32 \<Rightarrow> s32 \<Rightarrow> (mem \<times> ptr) option" where
  "number m buf e num base sz precision ty =
     (let digits = (if has_flag ty LARGE then large_digits else small_digits);
          ty = (if has_flag ty LEFT then ty AND NOT ZEROPAD else ty) in
      if base <s 2 \<or> 36 <s base then Some (m, NULL)
      else let c = (if has_flag ty ZEROPAD then 48 else 32);
          (sign, num, sz) =
            (if has_flag ty SIGN then
               (if num <s 0 then (45, - num, sz - 1)
                else if has_flag ty PLUS then (43, num, sz - 1)
                else if has_flag ty SPACE then (32, num, sz - 1)
                else (0, num, sz))
             else (0, num, sz));
          sz = (if has_flag ty SPECIAL then
                  (if base = 16 then sz - 2 else if base = 8 then sz - 1 else sz)
                else sz)
      in do {
        tmp \<leftarrow> (if num = 0 then Some [48] else digit_loop digits num (ucast base) []);
        let i = of_nat (length tmp);
        let precision = (if precision <s i then i else precision);
        let sz = sz - precision;
        let (m, buf, sz) =
          (if \<not> has_flag ty (ZEROPAD + LEFT) then pad_loop m e buf 32 sz else (m, buf, sz));
        let (m, buf) = (if sign \<noteq> 0 then emit m e buf sign else (m, buf));
        let (m, buf) =
          (if has_flag ty SPECIAL then
             (if base = 8 then emit m e buf 48
              else if base = 16 then
                (let (m, buf) = emit m e buf 48 in emit m e buf (digits ! 33))
              else (m, buf))
           else (m, buf));
        let (m, buf, sz) = (if \<not> has_flag ty LEFT then pad_loop m e buf c sz else (m, buf, sz));
        let (m, buf, _) = fill_loop m e buf 48 i precision;
        let (m, buf) = emit_list m e buf (rev tmp);
        let (m, buf, _) = pad_loop m e buf 32 sz;
        Some (m, buf) })"

section \<open>Formatted output\<close>

text \<open>The flags: each character of \<open>-+ #0\<close> after the \<open>%\<close> sets one and \<open>goto repeat\<close>.\<close>

partial_function (option) vsn_flags :: "reader \<Rightarrow> ptr \<Rightarrow> s32 \<Rightarrow> (s32 \<times> ptr) option" where
  "vsn_flags rd fmt flags = do {
     let fmt = fmt + 1;
     c \<leftarrow> rd fmt;
     if c = 45 then vsn_flags rd fmt (flags OR LEFT)
     else if c = 43 then vsn_flags rd fmt (flags OR PLUS)
     else if c = 32 then vsn_flags rd fmt (flags OR SPACE)
     else if c = 35 then vsn_flags rd fmt (flags OR SPECIAL)
     else if c = 48 then vsn_flags rd fmt (flags OR ZEROPAD)
     else Some (flags, fmt) }"

text \<open>What the front of a conversion sets up before the conversion character is looked at.\<close>

record vsn_spec =
  v_flags :: s32
  field_width :: s32
  v_precision :: s32
  qualifier :: s32

definition vsn_width :: "reader \<Rightarrow> ptr \<Rightarrow> ptr \<Rightarrow> s32 \<Rightarrow> (s32 \<times> s32 \<times> ptr \<times> ptr) option" where
  "vsn_width rd fmt args flags = do {
     c \<leftarrow> rd fmt;
     if isdigit c then do { (w, fmt) \<leftarrow> skip_atoi rd fmt; Some (w, flags, fmt, args) }
     else if c = 42 then do {
       let fmt = fmt + 1;
       (w, args) \<leftarrow> va_arg32 rd args;
       if w <s 0 then Some (- w, flags OR LEFT, fmt, args) else Some (w, flags, fmt, args) }
     else Some (- 1, flags, fmt, args) }"

definition vsn_precision :: "reader \<Rightarrow> ptr \<Rightarrow> ptr \<Rightarrow> (s32 \<times> ptr \<times> ptr) option" where
  "vsn_precision rd fmt args = do {
     c \<leftarrow> rd fmt;
     if c = 46 then do {
       let fmt = fmt + 1;
       c \<leftarrow> rd fmt;
       (p, fmt, args) \<leftarrow>
         (if isdigit c then do { (p, fmt) \<leftarrow> skip_atoi rd fmt; Some (p, fmt, args) }
          else if c = 42 then do {
            let fmt = fmt + 1; (p, args) \<leftarrow> va_arg32 rd args; Some (p, fmt, args) }
          else Some (- 1, fmt, args));
       Some (if p <s 0 then 0 else p, fmt, args) }
     else Some (- 1, fmt, args) }"

definition vsn_qualifier :: "reader \<Rightarrow> ptr \<Rightarrow> (s32 \<times> ptr) option" where
  "vsn_qualifier rd fmt = do {
     c \<leftarrow> rd fmt;
     if c = 104 \<or> c = 108 \<or> c = 76 \<or> c = 90 \<or> c = 122 then do {
       let fmt = fmt + 1;
       if c = 108 then do {
         c2 \<leftarrow> rd fmt;
         if c2 = 108 then Some (76, fmt + 1) else Some (ucast c, fmt) }
       else Some (ucast c, fmt) }
     else Some (- 1, fmt) }"

definition vsn_front :: "reader \<Rightarrow> ptr \<Rightarrow> ptr \<Rightarrow> (vsn_spec \<times> ptr \<times> ptr) option" where
  "vsn_front rd fmt args = do {
     (flags, fmt) \<leftarrow> vsn_flags rd fmt 0;
     (w, flags, fmt, args) \<leftarrow> vsn_width rd fmt args flags;
     (p, fmt, args) \<leftarrow> vsn_precision rd fmt args;
     (q, fmt) \<leftarrow> vsn_qualifier rd fmt;
     Some (\<lparr> v_flags = flags, field_width = w, v_precision = p, qualifier = q \<rparr>, fmt, args) }"

text \<open>The integer argument, widened to the 64-bit \<open>num\<close> as the qualifier and the sign flag say.\<close>

definition vsn_int_arg :: "reader \<Rightarrow> s32 \<Rightarrow> s32 \<Rightarrow> ptr \<Rightarrow> (u64 \<times> ptr) option" where
  "vsn_int_arg rd q flags args =
     (if q = 76 then va_arg64 rd args
      else do {
        (v, args) \<leftarrow> va_arg32 rd args;
        if q = 108 then Some (if has_flag flags SIGN then scast v else ucast v, args)
        else if q = 90 \<or> q = 122 then Some (ucast v, args)
        else if q = 104 then
          Some (if has_flag flags SIGN then scast (ucast v :: u16) else ucast (ucast v :: u16), args)
        else Some (if has_flag flags SIGN then scast v else ucast v, args) })"

text \<open>\<open>for (i = 0; i < len; ++i) { emit *s; ++s; }\<close>; the string is read while the output is written.\<close>

primrec emit_from :: "mem \<Rightarrow> ptr \<Rightarrow> ptr \<Rightarrow> ptr \<Rightarrow> nat \<Rightarrow> mem \<times> ptr" where
  "emit_from m e str s 0 = (m, str)"
| "emit_from m e str s (Suc n) = (let (m', str') = emit m e str (m s) in emit_from m' e str' (s + 1) n)"

text \<open>
  \<open>%c\<close> reads its argument after it has written the padding in front of it.  \<open>%s\<close> replaces a pointer
  into the first 1024 bytes by the literal \<open><NULL>\<close>, which lies in no memory the program writes.
\<close>

definition vsn_char ::
  "mem \<Rightarrow> ptr \<Rightarrow> ptr \<Rightarrow> vsn_spec \<Rightarrow> ptr \<Rightarrow> (mem \<times> ptr \<times> ptr) option" where
  "vsn_char m e str sp args = do {
     let (m, str, w) =
       (if \<not> has_flag (v_flags sp) LEFT then predec_loop m e str 32 (field_width sp)
        else (m, str, field_width sp));
     (v, args) \<leftarrow> va_arg32 (reader m) args;
     let (m, str) = emit m e str (ucast v);
     let (m, str, _) = predec_loop m e str 32 w;
     Some (m, str, args) }"

definition null_text :: "u8 list" where
  "null_text = lit ''<NULL>''"

definition vsn_string ::
  "mem \<Rightarrow> ptr \<Rightarrow> ptr \<Rightarrow> vsn_spec \<Rightarrow> ptr \<Rightarrow> (mem \<times> ptr \<times> ptr) option" where
  "vsn_string m e str sp args = do {
     (s, args) \<leftarrow> va_arg32 (reader m) args;
     let len = (if s < 1024 then of_nat (min (length null_text) (unat (v_precision sp)))
                else strnlen m s (v_precision sp));
     let (m, str, w) =
       (if \<not> has_flag (v_flags sp) LEFT then fill_loop m e str 32 len (field_width sp)
        else (m, str, field_width sp));
     let (m, str) =
       (if s < 1024 then emit_list m e str (take (nat (sint len)) null_text)
        else emit_from m e str s (nat (sint len)));
     let (m, str, _) = fill_loop m e str 32 len w;
     Some (m, str, args) }"

definition vsn_pointer ::
  "mem \<Rightarrow> ptr \<Rightarrow> ptr \<Rightarrow> vsn_spec \<Rightarrow> ptr \<Rightarrow> (mem \<times> ptr \<times> ptr) option" where
  "vsn_pointer m e str sp args = do {
     let (w, flags) = (if field_width sp = - 1 then (8, v_flags sp OR ZEROPAD)
                       else (field_width sp, v_flags sp));
     (v, args) \<leftarrow> va_arg32 (reader m) args;
     (m, str) \<leftarrow> number m str e (ucast v) 16 w (v_precision sp) flags;
     Some (m, str, args) }"

text \<open>
  \<open>%n\<close> stores the count so far through its argument; \<open>int\<close>, \<open>long\<close> and \<open>size_t\<close> all have 32 bits, so
  the three branches of the code store the same bytes.
\<close>

definition vsn_count ::
  "ptr \<Rightarrow> mem \<Rightarrow> ptr \<Rightarrow> ptr \<Rightarrow> (mem \<times> ptr \<times> ptr) option" where
  "vsn_count buf m str args = do {
     (ip, args) \<leftarrow> va_arg32 (reader m) args;
     Some (store32 m ip (str - buf), str, args) }"

definition vsn_integer ::
  "mem \<Rightarrow> ptr \<Rightarrow> ptr \<Rightarrow> vsn_spec \<Rightarrow> s32 \<Rightarrow> s32 \<Rightarrow> ptr \<Rightarrow> (mem \<times> ptr \<times> ptr) option" where
  "vsn_integer m e str sp base flags args = do {
     (num, args) \<leftarrow> vsn_int_arg (reader m) (qualifier sp) flags args;
     (m, str) \<leftarrow> number m str e num base (field_width sp) (v_precision sp) flags;
     Some (m, str, args) }"

text \<open>One conversion, from its \<open>%\<close>; the format pointer it returns is the last character it used.\<close>

definition vsn_convert ::
  "ptr \<Rightarrow> ptr \<Rightarrow> mem \<Rightarrow> ptr \<Rightarrow> ptr \<Rightarrow> ptr \<Rightarrow> (mem \<times> ptr \<times> ptr \<times> ptr) option" where
  "vsn_convert buf e m str fmt args = do {
     (sp, fmt, args) \<leftarrow> vsn_front (reader m) fmt args;
     let c = m fmt;
     let flags = v_flags sp;
     if c = 99 then do { (m, str, args) \<leftarrow> vsn_char m e str sp args; Some (m, str, fmt, args) }
     else if c = 115 then do { (m, str, args) \<leftarrow> vsn_string m e str sp args; Some (m, str, fmt, args) }
     else if c = 112 then do { (m, str, args) \<leftarrow> vsn_pointer m e str sp args; Some (m, str, fmt, args) }
     else if c = 110 then do { (m, str, args) \<leftarrow> vsn_count buf m str args; Some (m, str, fmt, args) }
     else if c = 37 then do { let (m, str) = emit m e str 37; Some (m, str, fmt, args) }
     else if c = 111 then do {
       (m, str, args) \<leftarrow> vsn_integer m e str sp 8 flags args; Some (m, str, fmt, args) }
     else if c = 88 then do {
       (m, str, args) \<leftarrow> vsn_integer m e str sp 16 (flags OR LARGE) args; Some (m, str, fmt, args) }
     else if c = 120 then do {
       (m, str, args) \<leftarrow> vsn_integer m e str sp 16 flags args; Some (m, str, fmt, args) }
     else if c = 100 \<or> c = 105 then do {
       (m, str, args) \<leftarrow> vsn_integer m e str sp 10 (flags OR SIGN) args; Some (m, str, fmt, args) }
     else if c = 117 then do {
       (m, str, args) \<leftarrow> vsn_integer m e str sp 10 flags args; Some (m, str, fmt, args) }
     else do {
       let (m, str) = emit m e str 37;
       if c \<noteq> 0 then do { let (m, str) = emit m e str c; Some (m, str, fmt, args) }
       else Some (m, str, fmt - 1, args) } }"

partial_function (option) vsn_loop ::
  "ptr \<Rightarrow> ptr \<Rightarrow> mem \<Rightarrow> ptr \<Rightarrow> ptr \<Rightarrow> ptr \<Rightarrow> (mem \<times> ptr) option" where
  "vsn_loop buf e m str fmt args =
     (if m fmt = 0 then Some (m, str)
      else if m fmt \<noteq> 37 then
        (let (m', str') = emit m e str (m fmt) in vsn_loop buf e m' str' (fmt + 1) args)
      else do {
        (m', str', fmt', args') \<leftarrow> vsn_convert buf e m str fmt args;
        vsn_loop buf e m' str' (fmt' + 1) args' })"

definition vsnprintf :: "mem \<Rightarrow> ptr \<Rightarrow> u32 \<Rightarrow> ptr \<Rightarrow> ptr \<Rightarrow> (mem \<times> s32) option" where
  "vsnprintf m buf sz fmt args =
     (if sz <s 0 then Some (m, 0)
      else let e = buf + sz - 1;
               (e, sz) = (if e < buf - 1 then (- 1, - 1 - buf + 1) else (e, sz))
      in do {
        (m, str) \<leftarrow> vsn_loop buf e m buf fmt args;
        let m = (if str \<le> e then m(str := 0) else if sz > 0 then m(e := 0) else m);
        Some (m, str - buf) })"

text \<open>The comparison \<open>i >= size\<close> converts the \<open>int\<close> to \<open>size_t\<close>.\<close>

definition vscnprintf :: "mem \<Rightarrow> ptr \<Rightarrow> u32 \<Rightarrow> ptr \<Rightarrow> ptr \<Rightarrow> (mem \<times> s32) option" where
  "vscnprintf m buf sz fmt args = do {
     (m, i) \<leftarrow> vsnprintf m buf sz fmt args;
     Some (m, if i \<ge> sz then sz - 1 else i) }"

definition snprintf :: "mem \<Rightarrow> ptr \<Rightarrow> u32 \<Rightarrow> ptr \<Rightarrow> ptr \<Rightarrow> (mem \<times> s32) option" where
  "snprintf m buf sz fmt args = vsnprintf m buf sz fmt args"

definition scnprintf :: "mem \<Rightarrow> ptr \<Rightarrow> u32 \<Rightarrow> ptr \<Rightarrow> ptr \<Rightarrow> (mem \<times> s32) option" where
  "scnprintf m buf sz fmt args = do {
     (m, i) \<leftarrow> vsnprintf m buf sz fmt args;
     Some (m, if i \<ge> sz then sz - 1 else i) }"

definition vsprintf :: "mem \<Rightarrow> ptr \<Rightarrow> ptr \<Rightarrow> ptr \<Rightarrow> (mem \<times> s32) option" where
  "vsprintf m buf fmt args = vsnprintf m buf (drop_bit 1 (NOT 0)) fmt args"

definition sprintf :: "mem \<Rightarrow> ptr \<Rightarrow> ptr \<Rightarrow> ptr \<Rightarrow> (mem \<times> s32) option" where
  "sprintf m buf fmt args = vsprintf m buf fmt args"

end
