(* ===== verification/Numbers.thy ===== *)
theory Numbers
  imports Vsprintf
begin

text \<open>
  Printed numbers.  The theory describes the bytes between \<open>buf\<close> and \<open>end\<close> that the output routines of
  \<open>vsprintf.c\<close> may write, gives closed forms for their padding loops, defines the digits of a number in a base,
  and shows that \<open>number\<close> writes sign, prefix, padding, zeros and digits in the order C prescribes.
\<close>

section \<open>The output window\<close>

definition out :: "mem \<Rightarrow> ptr \<Rightarrow> ptr \<Rightarrow> u8 list \<Rightarrow> mem \<times> ptr" where
  "out m buf e xs = (store_bytes m buf (take (Suc (unat (e - buf))) xs), buf + of_nat (length xs))"

lemma ptr_offset_unat: "unat (buf :: ptr) + n < 2 ^ 32 \<Longrightarrow> unat (buf + of_nat n) = unat buf + n"
  using u32_of_nat_less [of "unat buf + n"] by simp

lemma window_le:
  assumes "buf \<le> e" "unat (buf :: ptr) + n < 2 ^ 32"
  shows "buf + of_nat n \<le> e \<longleftrightarrow> n < Suc (unat (e - buf))"
  using assms ptr_offset_unat [OF assms(2)] unat_sub [OF assms(1)]
  by (auto simp: word_le_nat_alt)

lemma emit_out [loop_simps]:
  assumes "buf \<le> e" "unat buf + length xs < 2 ^ 32"
  shows "emit (fst (out m buf e xs)) e (snd (out m buf e xs)) c = out m buf e (xs @ [c])"
proof (cases "length xs < Suc (unat (e - buf))")
  case True
  then show ?thesis using window_le [OF assms]
    by (simp add: emit_def out_def store_bytes_append add_ac)
next
  case False
  then show ?thesis using window_le [OF assms] by (simp add: emit_def out_def add_ac)
qed

lemma emit_list_out [loop_simps]:
  assumes "buf \<le> e" "unat buf + length (xs @ cs) < 2 ^ 32"
  shows "emit_list (fst (out m buf e xs)) e (snd (out m buf e xs)) cs = out m buf e (xs @ cs)"
  using assms(2)
proof (induction cs arbitrary: xs)
  case (Cons c cs)
  then show ?case using emit_out [OF assms(1), of xs m c] Cons.IH [of "xs @ [c]"]
    by (simp add: case_prod_beta Let_def)
qed simp

lemma sint_step_down:
  "0 <s (sz :: s32) \<Longrightarrow> nat (sint sz) = Suc (nat (sint (sz - 1))) \<and> (sz - 1 = 0 \<or> 0 <s sz - 1)"
proof -
  assume pos: "0 <s sz"
  then have s: "sint (sz - 1) = sint sz - 1" by (simp add: word_sless_alt sint_minus_one_s32)
  have "sz - 1 = 0 \<longleftrightarrow> sint (sz - 1) = 0" by (simp only: signed_eq_0_iff)
  then show ?thesis using pos s by (simp add: word_sless_alt) linarith
qed

lemma pad_loop_list [loop_simps]:
  "pad_loop m e buf c sz =
    (let (m', buf') = emit_list m e buf (replicate (nat (sint sz)) c)
     in (m', buf', if 0 <s sz then - 1 else sz - 1))"
proof (induction m e buf c sz rule: pad_loop.induct)
  case (1 m e buf c sz)
  show ?case
  proof (cases "0 <s sz")
    case True
    obtain m' b' where e: "emit m e buf c = (m', b')" by fastforce
    note IH = 1 [OF True e [symmetric] refl]
    show ?thesis
    proof (cases "sz - 1 = 0")
      case z: True
      then show ?thesis using True sint_step_down [OF True] IH e
        by (simp add: pad_loop.simps [of m] case_prod_beta Let_def)
    next
      case False
      then have "0 <s sz - 1" using sint_step_down [OF True] by simp
      then show ?thesis using True sint_step_down [OF True] IH e
        by (simp add: pad_loop.simps [of m] case_prod_beta Let_def)
    qed
  next
    case False
    then show ?thesis by (subst pad_loop.simps) (simp add: word_sless_alt)
  qed
qed

lemma fill_loop_list [loop_simps]:
  "fill_loop m e buf c i n =
    (let (m', buf') = emit_list m e buf (replicate (nat (sint n - sint i)) c)
     in (m', buf', if i <s n then i - 1 else n - 1))"
proof (induction m e buf c i n rule: fill_loop.induct)
  case (1 m e buf c i n)
  show ?case
  proof (cases "i <s n")
    case True
    obtain m' b' where e: "emit m e buf c = (m', b')" by fastforce
    note IH = 1 [OF True e [symmetric] refl]
    have d: "sint (n - 1) = sint n - 1" using True by (simp add: word_sless_alt sint_dec_above)
    then have r: "nat (sint n - sint i) = Suc (nat (sint (n - 1) - sint i))"
      using True by (simp add: word_sless_alt)
    have "sint (n - 1) = sint i \<Longrightarrow> n - 1 = i" by (rule signed_word_eqI)
    then have "n - 1 = i \<or> i <s n - 1" using True d by (simp add: word_sless_alt) linarith
    then show ?thesis using True IH e r
      by (auto simp add: fill_loop.simps [of m] case_prod_beta Let_def)
  next
    case False
    then show ?thesis by (subst fill_loop.simps) (simp add: word_sless_alt)
  qed
qed

lemma predec_loop_pad: "predec_loop m e buf c n =
    (let (m', buf', k) = pad_loop m e buf c (n - 1) in (m', buf', k + 1))"
proof (induction m e buf c n rule: predec_loop.induct)
  case (1 m e buf c n)
  obtain m' b' where e: "emit m e buf c = (m', b')" by fastforce
  show ?case using 1 [OF refl _ e [symmetric] refl] e
    by (subst predec_loop.simps, subst pad_loop.simps) (auto simp: Let_def split: prod.splits)
qed

section \<open>The digits of a number\<close>

fun digits_rev :: "nat \<Rightarrow> nat \<Rightarrow> nat list" where
  "digits_rev b n = (if n = 0 \<or> b < 2 then [] else (n mod b) # digits_rev b (n div b))"

declare digits_rev.simps [simp del]

definition digits_of :: "nat \<Rightarrow> nat \<Rightarrow> nat list" where
  "digits_of b n = (if n = 0 then [0] else rev (digits_rev b n))"

lemma digits_rev_0 [simp]: "digits_rev b 0 = []"
  by (simp add: digits_rev.simps)

lemma length_digits_rev: "n < 2 ^ k \<Longrightarrow> length (digits_rev b n) \<le> k"
proof (induction k arbitrary: n)
  case (Suc k)
  show ?case
  proof (cases "n = 0 \<or> b < 2")
    case False
    have "n div b \<le> n div 2" using False by (simp add: div_le_mono2)
    moreover have "n div 2 < 2 ^ k" using Suc.prems by auto
    ultimately have "n div b < 2 ^ k" by simp
    then show ?thesis using Suc.IH False by (subst digits_rev.simps) auto
  qed (auto simp: digits_rev.simps)
qed simp

lemma digits_rev_less: "d \<in> set (digits_rev b n) \<Longrightarrow> d < b"
proof (induction b n rule: digits_rev.induct)
  case (1 b n)
  then show ?case by (subst (asm) (2) digits_rev.simps) (auto split: if_splits)
qed

lemma digits_rev_value:
  "2 \<le> b \<Longrightarrow> foldr (\<lambda>d acc. d + acc * b) (digits_rev b n) 0 = n"
proof (induction b n rule: digits_rev.induct)
  case (1 b n)
  then show ?case by (subst digits_rev.simps) auto
qed

lemma digits_of_value:
  "2 \<le> b \<Longrightarrow> foldl (\<lambda>acc d. acc * b + d) 0 (digits_of b n) = n"
  using digits_rev_value [of b n]
  by (simp add: digits_of_def foldl_conv_foldr add.commute)

lemma digits_of_less: "2 \<le> b \<Longrightarrow> d \<in> set (digits_of b n) \<Longrightarrow> d < b"
  using digits_rev_less by (auto simp: digits_of_def split: if_splits)

lemma length_digits_of: "n < 2 ^ 64 \<Longrightarrow> length (digits_of b n) \<le> 64"
  using length_digits_rev [of n 64 b] by (simp add: digits_of_def)

lemma digit_loop_digits:
  "2 \<le> unat base \<Longrightarrow>
   digit_loop ds num base tmp = Some (tmp @ map ((!) ds) (digits_rev (unat base) (unat num)))"
proof (induction "unat num" arbitrary: num tmp rule: less_induct)
  case less
  show ?case
  proof (cases "num = 0")
    case True
    then show ?thesis by (simp add: digit_loop.simps)
  next
    case False
    then have "0 < unat num" by (simp add: unat_gt_0)
    then have "unat (num div base) < unat num" using less.prems by (simp add: unat_div)
    from less.hyps [OF this less.prems] show ?thesis
      using False less.prems \<open>0 < unat num\<close>
      by (simp add: digit_loop.simps [of ds num] digits_rev.simps [of "unat base" "unat num"] unat_div unat_mod)
  qed
qed

section \<open>What a number looks like\<close>

definition number_table :: "s32 \<Rightarrow> u8 list" where
  "number_table ty = (if has_flag ty LARGE then large_digits else small_digits)"

definition number_neg :: "u64 \<Rightarrow> s32 \<Rightarrow> bool" where
  "number_neg num ty \<longleftrightarrow> has_flag ty SIGN \<and> num <s 0"

definition number_sign :: "u64 \<Rightarrow> s32 \<Rightarrow> u8 list" where
  "number_sign num ty =
     (if number_neg num ty then [45] else if has_flag ty SIGN \<and> has_flag ty PLUS then [43]
      else if has_flag ty SIGN \<and> has_flag ty SPACE then [32] else [])"

definition number_prefix :: "s32 \<Rightarrow> s32 \<Rightarrow> u8 list" where
  "number_prefix base ty =
     (if has_flag ty SPECIAL \<and> base = 8 then [48]
      else if has_flag ty SPECIAL \<and> base = 16 then [48, number_table ty ! 33] else [])"

definition number_digits :: "u64 \<Rightarrow> s32 \<Rightarrow> s32 \<Rightarrow> u8 list" where
  "number_digits num base ty =
     map ((!) (number_table ty))
       (digits_of (unat base) (unat (if number_neg num ty then - num else num)))"

text \<open>Padding goes to the right, between the sign and the digits, or to the left.\<close>

definition pad_lists :: "bool \<Rightarrow> bool \<Rightarrow> nat \<Rightarrow> u8 list \<Rightarrow> u8 list \<Rightarrow> u8 list" where
  "pad_lists left zeropad gap front body =
     (if left then front @ body @ replicate gap 32
      else if zeropad then front @ replicate gap 48 @ body
      else replicate gap 32 @ front @ body)"

definition number_list :: "u64 \<Rightarrow> s32 \<Rightarrow> s32 \<Rightarrow> s32 \<Rightarrow> s32 \<Rightarrow> u8 list" where
  "number_list num base sz precision ty =
     (let front = number_sign num ty @ number_prefix base ty;
          ds = number_digits num base ty;
          body = replicate (nat (sint precision) - length ds) 48 @ ds;
          gap = nat (sint sz - int (length front + length body))
      in pad_lists (has_flag ty LEFT) (has_flag ty ZEROPAD) gap front body)"

lemma has_flag_bit:
  "has_flag ty ZEROPAD \<longleftrightarrow> bit ty 0" "has_flag ty SIGN \<longleftrightarrow> bit ty 1" "has_flag ty PLUS \<longleftrightarrow> bit ty 2"
  "has_flag ty SPACE \<longleftrightarrow> bit ty 3" "has_flag ty LEFT \<longleftrightarrow> bit ty 4" "has_flag ty SPECIAL \<longleftrightarrow> bit ty 5"
  "has_flag ty LARGE \<longleftrightarrow> bit ty 6"
  using and_exp_eq_0_iff_not_bit [of ty 0] and_exp_eq_0_iff_not_bit [of ty 1]
    and_exp_eq_0_iff_not_bit [of ty 2] and_exp_eq_0_iff_not_bit [of ty 3]
    and_exp_eq_0_iff_not_bit [of ty 4] and_exp_eq_0_iff_not_bit [of ty 5]
    and_exp_eq_0_iff_not_bit [of ty 6]
  by (simp_all add: has_flag_def flag_defs)

lemma has_flag_drop_ZEROPAD [simp]:
  "\<not> has_flag (ty AND NOT ZEROPAD) ZEROPAD"
  "has_flag (ty AND NOT ZEROPAD) SIGN = has_flag ty SIGN"
  "has_flag (ty AND NOT ZEROPAD) PLUS = has_flag ty PLUS"
  "has_flag (ty AND NOT ZEROPAD) SPACE = has_flag ty SPACE"
  "has_flag (ty AND NOT ZEROPAD) LEFT = has_flag ty LEFT"
  "has_flag (ty AND NOT ZEROPAD) SPECIAL = has_flag ty SPECIAL"
  unfolding has_flag_bit by (simp_all add: bit_simps ZEROPAD_def bit_1_iff)

lemma has_flag_ZEROPAD_LEFT [simp]:
  "has_flag ty (ZEROPAD + LEFT) \<longleftrightarrow> has_flag ty ZEROPAD \<or> has_flag ty LEFT"
proof -
  have "ZEROPAD + LEFT = ZEROPAD OR LEFT" by (simp add: flag_defs)
  then have "ty AND (ZEROPAD + LEFT) = (ty AND ZEROPAD) OR (ty AND LEFT)"
    by (simp add: bit.conj_disj_distrib)
  then show ?thesis by (simp add: has_flag_def or_eq_0_iff)
qed

lemma emit_list_append:
  "emit_list m e buf (xs @ ys) = (let (m', buf') = emit_list m e buf xs in emit_list m' e buf' ys)"
  by (induction xs arbitrary: m buf) (auto simp: case_prod_beta Let_def)

lemma emit_if:
  "(if b then emit m e buf c else (m, buf)) = emit_list m e buf (if b then [c] else [])"
  by (simp add: case_prod_beta Let_def)

lemma sint_diff_s32:
  "- (2 ^ 31) \<le> sint (a :: s32) - sint b \<Longrightarrow> sint a - sint b < 2 ^ 31 \<Longrightarrow>
   sint (a - b) = sint a - sint b"
  by (simp add: sint_word_ariths signed_take_bit_int_eq_self)

text \<open>The three places where the padding may go, as the code reaches them one after the other.\<close>

definition number_stages ::
  "mem \<Rightarrow> ptr \<Rightarrow> ptr \<Rightarrow> s32 \<Rightarrow> bool \<Rightarrow> bool \<Rightarrow> u8 list \<Rightarrow> u8 list \<Rightarrow> (mem \<times> ptr) option" where
  "number_stages m e buf sz left zeropad front body =
     (let (m1, buf1, sz1) = (if \<not> (zeropad \<or> left) then pad_loop m e buf 32 sz else (m, buf, sz));
          (m2, buf2) = emit_list m1 e buf1 front;
          (m3, buf3, sz3) = (if \<not> left then pad_loop m2 e buf2 (if zeropad then 48 else 32) sz1
                             else (m2, buf2, sz1));
          (m4, buf4) = emit_list m3 e buf3 body;
          (m5, buf5, _) = pad_loop m4 e buf4 32 sz3
      in Some (m5, buf5))"

lemma number_stages_emit:
  assumes "- (2 ^ 31) + 2 \<le> sint sz" "\<not> (left \<and> zeropad)"
  shows "number_stages m e buf sz left zeropad front body =
    Some (emit_list m e buf (pad_lists left zeropad (nat (sint sz)) front body))"
proof -
  have step: "0 < sint sz \<or> sint (sz - 1) = sint sz - 1 \<and> sint (sz - 2) = sint sz - 2"
    using assms(1) sint_diff_s32 [of sz 1] sint_diff_s32 [of sz 2] sint_lt [of sz] by auto
  have neg: "nat (sint (if 0 <s sz then - 1 else sz - 1)) = 0"
    using step by (auto simp: word_sless_alt)
  have neg2: "nat (sint (if 0 <s (if 0 <s sz then - 1 else sz - 1) then - 1
      else (if 0 <s sz then - 1 else sz - 1) - 1)) = 0"
    using step by (auto simp: word_sless_alt)
  show ?thesis
  proof (cases left)
    case True
    then show ?thesis using assms(2)
      by (simp add: number_stages_def pad_lists_def loop_simps emit_list_append case_prod_beta Let_def)
  next
    case False
    then show ?thesis using neg neg2
      by (cases zeropad) (simp_all only: number_stages_def pad_lists_def pad_loop_list emit_list_append case_prod_beta Let_def
            if_True if_False simp_thms fst_conv snd_conv replicate_0 emit_list.simps prod.collapse)
  qed
qed

lemma sint_nonneg_uint: "0 \<le> sint (x :: s32) \<Longrightarrow> uint x = sint x"
  using sint_lt [of x] by (simp add: uint_sint take_bit_int_eq_self)

lemma sint_nonneg_unat: "0 \<le> sint (x :: s32) \<Longrightarrow> int (unat x) = sint x"
  by (simp add: sint_nonneg_uint)

lemma unat_ucast_u32_u64: "unat (ucast (x :: u32) :: u64) = unat x"
  using unat_u32_bound [of x] by (simp add: unsigned_ucast_eq take_bit_nat_eq_self)

lemma digit_tables:
  "small_digits ! 0 = 48" "large_digits ! 0 = 48"
  by (simp_all add: small_digits_def large_digits_def lit_def)

lemma number_eq_stages:
  fixes num :: u64 and base sz precision ty :: s32
  assumes base: "2 \<le> sint base" "sint base \<le> 36"
  defines "i \<equiv> of_nat (length (number_digits num base ty))"
  defines "p \<equiv> if precision <s i then i else precision"
  shows "number m buf e num base sz precision ty =
    number_stages m e buf
      (sz - of_nat (length (number_sign num ty)) - of_nat (length (number_prefix base ty)) - p)
      (has_flag ty LEFT) (has_flag ty ZEROPAD \<and> \<not> has_flag ty LEFT)
      (number_sign num ty @ number_prefix base ty)
      (replicate (nat (sint p - sint i)) 48 @ number_digits num base ty)"
proof -
  define ty' where "ty' = (if has_flag ty LEFT then ty AND NOT ZEROPAD else ty)"
  define num' where "num' = (if number_neg num ty then - num else num)"
  define sign where "sign = number_sign num ty"
  have flags: "has_flag ty' ZEROPAD = (has_flag ty ZEROPAD \<and> \<not> has_flag ty LEFT)"
    "has_flag ty' LEFT = has_flag ty LEFT"
    "has_flag ty' SIGN = has_flag ty SIGN" "has_flag ty' PLUS = has_flag ty PLUS"
    "has_flag ty' SPACE = has_flag ty SPACE" "has_flag ty' SPECIAL = has_flag ty SPECIAL"
    by (auto simp: ty'_def)
  have "2 \<le> unat base" using base sint_nonneg_unat [of base] by linarith
  then have tmp: "(if num' = 0 then Some [48] else digit_loop (number_table ty) num' (ucast base) [])
      = Some (rev (number_digits num base ty))"
    using digit_loop_digits [of "ucast base :: u64" "number_table ty" num' "[]"]
    by (auto simp: number_digits_def num'_def digits_of_def number_table_def digit_tables rev_map
        unat_ucast_u32_u64 unat_eq_0)
  have trip: "(if has_flag ty SIGN then (if num <s 0 then (45, - num, sz - 1)
      else if has_flag ty PLUS then (43, num, sz - 1)
      else if has_flag ty SPACE then (32, num, sz - 1) else (0, num, sz))
    else (0, num, sz)) = (if sign = [] then 0 else hd sign, num', sz - of_nat (length sign))"
    by (auto simp: sign_def number_sign_def num'_def number_neg_def)
  have pre: "(if has_flag ty SPECIAL then (if base = 16 then x - 2 else if base = 8 then x - 1 else x)
      else x) = x - of_nat (length (number_prefix base ty))" for x :: s32
    by (auto simp: number_prefix_def)
  have emit_sign: "(if (if sign = [] then 0 else hd sign) \<noteq> 0
      then emit m e buf (if sign = [] then 0 else hd sign) else (m, buf)) = emit_list m e buf sign" for m buf
    by (auto simp: sign_def number_sign_def case_prod_beta Let_def)
  have emit_prefix: "(if has_flag ty SPECIAL then (if base = 8 then emit m e buf 48
      else if base = 16 then emit (fst (emit m e buf 48)) e (snd (emit m e buf 48)) (number_table ty ! 33)
      else (m, buf)) else (m, buf)) = emit_list m e buf (number_prefix base ty)" for m buf
    by (auto simp: number_prefix_def case_prod_beta Let_def)
  have nb: "\<not> (base <s 2 \<or> 36 <s base)" using base by (simp add: word_sless_alt)
  show ?thesis
    unfolding number_def number_stages_def Let_def number_table_def [symmetric] ty'_def [symmetric]
      has_flag_ZEROPAD_LEFT flags trip pre case_prod_conv tmp if_not_P [OF nb] p_def i_def sign_def [symmetric]
    by (simp only: pre tmp emit_sign emit_prefix Option.bind.simps length_rev rev_rev_ident
        fill_loop_list emit_list_append Let_def case_prod_beta prod.collapse fst_conv snd_conv)
qed

lemma number_part_lengths:
  "length (number_digits num base ty) \<le> 64"
  "length (number_sign num ty) \<le> 1" "length (number_prefix base ty) \<le> 2"
proof -
  have "unat x < 2 ^ 64" for x :: u64 using unsigned_less [of x] by simp
  then show "length (number_digits num base ty) \<le> 64"
    by (simp add: number_digits_def length_digits_of)
qed (auto simp: number_sign_def number_prefix_def)

lemma sint_small_nat: "n \<le> 64 \<Longrightarrow> sint (of_nat n :: s32) = int n"
  by (auto simp: signed_of_nat intro!: signed_take_bit_int_eq_self)

lemma number_emit:
  assumes base: "2 \<le> sint base" "sint base \<le> 36"
    and sz: "- (2 ^ 29) \<le> sint sz" and precision: "sint precision < 2 ^ 30"
  shows "number m buf e num base sz precision ty =
    Some (emit_list m e buf (number_list num base sz precision ty))"
proof -
  define ds where "ds = number_digits num base ty"
  define sign where "sign = number_sign num ty"
  define prefix where "prefix = number_prefix base ty"
  define i :: s32 where "i = of_nat (length ds)"
  define p where "p = (if precision <s i then i else precision)"
  define sz2 where "sz2 = sz - of_nat (length sign) - of_nat (length prefix)"
  have len: "length ds \<le> 64" "length sign \<le> 1" "length prefix \<le> 2"
    unfolding ds_def sign_def prefix_def by (rule number_part_lengths)+
  have i: "sint i = int (length ds)" using len by (simp add: i_def sint_small_nat)
  have p: "sint p = max (sint precision) (int (length ds))"
    using i by (auto simp: p_def word_sless_alt)
  have s2: "sint sz2 = sint sz - int (length sign + length prefix)"
    unfolding sz2_def using len sz sint_lt [of sz] by (simp add: sint_diff_s32 sint_small_nat)
  have s: "sint (sz2 - p) = sint sz - int (length sign + length prefix) - sint p"
    using len sz precision sint_lt [of sz] by (simp add: sint_diff_s32 s2 p)
  have lo: "- (2 ^ 31) + 2 \<le> sint (sz2 - p)" using len sz precision s p by simp
  have "number m buf e num base sz precision ty = Some (emit_list m e buf
      (pad_lists (has_flag ty LEFT) (has_flag ty ZEROPAD \<and> \<not> has_flag ty LEFT) (nat (sint (sz2 - p)))
        (sign @ prefix) (replicate (nat (sint p - sint i)) 48 @ ds)))"
    unfolding number_eq_stages [OF base] ds_def [symmetric] sign_def [symmetric] prefix_def [symmetric]
      i_def [symmetric] p_def [symmetric] sz2_def [symmetric]
    by (rule number_stages_emit [OF lo]) simp
  moreover have "nat (sint p - sint i) = nat (sint precision) - length ds" using p i by auto
  moreover have "nat (sint (sz2 - p)) = nat (sint sz - int (length (sign @ prefix) +
      length (replicate (nat (sint precision) - length ds) (48 :: u8) @ ds)))"
    using s p by auto
  ultimately show ?thesis
    by (simp add: number_list_def Let_def pad_lists_def ds_def sign_def prefix_def)
qed

end
