(* ===== verification/Format.thy ===== *)
theory Format
  imports Numbers
begin

text \<open>
  What formatted output looks like.  The theory gives the output of \<open>vsnprintf\<close> as a list of bytes, a
  function of the format, the arguments and the strings they point to, and shows that the code writes
  the part of it that fits the buffer and nothing else.
\<close>

section \<open>Readers\<close>

locale wider_reader =
  fixes R R' :: reader
  assumes wider: "R a = Some c \<Longrightarrow> R' a = Some c"
begin

lemma load32_mono: "load32 R p = Some v \<Longrightarrow> load32 R' p = Some v"
  by (auto simp: load32_def Option.bind_eq_Some_conv dest!: wider)

lemma va_arg32_mono: "va_arg32 R p = Some v \<Longrightarrow> va_arg32 R' p = Some v"
  by (auto simp: va_arg32_def Option.bind_eq_Some_conv dest!: load32_mono)

lemma va_arg64_mono: "va_arg64 R p = Some v \<Longrightarrow> va_arg64 R' p = Some v"
  by (auto simp: va_arg64_def Option.bind_eq_Some_conv dest!: load32_mono)

lemma skip_atoi_loop_mono: "skip_atoi_loop R s i = Some v \<Longrightarrow> skip_atoi_loop R' s i = Some v"
proof (rule skip_atoi_loop.raw_induct
    [of "\<lambda>rd s i v. rd = R \<longrightarrow> skip_atoi_loop R' s i = Some v", rule_format], goal_cases)
  case (1 f rd s i v)
  then have IH: "f R s i = Some v \<Longrightarrow> skip_atoi_loop R' s i = Some v" for s i v by blast
  obtain c where "R s = Some c" using 1 by (auto simp: Option.bind_eq_Some_conv)
  with 1(3,4) wider [OF this] show ?case
    by (subst skip_atoi_loop.simps) (auto dest: IH split: if_splits)
qed auto

lemma vsn_flags_mono: "vsn_flags R fmt flags = Some v \<Longrightarrow> vsn_flags R' fmt flags = Some v"
proof (rule vsn_flags.raw_induct
    [of "\<lambda>rd s i v. rd = R \<longrightarrow> vsn_flags R' s i = Some v", rule_format], goal_cases)
  case (1 f rd fmt flags v)
  then have IH: "f R s i = Some v \<Longrightarrow> vsn_flags R' s i = Some v" for s i v by blast
  obtain c where "R (fmt + 1) = Some c" using 1 by (auto simp: Option.bind_eq_Some_conv Let_def)
  with 1(3,4) wider [OF this] show ?case
    by (subst vsn_flags.simps) (auto dest: IH simp: Let_def split: if_splits)
qed auto

lemma skip_atoi_mono: "skip_atoi R s = Some v \<Longrightarrow> skip_atoi R' s = Some v"
  by (auto simp: skip_atoi_def intro: skip_atoi_loop_mono)

lemma vsn_width_mono: "vsn_width R fmt args flags = Some v \<Longrightarrow> vsn_width R' fmt args flags = Some v"
  by (auto simp: vsn_width_def Option.bind_eq_Some_conv Let_def split: if_splits
      dest!: wider skip_atoi_mono va_arg32_mono)

lemma vsn_precision_mono: "vsn_precision R fmt args = Some v \<Longrightarrow> vsn_precision R' fmt args = Some v"
  by (auto simp: vsn_precision_def Option.bind_eq_Some_conv Let_def split: if_splits
      dest!: wider skip_atoi_mono va_arg32_mono)

lemma vsn_qualifier_mono: "vsn_qualifier R fmt = Some v \<Longrightarrow> vsn_qualifier R' fmt = Some v"
  using wider [of fmt] wider [of "fmt + 1"]
  by (cases "R fmt"; cases "R (fmt + 1)") (auto simp: vsn_qualifier_def Let_def split: if_splits)

lemma vsn_front_mono: "vsn_front R fmt args = Some v \<Longrightarrow> vsn_front R' fmt args = Some v"
  by (auto simp: vsn_front_def Option.bind_eq_Some_conv
      dest!: vsn_flags_mono vsn_width_mono vsn_precision_mono vsn_qualifier_mono)

lemma vsn_int_arg_mono: "vsn_int_arg R q flags args = Some v \<Longrightarrow> vsn_int_arg R' q flags args = Some v"
  by (auto simp: vsn_int_arg_def Option.bind_eq_Some_conv split: if_splits
      dest!: va_arg32_mono va_arg64_mono)

end

interpretation footprint: wider_reader "reader m |` D" "reader m" for m D
  by unfold_locales (auto simp: restrict_map_def split: if_splits)

section \<open>The output of a format\<close>

primrec read_str :: "reader \<Rightarrow> ptr \<Rightarrow> nat \<Rightarrow> u8 list option" where
  "read_str rd s 0 = Some []"
| "read_str rd s (Suc n) = do {
     c \<leftarrow> rd s;
     if c = 0 then Some [] else do { xs \<leftarrow> read_str rd (s + 1) n; Some (c # xs) } }"

lemma read_str_numeral [simp]:
  "read_str rd s (numeral k) = do {
     c \<leftarrow> rd s;
     if c = 0 then Some [] else do { xs \<leftarrow> read_str rd (s + 1) (pred_numeral k); Some (c # xs) } }"
  by (simp add: numeral_eq_Suc)

text \<open>A text in its field, to the left or to the right of the padding.\<close>

definition fmt_text :: "vsn_spec \<Rightarrow> u8 list \<Rightarrow> u8 list" where
  "fmt_text sp xs =
     (let gap = replicate (nat (sint (field_width sp)) - length xs) 32
      in if has_flag (v_flags sp) LEFT then xs @ gap else gap @ xs)"

definition fmt_number :: "vsn_spec \<Rightarrow> s32 \<Rightarrow> s32 \<Rightarrow> u64 \<Rightarrow> u8 list" where
  "fmt_number sp base flags num = number_list num base (field_width sp) (v_precision sp) flags"

text \<open>Widths and precisions for which the padding arithmetic stays within an \<open>int\<close>.\<close>

definition fmt_sane :: "vsn_spec \<Rightarrow> bool" where
  "fmt_sane sp \<longleftrightarrow> - (2 ^ 29) \<le> sint (field_width sp) \<and> sint (v_precision sp) < 2 ^ 30"

text \<open>The base and the flags of the integer conversions.\<close>

definition fmt_radix :: "u8 \<Rightarrow> s32 \<Rightarrow> (s32 \<times> s32) option" where
  "fmt_radix c flags =
     (if c = 111 then Some (8, flags)
      else if c = 88 then Some (16, flags OR LARGE)
      else if c = 120 then Some (16, flags)
      else if c = 100 \<or> c = 105 then Some (10, flags OR SIGN)
      else if c = 117 then Some (10, flags)
      else None)"

text \<open>
  One conversion.  \<open>%n\<close>, which stores through its argument, has no output and is excluded, and so are
  strings of two gigabytes.
\<close>

definition fmt_conv :: "reader \<Rightarrow> ptr \<Rightarrow> ptr \<Rightarrow> (u8 list \<times> ptr \<times> ptr) option" where
  "fmt_conv rd fmt args = do {
     (sp, fmt, args) \<leftarrow> vsn_front rd fmt args;
     c \<leftarrow> rd fmt;
     if \<not> fmt_sane sp then None
     else if c = 99 then do {
       (v, args) \<leftarrow> va_arg32 rd args;
       Some (fmt_text sp [ucast v], fmt, args) }
     else if c = 115 then do {
       (s, args) \<leftarrow> va_arg32 rd args;
       xs \<leftarrow> (if s < 1024 then Some (take (unat (v_precision sp)) null_text)
             else read_str rd s (unat (v_precision sp)));
       if length xs < 2 ^ 31 then Some (fmt_text sp xs, fmt, args) else None }
     else if c = 112 then do {
       (v, args) \<leftarrow> va_arg32 rd args;
       let sp = (if field_width sp = - 1 then sp\<lparr>field_width := 8, v_flags := v_flags sp OR ZEROPAD\<rparr>
                 else sp);
       Some (fmt_number sp 16 (v_flags sp) (ucast v), fmt, args) }
     else if c = 110 then None
     else if c = 37 then Some ([37], fmt, args)
     else case fmt_radix c (v_flags sp) of
       Some (base, flags) \<Rightarrow> do {
         (num, args) \<leftarrow> vsn_int_arg rd (qualifier sp) flags args;
         Some (fmt_number sp base flags num, fmt, args) }
     | None \<Rightarrow> if c \<noteq> 0 then Some ([37, c], fmt, args) else Some ([37], fmt - 1, args) }"

partial_function (option) fmt_out :: "reader \<Rightarrow> ptr \<Rightarrow> ptr \<Rightarrow> u8 list option" where
  "fmt_out rd fmt args = do {
     c \<leftarrow> rd fmt;
     if c = 0 then Some []
     else if c \<noteq> 37 then do { ys \<leftarrow> fmt_out rd (fmt + 1) args; Some (c # ys) }
     else do {
       (xs, fmt', args') \<leftarrow> fmt_conv rd fmt args;
       ys \<leftarrow> fmt_out rd (fmt' + 1) args';
       Some (xs @ ys) } }"

section \<open>The conversions of the code\<close>

lemma read_str_strnlen_loop:
  "read_str (reader m |` D) s n = Some xs \<Longrightarrow>
   strnlen_loop m s n = s + of_nat (length xs) \<and> xs = load_bytes m s (length xs) \<and>
   (\<forall>i<length xs. s + of_nat i \<in> D) \<and> length xs \<le> n"
proof (induction n arbitrary: s xs)
  case (Suc n)
  then obtain c where c: "m s = c" "s \<in> D"
    by (auto simp: reader_def restrict_map_def Option.bind_eq_Some_conv split: if_splits)
  show ?case
  proof (cases "c = 0")
    case True
    with Suc c show ?thesis by (auto simp: reader_def)
  next
    case False
    with Suc.prems c obtain ys where ys: "read_str (reader m |` D) (s + 1) n = Some ys" "xs = c # ys"
      by (auto simp: reader_def Option.bind_eq_Some_conv)
    then show ?thesis using Suc.IH [OF ys(1)] c False
      by (auto simp: add_ac less_Suc_eq_0_disj)
  qed
qed simp

text \<open>
  An output of at most \<open>N\<close> bytes through the window from \<open>buf\<close> to \<open>e\<close> does not touch the addresses \<open>D\<close>.
\<close>

definition apart_window :: "ptr \<Rightarrow> ptr \<Rightarrow> nat \<Rightarrow> ptr set \<Rightarrow> bool" where
  "apart_window buf e N D \<longleftrightarrow> buf \<le> e \<and> unat buf + N < 2 ^ 32 \<and>
     (\<forall>a\<in>D. \<not> in_region buf (min N (Suc (unat (e - buf)))) a)"

lemma out_read:
  assumes "apart_window buf e N D" "length xs \<le> N" "a \<in> D"
  shows "fst (out m buf e xs) a = m a"
proof -
  have "\<not> in_region buf (min N (Suc (unat (e - buf)))) a"
    using assms unfolding apart_window_def by blast
  then have "\<not> in_region buf (length (take (Suc (unat (e - buf))) xs)) a"
    by (rule contrapos_nn) (erule in_region_mono, use assms(2) in simp)
  then show ?thesis by (simp add: out_def store_bytes_other del: length_take)
qed

lemma out_reader:
  "apart_window buf e N D \<Longrightarrow> length xs \<le> N \<Longrightarrow> reader (fst (out m buf e xs)) |` D = reader m |` D"
  by (auto simp: reader_def restrict_map_def out_read)

lemma out_read_Some:
  "apart_window buf e N D \<Longrightarrow> length xs \<le> N \<Longrightarrow> (reader m |` D) a = Some c \<Longrightarrow>
   fst (out m buf e xs) a = c"
  by (auto simp: restrict_map_def reader_def out_read split: if_splits)

lemma out_front:
  "apart_window buf e N D \<Longrightarrow> length xs \<le> N \<Longrightarrow> vsn_front (reader m |` D) fmt args = Some v \<Longrightarrow>
   vsn_front (reader (fst (out m buf e xs))) fmt args = Some v"
  by (metis footprint.vsn_front_mono out_reader)

lemma out_va_arg32:
  "apart_window buf e N D \<Longrightarrow> va_arg32 (reader m |` D) args = Some v \<Longrightarrow> length xs \<le> N \<Longrightarrow>
   va_arg32 (reader (fst (out m buf e xs))) args = Some v"
  by (metis footprint.va_arg32_mono out_reader)

lemma out_int_arg:
  "apart_window buf e N D \<Longrightarrow> vsn_int_arg (reader m |` D) q flags args = Some v \<Longrightarrow> length xs \<le> N \<Longrightarrow>
   vsn_int_arg (reader (fst (out m buf e xs))) q flags args = Some v"
  by (metis footprint.vsn_int_arg_mono out_reader)

lemma window_bound: "apart_window buf e N D \<Longrightarrow> k \<le> N \<Longrightarrow> unat buf + k < 2 ^ 32"
  by (simp add: apart_window_def)

lemma emit_from_out:
  assumes "apart_window buf e N D" "\<forall>i<n. s + of_nat i \<in> D" "length xs + n \<le> N"
  shows "emit_from (fst (out m buf e xs)) e (snd (out m buf e xs)) s n = out m buf e (xs @ load_bytes m s n)"
  using assms(2,3)
proof (induction n arbitrary: s xs)
  case (Suc n)
  have "\<forall>i<n. s + 1 + of_nat i \<in> D" using Suc.prems(1) [rule_format, of "Suc _"] by (simp add: add_ac)
  moreover have "s \<in> D" using Suc.prems(1) [rule_format, of 0] by simp
  moreover have "buf \<le> e" "unat buf + length xs < 2 ^ 32"
    using assms(1) Suc.prems(2) by (simp_all add: apart_window_def)
  ultimately show ?case
    using Suc.IH [of "s + 1" "xs @ [m s]"] Suc.prems(2) out_read [OF assms(1), of xs]
    by (simp add: emit_out case_prod_beta Let_def)
qed simp

lemma predec_loop_list [loop_simps]:
  assumes "- (2 ^ 31) < sint n"
  shows "predec_loop m e buf c n = (let (m', buf') = emit_list m e buf (replicate (nat (sint n) - 1) c)
     in (m', buf', if 0 <s n - 1 then 0 else n - 1))"
proof -
  have "sint (n - 1) = sint n - 1" using assms sint_lt [of n] by (simp add: sint_diff_s32)
  then have "nat (sint (n - 1)) = nat (sint n) - 1" by simp
  then show ?thesis by (simp add: predec_loop_pad loop_simps case_prod_beta Let_def)
qed

lemma vsn_char_out:
  assumes w: "apart_window buf e N D" and sane: "fmt_sane sp"
    and arg: "va_arg32 (reader m |` D) args = Some (v, args')"
    and len: "length (xs @ fmt_text sp [ucast v]) \<le> N"
  shows "vsn_char (fst (out m buf e xs)) e (snd (out m buf e xs)) sp args =
    (let (m', str') = out m buf e (xs @ fmt_text sp [ucast v]) in Some (m', str', args'))"
proof -
  have le: "buf \<le> e" and nw: "unat buf + N < 2 ^ 32" using w by (simp_all add: apart_window_def)
  have lo: "- (2 ^ 31) < sint (field_width sp)" using sane by (simp add: fmt_sane_def)
  have s1: "sint (field_width sp - 1) = sint (field_width sp) - 1"
    using lo sint_lt [of "field_width sp"] by (simp add: sint_diff_s32)
  show ?thesis
  proof (cases "has_flag (v_flags sp) LEFT")
    case True
    then show ?thesis using len lo le nw
      by (simp add: vsn_char_def fmt_text_def out_va_arg32 [OF w arg] loop_simps case_prod_beta Let_def del: emit_list.simps)
  next
    case False
    then show ?thesis using len lo le nw s1 sane
      by (simp add: vsn_char_def fmt_text_def out_va_arg32 [OF w arg] loop_simps case_prod_beta Let_def
          fmt_sane_def word_sless_alt)
  qed
qed

lemma fill_loop_pad:
  assumes "sint len = int k" "k < 2 ^ 31" "- (2 ^ 29) \<le> sint w"
  shows "fill_loop m e str c len w = (let (m', str') = emit_list m e str (replicate (nat (sint w) - k) c)
     in (m', str', if len <s w then len - 1 else w - 1))"
    and "fill_loop m e str c len (if len <s w then len - 1 else w - 1) =
      (m, str, (if len <s w then len - 1 else w - 1) - 1)"
proof -
  have "nat (sint w - sint len) = nat (sint w) - k" using assms by simp
  then show "fill_loop m e str c len w = (let (m', str') = emit_list m e str (replicate (nat (sint w) - k) c)
     in (m', str', if len <s w then len - 1 else w - 1))"
    by (simp add: fill_loop_list)
  have "sint (len - 1) = sint len - 1" using assms by (simp add: sint_diff_s32)
  moreover have "sint (w - 1) = sint w - 1" using assms sint_lt [of w] by (simp add: sint_diff_s32)
  ultimately show "fill_loop m e str c len (if len <s w then len - 1 else w - 1) =
      (m, str, (if len <s w then len - 1 else w - 1) - 1)"
    by (subst fill_loop.simps) (auto simp: word_sless_alt)
qed

lemma vsn_string_out:
  assumes w: "apart_window buf e N D" and sane: "fmt_sane sp"
    and arg: "va_arg32 (reader m |` D) args = Some (s, args')"
    and txt_eq: "(if s < 1024 then Some (take (unat (v_precision sp)) null_text)
             else read_str (reader m |` D) s (unat (v_precision sp))) = Some ys"
    and ys: "length ys < 2 ^ 31"
    and len: "length (xs @ fmt_text sp ys) \<le> N"
  shows "vsn_string (fst (out m buf e xs)) e (snd (out m buf e xs)) sp args =
    (let (m', str') = out m buf e (xs @ fmt_text sp ys) in Some (m', str', args'))"
proof -
  define n :: s32 where "n = of_nat (length ys)"
  have le: "buf \<le> e" and nw: "unat buf + N < 2 ^ 32" using w by (simp_all add: apart_window_def)
  have lo: "- (2 ^ 29) \<le> sint (field_width sp)" using sane by (simp add: fmt_sane_def)
  have lx: "length xs \<le> N" using len by simp
  have n: "sint n = int (length ys)"
    unfolding n_def using ys by (auto simp: signed_of_nat intro!: signed_take_bit_int_eq_self)
  have nlen: "(if s < 1024 then of_nat (min (length null_text) (unat (v_precision sp)))
      else strnlen (fst (out m buf e xs)) s (v_precision sp)) = n"
    using txt_eq out_reader [OF w lx, of m] read_str_strnlen_loop [of "fst (out m buf e xs)" D s]
    by (auto simp: n_def strnlen_def min.commute split: if_splits)
  have body1: "emit_list (fst (out m buf e zs)) e (snd (out m buf e zs)) (take (nat (sint n)) null_text)
      = out m buf e (zs @ ys)"
    if "length zs + length ys \<le> N" "s < 1024" for zs
  proof -
    have "ys = take (length ys) null_text" using txt_eq that(2) by (auto simp: take_all_iff min_def)
    with that le nw show ?thesis by (simp add: n emit_list_out)
  qed
  have body2: "emit_from (fst (out m buf e zs)) e (snd (out m buf e zs)) s (nat (sint n))
      = out m buf e (zs @ ys)"
    if "length zs + length ys \<le> N" "\<not> s < 1024" for zs
    using that txt_eq n read_str_strnlen_loop [of m D s _ ys] by (auto simp: emit_from_out [OF w])
  note pads = fill_loop_pad [OF n ys lo]
  have total: "length xs + length ys + (nat (sint (field_width sp)) - length ys) \<le> N"
    using len by (simp add: fmt_text_def Let_def split: if_splits)
  show ?thesis
    unfolding vsn_string_def out_va_arg32 [OF w arg lx] Option.bind.simps case_prod_conv Let_def nlen
    using total le nw
    by (cases "has_flag (v_flags sp) LEFT"; cases "s < 1024")
      (simp_all add: pads emit_list_out body1 body2 fmt_text_def case_prod_beta Let_def)
qed

lemma fmt_number_out:
  assumes w: "apart_window buf e N D" and sane: "fmt_sane sp" and base: "base \<in> {8, 10, 16}"
    and len: "length (xs @ fmt_number sp base flags num) \<le> N"
  shows "number (fst (out m buf e xs)) (snd (out m buf e xs)) e num base (field_width sp) (v_precision sp) flags
    = Some (out m buf e (xs @ fmt_number sp base flags num))"
proof -
  have "2 \<le> sint base" "sint base \<le> 36" using base by auto
  then show ?thesis using w sane len
    by (simp add: number_emit fmt_sane_def fmt_number_def emit_list_out apart_window_def)
qed

lemma vsn_integer_out:
  assumes "apart_window buf e N D" "fmt_sane sp" "base \<in> {8, 10, 16}"
    and "vsn_int_arg (reader m |` D) (qualifier sp) flags args = Some (num, args')"
    and "length (xs @ fmt_number sp base flags num) \<le> N"
  shows "vsn_integer (fst (out m buf e xs)) e (snd (out m buf e xs)) sp base flags args =
    (let (m', str') = out m buf e (xs @ fmt_number sp base flags num) in Some (m', str', args'))"
  using assms(5) out_int_arg [OF assms(1,4), of xs]
  by (simp add: vsn_integer_def fmt_number_out [OF assms(1,2,3,5)] Let_def case_prod_beta)

lemma vsn_pointer_out:
  assumes "apart_window buf e N D" "fmt_sane sp"
    and "va_arg32 (reader m |` D) args = Some (v, args')"
    and sp': "sp' = (if field_width sp = - 1 then sp\<lparr>field_width := 8, v_flags := v_flags sp OR ZEROPAD\<rparr>
                 else sp)"
    and "length (xs @ fmt_number sp' 16 (v_flags sp') (ucast v)) \<le> N"
  shows "vsn_pointer (fst (out m buf e xs)) e (snd (out m buf e xs)) sp args =
    (let (m', str') = out m buf e (xs @ fmt_number sp' 16 (v_flags sp') (ucast v)) in Some (m', str', args'))"
proof -
  have "fmt_sane sp'" using assms(2) by (auto simp: sp' fmt_sane_def)
  moreover have "(if field_width sp = - 1 then (8, v_flags sp OR ZEROPAD)
      else (field_width sp, v_flags sp)) = (field_width sp', v_flags sp')" "v_precision sp = v_precision sp'"
    by (simp_all add: sp')
  ultimately show ?thesis
    using fmt_number_out [OF assms(1), of sp' 16] assms(5)
    by (simp add: vsn_pointer_def out_va_arg32 [OF assms(1,3)] case_prod_beta Let_def)
qed

lemma vsn_convert_out:
  assumes w: "apart_window buf e N D"
    and conv: "fmt_conv (reader m |` D) fmt args = Some (ys, fmt', args')"
    and len: "length (xs @ ys) \<le> N"
  shows "vsn_convert buf e (fst (out m buf e xs)) (snd (out m buf e xs)) fmt args =
    (let (m', str') = out m buf e (xs @ ys) in Some (m', str', fmt', args'))"
proof -
  have le: "buf \<le> e" and nw: "unat buf + N < 2 ^ 32" using w by (simp_all add: apart_window_def)
  obtain sp fmt1 args1 where front: "vsn_front (reader m |` D) fmt args = Some (sp, fmt1, args1)"
    using conv unfolding fmt_conv_def by (cases "vsn_front (reader m |` D) fmt args") auto
  note conv = conv [unfolded fmt_conv_def front Option.bind.simps case_prod_conv]
  obtain c where c: "(reader m |` D) fmt1 = Some c" using conv by (cases "(reader m |` D) fmt1") simp_all
  note conv = conv [unfolded c Option.bind.simps]
  have sane: "fmt_sane sp" using conv by (rule contrapos_pp) simp
  have lx: "length xs \<le> N" using len by simp
  note unf = vsn_convert_def out_front [OF w lx front] Option.bind.simps case_prod_conv out_read_Some [OF w lx c] Let_def
  consider "c = 99" | "c = 115" | "c = 112" | "c = 37" 
    | base flags where "c \<notin> {99, 115, 112, 110, 37}" "fmt_radix c (v_flags sp) = Some (base, flags)"
    | "c \<notin> {99, 115, 112, 110, 37}" "fmt_radix c (v_flags sp) = None"
  proof -
    have "c \<noteq> 110" using conv sane by (cases "c = 110") simp_all
    then show thesis using that by (cases "fmt_radix c (v_flags sp)") auto
  qed
  then show ?thesis
  proof cases
    case 1
    then show ?thesis using conv sane len vsn_char_out [OF w sane]
      unfolding unf by (auto simp: Option.bind_eq_Some_conv case_prod_beta Let_def)
  next
    case 2
    with conv sane obtain s args2 where arg: "va_arg32 (reader m |` D) args1 = Some (s, args2)"
      by (cases "va_arg32 (reader m |` D) args1") auto
    define t where "t = (if s < 1024 then Some (take (unat (v_precision sp)) null_text)
        else read_str (reader m |` D) s (unat (v_precision sp)))"
    with 2 conv sane arg have "t \<bind> (\<lambda>xs. if length xs < 2 ^ 31 then Some (fmt_text sp xs, fmt1, args2) else None)
        = Some (ys, fmt', args')" by (simp only: Option.bind.simps case_prod_conv t_def) simp
    then obtain zs where str: "t = Some zs"
      and zs: "length zs < 2 ^ 31" "ys = fmt_text sp zs" "fmt' = fmt1" "args' = args2"
      by (cases t) (auto split: if_splits)
    note str = str [unfolded t_def]
    with 2 zs show ?thesis using len vsn_string_out [OF w sane arg str]
      unfolding unf by (simp add: case_prod_beta Let_def)
  next
    case 3
    then show ?thesis using conv sane len
      unfolding unf by (auto simp: Option.bind_eq_Some_conv case_prod_beta Let_def vsn_pointer_out [OF w sane _ refl])
  next
    case 4
    then show ?thesis using conv sane len le nw
      unfolding unf by (auto simp: emit_out case_prod_beta)
  next
    case 5
    have "base \<in> {8, 10, 16}" using 5(2) by (auto simp: fmt_radix_def split: if_splits)
    then show ?thesis using conv sane len 5
      unfolding unf by (auto simp: Option.bind_eq_Some_conv case_prod_beta Let_def fmt_radix_def vsn_integer_out [OF w sane]  split: if_split_asm)
  next
    case 6
    then show ?thesis using conv sane len le nw
      unfolding unf by (auto simp: fmt_radix_def emit_out case_prod_beta split: if_split_asm)
  qed
qed

lemma vsn_loop_out:
  assumes w: "apart_window buf e N D" and spec: "fmt_out (reader m |` D) fmt args = Some ys"
    and len: "length (xs @ ys) \<le> N"
  shows "vsn_loop buf e (fst (out m buf e xs)) (snd (out m buf e xs)) fmt args = Some (out m buf e (xs @ ys))"
proof (rule fmt_out.raw_induct [of "\<lambda>rd fmt args ys. rd = reader m |` D \<longrightarrow>
      (\<forall>xs. length (xs @ ys) \<le> N \<longrightarrow>
        vsn_loop buf e (fst (out m buf e xs)) (snd (out m buf e xs)) fmt args = Some (out m buf e (xs @ ys)))",
      rule_format, OF _ spec refl len], goal_cases)
  case (1 f rd fmt args ys xs)
  then have IH: "vsn_loop buf e (fst (out m buf e zs)) (snd (out m buf e zs)) fmt args = Some (out m buf e (zs @ us))"
    if "f rd fmt args = Some us" "length (zs @ us) \<le> N" for fmt args us zs
    using that by blast
  have le: "buf \<le> e" and nw: "unat buf + N < 2 ^ 32" using w by (simp_all add: apart_window_def)
  obtain c where c: "(reader m |` D) fmt = Some c" using 1(2,3) by (cases "(reader m |` D) fmt") auto
  note step = 1(2) [unfolded 1(3) c Option.bind.simps]
  have "length xs \<le> N" using 1(4) by simp
  note read = out_read_Some [OF w this c]
  show ?case
  proof (cases "c = 37")
    case True
    with step 1(3) obtain zs fmt' args' us where conv: "fmt_conv (reader m |` D) fmt args = Some (zs, fmt', args')"
      and us: "f rd (fmt' + 1) args' = Some us" "ys = zs @ us"
      by (auto simp: Option.bind_eq_Some_conv)
    then have "vsn_convert buf e (fst (out m buf e xs)) (snd (out m buf e xs)) fmt args =
        Some (fst (out m buf e (xs @ zs)), snd (out m buf e (xs @ zs)), fmt', args')"
      using vsn_convert_out [OF w conv, of xs] 1(4) by (simp add: case_prod_beta Let_def)
    then show ?thesis using True read IH [OF us(1), of "xs @ zs"] us 1(4)
      by (subst vsn_loop.simps) simp
  next
    case False
    show ?thesis
    proof (cases "c = 0")
      case True
      then show ?thesis using read step by (subst vsn_loop.simps) simp
    next
      case nz: False
      with step 1(3) False obtain us where us: "f rd (fmt + 1) args = Some us" "ys = c # us"
        by (auto simp: Option.bind_eq_Some_conv)
      then show ?thesis using False nz read le nw IH [OF us(1), of "xs @ [c]"] us 1(4)
        by (subst vsn_loop.simps) (simp add: emit_out case_prod_beta Let_def)
    qed
  qed
qed

lemma sint_of_small: "unat (x :: u32) < 2 ^ 31 \<Longrightarrow> sint x = int (unat x)"
proof -
  assume "unat x < 2 ^ 31"
  then have "uint x < 2 ^ 31" by (simp add: nat_less_iff flip: nat_uint_eq)
  moreover have "- (2 ^ 31) \<le> uint x" by (rule order_trans [of _ 0]) simp_all
  ultimately show ?thesis by (simp add: sint_uint signed_take_bit_int_eq_self)
qed

lemma vsnprintf_out:
  assumes spec: "fmt_out (reader m |` D) fmt args = Some ys"
    and D: "\<forall>a\<in>D. \<not> in_region buf (min (length ys) (unat sz)) a"
    and sz: "0 < unat sz" "unat sz < 2 ^ 31"
    and buf: "buf \<noteq> NULL" "unat buf + unat sz \<le> 2 ^ 32" "unat buf + length ys < 2 ^ 32"
  shows "vsnprintf m buf sz fmt args =
    Some (store_bytes m buf (take (unat sz - 1) ys @ [0]), of_nat (length ys))"
proof -
  define n where "n = unat sz - 1"
  have n: "unat sz = Suc n" "sz - 1 = of_nat n" "unat buf + n < 2 ^ 32"
    using sz buf by (simp_all add: n_def of_nat_diff)
  define e where "e = buf + sz - 1"
  have e: "e = buf + of_nat n" using n by (simp add: e_def flip: n(2))
  then have "unat e = unat buf + n" using ptr_offset_unat n by simp
  then have le: "buf \<le> e" by (simp add: word_le_nat_alt)
  have win: "unat (e - buf) = n" using n by (simp add: e u32_of_nat_less)
  have neg: "\<not> sz <s 0" using sint_of_small [OF sz(2)] by (simp add: word_sless_alt)
  have "buf - 1 < buf" using buf(1) by (simp add: word_less_nat_alt unat_minus_one_u32 unat_gt_0)
  then have ne: "\<not> e < buf - 1" using le by simp
  have w: "apart_window buf e (length ys) D"
    using le D buf(3) by (simp add: apart_window_def win n(1))
  have loop: "vsn_loop buf e m buf fmt args = Some (out m buf e ys)"
    using vsn_loop_out [OF w spec, of "[]"] buf by (simp add: out_def)
  have "sz > 0" using sz by (simp add: word_less_nat_alt)
  show ?thesis
  proof (cases "length ys < Suc n")
    case True
    then show ?thesis using loop window_le [OF le buf(3)] win neg ne
      by (simp add: vsnprintf_def e_def [symmetric] out_def n store_bytes_append Let_def)
  next
    case False
    then have "take (Suc n) ys = take n ys @ [ys ! n]" "length (take n ys) = n"
      by (simp_all add: take_Suc_conv_app_nth)
    then show ?thesis using loop window_le [OF le buf(3)] win neg ne False \<open>sz > 0\<close>
      by (simp add: vsnprintf_def e_def [symmetric] out_def n store_bytes_append Let_def) (simp add: e)
  qed
qed

section \<open>Reading numbers back\<close>

lemma strtoul_loop_bytes:
  assumes "bytes_at m cp (xs @ [t])" "\<forall>x\<in>set xs. isxdigit x \<and> strtoul_value x < base"
    and "\<not> (isxdigit t \<and> strtoul_value t < base)"
  shows "strtoul_loop m cp base r = Some (foldl (\<lambda>r x. r * base + strtoul_value x) r xs, cp + of_nat (length xs))"
  using assms
proof (induction xs arbitrary: cp r)
  case Nil
  then show ?case by (subst strtoul_loop.simps) auto
next
  case (Cons x xs)
  then show ?case by (subst strtoul_loop.simps) (simp add: add_ac)
qed

lemma digit_chars:
  assumes "d < 16"
  shows "isxdigit (small_digits ! d)" "strtoul_value (small_digits ! d) = of_nat d"
    "small_digits ! d \<noteq> 45" "toupper (small_digits ! d) \<noteq> 88"
proof -
  have "\<forall>d\<in>{..<16}. isxdigit (small_digits ! d) \<and> strtoul_value (small_digits ! d) = of_nat d \<and>
      small_digits ! d \<noteq> 45 \<and> toupper (small_digits ! d) \<noteq> 88"
    by code_simp
  with assms show "isxdigit (small_digits ! d)" "strtoul_value (small_digits ! d) = of_nat d"
    "small_digits ! d \<noteq> 45" "toupper (small_digits ! d) \<noteq> 88" by auto
qed

lemma fold_of_nat:
  "foldl (\<lambda>r d. r * b + of_nat d) (of_nat r0) ds = (of_nat (foldl (\<lambda>r d. r * unat b + d) r0 ds) :: u32)"
proof (induction ds arbitrary: r0)
  case (Cons d ds)
  show ?case using Cons.IH [of "r0 * unat b + d"] by simp
qed simp

lemma strtoul_digits:
  assumes at: "bytes_at m p (map ((!) small_digits) (digits_of (unat base) n) @ [t])"
    and base: "2 \<le> unat base" "unat base \<le> 16" and t: "\<not> isxdigit t" "toupper t \<noteq> 88"
  shows "simple_strtoul m p base = Some (of_nat n, p + of_nat (length (digits_of (unat base) n)))"
proof -
  define ds where "ds = digits_of (unat base) n"
  have ds: "\<forall>d\<in>set ds. d < unat base" using digits_of_less base by (simp add: ds_def)
  have ok: "\<forall>x\<in>set (map ((!) small_digits) ds). isxdigit x \<and> strtoul_value x < base"
    using ds base digit_chars by (auto simp: word_less_nat_alt unsigned_of_nat take_bit_nat_eq_self)
  have ne: "ds \<noteq> []" using base by (auto simp: ds_def digits_of_def digits_rev.simps)
  have pre: "strto_prefix m p base = (base, p)"
  proof -
    have "toupper (m (p + 1)) \<noteq> 88"
    proof (cases "tl ds")
      case Nil
      then have "m (p + 1) = t" using at ne by (cases ds) (auto simp: ds_def [symmetric])
      then show ?thesis using t by simp
    next
      case (Cons d ds')
      then have "d \<in> set ds" "m (p + 1) = small_digits ! d"
        using at ne by (cases ds; auto simp: ds_def [symmetric])+
      then show ?thesis using ds base digit_chars(4) [of d] by auto
    qed
    then show ?thesis using base by (auto simp: strto_prefix_def)
  qed
  have "foldl (\<lambda>r x. r * base + strtoul_value x) 0 (map ((!) small_digits) ds) =
      foldl (\<lambda>r d. r * base + of_nat d) (of_nat 0) ds"
    using ds base digit_chars(2) by (auto simp: foldl_map intro!: foldl_cong)
  also have "\<dots> = of_nat n"
    using digits_of_value [OF base(1), of n] by (simp only: fold_of_nat ds_def)
  finally have "foldl (\<lambda>r x. r * base + strtoul_value x) 0 (map ((!) small_digits) ds) = of_nat n" .
  then show ?thesis
    using strtoul_loop_bytes [OF at [folded ds_def] ok, of 0] pre t
    by (simp add: simple_strtoul_def ds_def)
qed

lemma number_list_plain:
  "number_list num base (- 1) (- 1) ty = number_sign num ty @ number_prefix base ty @ number_digits num base ty"
  by (simp add: number_list_def pad_lists_def Let_def)

lemma number_fits:
  assumes "2 \<le> sint base" "sint base \<le> 36" "buf \<le> e" "66 \<le> unat (e - buf)"
    and "number m buf e num base (- 1) (- 1) SIGN = Some (m', str)"
  shows "m'(str := 0) = store_bytes m buf (number_sign num SIGN @ number_digits num base SIGN @ [0]) \<and>
    str = buf + of_nat (length (number_sign num SIGN @ number_digits num base SIGN))"
proof -
  define xs where "xs = number_sign num SIGN @ number_digits num base SIGN"
  have "number_prefix base SIGN = []" by (simp add: number_prefix_def has_flag_def flag_defs)
  then have list: "number_list num base (- 1) (- 1) SIGN = xs" by (simp add: number_list_plain xs_def)
  have len: "length xs \<le> 65"
    using number_part_lengths(1) [of num base SIGN] number_part_lengths(2) [of num SIGN]
    by (simp add: xs_def)
  moreover have "unat buf + 66 \<le> unat e"
    using assms(3,4) by (simp add: unat_sub word_le_nat_alt)
  ultimately have "unat buf + length ([] @ xs) < 2 ^ 32" using unat_u32_less [of e] by simp
  from emit_list_out [OF assms(3) this, of m] len assms(4)
  have "emit_list m e buf xs = (store_bytes m buf xs, buf + of_nat (length xs))"
    by (simp add: out_def)
  moreover have "number m buf e num base (- 1) (- 1) SIGN = Some (emit_list m e buf xs)"
    using number_emit [of base "- 1" "- 1"] assms(1,2) by (simp add: list)
  ultimately have "m' = store_bytes m buf xs" "str = buf + of_nat (length xs)" using assms(5) by simp_all
  moreover have "number_sign num SIGN @ number_digits num base SIGN @ [0] = xs @ [0]" by (simp add: xs_def)
  ultimately show ?thesis by (simp add: store_bytes_append xs_def add_ac)
qed

lemma sint_scast_s32_u64: "sint (scast (v :: s32) :: u64) = sint v"
  by (rule sint_up_scast) (simp add: is_up)

lemma ucast_down_uminus: "(ucast (- x :: u64) :: u32) = - ucast x"
proof -
  have "uint (- x) = take_bit 64 (- uint x)" by (simp add: uint_word_ariths take_bit_eq_mod)
  then have t: "take_bit 32 (uint (- x)) = take_bit 32 (- uint x)" by (simp add: take_bit_take_bit)
  have "ucast (- x) = (word_of_int (uint (- x)) :: u32)" by simp
  also have "\<dots> = word_of_int (- uint x)"
    using t by (simp only: word_of_int_eq_iff) simp
  finally show ?thesis by simp
qed

lemma ucast_scast_s32_u64: "(ucast (scast (v :: s32) :: u64) :: u32) = v"
  by (rule bit_word_eqI) (simp add: bit_simps)

lemma has_flag_SIGN [simp]:
  "has_flag SIGN SIGN" "\<not> has_flag SIGN LARGE" "\<not> has_flag SIGN PLUS" "\<not> has_flag SIGN SPACE"
  "\<not> has_flag SIGN SPECIAL"
  by (simp_all add: has_flag_def flag_defs)

lemma number_neg_s32: "number_neg (scast (v :: s32)) SIGN \<longleftrightarrow> sint v < 0"
  by (simp add: number_neg_def has_flag_def flag_defs word_sless_alt sint_scast_s32_u64)

lemma number_digits_SIGN:
  "number_digits (scast (v :: s32)) base SIGN =
    map ((!) small_digits) (digits_of (unat base) (unat (if sint v < 0 then - scast v else scast v :: u64)))"
  by (simp add: number_digits_def number_neg_s32 number_table_def)

lemma digits_of_ne: "2 \<le> b \<Longrightarrow> digits_of b n \<noteq> []"
  by (auto simp: digits_of_def digits_rev.simps)

lemma NUL_stops: "\<not> isxdigit 0" "toupper (0 :: u8) \<noteq> 88"
  by code_simp+

lemma strtol_number:
  assumes base: "2 \<le> unat base" "unat base \<le> 16"
    and at: "bytes_at m buf (number_sign (scast (v :: s32)) SIGN @ number_digits (scast v) base SIGN @ [t])"
    and t: "\<not> isxdigit t" "toupper t \<noteq> 88"
  shows "simple_strtol m buf base =
    Some (v, buf + of_nat (length (number_sign (scast v) SIGN @ number_digits (scast v) base SIGN)))"
proof (cases "sint v < 0")
  case True
  then have sign: "number_sign (scast v) SIGN = [45]" by (simp add: number_sign_def number_neg_s32)
  with at have "m buf = 45" "bytes_at m (buf + 1) (number_digits (scast v) base SIGN @ [t])" by auto
  moreover from strtoul_digits [OF this(2) [unfolded number_digits_SIGN] base t] True
  have "simple_strtoul m (buf + 1) base = Some (- v, buf + 1 + of_nat (length (number_digits (scast v) base SIGN)))"
    by (simp add: number_digits_SIGN ucast_down_uminus ucast_scast_s32_u64)
  ultimately show ?thesis by (simp add: simple_strtol_def sign add_ac)
next
  case False
  then have sign: "number_sign (scast v) SIGN = []"
    by (simp add: number_sign_def number_neg_s32)
  obtain d ds where ds: "digits_of (unat base) (unat (scast v :: u64)) = d # ds"
    using digits_of_ne [OF base(1)] by (cases "digits_of (unat base) (unat (scast v :: u64))") auto
  then have "d < 16" using digits_of_less [OF base(1), of d "unat (scast v :: u64)"] base by simp
  then have "m buf \<noteq> 45" using at False ds digit_chars(3) by (simp add: sign number_digits_SIGN)
  moreover from at strtoul_digits [OF _ base t, of m buf "unat (scast v :: u64)"] False
  have "simple_strtoul m buf base = Some (v, buf + of_nat (length (number_digits (scast v) base SIGN)))"
    by (simp add: sign number_digits_SIGN ucast_scast_s32_u64)
  ultimately show ?thesis by (simp add: simple_strtol_def sign)
qed

section \<open>Properties\<close>


lemma below_region: "a < p \<Longrightarrow> unat p + n \<le> 2 ^ 32 \<Longrightarrow> \<not> in_region p n a"
  using ptr_offset_unat [of p] by (auto simp: in_region_ex word_less_nat_alt)

definition demo_mem :: mem where
  "demo_mem = store_bytes (store_bytes (\<lambda>_. 0) 0x1000 [37, 120, 0]) 0x1100 [255, 0, 0, 0]"

definition demo_reader :: reader where
  "demo_reader = reader demo_mem |` {a. a < 0x2000}"

lemma demo_read:
  "demo_reader 0x1000 = Some 37" "demo_reader 0x1001 = Some 120" "demo_reader 0x1002 = Some 0"
  "demo_reader 0x1100 = Some 255" "demo_reader 0x1101 = Some 0"
  "demo_reader 0x1102 = Some 0" "demo_reader 0x1103 = Some 0"
  by (simp_all add: demo_reader_def demo_mem_def reader_def)

lemma demo_front:
  "vsn_front demo_reader 0x1000 0x1100 = Some
    (\<lparr> v_flags = 0, field_width = - 1, v_precision = - 1, qualifier = - 1 \<rparr>, 0x1001, 0x1100)"
  by (simp add: vsn_front_def vsn_flags.simps [of _ "0x1000"] demo_read vsn_width_def vsn_precision_def
      vsn_qualifier_def isdigit_range Let_def)

lemma demo_number: "number_list 0xff 16 (- 1) (- 1) 0 = [102, 102]"
  by code_simp

lemma demo_conv: "fmt_conv demo_reader 0x1000 0x1100 = Some ([102, 102], 0x1001, 0x1104)"
  by (simp add: fmt_conv_def demo_front demo_read fmt_sane_def fmt_radix_def vsn_int_arg_def va_arg32_def
      load32_def has_flag_def) (simp add: fmt_number_def demo_number)

lemma demo_out: "fmt_out demo_reader 0x1000 0x1100 = Some [102, 102]"
  by (simp add: fmt_out.simps [of _ "0x1000"] fmt_out.simps [of _ "0x1002"] demo_read demo_conv)


text \<open>
  C22: a number printed in any base from 2 to 16 reads back.  After \<open>number\<close> has written a signed 32-bit value
  into a buffer of at least 67 bytes and a NUL has been put at the pointer it returns, \<open>simple_strtol\<close> in the
  same base returns the value and stops at that NUL.
\<close>

theorem number_strtol_roundtrip:
  assumes "2 \<le> sint base" "sint base \<le> 16" "buf \<le> e" "66 \<le> unat (e - buf)"
    and "number m buf e (scast (v :: s32)) base (- 1) (- 1) SIGN = Some (m', str)"
  shows "simple_strtol (m'(str := 0)) buf base = Some (v, str)"
proof -
  have base: "2 \<le> unat base" "unat base \<le> 16"
    using assms(1,2) sint_nonneg_unat [of base] by linarith+
  let ?xs = "number_sign (scast v) SIGN @ number_digits (scast v) base SIGN"
  have fits: "m'(str := 0) = store_bytes m buf (?xs @ [0])" "str = buf + of_nat (length ?xs)"
    using number_fits [OF assms(1) _ assms(3,4,5)] assms(2) by (simp_all only: append_assoc) auto
  have "length (?xs @ [0]) \<le> 2 ^ 32"
    using number_part_lengths(1) [of "scast v" base SIGN] number_part_lengths(2) [of "scast v" SIGN] by simp
  then have "bytes_at (m'(str := 0)) buf (?xs @ [0])" unfolding fits(1) by (rule bytes_at_store)
  then show ?thesis using strtol_number [OF base, of "m'(str := 0)" buf v 0] NUL_stops fits(2) by simp
qed

theorem number_strtol_roundtrip_witness:
  "\<exists>m' str. number (\<lambda>_. 0) 0x1000 0x10ff (scast (- 42 :: s32)) 10 (- 1) (- 1) SIGN = Some (m', str) \<and>
    simple_strtol (m'(str := 0)) 0x1000 10 = Some (- 42, str)"
proof -
  have "number (\<lambda>_. 0) 0x1000 0x10ff (scast (- 42 :: s32)) 10 (- 1) (- 1) SIGN = Some
      (emit_list (\<lambda>_. 0) 0x10ff 0x1000 (number_list (scast (- 42 :: s32)) 10 (- 1) (- 1) SIGN))"
    by (rule number_emit) simp_all
  with number_strtol_roundtrip [of 10 "0x1000" "0x10ff" "\<lambda>_. 0" "- 42"] show ?thesis
    by (cases "emit_list (\<lambda>_. 0) 0x10ff 0x1000 (number_list (scast (- 42 :: s32)) 10 (- 1) (- 1) SIGN)") simp
qed

text \<open>
  C33: the digit buffer \<open>tmp[66]\<close> of \<open>number\<close> never overflows and the digit loop ends: for every base of at least
  two the loop yields the digits of the 64-bit number, least significant first, and at most 64 of them.
\<close>

theorem digit_loop_fits:
  assumes "2 \<le> unat base"
  shows "\<exists>tmp. digit_loop digits num base [] = Some tmp \<and> length tmp \<le> 64 \<and>
    tmp = map ((!) digits) (digits_rev (unat base) (unat num)) \<and>
    foldr (\<lambda>d acc. d + acc * unat base) (digits_rev (unat base) (unat num)) 0 = unat num"
proof -
  have "unat num < 2 ^ 64" using unsigned_less [of num] by simp
  then show ?thesis
    using digit_loop_digits [OF assms, of digits num "[]"] length_digits_rev digits_rev_value [OF assms]
    by auto
qed

theorem digit_loop_fits_witness:
  "\<exists>tmp. digit_loop small_digits (- 1) 2 [] = Some tmp \<and> length tmp \<le> 64"
  using digit_loop_fits [of 2 small_digits "- 1"] by auto

text \<open>
  A size of zero is not safe.  \<open>snprintf(NULL, 0, ...)\<close>, the ISO C idiom for measuring an output, writes the
  output from address 0 on, because \<open>end\<close> wraps to the top of the address space.
\<close>

lemma snprintf_null_writes_low_memory:
  "snprintf ((\<lambda>_. 0)(0x1000 := 65)) NULL 0 0x1000 0x2000 = Some ((\<lambda>_. 0)(0x1000 := 65, 0 := 65, 1 := 0), 1)"
  by (simp add: snprintf_def vsnprintf_def vsn_loop.simps [of _ _ _ _ "0x1000"] vsn_loop.simps [of _ _ _ _ "0x1001"]
      emit_def word_sless_alt Let_def)

text \<open>
  \<open>vscnprintf\<close> and \<open>scnprintf\<close> return -1 for a size of zero whenever the output is computed, although their
  description says that they return 0 then; for every other size the result is less than the size.
\<close>

lemma vscnprintf_result:
  assumes "vscnprintf m buf sz fmt args = Some (m', r)"
  shows "(sz = 0 \<longrightarrow> r = - 1) \<and> (sz \<noteq> 0 \<longrightarrow> r < sz) \<and>
    scnprintf m buf sz fmt args = Some (m', r)"
proof -
  obtain i where i: "vsnprintf m buf sz fmt args = Some (m', i)" "r = (if sz \<le> i then sz - 1 else i)"
    using assms by (auto simp: vscnprintf_def Option.bind_eq_Some_conv)
  then show ?thesis using assms
    by (auto simp: vscnprintf_def scnprintf_def word_less_nat_alt word_le_nat_alt unat_minus_one_u32 unat_gt_0)
qed

lemma vscnprintf_result_witness:
  "\<exists>m'. vscnprintf (\<lambda>_. 0) 0x1000 0 0x2000 0x3000 = Some (m', - 1)"
proof -
  have "vscnprintf (\<lambda>_. 0) 0x1000 0 0x2000 0x3000 = Some (\<lambda>_. 0, - 1)"
    by (simp add: vscnprintf_def vsnprintf_def vsn_loop.simps [of _ _ _ _ "0x2000"] Let_def)
  with vscnprintf_result [OF this] show ?thesis by blast
qed

end
