(* ===== verification/Sscanf.thy ===== *)
theory Sscanf
  imports Format
begin

text \<open>
  Formatted input, \<open>vsscanf\<close> and \<open>sscanf\<close> of \<open>no-os/stdio/lib/vsprintf.c\<close>.  One turn of the scanning loop is a
  function that either ends the scan or gives the state of the next turn; the results of \<open>simple_strtol\<close> and
  its variants are stored through pointers taken from the argument area, so the memory is threaded through.
\<close>

section \<open>The model\<close>

partial_function (option) skip_space :: "mem \<Rightarrow> ptr \<Rightarrow> ptr option" where
  "skip_space m p = (if isspace (m p) then skip_space m (p + 1) else Some p)"

partial_function (option) skip_word :: "mem \<Rightarrow> ptr \<Rightarrow> ptr option" where
  "skip_word m p = (if \<not> isspace (m p) \<and> m p \<noteq> 0 then skip_word m (p + 1) else Some p)"

text \<open>The end of the scan with its count, or the next turn.\<close>

datatype scan = Done mem s32 | More mem ptr ptr ptr s32

definition scan_qualifier :: "mem \<Rightarrow> ptr \<Rightarrow> u8 option \<times> ptr" where
  "scan_qualifier m fmt =
     (let c = m fmt in
      if c = 104 \<or> c = 108 \<or> c = 76 \<or> c = 90 \<or> c = 122 then
        (let fmt = fmt + 1 in
         if c = m fmt then
           (if c = 104 then (Some 72, fmt + 1) else if c = 108 then (Some 76, fmt + 1) else (Some c, fmt))
         else (Some c, fmt))
      else (None, fmt))"

partial_function (option) scan_chars :: "mem \<Rightarrow> ptr \<Rightarrow> ptr \<Rightarrow> s32 \<Rightarrow> (mem \<times> ptr) option" where
  "scan_chars m s str fw =
     (let m' = m(s := m str); w = fw - 1 in
      if 0 <s w \<and> m' (str + 1) \<noteq> 0 then scan_chars m' (s + 1) (str + 1) w else Some (m', str + 1))"

partial_function (option) scan_string :: "mem \<Rightarrow> ptr \<Rightarrow> ptr \<Rightarrow> s32 \<Rightarrow> (mem \<times> ptr) option" where
  "scan_string m s str fw =
     (if m str \<noteq> 0 \<and> \<not> isspace (m str) \<and> fw \<noteq> 0
      then scan_string (m(s := m str)) (s + 1) (str + 1) (fw - 1)
      else Some (m(s := 0), str))"

text \<open>Whether an integer of the base can start at \<open>str\<close>.\<close>

definition scan_digit_ok :: "mem \<Rightarrow> ptr \<Rightarrow> s32 \<Rightarrow> bool \<Rightarrow> bool" where
  "scan_digit_ok m str base is_sign =
     (let digit = (if is_sign \<and> m str = 45 then m (str + 1) else m str) in
      \<not> (digit = 0 \<or> base = 16 \<and> \<not> isxdigit digit \<or> base = 10 \<and> \<not> isdigit digit
         \<or> base = 8 \<and> (\<not> isdigit digit \<or> digit > 55) \<or> base = 0 \<and> \<not> isdigit digit))"

definition store16 :: "mem \<Rightarrow> ptr \<Rightarrow> u32 \<Rightarrow> mem" where
  "store16 m p v = store_bytes m p [ucast v, ucast (drop_bit 8 v)]"

definition store64 :: "mem \<Rightarrow> ptr \<Rightarrow> u64 \<Rightarrow> mem" where
  "store64 m p v = store32 (store32 m p (ucast v)) (p + 4) (ucast (drop_bit 32 v))"

definition scan_strto :: "mem \<Rightarrow> ptr \<Rightarrow> s32 \<Rightarrow> bool \<Rightarrow> (u32 \<times> ptr) option" where
  "scan_strto m str base is_sign = (if is_sign then simple_strtol m str base else simple_strtoul m str base)"

text \<open>Convert, store through the next argument, and continue where the number ended.\<close>

definition scan_store ::
  "mem \<Rightarrow> ptr \<Rightarrow> ptr \<Rightarrow> u8 option \<Rightarrow> s32 \<Rightarrow> bool \<Rightarrow> (mem \<times> ptr \<times> ptr) option" where
  "scan_store m str args q base is_sign = do {
     (p, args) \<leftarrow> va_arg32 (reader m) args;
     if q = Some 72 then do {
       (v, next) \<leftarrow> scan_strto m str base is_sign; Some (m(p := ucast v), next, args) }
     else if q = Some 104 then do {
       (v, next) \<leftarrow> scan_strto m str base is_sign; Some (store16 m p v, next, args) }
     else if q = Some 108 then do {
       (v, next) \<leftarrow> scan_strto m str base is_sign; Some (store32 m p v, next, args) }
     else if q = Some 76 then do {
       (v, next) \<leftarrow> (if is_sign then simple_strtoll m str base else simple_strtoull m str base);
       Some (store64 m p v, next, args) }
     else if q = Some 90 \<or> q = Some 122 then do {
       (v, next) \<leftarrow> simple_strtoul m str base; Some (store32 m p v, next, args) }
     else do {
       (v, next) \<leftarrow> scan_strto m str base is_sign; Some (store32 m p v, next, args) } }"

definition scan_int ::
  "mem \<Rightarrow> ptr \<Rightarrow> ptr \<Rightarrow> ptr \<Rightarrow> s32 \<Rightarrow> u8 option \<Rightarrow> s32 \<Rightarrow> bool \<Rightarrow> scan option" where
  "scan_int m str fmt args num q base is_sign = do {
     str \<leftarrow> skip_space m str;
     if \<not> scan_digit_ok m str base is_sign then Some (Done m num)
     else do {
       (m, next, args) \<leftarrow> scan_store m str args q base is_sign;
       if next = NULL then Some (Done m (num + 1)) else Some (More m next fmt args (num + 1)) } }"

text \<open>The conversion character at \<open>fmt\<close> has not been skipped yet.\<close>

definition scan_conv ::
  "ptr \<Rightarrow> mem \<Rightarrow> ptr \<Rightarrow> ptr \<Rightarrow> ptr \<Rightarrow> s32 \<Rightarrow> s32 \<Rightarrow> u8 option \<Rightarrow> scan option" where
  "scan_conv buf m str fmt args num fw q = do {
     let c = m fmt;
     let fmt = fmt + 1;
     if c = 99 then do {
       (s, args) \<leftarrow> va_arg32 (reader m) args;
       (m, str) \<leftarrow> scan_chars m s str (if fw = - 1 then 1 else fw);
       Some (More m str fmt args (num + 1)) }
     else if c = 115 then do {
       (s, args) \<leftarrow> va_arg32 (reader m) args;
       str \<leftarrow> skip_space m str;
       (m, str) \<leftarrow> scan_string m s str (if fw = - 1 then 0x7fffffff else fw);
       Some (More m str fmt args (num + 1)) }
     else if c = 110 then do {
       (i, args) \<leftarrow> va_arg32 (reader m) args;
       Some (More (store32 m i (str - buf)) str fmt args num) }
     else if c = 111 then scan_int m str fmt args num q 8 False
     else if c = 120 \<or> c = 88 then scan_int m str fmt args num q 16 False
     else if c = 105 then scan_int m str fmt args num q 0 True
     else if c = 100 then scan_int m str fmt args num q 10 True
     else if c = 117 then scan_int m str fmt args num q 10 False
     else if c = 37 then Some (if m str \<noteq> 37 then Done m num else More m (str + 1) fmt args num)
     else Some (Done m num) }"

definition scan_turn :: "ptr \<Rightarrow> mem \<Rightarrow> ptr \<Rightarrow> ptr \<Rightarrow> ptr \<Rightarrow> s32 \<Rightarrow> scan option" where
  "scan_turn buf m str fmt args num = do {
     (fmt, str) \<leftarrow> (if isspace (m fmt) then do {
          fmt \<leftarrow> skip_space m fmt; str \<leftarrow> skip_space m str; Some (fmt, str) }
        else Some (fmt, str));
     if m fmt \<noteq> 37 \<and> m fmt \<noteq> 0 then
       Some (if m fmt \<noteq> m str then Done m num else More m (str + 1) (fmt + 1) args num)
     else if m fmt = 0 then Some (Done m num)
     else do {
       let fmt = fmt + 1;
       if m fmt = 42 then do {
         fmt \<leftarrow> skip_word m fmt; str \<leftarrow> skip_word m str; Some (More m str fmt args num) }
       else do {
         (fw, fmt) \<leftarrow> (if isdigit (m fmt) then skip_atoi (reader m) fmt else Some (- 1, fmt));
         let (q, fmt) = scan_qualifier m fmt;
         if m fmt = 0 \<or> m str = 0 then Some (Done m num)
         else scan_conv buf m str fmt args num fw q } } }"

partial_function (option) scan_loop :: "ptr \<Rightarrow> mem \<Rightarrow> ptr \<Rightarrow> ptr \<Rightarrow> ptr \<Rightarrow> s32 \<Rightarrow> (mem \<times> s32) option" where
  "scan_loop buf m str fmt args num =
     (if m fmt \<noteq> 0 \<and> m str \<noteq> 0 then do {
        r \<leftarrow> scan_turn buf m str fmt args num;
        (case r of Done m' n \<Rightarrow> Some (m', n)
         | More m' str' fmt' args' num' \<Rightarrow> scan_loop buf m' str' fmt' args' num') }
      else Some (m, num))"

definition vsscanf :: "mem \<Rightarrow> ptr \<Rightarrow> ptr \<Rightarrow> ptr \<Rightarrow> (mem \<times> s32) option" where
  "vsscanf m buf fmt args = scan_loop buf m buf fmt args 0"

definition sscanf :: "mem \<Rightarrow> ptr \<Rightarrow> ptr \<Rightarrow> ptr \<Rightarrow> (mem \<times> s32) option" where
  "sscanf m buf fmt args = vsscanf m buf fmt args"

section \<open>Scanning numbers\<close>

lemma separate_nowrap:
  assumes "unat p + n \<le> unat q \<or> unat q + k \<le> unat p" "unat p + n \<le> 2 ^ 32" "unat q + k \<le> 2 ^ 32"
  shows "separate p n q k"
  unfolding separate_def
proof (intro allI notI)
  fix a assume "in_region p n a \<and> in_region q k a"
  then obtain i j where "i < n" "j < k" "p + of_nat i = q + of_nat j" by (auto simp: in_region_ex)
  then show False using offset_neq [of p i q j] assms by auto
qed

lemma bytes_at_store_other:
  "separate q (length ys) p (length xs) \<Longrightarrow> bytes_at (store_bytes m q ys) p xs \<longleftrightarrow> bytes_at m p xs"
  by (rule bytes_at_cong) (auto simp: separate_def intro!: store_bytes_other)

lemma store32_other: "\<not> in_region p 4 a \<Longrightarrow> store32 m p v a = m a"
  unfolding store32_def by (rule store_bytes_other) (simp add: eval_nat_numeral)

lemma bytes_at_store32_other:
  "separate p 4 q (length xs) \<Longrightarrow> bytes_at (store32 m p v) q xs \<longleftrightarrow> bytes_at m q xs"
  unfolding store32_def by (rule bytes_at_store_other) (simp add: eval_nat_numeral)

lemma load32_store32_other:
  "separate p 4 q 4 \<Longrightarrow> load32 (reader (store32 m p v)) q = load32 (reader m) q"
proof -
  assume s: "separate p 4 q 4"
  have "q + of_nat i = q + of_nat i \<and> \<not> in_region p 4 (q + of_nat i)" if "i < 4" for i
    using separateD [OF separate_sym [OF s], of "q + of_nat i"] that by (simp add: in_region_offset)
  from this [of 0] this [of 1] this [of 2] this [of 3] show ?thesis
    by (simp add: load32_def reader_def store32_other)
qed

text \<open>A signed decimal number as text.\<close>

definition decimal :: "s32 \<Rightarrow> u8 list" where
  "decimal v = number_sign (scast v) SIGN @ number_digits (scast v) 10 SIGN"

lemma small_digit_decimal: "d < 10 \<Longrightarrow> isdigit (small_digits ! d) \<and> \<not> isspace (small_digits ! d)"
proof -
  have "\<forall>d\<in>{..<10}. isdigit (small_digits ! d) \<and> \<not> isspace (small_digits ! d)" by code_simp
  then show "d < 10 \<Longrightarrow> isdigit (small_digits ! d) \<and> \<not> isspace (small_digits ! d)" by simp
qed

lemma decimal_start:
  obtains c cs where "decimal v = c # cs" "c = 45 \<longrightarrow> cs \<noteq> [] \<and> isdigit (hd cs)" "c \<noteq> 45 \<longrightarrow> isdigit c"
    "\<not> isspace c" "c \<noteq> 0"
proof -
  let ?ds = "digits_of 10 (unat (if sint v < 0 then - scast v else scast v :: u64))"
  obtain d ds where ds: "?ds = d # ds" using digits_of_ne [of 10] by (cases ?ds) auto
  then have "d < 10" using digits_of_less [of 10 d "unat (if sint v < 0 then - scast v else scast v :: u64)"] by simp
  then have d: "isdigit (small_digits ! d)" "\<not> isspace (small_digits ! d)"
    using small_digit_decimal by simp_all
  have ne: "small_digits ! d \<noteq> 45" "small_digits ! d \<noteq> 0" using d(1) by (auto simp: isdigit_range)
  have digits: "number_digits (scast v) 10 SIGN = small_digits ! d # map ((!) small_digits) ds"
    using ds by (simp add: number_digits_SIGN)
  show thesis
  proof (cases "sint v < 0")
    case True
    then show thesis using d digits that [of 45 "small_digits ! d # map ((!) small_digits) ds"]
      by (simp add: decimal_def number_sign_def number_neg_s32 isspace_range)
  next
    case False
    then show thesis using d ne digits that [of "small_digits ! d" "map ((!) small_digits) ds"]
      by (simp add: decimal_def number_sign_def number_neg_s32)
  qed
qed

lemma skip_space_stop: "\<not> isspace (m p) \<Longrightarrow> skip_space m p = Some p"
  by (subst skip_space.simps) simp

lemma decimal_strtol:
  assumes "bytes_at m str (decimal v @ [t])" "\<not> isxdigit t" "toupper t \<noteq> 88"
  shows "simple_strtol m str 10 = Some (v, str + of_nat (length (decimal v)))"
  using strtol_number [of 10 m str v t] assms by (simp add: decimal_def)

lemma scan_int_decimal:
  assumes at: "bytes_at m str (decimal v @ [t])" "\<not> isxdigit t" "toupper t \<noteq> 88"
    and arg: "load32 (reader m) args = Some p"
    and nw: "str + of_nat (length (decimal v)) \<noteq> NULL"
  shows "scan_int m str fmt args num None 10 True =
    Some (More (store32 m p v) (str + of_nat (length (decimal v))) fmt (args + 4) (num + 1))"
proof -
  obtain c cs where d: "decimal v = c # cs" "c = 45 \<longrightarrow> cs \<noteq> [] \<and> isdigit (hd cs)" "c \<noteq> 45 \<longrightarrow> isdigit c"
    "\<not> isspace c" "c \<noteq> 0" using decimal_start .
  then have c: "m str = c" "cs \<noteq> [] \<Longrightarrow> m (str + 1) = hd cs"
    using at(1) by (auto simp: neq_Nil_conv)
  have z: "\<not> isdigit 0" by code_simp
  have "scan_digit_ok m str 10 True" using d c z by (cases "c = 45") (auto simp: scan_digit_ok_def)
  then show ?thesis using decimal_strtol [OF at] arg nw d(4) c(1)
    by (simp add: scan_int_def skip_space_stop scan_store_def scan_strto_def va_arg32_def)
qed

text \<open>A turn at \<open>%d\<close>, after white space in the format has matched the white space in the input.\<close>

lemma scan_turn_decimal:
  assumes ws: "(if isspace (m fmt) then do { fmt \<leftarrow> skip_space m fmt; str \<leftarrow> skip_space m str; Some (fmt, str) }
      else Some (fmt, str)) = Some (fmt', str')"
    and fmt: "m fmt' = 37" "m (fmt' + 1) = 100"
    and at: "bytes_at m str' (decimal v @ [t])" "\<not> isxdigit t" "toupper t \<noteq> 88"
    and arg: "load32 (reader m) args = Some p"
    and nw: "str' + of_nat (length (decimal v)) \<noteq> NULL"
  shows "scan_turn buf m str fmt args num =
    Some (More (store32 m p v) (str' + of_nat (length (decimal v))) (fmt' + 2) (args + 4) (num + 1))"
proof -
  obtain c cs where "decimal v = c # cs" "c \<noteq> 0" using decimal_start by metis
  then have "m str' \<noteq> 0" using at(1) by simp
  then show ?thesis
    unfolding scan_turn_def ws Option.bind.simps case_prod_conv
    using fmt scan_int_decimal [OF at arg nw, of "fmt' + 2" num]
    by (simp add: scan_qualifier_def scan_conv_def isdigit_range Let_def add.assoc)
qed

lemma load32_reader: "\<exists>v. load32 (reader m) p = Some v"
  by (simp add: load32_def reader_def)

section \<open>Properties\<close>

text \<open>
  The scan of the stdio program.  On the text of two signed decimal numbers with one space between them,
  \<open>vsscanf\<close> with the format \<open>%d %d\<close> stores the first number through the first pointer argument and the second
  through the second one, and returns 2; the stored variables, the text, the format and the arguments are
  apart from each other.
\<close>

lemma vsscanf_two_numbers:
  assumes str: "bytes_at m buf (decimal v @ [32] @ decimal w @ [0])"
    and fmt: "bytes_at m fmt [37, 100, 32, 37, 100, 0]"
    and args: "load32 (reader m) args = Some p" "load32 (reader m) (args + 4) = Some q"
    and nowrap: "unat buf + length (decimal v @ [32] @ decimal w @ [0]) < 2 ^ 32" "buf \<noteq> NULL"
    and apart: "separate p 4 buf (length (decimal v @ [32] @ decimal w @ [0]))" "separate p 4 fmt 6"
      "separate p 4 (args + 4) 4" "separate q 4 buf (length (decimal v @ [32] @ decimal w @ [0]))" "separate q 4 fmt 6"
  shows "vsscanf m buf fmt args = Some (store32 (store32 m p v) q w, 2)"
proof -
  define n where "n = length (decimal v)"
  define k where "k = length (decimal w)"
  define m1 where "m1 = store32 m p v"
  define m2 where "m2 = store32 m1 q w"
  let ?s = "decimal v @ [32] @ decimal w @ [0]" and ?f = "[37, 100, 32, 37, 100, 0 :: u8]"
  have six: "length ?f = 6" by simp
  have str1: "bytes_at m1 buf ?s" using str apart(1) by (simp only: m1_def bytes_at_store32_other)
  have fmt1: "bytes_at m1 fmt ?f" using fmt apart(2) unfolding m1_def
    by (subst bytes_at_store32_other) (simp_all only: six)
  have fmt2: "bytes_at m2 fmt ?f" using fmt1 apart(5) unfolding m2_def
    by (subst bytes_at_store32_other) (simp_all only: six)
  have ptrs: "buf + of_nat i \<noteq> NULL" if "i \<le> n + k + 2" for i
  proof -
    have "unat (buf + of_nat i) = unat buf + i"
      using that nowrap by (intro ptr_offset_unat) (simp add: n_def k_def)
    then show ?thesis using nowrap(2) by (metis add_is_0 unat_0 unat_eq_0)
  qed
  have at1: "bytes_at m buf (decimal v @ [32])" using str by (simp add: bytes_at_append)
  have at2: "m1 (buf + of_nat n) = 32" "bytes_at m1 (buf + of_nat n + 1) (decimal w @ [0])"
    using str1 by (simp_all add: bytes_at_append n_def add_ac)
  obtain c cs where d: "decimal v = c # cs" "\<not> isspace c" "c \<noteq> 0" using decimal_start [of v] by metis
  obtain c' cs' where d': "decimal w = c' # cs'" "\<not> isspace c'" using decimal_start [of w] by metis
  have space: "\<not> isxdigit 32" "toupper 32 \<noteq> 88" "isspace 32" by code_simp+
  have turn1: "scan_turn buf m buf fmt args 0 = Some (More m1 (buf + of_nat n) (fmt + 2) (args + 4) 1)"
    unfolding m1_def n_def
    using fmt at1 args ptrs [of n] space by (subst scan_turn_decimal) (auto simp: isspace_range n_def)
  have sp: "skip_space m1 (fmt + 2) = Some (fmt + 3)" "skip_space m1 (buf + of_nat n) = Some (buf + of_nat n + 1)"
    using fmt1 at2 d' space
    by (subst skip_space.simps, simp add: skip_space_stop add.assoc isspace_range)+
  have "load32 (reader m1) (args + 4) = Some q"
    using args(2) apart(3) by (simp add: m1_def load32_store32_other)
  moreover have "buf + of_nat n + 1 + of_nat k \<noteq> NULL" using ptrs [of "n + 1 + k"] by (simp add: add_ac)
  ultimately have turn2: "scan_turn buf m1 (buf + of_nat n) (fmt + 2) (args + 4) 1 =
      Some (More m2 (buf + of_nat n + 1 + of_nat k) (fmt + 3 + 2) (args + 4 + 4) (1 + 1))"
    unfolding m2_def k_def
    using fmt1 at2 sp space NUL_stops
    by (subst scan_turn_decimal [where t = 0]) (auto simp: add.assoc k_def)
  have "m buf \<noteq> 0" using str d by simp
  moreover have "m fmt \<noteq> 0" "m1 (fmt + 2) \<noteq> 0" "m2 (5 + fmt) = 0" using fmt fmt1 fmt2 by (simp_all add: add.assoc add.commute [of 5])
  ultimately show ?thesis
    using turn1 turn2 at2(1)
    by (simp add: vsscanf_def scan_loop.simps [of buf m] scan_loop.simps [of buf m1] scan_loop.simps [of buf m2]
        m1_def [symmetric] m2_def [symmetric])
qed

lemma vsscanf_two_numbers_witness:
  "\<exists>m. vsscanf m 0x1000 0x2000 0x3000 = Some (store32 (store32 m 0x4000 7) 0x4004 (- 12), 2)"
proof -
  define m :: mem where "m = store32 (store32 (store_bytes (store_bytes (\<lambda>_. 0) 0x1000 [55, 32, 45, 49, 50, 0])
      0x2000 [37, 100, 32, 37, 100, 0]) 0x3000 0x4000) 0x3004 0x4004"
  have dec: "decimal 7 = [55]" "decimal (- 12) = [45, 49, 50]" by code_simp+
  have "bytes_at m 0x1000 (decimal 7 @ [32] @ decimal (- 12) @ [0])" "bytes_at m 0x2000 [37, 100, 32, 37, 100, 0]"
    "load32 (reader m) 0x3000 = Some 0x4000" "load32 (reader m) (0x3000 + 4) = Some 0x4004"
    by (simp_all add: dec m_def store32_def load32_def reader_def)
  moreover have "separate 0x4000 4 0x1000 (length (decimal 7 @ [32] @ decimal (- 12) @ [0]))" "separate 0x4000 4 0x2000 6"
    "separate 0x4000 4 (0x3000 + 4) 4" "separate 0x4004 4 0x1000 (length (decimal 7 @ [32] @ decimal (- 12) @ [0]))"
    "separate 0x4004 4 0x2000 6"
    by (rule separate_nowrap; simp add: dec)+
  ultimately show ?thesis
    using vsscanf_two_numbers [of m "0x1000" 7 "- 12" "0x2000" "0x3000" "0x4000" "0x4004"] by (auto simp: dec)
qed

end
