(* ===== verification/Bus.thy ===== *)
theory Bus
  imports Prelude
begin

text \<open>
  Memory-mapped registers.  The devices of the S3C6410 are not part of the program: a device is a
  parameter, a state of type \<open>'d\<close> with a bus on it, and every volatile access of the C code is one read
  or one write of the bus, in program order.  A read may change the device, as reading a FIFO does.

  The theory has the access macros of \<open>common.h\<close>, and the locale of those devices, or parts of
  devices, that hold what is written to them.
\<close>

datatype width = W8 | W16 | W32

record 'd bus =
  bus_rd :: "width \<Rightarrow> u32 \<Rightarrow> 'd \<Rightarrow> u32 \<times> 'd"
  bus_wr :: "width \<Rightarrow> u32 \<Rightarrow> u32 \<Rightarrow> 'd \<Rightarrow> 'd"

definition rd32 :: "'d bus \<Rightarrow> u32 \<Rightarrow> 'd \<Rightarrow> u32 \<times> 'd" where
  "rd32 b a s = bus_rd b W32 a s"

definition wr32 :: "'d bus \<Rightarrow> u32 \<Rightarrow> u32 \<Rightarrow> 'd \<Rightarrow> 'd" where
  "wr32 b a v s = bus_wr b W32 a v s"

text \<open>\<open>REG = f(REG)\<close> on a volatile register, as in \<open>REG &= m\<close>: one read, then one write.\<close>

definition reg_update :: "'d bus \<Rightarrow> u32 \<Rightarrow> (u32 \<Rightarrow> u32) \<Rightarrow> 'd \<Rightarrow> 'd" where
  "reg_update b a f s = (let (x, s') = rd32 b a s in wr32 b a (f x) s')"

definition reg_or :: "'d bus \<Rightarrow> u32 \<Rightarrow> u32 \<Rightarrow> 'd \<Rightarrow> 'd" where
  "reg_or b a v = reg_update b a (\<lambda>x. x OR v)"

definition reg_and :: "'d bus \<Rightarrow> u32 \<Rightarrow> u32 \<Rightarrow> 'd \<Rightarrow> 'd" where
  "reg_and b a v = reg_update b a (\<lambda>x. x AND v)"

section \<open>The macros of common.h\<close>

definition BIT :: "nat \<Rightarrow> u32" where
  "BIT n = push_bit n 1"

definition VI_SET_BIT_ZERO :: "'d bus \<Rightarrow> u32 \<Rightarrow> nat \<Rightarrow> 'd \<Rightarrow> 'd" where
  "VI_SET_BIT_ZERO b addr n = reg_and b addr (NOT (push_bit n 1))"

definition VI_SET_BIT_ONE :: "'d bus \<Rightarrow> u32 \<Rightarrow> nat \<Rightarrow> 'd \<Rightarrow> 'd" where
  "VI_SET_BIT_ONE b addr n = reg_or b addr (push_bit n 1)"

text \<open>The value of an assignment is the value assigned: the register is written twice.\<close>

definition VI_SET_BIT :: "'d bus \<Rightarrow> u32 \<Rightarrow> nat \<Rightarrow> u32 \<Rightarrow> 'd \<Rightarrow> 'd" where
  "VI_SET_BIT b addr n val s =
     (let (x, s) = rd32 b addr s;
          y = x AND NOT (push_bit n 1);
          s = wr32 b addr y s
      in wr32 b addr (y OR push_bit n val) s)"

definition VI_SET_2BIT :: "'d bus \<Rightarrow> u32 \<Rightarrow> nat \<Rightarrow> u32 \<Rightarrow> 'd \<Rightarrow> 'd" where
  "VI_SET_2BIT b addr n val s =
     (let (x, s) = rd32 b addr s;
          y = x AND NOT (push_bit n 3);
          s = wr32 b addr y s
      in wr32 b addr (y OR push_bit n val) s)"

definition VI_SET_NBIT :: "'d bus \<Rightarrow> u32 \<Rightarrow> nat \<Rightarrow> nat \<Rightarrow> u32 \<Rightarrow> 'd \<Rightarrow> 'd" where
  "VI_SET_NBIT b addr n len val =
     reg_update b addr (\<lambda>x. (x AND NOT (push_bit n (push_bit len 1 - 1))) OR push_bit n val)"

definition VI_GET_BIT :: "'d bus \<Rightarrow> u32 \<Rightarrow> nat \<Rightarrow> 'd \<Rightarrow> bool \<times> 'd" where
  "VI_GET_BIT b addr n s = (let (x, s) = rd32 b addr s in (of_nat n < x AND push_bit n 1, s))"

definition VI_READ_VAL :: "'d bus \<Rightarrow> u32 \<Rightarrow> 'd \<Rightarrow> u32 \<times> 'd" where
  "VI_READ_VAL b addr s = rd32 b addr s"

definition VI_SET_VAL :: "'d bus \<Rightarrow> u32 \<Rightarrow> u32 \<Rightarrow> 'd \<Rightarrow> 'd" where
  "VI_SET_VAL b addr val s = wr32 b addr val s"

definition VI_OR_VAL :: "'d bus \<Rightarrow> u32 \<Rightarrow> u32 \<Rightarrow> 'd \<Rightarrow> 'd" where
  "VI_OR_VAL b addr val = reg_or b addr val"

definition VI_AND_VAL :: "'d bus \<Rightarrow> u32 \<Rightarrow> u32 \<Rightarrow> 'd \<Rightarrow> 'd" where
  "VI_AND_VAL b addr val = reg_and b addr val"

section \<open>Registers that hold their value\<close>

text \<open>
  On the addresses \<open>A\<close> the device is a register file: a read returns the value held there and changes none
  of them, a write replaces one of them.  This is how the manual describes configuration registers,
  and it is what RAM is.
\<close>

lemma bit_word_less: "bit (x :: 'a::len word) j \<Longrightarrow> unat x < 2 ^ n \<Longrightarrow> j < n"
proof (rule ccontr)
  assume "bit x j" "unat x < 2 ^ n" "\<not> j < n"
  then have "unat x < 2 ^ j" by (meson less_le_trans linorder_not_less one_le_numeral power_increasing)
  moreover have "bit (unat x) j"
    using \<open>bit x j\<close> by (simp add: bit_unsigned_iff bit_imp_le_length)
  ultimately show False by (simp add: bit_iff_odd)
qed

locale register_file =
  fixes b :: "'d bus" and view :: "'d \<Rightarrow> u32 \<Rightarrow> u32" and A :: "u32 set"
  assumes rd_value: "a \<in> A \<Longrightarrow> fst (rd32 b a s) = view s a"
    and rd_keeps: "a \<in> A \<Longrightarrow> a' \<in> A \<Longrightarrow> view (snd (rd32 b a s)) a' = view s a'"
    and wr_value: "a \<in> A \<Longrightarrow> a' \<in> A \<Longrightarrow> view (wr32 b a v s) a' = (if a' = a then v else view s a')"
begin

lemmas access = rd_value rd_keeps wr_value

lemma reg_update_view:
  "a \<in> A \<Longrightarrow> a' \<in> A \<Longrightarrow> view (reg_update b a f s) a' = (if a' = a then f (view s a) else view s a')"
  by (simp add: reg_update_def case_prod_beta Let_def access)

lemma reg_or_view:
  "a \<in> A \<Longrightarrow> a' \<in> A \<Longrightarrow> view (reg_or b a v s) a' = (if a' = a then view s a OR v else view s a')"
  by (simp add: reg_or_def reg_update_view)

lemma reg_and_view:
  "a \<in> A \<Longrightarrow> a' \<in> A \<Longrightarrow> view (reg_and b a v s) a' = (if a' = a then view s a AND v else view s a')"
  by (simp add: reg_and_def reg_update_view)

lemma VI_SET_NBIT_bit:
  assumes "a \<in> A" "n + len \<le> 32" "unat val < 2 ^ len"
  shows "bit (view (VI_SET_NBIT b a n len val s) a) k \<longleftrightarrow>
    (if n \<le> k \<and> k < n + len then bit val (k - n) else bit (view s a) k)"
proof -
  have "k < n + len" if "bit val (k - n)" using bit_word_less [OF that assms(3)] by linarith
  then show ?thesis using assms
    by (auto simp: VI_SET_NBIT_def reg_update_view bit_simps mask_eq_exp_minus_1 [symmetric] push_bit_of_1
        dest: bit_imp_le_length)
qed

lemmas views = reg_update_view reg_or_view reg_and_view access

end

text \<open>Word-addressed RAM: the SDRAM that holds the page table, and the simplest register file.\<close>

definition ram_bus :: "(u32 \<Rightarrow> u32) bus" where
  "ram_bus = \<lparr> bus_rd = \<lambda>w a m. (m a, m), bus_wr = \<lambda>w a v m. m(a := v) \<rparr>"

lemma ram_access [simp]: "rd32 ram_bus a m = (m a, m)" "wr32 ram_bus a v m = m(a := v)"
  by (simp_all add: rd32_def wr32_def ram_bus_def)

interpretation ram: register_file ram_bus "\<lambda>m. m" A for A
  by unfold_locales auto

end
