(* ===== verification/Uart.thy ===== *)
theory Uart
  imports Bus Numbers
begin

text \<open>
  The UART driver: \<open>no-os/interrupt/irq_advanced/uart.c\<close> and \<open>uart.h\<close> (used unchanged by the timer program), and
  the functions of \<open>no-os/stdio/uart.c\<close> that differ from it.  The loops that wait for the FIFO may run for
  ever on a dead device, so the operations return an option.
\<close>

section \<open>Configuration\<close>

definition UART0_CLK :: nat where "UART0_CLK = 66500000"
definition UART0_BAUDRATE :: nat where "UART0_BAUDRATE = 115200"
definition MAX_STRING_LENGTH :: nat where "MAX_STRING_LENGTH = 250"

definition GPACON :: u32 where "GPACON = 0x7F008000"
definition GPA_UART :: "nat \<Rightarrow> u32" where "GPA_UART n = push_bit (n * 4) 2"
definition GPA_mask :: "nat \<Rightarrow> u32" where "GPA_mask n = push_bit (n * 4) 0xf"

definition ULCON0 :: u32 where "ULCON0 = 0x7F005000"
definition WORDLENGTH :: u32 where "WORDLENGTH = push_bit 0 (8 - 5)"
definition STOPBITNUMBER :: u32 where "STOPBITNUMBER = push_bit 2 0"
definition PARITYMODE :: u32 where "PARITYMODE = push_bit 3 0"
definition INFRAREDMODE :: u32 where "INFRAREDMODE = push_bit 6 0"

definition UCON0 :: u32 where "UCON0 = 0x7F005004"
definition RECEIVEMODE :: u32 where "RECEIVEMODE = push_bit 0 1"
definition TRANSMITMODE :: u32 where "TRANSMITMODE = push_bit 2 1"
definition RXERRORINTERRUPT :: u32 where "RXERRORINTERRUPT = push_bit 6 0"
definition CLOCKSELECTION :: u32 where "CLOCKSELECTION = push_bit 10 0"

definition UFCON0 :: u32 where "UFCON0 = 0x7F005008"
definition FIFOENABLE :: u32 where "FIFOENABLE = push_bit 0 1"
definition RXFIFORESET :: u32 where "RXFIFORESET = push_bit 1 0"
definition TXFIFORESET :: u32 where "TXFIFORESET = push_bit 2 0"
definition RXFIFOTRIGGER :: u32 where "RXFIFOTRIGGER = push_bit 4 0"
definition TXFIFOTRIGGER :: u32 where "TXFIFOTRIGGER = push_bit 6 0"

definition UMCON0 :: u32 where "UMCON0 = 0x7F00500C"
definition UFSTAT0 :: u32 where "UFSTAT0 = 0x7F005018"
definition UTXH0 :: u32 where "UTXH0 = 0x7F005020"
definition URXH0 :: u32 where "URXH0 = 0x7F005024"
definition UBRDIV0 :: u32 where "UBRDIV0 = 0x7F005028"
definition UDIVSLOT0 :: u32 where "UDIVSLOT0 = 0x7F00502C"

lemmas uart_addrs = GPACON_def ULCON0_def UCON0_def UFCON0_def UMCON0_def UFSTAT0_def UTXH0_def URXH0_def
  UBRDIV0_def UDIVSLOT0_def
lemmas uart_format = WORDLENGTH_def STOPBITNUMBER_def PARITYMODE_def INFRAREDMODE_def RECEIVEMODE_def
  TRANSMITMODE_def RXERRORINTERRUPT_def CLOCKSELECTION_def FIFOENABLE_def RXFIFORESET_def TXFIFORESET_def
  RXFIFOTRIGGER_def TXFIFOTRIGGER_def

text \<open>All operands of the macros are integers, so the division truncates.\<close>

definition UART0_DIV_VAL :: nat where
  "UART0_DIV_VAL = UART0_CLK div (UART0_BAUDRATE * 16) - 1"

definition UART0_UBRDIV0 :: nat where
  "UART0_UBRDIV0 = UART0_DIV_VAL"

definition UART0_UDIVSLOT_NUM :: nat where
  "UART0_UDIVSLOT_NUM = (UART0_DIV_VAL - UART0_UBRDIV0) * 16"

definition UDIVSLOT_LIST :: "u32 list" where
  "UDIVSLOT_LIST =
     [0x0000, 0x0080, 0x0808, 0x0888,
      0x2222, 0x4924, 0x4A52, 0x54AA,
      0x5555, 0xD555, 0xD5D5, 0xDDD5,
      0xDDDD, 0xDFDD, 0xDFDF, 0xFFDF]"

definition UART0_Port_Init :: "'d bus \<Rightarrow> 'd \<Rightarrow> 'd" where
  "UART0_Port_Init b s =
     (let s = reg_and b GPACON (NOT (GPA_mask 0 + GPA_mask 1)) s
      in reg_or b GPACON (GPA_UART 0 + GPA_UART 1) s)"

definition UART0_Set_BaudRate :: "'d bus \<Rightarrow> 'd \<Rightarrow> 'd" where
  "UART0_Set_BaudRate b s =
     (let s = bus_wr b W16 UBRDIV0 (of_nat UART0_UBRDIV0) s
      in bus_wr b W16 UDIVSLOT0 (UDIVSLOT_LIST ! UART0_UDIVSLOT_NUM) s)"

definition UART0_Set_Format :: "'d bus \<Rightarrow> 'd \<Rightarrow> 'd" where
  "UART0_Set_Format b s =
     (let s = wr32 b ULCON0 (WORDLENGTH + STOPBITNUMBER + PARITYMODE + INFRAREDMODE) s;
          s = wr32 b UCON0 (RECEIVEMODE + TRANSMITMODE + CLOCKSELECTION + RXERRORINTERRUPT) s;
          s = wr32 b UFCON0 (FIFOENABLE + RXFIFORESET + TXFIFORESET + RXFIFOTRIGGER + TXFIFOTRIGGER) s
      in wr32 b UMCON0 0 s)"

section \<open>Characters and strings\<close>

text \<open>\<open>while (UFSTAT0 & (1<<14));\<close> and \<open>while ((UFSTAT0 & 0x7f) == 0);\<close>\<close>

partial_function (option) tx_wait :: "'d bus \<Rightarrow> 'd \<Rightarrow> 'd option" where
  "tx_wait b s = (let (x, s') = rd32 b UFSTAT0 s in if x AND push_bit 14 1 \<noteq> 0 then tx_wait b s' else Some s')"

partial_function (option) rx_wait :: "'d bus \<Rightarrow> 'd \<Rightarrow> 'd option" where
  "rx_wait b s = (let (x, s') = rd32 b UFSTAT0 s in if x AND 0x7f = 0 then rx_wait b s' else Some s')"

definition UART0_PutChar :: "'d bus \<Rightarrow> u8 \<Rightarrow> 'd \<Rightarrow> 'd option" where
  "UART0_PutChar b data s = do { s \<leftarrow> tx_wait b s; Some (bus_wr b W8 UTXH0 (ucast data) s) }"

definition UART0_GetChar :: "'d bus \<Rightarrow> 'd \<Rightarrow> (u8 \<times> 'd) option" where
  "UART0_GetChar b s = do { s \<leftarrow> rx_wait b s; let (x, s) = bus_rd b W8 URXH0 s; Some (ucast x, s) }"

text \<open>
  The string is read by index.  The loop tests the character before the index, so it also reads
  \<open>string[250]\<close> of a long string.
\<close>

function SendString_loop :: "'d bus \<Rightarrow> (nat \<Rightarrow> u8) \<Rightarrow> nat \<Rightarrow> 'd \<Rightarrow> 'd option" where
  "SendString_loop b string index s =
     (if string index \<noteq> 0 \<and> index < MAX_STRING_LENGTH
      then do {
        s \<leftarrow> tx_wait b s;
        SendString_loop b string (index + 1) (bus_wr b W8 UTXH0 (ucast (string index)) s) }
      else Some s)"
  by pat_completeness auto
termination
  by (relation "measure (\<lambda>(b, string, index, s). MAX_STRING_LENGTH - index)") auto

declare SendString_loop.simps [simp del]

definition UART0_SendString :: "'d bus \<Rightarrow> (nat \<Rightarrow> u8) \<Rightarrow> 'd \<Rightarrow> 'd option" where
  "UART0_SendString b string s = SendString_loop b string 0 s"

text \<open>A string literal as an array: its bytes and the NUL.\<close>

definition c_array :: "u8 list \<Rightarrow> nat \<Rightarrow> u8" where
  "c_array xs i = (if i < length xs then xs ! i else 0)"

section \<open>Numbers\<close>

definition UART0_SendData8 :: "'d bus \<Rightarrow> u8 \<Rightarrow> 'd \<Rightarrow> 'd option" where
  "UART0_SendData8 b data s = do {
     let hundreds = data div 100;
     let tens = data mod 100 div 10;
     let digits = data mod 10;
     s \<leftarrow> UART0_PutChar b (hundreds + 48) s;
     s \<leftarrow> UART0_PutChar b (tens + 48) s;
     UART0_PutChar b (digits + 48) s }"

definition hex_char :: "u8 \<Rightarrow> u8" where
  "hex_char ch = (if ch \<le> 9 then 48 + ch else if ch \<le> 15 then 65 + ch - 10 else 88)"

text \<open>
  The loop fills \<open>hex_string\<close> from its end.  A store in front of the array, were \<open>index\<close> to reach 0 with
  digits left, is an error, the value \<^const>\<open>None\<close>.
\<close>

function hex_loop :: "u32 \<Rightarrow> nat \<Rightarrow> u8 list \<Rightarrow> (nat \<times> u8 list) option" where
  "hex_loop data index hex_string =
     (if data \<noteq> 0 then
        (if index = 0 then None
         else hex_loop (drop_bit 4 data) (index - 1) (hex_string[index - 1 := hex_char (ucast (data AND 0xf))]))
      else Some (index, hex_string))"
  by pat_completeness auto
termination
  by (relation "measure (\<lambda>(data, index, hex_string). index)") auto

declare hex_loop.simps [simp del]

definition hex_zeros :: "u8 list" where
  "hex_zeros = lit ''00000000''"

definition UART0_SendData32 :: "'d bus \<Rightarrow> u32 \<Rightarrow> 'd \<Rightarrow> 'd option" where
  "UART0_SendData32 b data s = do {
     (index, hex_string) \<leftarrow> hex_loop data 8 hex_zeros;
     s \<leftarrow> UART0_SendString b (c_array (lit ''0x'')) s;
     UART0_SendString b (\<lambda>i. c_array hex_string (index + i)) s }"

definition UART0_SendData32_n :: "'d bus \<Rightarrow> u32 \<Rightarrow> 'd \<Rightarrow> 'd option" where
  "UART0_SendData32_n b data s = do {
     s \<leftarrow> UART0_SendData32 b data s;
     UART0_SendString b (c_array [10, 13]) s }"

text \<open>\<open>no-os/stdio/uart.c\<close>: a zero prints a digit, the body of \<open>UART0_SendData8\<close> is commented out.\<close>

definition stdio_SendData32 :: "'d bus \<Rightarrow> u32 \<Rightarrow> 'd \<Rightarrow> 'd option" where
  "stdio_SendData32 b data s = do {
     (index, hex_string) \<leftarrow> hex_loop data 8 hex_zeros;
     s \<leftarrow> UART0_SendString b (c_array (lit ''0x'')) s;
     if index = 8 then UART0_SendString b (c_array (lit ''0'')) s
     else UART0_SendString b (\<lambda>i. c_array hex_string (index + i)) s }"

definition stdio_SendData8 :: "'d bus \<Rightarrow> u8 \<Rightarrow> 'd \<Rightarrow> 'd option" where
  "stdio_SendData8 b data s = Some s"

definition putc :: "'d bus \<Rightarrow> u8 \<Rightarrow> 'd \<Rightarrow> 'd option" where
  "putc b c s = UART0_PutChar b c s"

definition getc :: "'d bus \<Rightarrow> 'd \<Rightarrow> (u8 \<times> 'd) option" where
  "getc b s = UART0_GetChar b s"

text \<open>The report of \<open>no-os/interrupt/irq_advanced/main.c\<close> on a program status register.\<close>

definition send_field :: "'d bus \<Rightarrow> u8 list \<Rightarrow> u32 \<Rightarrow> 'd \<Rightarrow> 'd option" where
  "send_field b name val s = do { s \<leftarrow> UART0_SendString b (c_array name) s; UART0_SendData32 b val s }"

definition print_cpsr :: "'d bus \<Rightarrow> u32 \<Rightarrow> (nat \<Rightarrow> u8) \<Rightarrow> 'd \<Rightarrow> 'd option" where
  "print_cpsr b cpsr why s = do {
     s \<leftarrow> UART0_SendString b (c_array ([10, 13] @ lit ''Interrupt Reason:'')) s;
     s \<leftarrow> UART0_SendString b why s;
     s \<leftarrow> send_field b ([44, 9] @ lit ''CPSR = '') cpsr s;
     s \<leftarrow> UART0_SendString b (c_array [10, 13]) s;
     s \<leftarrow> send_field b ([9] @ lit ''[31], N, Negative:'') (drop_bit 31 cpsr AND 1) s;
     s \<leftarrow> send_field b ([9] @ lit ''[30], Z, Zero:'') (drop_bit 30 cpsr AND 1) s;
     s \<leftarrow> send_field b ([9] @ lit ''[29], C, Carry:'') (drop_bit 29 cpsr AND 1) s;
     s \<leftarrow> send_field b ([9] @ lit ''[28], V, Overflow:'') (drop_bit 28 cpsr AND 1) s;
     s \<leftarrow> send_field b ([10, 13, 9] @ lit ''[7], I, IRQ:'') (drop_bit 7 cpsr AND 1) s;
     s \<leftarrow> send_field b ([9] @ lit ''[6], F, FIQ:'') (drop_bit 6 cpsr AND 1) s;
     s \<leftarrow> send_field b ([9] @ lit ''[5], T, Thumb:'') (drop_bit 5 cpsr AND 1) s;
     s \<leftarrow> send_field b ([9] @ lit ''[4:0], Mode:'') (cpsr AND 0x1f) s;
     UART0_SendString b (c_array [10, 13]) s }"

section \<open>Hexadecimal digits\<close>

lemma ucast_u8_u32_u8 [simp]: "(ucast (ucast (c :: u8) :: u32) :: u8) = c"
  by (rule bit_word_eqI) (simp add: bit_simps)

lemma hex_char_digit: "d < 16 \<Longrightarrow> hex_char (of_nat d) = large_digits ! d"
proof -
  have "\<forall>d\<in>{..<16}. hex_char (of_nat d) = large_digits ! d" by code_simp
  then show "d < 16 \<Longrightarrow> hex_char (of_nat d) = large_digits ! d" by simp
qed

lemma low_nibble: "(ucast ((data :: u32) AND 0xf) :: u8) = of_nat (unat data mod 16)"
proof -
  have "data AND 0xf = take_bit 4 data" by (simp add: take_bit_eq_mask mask_eq_exp_minus_1)
  then have "unat (data AND 0xf) = unat data mod 16"
    by (simp add: take_bit_eq_mod unat_mod)
  then show ?thesis by (metis of_nat_unat)
qed

lemma unat_drop_nibble: "unat (drop_bit 4 (data :: u32)) = unat data div 16"
  by (simp add: drop_bit_eq_div unat_div)

lemma hex_loop_digits:
  assumes "length (digits_rev 16 (unat data)) \<le> index" "index \<le> length hs"
  shows "hex_loop data index hs = (let ds = map ((!) large_digits) (digits_rev 16 (unat data))
    in Some (index - length ds, take (index - length ds) hs @ rev ds @ drop index hs))"
  using assms
proof (induction index arbitrary: data hs)
  case 0
  then have "data = 0" by (simp add: digits_rev.simps unat_eq_0 split: if_splits)
  then show ?case by (simp add: hex_loop.simps)
next
  case (Suc index)
  show ?case
  proof (cases "data = 0")
    case True
    then show ?thesis by (simp add: hex_loop.simps)
  next
    case False
    define d where "d = unat data mod 16"
    have ds: "digits_rev 16 (unat data) = d # digits_rev 16 (unat (drop_bit 4 data))"
      using False by (subst digits_rev.simps) (simp add: d_def unat_drop_nibble unat_eq_0)
    have "hex_char (ucast (data AND 0xf)) = large_digits ! d"
      by (simp add: low_nibble hex_char_digit d_def)
    then have "hex_loop data (Suc index) hs = hex_loop (drop_bit 4 data) index (hs[index := large_digits ! d])"
      using False by (simp add: hex_loop.simps [of data])
    also have "\<dots> = (let ds = map ((!) large_digits) (digits_rev 16 (unat (drop_bit 4 data)))
      in Some (index - length ds, take (index - length ds) (hs[index := large_digits ! d]) @ rev ds @
          drop index (hs[index := large_digits ! d])))"
      using Suc.prems ds by (intro Suc.IH) simp_all
    finally show ?thesis using ds Suc.prems
      by (simp add: Let_def drop_update_swap Cons_nth_drop_Suc [symmetric])
  qed
qed

lemma length_digits_rev_base: "n < b ^ k \<Longrightarrow> length (digits_rev b n) \<le> k"
proof (induction k arbitrary: n)
  case (Suc k)
  show ?case
  proof (cases "n = 0 \<or> b < 2")
    case False
    have "n div b < b ^ k" using Suc.prems by (simp add: less_mult_imp_div_less mult.commute)
    then show ?thesis using Suc.IH False by (subst digits_rev.simps) auto
  qed (auto simp: digits_rev.simps)
qed simp

lemma digits_rev_u32: "length (digits_rev 16 (unat (data :: u32))) \<le> 8"
  by (rule length_digits_rev_base) (use unat_u32_bound [of data] in simp)

lemma hex_loop_u32:
  "hex_loop data 8 hex_zeros = (let ds = map ((!) large_digits) (digits_rev 16 (unat data))
    in Some (8 - length ds, replicate (8 - length ds) 48 @ rev ds))"
proof -
  have z: "hex_zeros = replicate 8 48" by (simp add: hex_zeros_def lit_def eval_nat_numeral)
  show ?thesis unfolding z using hex_loop_digits [of data 8 "replicate 8 48"] digits_rev_u32 [of data]
    by (simp add: Let_def)
qed

lemma large_digits_nz: "d < 16 \<Longrightarrow> large_digits ! d \<noteq> 0"
proof -
  have "\<forall>d\<in>{..<16}. large_digits ! d \<noteq> 0" by code_simp
  then show "d < 16 \<Longrightarrow> large_digits ! d \<noteq> 0" by simp
qed

text \<open>The digits sent for a number, none for zero.\<close>

definition hex_text :: "u32 \<Rightarrow> u8 list" where
  "hex_text data = map ((!) large_digits) (rev (digits_rev 16 (unat data)))"

lemma hex_text_nz: "0 \<notin> set (hex_text data)"
  using digits_rev_less [of _ 16] large_digits_nz by (force simp: hex_text_def)

lemma length_hex_text: "length (hex_text data) \<le> 8"
  using digits_rev_u32 by (simp add: hex_text_def)

lemma hex_loop_text:
  "hex_loop data 8 hex_zeros =
    Some (8 - length (hex_text data), replicate (8 - length (hex_text data)) 48 @ hex_text data)"
  by (simp add: hex_loop_u32 hex_text_def rev_map)

section \<open>The line behind the port\<close>

text \<open>
  What the driver relies on.  \<open>sent\<close> is what has been handed to the port for the line, \<open>input\<close> what has
  arrived or will arrive.  Polling the FIFO status changes neither; a full transmit FIFO drains within finitely
  many polls, and input that is due appears within finitely many polls.
\<close>

locale uart_port =
  fixes b :: "'d bus" and sent input :: "'d \<Rightarrow> u8 list" and tx_delay rx_delay :: "'d \<Rightarrow> nat"
  assumes poll_sent: "sent (snd (rd32 b UFSTAT0 s)) = sent s"
    and poll_input: "input (snd (rd32 b UFSTAT0 s)) = input s"
    and poll_full: "fst (rd32 b UFSTAT0 s) AND push_bit 14 1 \<noteq> 0 \<Longrightarrow>
      tx_delay (snd (rd32 b UFSTAT0 s)) < tx_delay s"
    and poll_empty: "input s \<noteq> [] \<Longrightarrow> fst (rd32 b UFSTAT0 s) AND 0x7f = 0 \<Longrightarrow>
      rx_delay (snd (rd32 b UFSTAT0 s)) < rx_delay s"
    and put: "fst (rd32 b UFSTAT0 s) AND push_bit 14 1 = 0 \<Longrightarrow>
      sent (bus_wr b W8 UTXH0 v (snd (rd32 b UFSTAT0 s))) = sent s @ [ucast v] \<and>
      input (bus_wr b W8 UTXH0 v (snd (rd32 b UFSTAT0 s))) = input s"
    and get: "input s = c # cs \<Longrightarrow> fst (rd32 b UFSTAT0 s) AND 0x7f \<noteq> 0 \<Longrightarrow>
      (let (x, s') = bus_rd b W8 URXH0 (snd (rd32 b UFSTAT0 s))
       in ucast x = c \<and> input s' = cs \<and> sent s' = sent s)"
begin

lemma tx_wait_ends:
  "\<exists>t. tx_wait b s = Some (snd (rd32 b UFSTAT0 t)) \<and> sent t = sent s \<and> input t = input s \<and>
    fst (rd32 b UFSTAT0 t) AND push_bit 14 1 = 0"
proof (induction "tx_delay s" arbitrary: s rule: less_induct)
  case less
  show ?case
  proof (cases "fst (rd32 b UFSTAT0 s) AND push_bit 14 1 = 0")
    case True
    then show ?thesis by (intro exI [of _ s]) (subst tx_wait.simps, simp add: case_prod_beta Let_def)
  next
    case False
    from less [OF poll_full [OF False]] False show ?thesis
      by (subst tx_wait.simps) (simp add: case_prod_beta Let_def poll_sent poll_input)
  qed
qed

text \<open>What polls and transmissions keep, waiting and sending strings keeps.\<close>

lemma tx_wait_keeps:
  assumes "\<And>s. P s \<Longrightarrow> P (snd (rd32 b UFSTAT0 s))"
  shows "tx_wait b s = Some s' \<Longrightarrow> P s \<Longrightarrow> P s'"
proof (induction "tx_delay s" arbitrary: s rule: less_induct)
  case less
  show ?case
  proof (cases "fst (rd32 b UFSTAT0 s) AND push_bit 14 1 = 0")
    case True
    then show ?thesis using less.prems assms
      by (subst (asm) tx_wait.simps) (auto simp: case_prod_beta Let_def)
  next
    case False
    then have "tx_wait b (snd (rd32 b UFSTAT0 s)) = Some s'" using less.prems
      by (subst (asm) tx_wait.simps) (simp add: case_prod_beta Let_def)
    from less.hyps [OF poll_full [OF False] this] show ?thesis using assms less.prems(2) by blast
  qed
qed

lemma SendString_loop_keeps:
  assumes "\<And>s. P s \<Longrightarrow> P (snd (rd32 b UFSTAT0 s))" "\<And>s v. P s \<Longrightarrow> P (bus_wr b W8 UTXH0 v s)"
  shows "SendString_loop b string index s = Some s' \<Longrightarrow> P s \<Longrightarrow> P s'"
proof (induction "MAX_STRING_LENGTH - index" arbitrary: index s)
  case 0
  then show ?case by (subst (asm) SendString_loop.simps) simp
next
  case (Suc n)
  show ?case
  proof (cases "string index \<noteq> 0 \<and> index < MAX_STRING_LENGTH")
    case True
    with Suc.prems obtain s1 where s1: "tx_wait b s = Some s1"
      "SendString_loop b string (index + 1) (bus_wr b W8 UTXH0 (ucast (string index)) s1) = Some s'"
      by (subst (asm) SendString_loop.simps) (auto simp: Option.bind_eq_Some_conv)
    from Suc.hyps(1) [OF _ s1(2)] Suc.hyps(2) show ?thesis
      using tx_wait_keeps [OF assms(1) s1(1) Suc.prems(2)] assms(2) by simp
  next
    case False
    then show ?thesis using Suc.prems by (subst (asm) SendString_loop.simps) auto
  qed
qed

lemma rx_wait_ends:
  "input s \<noteq> [] \<Longrightarrow> \<exists>t. rx_wait b s = Some (snd (rd32 b UFSTAT0 t)) \<and> sent t = sent s \<and> input t = input s \<and>
    fst (rd32 b UFSTAT0 t) AND 0x7f \<noteq> 0"
proof (induction "rx_delay s" arbitrary: s rule: less_induct)
  case less
  show ?case
  proof (cases "fst (rd32 b UFSTAT0 s) AND 0x7f = 0")
    case False
    then show ?thesis by (intro exI [of _ s]) (subst rx_wait.simps, simp add: case_prod_beta Let_def)
  next
    case True
    from less(1) [OF poll_empty [OF less(2) True]] True less(2) show ?thesis
      by (subst rx_wait.simps) (simp add: case_prod_beta Let_def poll_sent poll_input)
  qed
qed

lemma PutChar_sends:
  "\<exists>s'. UART0_PutChar b c s = Some s' \<and> sent s' = sent s @ [c] \<and> input s' = input s"
proof -
  obtain t where t: "tx_wait b s = Some (snd (rd32 b UFSTAT0 t))" "sent t = sent s" "input t = input s"
    "fst (rd32 b UFSTAT0 t) AND push_bit 14 1 = 0"
    using tx_wait_ends by blast
  with put [OF t(4), of "ucast c"] show ?thesis by (simp add: UART0_PutChar_def)
qed

lemma GetChar_reads:
  assumes "input s = c # cs"
  shows "\<exists>s'. UART0_GetChar b s = Some (c, s') \<and> sent s' = sent s \<and> input s' = cs"
proof -
  obtain t where t: "rx_wait b s = Some (snd (rd32 b UFSTAT0 t))" "sent t = sent s" "input t = input s"
    "fst (rd32 b UFSTAT0 t) AND 0x7f \<noteq> 0"
    using rx_wait_ends [of s] assms by auto
  with get [of t c cs] assms show ?thesis by (simp add: UART0_GetChar_def case_prod_beta Let_def)
qed

lemma SendString_loop_sends:
  assumes "\<forall>i<length xs. string (index + i) = xs ! i \<and> xs ! i \<noteq> 0"
    and "string (index + length xs) = 0 \<or> index + length xs = MAX_STRING_LENGTH"
    and "index + length xs \<le> MAX_STRING_LENGTH"
  shows "\<exists>s'. SendString_loop b string index s = Some s' \<and> sent s' = sent s @ xs \<and> input s' = input s"
  using assms
proof (induction xs arbitrary: index s)
  case Nil
  then show ?case by (subst SendString_loop.simps) auto
next
  case (Cons x xs)
  have x: "string index = x" "x \<noteq> 0" using Cons.prems(1) by (auto dest: spec [of _ 0])
  obtain s1 where s1: "UART0_PutChar b x s = Some s1" "sent s1 = sent s @ [x]" "input s1 = input s"
    using PutChar_sends by blast
  have "\<forall>i<length xs. string (index + 1 + i) = xs ! i \<and> xs ! i \<noteq> 0"
    using Cons.prems(1) by (auto dest: spec [of _ "Suc _"])
  with Cons.IH [of "index + 1" s1] Cons.prems(2,3)
  obtain s2 where "SendString_loop b string (index + 1) s1 = Some s2" "sent s2 = sent s1 @ xs" "input s2 = input s1"
    by auto
  then show ?case using s1 x Cons.prems(3)
    by (subst SendString_loop.simps) (auto simp: UART0_PutChar_def Option.bind_eq_Some_conv)
qed

lemma SendString_sends:
  assumes "0 \<notin> set xs" "length xs \<le> MAX_STRING_LENGTH" "\<forall>i\<le>length xs. string i = (xs @ [0]) ! i"
  shows "\<exists>s'. UART0_SendString b string s = Some s' \<and> sent s' = sent s @ xs \<and> input s' = input s"
proof -
  have "\<forall>i<length xs. string i = xs ! i \<and> xs ! i \<noteq> 0"
    using assms(1,3) by (auto simp: nth_append) (metis nth_mem)
  moreover have "string (length xs) = 0" using assms(3) by (auto simp: nth_append)
  ultimately show ?thesis using SendString_loop_sends [of xs string 0 s] assms(2)
    by (simp add: UART0_SendString_def)
qed

lemma SendString_cut:
  assumes "0 \<notin> set xs" "\<forall>i\<le>length xs. string i = (xs @ [0]) ! i"
  shows "\<exists>s'. UART0_SendString b string s = Some s' \<and> sent s' = sent s @ take 250 xs \<and> input s' = input s"
proof (cases "length xs \<le> 250")
  case True
  then show ?thesis using SendString_sends [OF assms(1) _ assms(2)] by (simp add: MAX_STRING_LENGTH_def)
next
  case False
  have "\<forall>i<length xs. string i = xs ! i \<and> xs ! i \<noteq> 0"
    using assms by (auto simp: nth_append) (metis nth_mem)
  then show ?thesis using SendString_loop_sends [of "take 250 xs" string 0 s] False
    by (auto simp: UART0_SendString_def MAX_STRING_LENGTH_def)
qed

lemma literal_sends:
  "0 \<notin> set xs \<Longrightarrow> length xs \<le> MAX_STRING_LENGTH \<Longrightarrow>
   \<exists>s'. UART0_SendString b (c_array xs) s = Some s' \<and> sent s' = sent s @ xs \<and> input s' = input s"
  by (rule SendString_sends) (auto simp: c_array_def nth_append)

lemma SendData8_sends:
  "\<exists>s'. UART0_SendData8 b data s = Some s' \<and>
    sent s' = sent s @ [data div 100 + 48, data mod 100 div 10 + 48, data mod 10 + 48] \<and> input s' = input s"
proof -
  obtain s1 where s1: "UART0_PutChar b (data div 100 + 48) s = Some s1"
    "sent s1 = sent s @ [data div 100 + 48]" "input s1 = input s" using PutChar_sends by blast
  obtain s2 where s2: "UART0_PutChar b (data mod 100 div 10 + 48) s1 = Some s2"
    "sent s2 = sent s1 @ [data mod 100 div 10 + 48]" "input s2 = input s1" using PutChar_sends by blast
  obtain s3 where s3: "UART0_PutChar b (data mod 10 + 48) s2 = Some s3"
    "sent s3 = sent s2 @ [data mod 10 + 48]" "input s3 = input s2" using PutChar_sends by blast
  show ?thesis using s1 s2 s3 by (simp add: UART0_SendData8_def)
qed

lemma hex_sends:
  "\<exists>s'. UART0_SendString b (\<lambda>i. c_array (replicate k 48 @ hex_text data) (k + i)) s = Some s' \<and>
    sent s' = sent s @ hex_text data \<and> input s' = input s"
  using hex_text_nz length_hex_text [of data]
  by (intro SendString_sends) (auto simp: c_array_def nth_append MAX_STRING_LENGTH_def)

lemma SendData32_sends:
  "\<exists>s'. UART0_SendData32 b data s = Some s' \<and> sent s' = sent s @ lit ''0x'' @ hex_text data \<and> input s' = input s"
proof -
  obtain s1 where s1: "UART0_SendString b (c_array (lit ''0x'')) s = Some s1" "sent s1 = sent s @ lit ''0x''"
    "input s1 = input s"
    using literal_sends [of "lit ''0x''" s] by (auto simp: lit_def MAX_STRING_LENGTH_def)
  obtain s2 where "UART0_SendString b (\<lambda>i. c_array (replicate (8 - length (hex_text data)) 48 @ hex_text data)
      (8 - length (hex_text data) + i)) s1 = Some s2" "sent s2 = sent s1 @ hex_text data" "input s2 = input s1"
    using hex_sends by blast
  then show ?thesis using s1 by (simp add: UART0_SendData32_def hex_loop_text)
qed

end

section \<open>A port with a transmit FIFO\<close>

text \<open>
  The 64-byte transmit FIFO of the S3C6410 in front of the line, which takes a byte when a poll finds the FIFO full, and the
  received bytes waiting.
\<close>

record fifo_dev =
  line :: "u8 list"
  txq :: "u8 list"
  rxq :: "u8 list"

definition fifo_status :: "fifo_dev \<Rightarrow> u32" where
  "fifo_status s = (if length (txq s) < 64 then 0 else push_bit 14 1) OR (if rxq s = [] then 0 else 1)"

definition fifo_bus :: "fifo_dev bus" where
  "fifo_bus = \<lparr>
     bus_rd = \<lambda>w a s.
       if a = UFSTAT0 then (fifo_status s,
         if length (txq s) < 64 then s else s\<lparr>line := line s @ take 1 (txq s), txq := drop 1 (txq s)\<rparr>)
       else if a = URXH0 \<and> rxq s \<noteq> [] then (ucast (hd (rxq s)), s\<lparr>rxq := tl (rxq s)\<rparr>)
       else (0, s),
     bus_wr = \<lambda>w a v s. if a = UTXH0 \<and> length (txq s) < 64 then s\<lparr>txq := txq s @ [ucast v]\<rparr> else s \<rparr>"

lemma fifo_status_bits:
  "fifo_status s AND push_bit 14 1 = 0 \<longleftrightarrow> length (txq s) < 64"
  "fifo_status s AND 0x7f = 0 \<longleftrightarrow> rxq s = []"
  by (simp_all add: fifo_status_def)

interpretation fifo: uart_port fifo_bus "\<lambda>s. line s @ txq s" rxq "\<lambda>s. length (txq s)" "\<lambda>s. 0"
  by unfold_locales
    (auto simp: rd32_def fifo_bus_def fifo_status_bits [simplified] uart_addrs case_prod_beta Let_def)

section \<open>Properties\<close>

text \<open>
  \<open>UART0_SendString\<close> ends on every port whose transmit FIFO drains, and hands the bytes of the string to
  the line in order, the first 250 of a longer string; no input is lost.
\<close>

lemma SendString_correct:
  assumes "uart_port b sent input tx_delay rx_delay"
    and "0 \<notin> set xs" "\<forall>i\<le>length xs. string i = (xs @ [0]) ! i"
  shows "\<exists>s'. UART0_SendString b string s = Some s' \<and> sent s' = sent s @ take 250 xs \<and> input s' = input s"
  using assms by (rule uart_port.SendString_cut)

lemma SendString_correct_witness:
  "\<exists>s'. UART0_SendString fifo_bus (c_array [72, 105]) \<lparr>line = [], txq = replicate 64 0, rxq = []\<rparr> = Some s' \<and>
    line s' @ txq s' = replicate 64 0 @ [72, 105]"
proof -
  have "\<forall>i\<le>length [72, 105 :: u8]. c_array [72, 105] i = ([72, 105] @ [0]) ! i"
    by (auto simp: c_array_def le_Suc_eq)
  with SendString_correct [OF fifo.uart_port_axioms, of "[72, 105]" "c_array [72, 105]"
      "\<lparr>line = [], txq = replicate 64 0, rxq = []\<rparr>"] show ?thesis by auto
qed

text \<open>
  \<open>UART0_SendData32\<close> never stores in front of its digit buffer, ends, and sends \<open>0x\<close> and the hexadecimal
  digits of the number without leading zeros; reading these digits as a number gives the number back.
\<close>

lemma SendData32_correct:
  assumes "uart_port b sent input tx_delay rx_delay"
  shows "\<exists>s' ds. UART0_SendData32 b data s = Some s' \<and>
    sent s' = sent s @ [48, 120] @ map ((!) large_digits) ds \<and> input s' = input s \<and>
    foldl (\<lambda>acc d. acc * 16 + d) 0 ds = unat data \<and> (\<forall>d\<in>set ds. d < 16)"
proof -
  obtain s' where s': "UART0_SendData32 b data s = Some s'" "sent s' = sent s @ lit ''0x'' @ hex_text data"
    "input s' = input s" using uart_port.SendData32_sends [OF assms] by blast
  have "foldl (\<lambda>acc d. acc * 16 + d) 0 (rev (digits_rev 16 (unat data))) = unat data"
    using digits_rev_value [of 16 "unat data"] by (simp add: foldl_conv_foldr add.commute)
  then show ?thesis using s' digits_rev_less [of _ 16 "unat data"]
    by (intro exI [of _ s'] exI [of _ "rev (digits_rev 16 (unat data))"]) (simp add: hex_text_def lit_def)
qed

lemma SendData32_correct_witness:
  "\<exists>s' ds. UART0_SendData32 fifo_bus 0xbeef \<lparr>line = [], txq = [], rxq = []\<rparr> = Some s' \<and>
    line s' @ txq s' = [48, 120] @ map ((!) large_digits) ds \<and> foldl (\<lambda>acc d. acc * 16 + d) 0 ds = 0xbeef"
  using SendData32_correct [OF fifo.uart_port_axioms, of "0xbeef" "\<lparr>line = [], txq = [], rxq = []\<rparr>"] by auto

text \<open>
  A zero is not printed.  \<open>UART0_SendData32(0)\<close> of the interrupt and timer programs sends the prefix
  \<open>0x\<close> alone; the version of the stdio program was corrected and sends \<open>0x0\<close>.
\<close>

lemma SendData32_zero:
  assumes "uart_port b sent input tx_delay rx_delay"
  shows "\<exists>s1 s2. UART0_SendData32 b 0 s = Some s1 \<and> sent s1 = sent s @ [48, 120] \<and>
    stdio_SendData32 b 0 s = Some s2 \<and> sent s2 = sent s @ [48, 120, 48]"
proof -
  obtain s1 where s1: "UART0_SendData32 b 0 s = Some s1" "sent s1 = sent s @ lit ''0x'' @ hex_text 0"
    using uart_port.SendData32_sends [OF assms] by blast
  obtain t1 where t1: "UART0_SendString b (c_array (lit ''0x'')) s = Some t1" "sent t1 = sent s @ lit ''0x''"
    using uart_port.literal_sends [OF assms, of "lit ''0x''" s] by (auto simp: lit_def MAX_STRING_LENGTH_def)
  obtain t2 where t2: "UART0_SendString b (c_array (lit ''0'')) t1 = Some t2" "sent t2 = sent t1 @ lit ''0''"
    using uart_port.literal_sends [OF assms, of "lit ''0''" t1] by (auto simp: lit_def MAX_STRING_LENGTH_def)
  have "hex_text 0 = []" by (simp add: hex_text_def)
  then show ?thesis using s1 t1 t2 hex_loop_text [of 0] by (simp add: stdio_SendData32_def lit_def)
qed

lemma SendData32_zero_witness:
  "\<exists>s1. UART0_SendData32 fifo_bus 0 \<lparr>line = [], txq = [], rxq = []\<rparr> = Some s1 \<and> line s1 @ txq s1 = [48, 120]"
  using SendData32_zero [OF fifo.uart_port_axioms, of "\<lparr>line = [], txq = [], rxq = []\<rparr>"] by auto

text \<open>
  The baud rate.  The divisor is 35 and the fractional slot is always entry 0 of its table, because the macro
  divides integers (a comment computes 35.08, which needs slot 1); the rate stays within 0.3 percent of 115200.
\<close>

lemma baud_rate_programmed:
  "UART0_UBRDIV0 = 35 \<and> UART0_UDIVSLOT_NUM = 0 \<and> UDIVSLOT_LIST ! UART0_UDIVSLOT_NUM = 0 \<and>
   1000 * (UART0_CLK - UART0_BAUDRATE * 16 * (UART0_UBRDIV0 + 1)) < 3 * (UART0_BAUDRATE * 16 * (UART0_UBRDIV0 + 1))"
  by (simp add: UART0_UBRDIV0_def UART0_UDIVSLOT_NUM_def UART0_DIV_VAL_def UART0_CLK_def UART0_BAUDRATE_def
      UDIVSLOT_LIST_def)

end
