(* ===== verification/Stdio.thy ===== *)
theory Stdio
  imports Sscanf Uart
begin

text \<open>
  \<open>printf\<close> and \<open>scanf\<close> of \<open>no-os/stdio/lib/printf.c\<close>: the formatted text goes through the static buffers
  \<open>g_pcOutBuf\<close> and \<open>g_pcInBuf\<close>, whose addresses are parameters, and through the UART.  Neither buffer is
  checked for its size of 1024 bytes.
\<close>

section \<open>The model\<close>

definition OUTBUFSIZE :: nat where "OUTBUFSIZE = 1024"
definition INBUFSIZE :: nat where "INBUFSIZE = 1024"

text \<open>\<open>for (i = 0; i < strlen(g_pcOutBuf); i++) putc(g_pcOutBuf[i]);\<close>\<close>

partial_function (option) printf_loop :: "'d bus \<Rightarrow> mem \<Rightarrow> ptr \<Rightarrow> u32 \<Rightarrow> 'd \<Rightarrow> 'd option" where
  "printf_loop b m outbuf i d = do {
     n \<leftarrow> strlen m outbuf;
     if i < n then do { d' \<leftarrow> putc b (m (outbuf + i)) d; printf_loop b m outbuf (i + 1) d' }
     else Some d }"

definition printf :: "'d bus \<Rightarrow> ptr \<Rightarrow> mem \<Rightarrow> ptr \<Rightarrow> ptr \<Rightarrow> 'd \<Rightarrow> (mem \<times> s32 \<times> 'd) option" where
  "printf b outbuf m fmt args d = do {
     (m, len) \<leftarrow> vsprintf m outbuf fmt args;
     d \<leftarrow> printf_loop b m outbuf 0 d;
     Some (m, len, d) }"

partial_function (option) scanf_loop :: "'d bus \<Rightarrow> ptr \<Rightarrow> mem \<Rightarrow> u32 \<Rightarrow> 'd \<Rightarrow> (mem \<times> 'd) option" where
  "scanf_loop b inbuf m i d = do {
     (c, d) \<leftarrow> getc b d;
     d \<leftarrow> putc b c d;
     if c = 0x0d \<or> c = 0x0a then Some (m(inbuf + i := 0), d)
     else scanf_loop b inbuf (m(inbuf + i := c)) (i + 1) d }"

definition scanf :: "'d bus \<Rightarrow> ptr \<Rightarrow> mem \<Rightarrow> ptr \<Rightarrow> ptr \<Rightarrow> 'd \<Rightarrow> (mem \<times> s32 \<times> 'd) option" where
  "scanf b inbuf m fmt args d = do {
     (m, d) \<leftarrow> scanf_loop b inbuf m 0 d;
     (m, i) \<leftarrow> vsscanf m inbuf fmt args;
     Some (m, i, d) }"

section \<open>Through the buffers\<close>

context uart_port
begin

lemma printf_loop_sends:
  assumes "cstr_at m outbuf xs" "length xs < 2 ^ 32" "i \<le> length xs"
  shows "\<exists>d'. printf_loop b m outbuf (of_nat i) d = Some d' \<and> sent d' = sent d @ drop i xs \<and> input d' = input d"
  using assms(3)
proof (induction "length xs - i" arbitrary: i d)
  case 0
  then show ?case using strlen_cstr [OF assms(1)]
    by (subst printf_loop.simps) simp
next
  case (Suc k)
  then have i: "i < length xs" by simp
  have lt: "(of_nat i :: u32) < of_nat (length xs)"
    using i assms(2) by (simp add: word_less_nat_alt u32_of_nat_less)
  have at: "m (outbuf + of_nat i) = xs ! i"
    using assms(1) i by (auto simp: cstr_at_def bytes_at_nth nth_append dest: spec [of _ i])
  obtain d1 where d1: "putc b (xs ! i) d = Some d1" "sent d1 = sent d @ [xs ! i]" "input d1 = input d"
    using PutChar_sends unfolding putc_def by blast
  have "\<exists>d'. printf_loop b m outbuf (of_nat (Suc i)) d1 = Some d' \<and> sent d' = sent d1 @ drop (Suc i) xs \<and> input d' = input d1"
    using Suc.hyps(1) [of "Suc i" d1] Suc.hyps(2) i by simp
  then show ?case using strlen_cstr [OF assms(1)] lt at d1 i
    by (subst printf_loop.simps) (auto simp: Cons_nth_drop_Suc add.commute)
qed

lemma scanf_loop_reads:
  assumes "input d = xs @ c # rest" "c = 0x0d \<or> c = 0x0a" "\<forall>x\<in>set xs. x \<noteq> 0x0d \<and> x \<noteq> 0x0a"
  shows "\<exists>d'. scanf_loop b inbuf m i d = Some (store_bytes m (inbuf + i) (xs @ [0]), d') \<and>
    sent d' = sent d @ xs @ [c] \<and> input d' = rest"
  using assms
proof (induction xs arbitrary: d m i)
  case Nil
  obtain d1 where d1: "getc b d = Some (c, d1)" "sent d1 = sent d" "input d1 = rest"
    using GetChar_reads [of d c rest] Nil unfolding getc_def by auto
  obtain d2 where d2: "putc b c d1 = Some d2" "sent d2 = sent d1 @ [c]" "input d2 = input d1"
    using PutChar_sends unfolding putc_def by blast
  show ?case using d1 d2 Nil by (subst scanf_loop.simps) auto
next
  case (Cons x xs)
  obtain d1 where d1: "getc b d = Some (x, d1)" "sent d1 = sent d" "input d1 = xs @ c # rest"
    using GetChar_reads [of d x] Cons.prems unfolding getc_def by auto
  obtain d2 where d2: "putc b x d1 = Some d2" "sent d2 = sent d1 @ [x]" "input d2 = input d1"
    using PutChar_sends unfolding putc_def by blast
  show ?case using d1 d2 Cons.IH [of d2 "m(inbuf + i := x)" "i + 1"] Cons.prems
    by (subst scanf_loop.simps) (auto simp: add.assoc simp del: fun_upd_apply)
qed

end

section \<open>Properties\<close>

text \<open>
  C27: \<open>printf\<close> sends what its format describes.  When the output \<open>ys\<close> of the format contains no NUL and lies apart
  from what the formatting reads, \<open>printf\<close> ends, hands exactly \<open>ys\<close> to the line, returns its length, and writes
  \<open>ys\<close> with its NUL into the output buffer and nowhere else, however long \<open>ys\<close> is.
\<close>

theorem printf_sends_output:
  assumes port: "uart_port b sent input tx_delay rx_delay"
    and spec: "fmt_out (reader m |` D) fmt args = Some ys" "0 \<notin> set ys"
    and D: "\<forall>a\<in>D. \<not> in_region outbuf (length ys) a"
    and buf: "outbuf \<noteq> NULL" "unat outbuf \<le> 2 ^ 31" "length ys < 0x7fffffff"
  shows "\<exists>d'. printf b outbuf m fmt args d = Some (store_bytes m outbuf (ys @ [0]), of_nat (length ys), d') \<and>
    sent d' = sent d @ ys \<and> input d' = input d"
proof -
  have sz: "unat (drop_bit 1 (NOT 0) :: u32) = 0x7fffffff"
    by simp (simp add: mask_eq_exp_minus_1)
  have "vsprintf m outbuf fmt args = Some (store_bytes m outbuf (ys @ [0]), of_nat (length ys))"
    unfolding vsprintf_def
    using vsnprintf_out [OF spec(1), of outbuf "drop_bit 1 (NOT 0)", unfolded sz] D buf by simp
  moreover have "cstr_at (store_bytes m outbuf (ys @ [0])) outbuf ys"
    using spec(2) buf(3) by (simp add: cstr_at_def)
  ultimately show ?thesis
    using uart_port.printf_loop_sends [OF port, of _ outbuf ys 0 d] buf(3) by (fastforce simp: printf_def)
qed

theorem printf_sends_output_witness:
  "\<exists>d'. printf fifo_bus 0x2000 demo_mem 0x1000 0x1100 \<lparr>line = [], txq = [], rxq = []\<rparr> =
      Some (store_bytes demo_mem 0x2000 [102, 102, 0], 2, d') \<and> line d' @ txq d' = [102, 102]"
  using printf_sends_output [OF fifo.uart_port_axioms demo_out [unfolded demo_reader_def], of "0x2000"
      "\<lparr>line = [], txq = [], rxq = []\<rparr>"]
  by (auto simp: below_region)

text \<open>
  C35: \<open>scanf\<close> reads one line.  It echoes the bytes up to and including the carriage return or line feed, stores
  them NUL-terminated in the input buffer, however long the line is, and scans them there.
\<close>

theorem scanf_reads_line:
  assumes "uart_port b sent input tx_delay rx_delay"
    and "input d = xs @ c # rest" "c = 0x0d \<or> c = 0x0a" "\<forall>x\<in>set xs. x \<noteq> 0x0d \<and> x \<noteq> 0x0a"
    and "vsscanf (store_bytes m inbuf (xs @ [0])) inbuf fmt args = Some (m', n)"
  shows "\<exists>d'. scanf b inbuf m fmt args d = Some (m', n, d') \<and> sent d' = sent d @ xs @ [c] \<and> input d' = rest"
  using uart_port.scanf_loop_reads [OF assms(1-4), of inbuf m 0] assms(5) by (auto simp: scanf_def)

theorem scanf_reads_line_witness:
  "\<exists>d'. scanf fifo_bus 0x2000 (\<lambda>_. 0) 0x1000 0x1100 \<lparr>line = [], txq = [], rxq = [65, 13, 66]\<rparr> =
      Some (store_bytes (\<lambda>_. 0) 0x2000 [65, 0], 0, d') \<and> line d' @ txq d' = [65, 13] \<and> rxq d' = [66]"
proof -
  have "vsscanf (store_bytes (\<lambda>_. 0) 0x2000 ([65] @ [0])) 0x2000 0x1000 0x1100 =
      Some (store_bytes (\<lambda>_. 0) 0x2000 [65, 0], 0)"
    by (simp add: vsscanf_def scan_loop.simps [of "0x2000"])
  from scanf_reads_line [OF fifo.uart_port_axioms _ _ _ this, of "\<lparr>line = [], txq = [], rxq = [65, 13, 66]\<rparr>" 13 "[66]"]
  show ?thesis by simp
qed

end
