(* ===== verification/Muldi3.thy ===== *)
theory Muldi3
  imports Prelude
begin

text \<open>
  The 64-bit multiplication \<open>__muldi3\<close> of \<open>no-os/stdio/lib/muldi3.c\<close>, with the inline assembly of \<open>umul_ppmm\<close> as
  the register transfers its instructions make.  A \<open>DIunion\<close> is the pair of its halves, low word first.
\<close>

definition DI_low :: "u64 \<Rightarrow> u32" where "DI_low u = ucast u"
definition DI_high :: "u64 \<Rightarrow> u32" where "DI_high u = ucast (drop_bit 32 u)"
definition DI_ll :: "u32 \<Rightarrow> u32 \<Rightarrow> u64" where "DI_ll lo hi = ucast lo + 0x100000000 * ucast hi"

text \<open>The carry that \<open>adds\<close> leaves for a sum of two registers.\<close>

definition adds_carry :: "u32 \<Rightarrow> u32 \<Rightarrow> bool" where
  "adds_carry x y \<longleftrightarrow> unat x + unat y \<ge> 2 ^ 32"

definition umul_ppmm :: "u32 \<Rightarrow> u32 \<Rightarrow> u32 \<times> u32" where
  "umul_ppmm a b =
     (let t0 = drop_bit 16 a;
          xh = drop_bit 16 b;
          t1 = a AND NOT (push_bit 16 t0);
          t2 = b AND NOT (push_bit 16 xh);
          xl = t1 * t2;
          t2 = t0 * t2;
          t1 = xh * t1;
          xh = t0 * xh;
          c = adds_carry t2 t1;
          t1 = t2 + t1;
          xh = (if c then xh + 65536 else xh);
          c = adds_carry xl (push_bit 16 t1);
          xl = xl + push_bit 16 t1;
          xh = xh + drop_bit 16 t1 + (if c then 1 else 0)
      in (xh, xl))"

definition umulsidi3 :: "u32 \<Rightarrow> u32 \<Rightarrow> u64" where
  "umulsidi3 u v = (let (high, low) = umul_ppmm u v in DI_ll low high)"

definition muldi3 :: "u64 \<Rightarrow> u64 \<Rightarrow> u64" where
  "muldi3 u v =
     (let w = umulsidi3 (DI_low u) (DI_low v);
          high = DI_high w + (DI_low u * DI_high v + DI_high u * DI_low v)
      in DI_ll (DI_low w) high)"

section \<open>Correctness\<close>

lemma unat_low_half: "unat (a AND NOT (push_bit 16 (drop_bit 16 a)) :: u32) = unat a mod 2 ^ 16"
proof -
  have "a AND NOT (push_bit 16 (drop_bit 16 a)) = take_bit 16 a"
    by (rule bit_word_eqI) (auto simp: bit_simps)
  then show ?thesis by (simp add: take_bit_eq_mod unat_mod)
qed

lemma unat_high_half: "unat (drop_bit 16 a :: u32) = unat a div 2 ^ 16"
  by (simp add: drop_bit_eq_div unat_div)

lemma halves_bound: "unat (a :: u32) mod 2 ^ 16 < 2 ^ 16" "unat a div 2 ^ 16 < 2 ^ 16"
  using unat_u32_bound [of a] by auto

lemma unat_mult_half:
  "unat (x :: u32) < 2 ^ 16 \<Longrightarrow> unat (y :: u32) < 2 ^ 16 \<Longrightarrow> unat (x * y) = unat x * unat y"
proof -
  assume "unat x < 2 ^ 16" "unat y < 2 ^ 16"
  then have "unat x * unat y < 2 ^ 16 * 2 ^ 16" by (intro mult_strict_mono) simp_all
  then show ?thesis by (subst unat_mult_lem [THEN iffD1]) simp_all
qed

lemma unat_add_carry:
  "unat (x + y :: u32) + (if adds_carry x y then 2 ^ 32 else 0) = unat x + unat y"
proof (cases "adds_carry x y")
  case True
  then have "unat x + unat y - 2 ^ 32 < 2 ^ 32" "2 ^ 32 \<le> unat x + unat y"
    using unat_u32_bound [of x] unat_u32_bound [of y] by (simp_all add: adds_carry_def)
  then show ?thesis using True by (simp add: unat_word_ariths le_mod_geq)
next
  case False
  then show ?thesis by (simp add: adds_carry_def unat_word_ariths)
qed

lemma unat_push_16: "unat (push_bit 16 (t :: u32)) = unat t mod 2 ^ 16 * 2 ^ 16"
  by (simp add: push_bit_eq_mult unat_word_ariths) (simp add: mult_mod_right mod_mult_mult2 mult.commute)

lemma carry_sum:
  fixes t s l x p q w :: nat
  assumes "t + (if c1 then 2 ^ 32 else 0) = s" "l + (if c2 then 2 ^ 32 else 0) = x + q * 2 ^ 16"
    and "t = p * 2 ^ 16 + q"
  shows "(w + (if c1 then 65536 else 0) + p + (if c2 then 1 else 0)) * 2 ^ 32 + l = w * 2 ^ 32 + s * 2 ^ 16 + x"
  using assms by (cases c1; cases c2) simp_all

lemma umul_ppmm_product:
  assumes "umul_ppmm a b = (xh, xl)"
  shows "unat xh * 2 ^ 32 + unat xl = unat a * unat b"
proof -
  define a0 a1 b0 b1 where "a0 = unat a mod 2 ^ 16" and "a1 = unat a div 2 ^ 16"
    and "b0 = unat b mod 2 ^ 16" and "b1 = unat b div 2 ^ 16"
  have ab: "unat a = a1 * 2 ^ 16 + a0" "unat b = b1 * 2 ^ 16 + b0"
    by (simp_all add: a0_def a1_def b0_def b1_def)
  define al bl :: u32 where "al = a AND NOT (push_bit 16 (drop_bit 16 a))" and "bl = b AND NOT (push_bit 16 (drop_bit 16 b))"
  define ah bh :: u32 where "ah = drop_bit 16 a" and "bh = drop_bit 16 b"
  have un: "unat al = a0" "unat bl = b0" "unat ah = a1" "unat bh = b1"
    by (simp_all only: al_def bl_def ah_def bh_def unat_low_half unat_high_half a0_def a1_def b0_def b1_def)
  have lt: "a0 < 2 ^ 16" "b0 < 2 ^ 16" "a1 < 2 ^ 16" "b1 < 2 ^ 16"
    by (simp_all only: a0_def a1_def b0_def b1_def halves_bound)
  define x y z w where "x = al * bl" and "y = ah * bl" and "z = bh * al" and "w = ah * bh"
  have prods: "unat x = a0 * b0" "unat y = a1 * b0" "unat z = b1 * a0" "unat w = a1 * b1"
    unfolding x_def y_def z_def w_def using un lt by (simp_all only: unat_mult_half)
  define t where "t = y + z"
  define c1 c2 where "c1 = adds_carry y z" and "c2 = adds_carry x (push_bit 16 t)"
  have t: "unat t + (if c1 then 2 ^ 32 else 0) = a1 * b0 + b1 * a0"
    unfolding t_def c1_def by (simp only: unat_add_carry prods)
  have xl: "unat (x + push_bit 16 t) + (if c2 then 2 ^ 32 else 0) = a0 * b0 + unat t mod 2 ^ 16 * 2 ^ 16"
    unfolding c2_def by (simp only: unat_add_carry prods unat_push_16)
  define H where "H = a1 * b1 + (if c1 then 65536 else 0) + unat t div 2 ^ 16 + (if c2 then 1 else 0)"
  have eqs: "xl = x + push_bit 16 t"
      "xh = (if c1 then w + 65536 else w) + drop_bit 16 t + (if c2 then 1 else 0)"
    using assms unfolding umul_ppmm_def Let_def
    by (simp_all only: x_def y_def z_def w_def t_def c1_def c2_def al_def bl_def ah_def bh_def prod.inject)
  have sum: "H * 2 ^ 32 + unat xl = unat a * unat b"
  proof -
    have "unat a * unat b = a1 * b1 * 2 ^ 32 + (a1 * b0 + b1 * a0) * 2 ^ 16 + a0 * b0"
      by (simp add: ab algebra_simps)
    moreover have "unat t = unat t div 2 ^ 16 * 2 ^ 16 + unat t mod 2 ^ 16" by simp
    ultimately show ?thesis using carry_sum [OF t xl] unfolding H_def eqs(1) by simp
  qed
  have "unat a * unat b < 2 ^ 32 * 2 ^ 32"
    using unat_u32_less [of a] unat_u32_less [of b] by (intro mult_strict_mono) simp_all
  then have "H < 2 ^ 32" using sum by simp
  moreover have "drop_bit 16 t = of_nat (unat t div 2 ^ 16)"
    by (simp only: unat_high_half [symmetric] of_nat_unat ucast_id)
  then have "xh = of_nat H"
    unfolding eqs(2) H_def by (simp add: prods(4) [symmetric])
  ultimately have "unat xh = H" by (simp add: u32_of_nat_less)
  with sum show ?thesis by simp
qed

lemma unat_ucast_up: "unat (ucast (x :: u32) :: u64) = unat x"
  using unat_u32_bound [of x] by (simp add: unsigned_ucast_eq take_bit_nat_eq_self)

lemma shift_mod: "(0x100000000 * of_nat (n mod 2 ^ 32) :: u64) = 0x100000000 * of_nat n"
proof -
  have "of_nat n = (of_nat (n mod 2 ^ 32 + 2 ^ 32 * (n div 2 ^ 32)) :: u64)" by (simp only: mod_mult_div_eq)
  also have "\<dots> = of_nat (n mod 2 ^ 32) + of_nat (2 ^ 32) * of_nat (n div 2 ^ 32)"
    by (simp only: of_nat_add of_nat_mult)
  also have "(of_nat (2 ^ 32) :: u64) = 0x100000000" by simp
  finally have n: "of_nat n = of_nat (n mod 2 ^ 32) + 0x100000000 * (of_nat (n div 2 ^ 32) :: u64)" .
  have "(0x100000000 * 0x100000000 :: u64) = 0" by simp
  then have "(0x100000000 * (0x100000000 * x) :: u64) = 0" for x by (simp only: mult.assoc [symmetric] mult_zero_left)
  then show ?thesis by (subst n) (simp only: distrib_left add_0_right)
qed

lemma ucast_of_nat: "(ucast (x :: u32) :: u64) = of_nat (unat x)"
  by simp

lemma shift_add:
  "(0x100000000 * ucast (a + b :: u32) :: u64) = 0x100000000 * (ucast a + ucast b)"
proof -
  have "unat (a + b) = (unat a + unat b) mod 2 ^ 32" by (simp add: unat_word_ariths)
  then show ?thesis using shift_mod [of "unat a + unat b"] by (simp only: ucast_of_nat of_nat_add)
qed

lemma shift_mult:
  "(0x100000000 * ucast (a * b :: u32) :: u64) = 0x100000000 * (ucast a * ucast b)"
proof -
  have "unat (a * b) = (unat a * unat b) mod 2 ^ 32" by (simp add: unat_word_ariths)
  then show ?thesis using shift_mod [of "unat a * unat b"] by (simp only: ucast_of_nat of_nat_mult)
qed

lemma DI_ll_halves: "DI_ll (DI_low u) (DI_high u) = u"
proof -
  have "unat (DI_low u) = unat u mod 2 ^ 32"
    by (simp add: DI_low_def unsigned_ucast_eq take_bit_eq_mod)
  moreover have "unat u < 2 ^ 32 * 2 ^ 32" by (rule order_less_le_trans [OF unsigned_less]) simp
  then have "unat u div 2 ^ 32 < 2 ^ 32" by (rule less_mult_imp_div_less)
  then have "unat (DI_high u) = unat u div 2 ^ 32"
    by (simp add: DI_high_def unsigned_ucast_eq take_bit_nat_eq_self drop_bit_eq_div unat_div)
  ultimately have "DI_ll (DI_low u) (DI_high u) = of_nat (unat u mod 2 ^ 32 + 2 ^ 32 * (unat u div 2 ^ 32))"
    by (simp only: DI_ll_def ucast_of_nat of_nat_add of_nat_mult) simp
  then show ?thesis by (simp only: mod_mult_div_eq of_nat_unat ucast_id)
qed

lemma umulsidi3_product: "umulsidi3 u v = ucast u * ucast v"
proof -
  obtain xh xl where x: "umul_ppmm u v = (xh, xl)" by fastforce
  have "(of_nat (unat xh * 2 ^ 32 + unat xl) :: u64) = of_nat (unat u * unat v)"
    by (simp only: umul_ppmm_product [OF x])
  then show ?thesis by (simp add: umulsidi3_def x DI_ll_def mult.commute add.commute)
qed

section \<open>Properties\<close>

text \<open>
  C23: \<open>__muldi3\<close> multiplies.  The assembly of \<open>umul_ppmm\<close> yields the two words of the full 64-bit product of two
  words, and \<open>__muldi3\<close> the product of two 64-bit numbers modulo \<open>2^64\<close>.
\<close>

theorem muldi3_product:
  "muldi3 u v = u * v \<and> (case umul_ppmm a b of (xh, xl) \<Rightarrow> unat xh * 2 ^ 32 + unat xl = unat a * unat b)"
proof
  let ?k = "0x100000000 :: u64"
  define ul uh vl vh :: u64
    where "ul = ucast (DI_low u)" and "uh = ucast (DI_high u)" and "vl = ucast (DI_low v)" and "vh = ucast (DI_high v)"
  have uv: "u = ul + ?k * uh" "v = vl + ?k * vh"
    using DI_ll_halves [of u] DI_ll_halves [of v] by (simp_all add: DI_ll_def ul_def uh_def vl_def vh_def)
  have "muldi3 u v = DI_ll (DI_low (ul * vl)) (DI_high (ul * vl)) + ?k * (ul * vh + uh * vl)"
    by (simp only: muldi3_def Let_def umulsidi3_product DI_ll_def shift_add shift_mult distrib_left
        ul_def uh_def vl_def vh_def add.assoc)
  also have "\<dots> = ul * vl + ?k * (ul * vh + uh * vl)" by (simp only: DI_ll_halves)
  also have "\<dots> = u * v"
  proof -
    have "?k * ?k = 0" by simp
    then have z: "?k * (?k * x) = 0" for x by (simp only: mult.assoc [symmetric] mult_zero_left)
    have "u * v = ul * vl + ?k * (ul * vh + uh * vl) + ?k * (?k * (uh * vh))"
      unfolding uv by (simp only: distrib_left distrib_right ac_simps)
    then show ?thesis by (simp only: z add_0_right)
  qed
  finally show "muldi3 u v = u * v" .
next
  show "case umul_ppmm a b of (xh, xl) \<Rightarrow> unat xh * 2 ^ 32 + unat xl = unat a * unat b"
    by (cases "umul_ppmm a b") (simp only: case_prod_conv umul_ppmm_product)
qed

end
