(* ===== verification/Gpio.thy ===== *)
theory Gpio
  imports Bus
begin

text \<open>
  LEDs, keys and buzzer on the GPIO ports: \<open>no-os/interrupt/irq_advanced/leds.c\<close> and \<open>key.c\<close> (used unchanged by
  the timer and watchdog programs), \<open>no-os/buzzer/buzzer.c\<close> and the polling loop of
  \<open>no-os/button/mykey/main.c\<close>.  An LED is lit when its bit of GPKDAT is 0, a key is pressed when its bit of
  GPNDAT is 0.
\<close>

section \<open>Registers\<close>

definition GPKCON0 :: u32 where "GPKCON0 = 0x7F008800"
definition GPKDAT :: u32 where "GPKDAT = 0x7F008808"
definition GPNCON :: u32 where "GPNCON = 0x7F008830"
definition GPNDAT :: u32 where "GPNDAT = 0x7F008834"
definition GPFCON :: u32 where "GPFCON = 0x7F0080A0"
definition GPFDAT :: u32 where "GPFDAT = 0x7F0080A4"

definition GPK_out :: "nat \<Rightarrow> u32" where "GPK_out n = push_bit (n * 4) 1"
definition GPK_mask :: "nat \<Rightarrow> u32" where "GPK_mask n = push_bit (n * 4) 0xf"
definition GPN_in :: "nat \<Rightarrow> u32" where "GPN_in n = push_bit (n * 2) 0"
definition GPN_int :: "nat \<Rightarrow> u32" where "GPN_int n = push_bit (n * 2) 2"
definition GPN_mask :: "nat \<Rightarrow> u32" where "GPN_mask n = push_bit (n * 2) 3"
definition GPF14_out :: u32 where "GPF14_out = push_bit (14 * 2) 1"
definition GPF14_mask :: u32 where "GPF14_mask = push_bit (14 * 2) 3"

lemmas gpio_addrs = GPKCON0_def GPKDAT_def GPNCON_def GPNDAT_def GPFCON_def GPFDAT_def
lemmas gpio_masks = GPK_out_def GPK_mask_def GPN_in_def GPN_int_def GPN_mask_def GPF14_out_def GPF14_mask_def

section \<open>LEDs\<close>

definition LEDS_NUMBER :: nat where "LEDS_NUMBER = 4"

definition LED_ON :: "'d bus \<Rightarrow> nat \<Rightarrow> 'd \<Rightarrow> 'd" where
  "LED_ON b n = reg_and b GPKDAT (NOT (BIT (n + 3)))"

definition LED_OFF :: "'d bus \<Rightarrow> nat \<Rightarrow> 'd \<Rightarrow> 'd" where
  "LED_OFF b n = reg_or b GPKDAT (BIT (n + 3))"

definition leds_init :: "'d bus \<Rightarrow> 'd \<Rightarrow> 'd" where
  "leds_init b s =
     (let s = reg_and b GPKCON0 (NOT (GPK_mask 4 + GPK_mask 5 + GPK_mask 6 + GPK_mask 7)) s
      in reg_or b GPKCON0 (GPK_out 4 + GPK_out 5 + GPK_out 6 + GPK_out 7) s)"

definition leds_ON :: "'d bus \<Rightarrow> u16 \<Rightarrow> 'd \<Rightarrow> 'd" where
  "leds_ON b number s =
     (if unat number \<le> LEDS_NUMBER then
        (if number = 1 then LED_ON b 1 s else if number = 2 then LED_ON b 2 s
         else if number = 3 then LED_ON b 3 s else if number = 4 then LED_ON b 4 s else s)
      else s)"

definition leds_OFF :: "'d bus \<Rightarrow> u16 \<Rightarrow> 'd \<Rightarrow> 'd" where
  "leds_OFF b number s =
     (if unat number \<le> LEDS_NUMBER then
        (if number = 1 then LED_OFF b 1 s else if number = 2 then LED_OFF b 2 s
         else if number = 3 then LED_OFF b 3 s else if number = 4 then LED_OFF b 4 s else s)
      else s)"

text \<open>\<open>for (i = 1; i <= LEDS_NUMBER; i++)\<close>\<close>

definition led_numbers :: "u16 list" where
  "led_numbers = map of_nat [1..<Suc LEDS_NUMBER]"

definition leds_ON_all :: "'d bus \<Rightarrow> 'd \<Rightarrow> 'd" where
  "leds_ON_all b s = foldl (\<lambda>s i. leds_ON b i s) s led_numbers"

definition leds_OFF_all :: "'d bus \<Rightarrow> 'd \<Rightarrow> 'd" where
  "leds_OFF_all b s = foldl (\<lambda>s i. leds_OFF b i s) s led_numbers"

text \<open>
  The running lights.  \<open>delay()\<close> only spends time, so the states in which it is called are what one sees; the
  loops return their list, oldest first, beside the final state.
\<close>

definition leds_flowing_round :: "'d bus \<Rightarrow> 'd list \<times> 'd \<Rightarrow> 'd list \<times> 'd" where
  "leds_flowing_round b =
     (\<lambda>acc. foldl (\<lambda>(seen, s) i. let s = leds_ON b i (leds_OFF_all b s) in (seen @ [s], s)) acc led_numbers)"

primrec leds_flowing_loop :: "'d bus \<Rightarrow> nat \<Rightarrow> 'd list \<times> 'd \<Rightarrow> 'd list \<times> 'd" where
  "leds_flowing_loop b 0 acc = acc"
| "leds_flowing_loop b (Suc n) acc = leds_flowing_loop b n (leds_flowing_round b acc)"

definition leds_flowing :: "'d bus \<Rightarrow> u32 \<Rightarrow> 'd \<Rightarrow> 'd list \<times> 'd" where
  "leds_flowing b numbers s = leds_flowing_loop b (unat numbers) ([], s)"

definition leds_show :: "'d bus \<Rightarrow> u16 \<Rightarrow> 'd \<Rightarrow> 'd" where
  "leds_show b i s =
     (let s = (if i AND 1 \<noteq> 0 then LED_ON b 1 s else LED_OFF b 1 s);
          s = (if i AND 2 \<noteq> 0 then LED_ON b 2 s else LED_OFF b 2 s);
          s = (if i AND 4 \<noteq> 0 then LED_ON b 3 s else LED_OFF b 3 s)
      in if i AND 8 \<noteq> 0 then LED_ON b 4 s else LED_OFF b 4 s)"

definition binary_next :: "u32 \<Rightarrow> u16 \<Rightarrow> u32 \<times> u16" where
  "binary_next numbers i = (if i + 1 > 0xf then (numbers - 1, 0) else (numbers, i + 1))"

function leds_binary_loop :: "'d bus \<Rightarrow> u32 \<Rightarrow> u16 \<Rightarrow> 'd list \<times> 'd \<Rightarrow> 'd list \<times> 'd" where
  "leds_binary_loop b numbers i (seen, s) =
     (if numbers \<noteq> 0
      then (let (numbers', i') = binary_next numbers i; s' = leds_show b i' s
            in leds_binary_loop b numbers' i' (seen @ [s'], s'))
      else (seen, s))"
  by pat_completeness auto
termination
proof (relation "measures [\<lambda>(b, n, i, _). unat n, \<lambda>(b, n, i, _). 65536 - unat (i + 1)]", goal_cases)
  case (2 b numbers i seen s x n' i' y)
  have "unat (i + 1 + 1) = Suc (unat (i + 1))" if "\<not> 0xf < i + 1"
  proof -
    have "unat (i + 1) \<le> 15" using that by (simp add: word_less_nat_alt)
    then have "unat (i + 1) + unat (1 :: u16) < 2 ^ 16" by simp
    then show ?thesis by (subst unat_add_lem [THEN iffD1]) simp_all
  qed
  moreover have "unat (i + 1) < 65536" by (rule order_less_le_trans [OF unsigned_less]) simp
  moreover have "unat (numbers - 1) < unat numbers"
    using 2(1) by (simp add: unat_minus_one_u32 unat_gt_0)
  ultimately show ?case using 2 by (auto simp: binary_next_def split: if_splits)
qed simp

definition leds_binary :: "'d bus \<Rightarrow> u32 \<Rightarrow> 'd \<Rightarrow> 'd list \<times> 'd" where
  "leds_binary b numbers s = leds_binary_loop b numbers 0 ([], s)"

section \<open>Keys and buzzer\<close>

definition key_init :: "'d bus \<Rightarrow> 'd \<Rightarrow> 'd" where
  "key_init b s =
     (let s = reg_and b GPNCON (NOT (GPN_mask 0 + GPN_mask 1 + GPN_mask 2 + GPN_mask 3)) s
      in reg_or b GPNCON (GPN_in 0 + GPN_in 1 + GPN_in 2 + GPN_in 3) s)"

text \<open>\<open>key_1\<close> to \<open>key_4\<close>: \<open>GPNDAT & BIT(n - 1)\<close>, cut to a \<open>char\<close>.\<close>

definition key_n :: "'d bus \<Rightarrow> nat \<Rightarrow> 'd \<Rightarrow> u8 \<times> 'd" where
  "key_n b n s = (let (x, s) = rd32 b GPNDAT s in (ucast (x AND BIT (n - 1)), s))"

definition key_led :: "'d bus \<Rightarrow> nat \<Rightarrow> 'd \<Rightarrow> 'd" where
  "key_led b n s =
     (let (k, s) = key_n b n s in if k \<noteq> 0 then leds_OFF b (of_nat n) s else leds_ON b (of_nat n) s)"

text \<open>One round of the polling loop.\<close>

definition key_poll :: "'d bus \<Rightarrow> 'd \<Rightarrow> 'd" where
  "key_poll b s = key_led b 4 (key_led b 3 (key_led b 2 (key_led b 1 s)))"

definition mykey_setup :: "'d bus \<Rightarrow> 'd \<Rightarrow> 'd" where
  "mykey_setup b s = leds_OFF_all b (key_init b (leds_init b s))"

definition buzzer_init :: "'d bus \<Rightarrow> 'd \<Rightarrow> 'd" where
  "buzzer_init b s = reg_or b GPFCON GPF14_out (reg_and b GPFCON (NOT GPF14_mask) s)"

definition buzzer_ON :: "'d bus \<Rightarrow> 'd \<Rightarrow> 'd" where
  "buzzer_ON b = reg_or b GPFDAT (push_bit 14 1)"

definition buzzer_OFF :: "'d bus \<Rightarrow> 'd \<Rightarrow> 'd" where
  "buzzer_OFF b = reg_and b GPFDAT (NOT (push_bit 14 1))"

definition buzzer_main :: "'d bus \<Rightarrow> 'd \<Rightarrow> 'd" where
  "buzzer_main b s = buzzer_OFF b (buzzer_ON b (buzzer_OFF b (buzzer_ON b (buzzer_init b s))))"

section \<open>What the ports show\<close>

definition led_lit :: "u32 \<Rightarrow> nat \<Rightarrow> bool" where
  "led_lit dat n \<longleftrightarrow> \<not> bit dat (n + 3)"

text \<open>The LEDs that are lit, by number.\<close>

definition lit_leds :: "u32 \<Rightarrow> nat list" where
  "lit_leds dat = filter (led_lit dat) [1, 2, 3, 4]"

lemma leds_ON_LED: "n \<in> {1, 2, 3, 4} \<Longrightarrow> leds_ON b (of_nat n) s = LED_ON b n s"
  by (elim insertE emptyE) (simp_all add: leds_ON_def LEDS_NUMBER_def)

lemma leds_OFF_LED: "n \<in> {1, 2, 3, 4} \<Longrightarrow> leds_OFF b (of_nat n) s = LED_OFF b n s"
  by (elim insertE emptyE) (simp_all add: leds_OFF_def LEDS_NUMBER_def)

lemma led_numbers_map: "led_numbers = map of_nat [1, 2, 3, 4]"
  by (simp add: led_numbers_def LEDS_NUMBER_def upt_rec)

lemma leds_OFF_all_LED: "leds_OFF_all b s = LED_OFF b 4 (LED_OFF b 3 (LED_OFF b 2 (LED_OFF b 1 s)))"
  using leds_OFF_LED [of 1 b] leds_OFF_LED [of 2 b] leds_OFF_LED [of 3 b] leds_OFF_LED [of 4 b]
  by (simp add: leds_OFF_all_def led_numbers_map)

lemma leds_ON_all_LED: "leds_ON_all b s = LED_ON b 4 (LED_ON b 3 (LED_ON b 2 (LED_ON b 1 s)))"
  using leds_ON_LED [of 1 b] leds_ON_LED [of 2 b] leds_ON_LED [of 3 b] leds_ON_LED [of 4 b]
  by (simp add: leds_ON_all_def led_numbers_map)

lemma leds_flowing_round_LED:
  "leds_flowing_round b (seen, s) =
    (let f = \<lambda>n s. LED_ON b n (leds_OFF_all b s);
         s1 = f 1 s; s2 = f 2 s1; s3 = f 3 s2; s4 = f 4 s3
     in (seen @ [s1, s2, s3, s4], s4))"
  using leds_ON_LED [of 1 b] leds_ON_LED [of 2 b] leds_ON_LED [of 3 b] leds_ON_LED [of 4 b]
  by (simp add: leds_flowing_round_def led_numbers_map Let_def)

text \<open>The LEDs that show a number in binary, LED 1 for its lowest bit.\<close>

definition binary_leds :: "nat \<Rightarrow> nat list" where
  "binary_leds k = filter (\<lambda>n. bit k (n - 1)) [1, 2, 3, 4]"

lemma upt_mod16:
  "map (\<lambda>k. f (k mod 16)) [17..<16 * Suc n + 1] = map (\<lambda>k. f (k mod 16)) [1..<16 * n + 1]"
proof (rule nth_equalityI)
  fix i assume i: "i < length (map (\<lambda>k. f (k mod 16)) [17..<16 * Suc n + 1])"
  have "17 + i = (1 + i) + 16" by simp
  then have "(17 + i) mod 16 = (1 + i) mod 16" by (simp only: mod_add_self2)
  with i show "map (\<lambda>k. f (k mod 16)) [17..<16 * Suc n + 1] ! i = map (\<lambda>k. f (k mod 16)) [1..<16 * n + 1] ! i"
    by (simp add: nth_upt del: upt_Suc)
qed simp

declare leds_binary_loop.simps [simp del]

lemma binary_next_unat:
  assumes "unat i \<le> 15" "numbers \<noteq> 0"
  shows "binary_next numbers i = (if unat i = 15 then (numbers - 1, 0) else (numbers, i + 1))"
    and "unat (i + 1) = unat i + 1"
proof -
  have "unat i + unat (1 :: u16) < 2 ^ LENGTH(16)" using assms by simp
  then show i: "unat (i + 1) = unat i + 1" by (subst unat_add_lem [THEN iffD1]) simp_all
  show "binary_next numbers i = (if unat i = 15 then (numbers - 1, 0) else (numbers, i + 1))"
    using assms by (auto simp: binary_next_def word_less_nat_alt i)
qed

locale gpio_port = register_file b view A for b :: "'d bus" and view A +
  assumes gpio_in: "{GPKCON0, GPKDAT, GPNCON, GPNDAT, GPFCON, GPFDAT} \<subseteq> A"
begin

lemma in_A [simp]: "GPKCON0 \<in> A" "GPKDAT \<in> A" "GPNCON \<in> A" "GPNDAT \<in> A" "GPFCON \<in> A" "GPFDAT \<in> A"
  using gpio_in by auto

lemma LED_ON_view:
  "a \<in> A \<Longrightarrow> view (LED_ON b n s) a = (if a = GPKDAT then view s a AND NOT (BIT (n + 3)) else view s a)"
  by (simp add: LED_ON_def views)

lemma LED_OFF_view:
  "a \<in> A \<Longrightarrow> view (LED_OFF b n s) a = (if a = GPKDAT then view s a OR BIT (n + 3) else view s a)"
  by (simp add: LED_OFF_def views)

lemma led_lit_ON: "n \<le> 4 \<Longrightarrow> k \<le> 4 \<Longrightarrow>
    led_lit (view (LED_ON b n s) GPKDAT) k \<longleftrightarrow> k = n \<or> led_lit (view s GPKDAT) k"
  by (auto simp: led_lit_def LED_ON_view BIT_def bit_simps push_bit_of_1)

lemma led_lit_OFF: "n \<le> 4 \<Longrightarrow> k \<le> 4 \<Longrightarrow>
    led_lit (view (LED_OFF b n s) GPKDAT) k \<longleftrightarrow> k \<noteq> n \<and> led_lit (view s GPKDAT) k"
  by (auto simp: led_lit_def LED_OFF_view BIT_def bit_simps push_bit_of_1)

lemma OFF_all_lit: "lit_leds (view (leds_OFF_all b s) GPKDAT) = []"
  by (simp add: lit_leds_def leds_OFF_all_LED led_lit_OFF)

lemma ON_all_lit: "lit_leds (view (leds_ON_all b s) GPKDAT) = [1, 2, 3, 4]"
  by (simp add: lit_leds_def leds_ON_all_LED led_lit_ON)

lemma only_lit: "n \<in> {1, 2, 3, 4} \<Longrightarrow> lit_leds (view (LED_ON b n (leds_OFF_all b s)) GPKDAT) = [n]"
  by (elim insertE emptyE) (simp_all add: lit_leds_def leds_OFF_all_LED led_lit_OFF led_lit_ON)

lemma flowing_round_lit:
  "map (\<lambda>s. lit_leds (view s GPKDAT)) (fst (leds_flowing_round b (seen, s))) =
    map (\<lambda>s. lit_leds (view s GPKDAT)) seen @ [[1], [2], [3], [4]]"
  by (simp add: leds_flowing_round_LED Let_def only_lit)

lemma flowing_loop_lit:
  "map (\<lambda>s. lit_leds (view s GPKDAT)) (fst (leds_flowing_loop b n (seen, s))) =
    map (\<lambda>s. lit_leds (view s GPKDAT)) seen @ concat (replicate n [[1], [2], [3], [4]])"
proof (induction n arbitrary: seen s)
  case (Suc n)
  obtain seen' s' where r: "leds_flowing_round b (seen, s) = (seen', s')" by fastforce
  show ?case using flowing_round_lit [of seen s] Suc.IH [of seen' s'] by (simp add: r)
qed simp

lemma show_lit: "lit_leds (view (leds_show b i s) GPKDAT) = binary_leds (unat i)"
proof -
  have "bit (unat i) k \<longleftrightarrow> bit i k" if "k < 16" for k
    using that by (simp add: bit_unsigned_iff)
  moreover have "i AND 1 \<noteq> 0 \<longleftrightarrow> bit i 0" "i AND 2 \<noteq> 0 \<longleftrightarrow> bit i 1" "i AND 4 \<noteq> 0 \<longleftrightarrow> bit i 2" "i AND 8 \<noteq> 0 \<longleftrightarrow> bit i 3"
    using and_exp_eq_0_iff_not_bit [of i 0] and_exp_eq_0_iff_not_bit [of i 1]
      and_exp_eq_0_iff_not_bit [of i 2] and_exp_eq_0_iff_not_bit [of i 3] by simp_all
  ultimately show ?thesis
    by (simp add: lit_leds_def leds_show_def led_lit_OFF led_lit_ON binary_leds_def Let_def)
qed

lemma binary_loop_lit:
  "unat i \<le> 15 \<Longrightarrow>
   map (\<lambda>s. lit_leds (view s GPKDAT)) (fst (leds_binary_loop b numbers i (seen, s))) =
    map (\<lambda>s. lit_leds (view s GPKDAT)) seen @
    map (\<lambda>k. binary_leds (k mod 16)) [unat i + 1..<16 * unat numbers + 1]"
proof (induction "17 * unat numbers - unat i" arbitrary: numbers i seen s rule: less_induct)
  case less
  note nx = binary_next_unat [OF less.prems, of numbers]
  show ?case
  proof (cases "numbers = 0")
    case False
    then have pos: "0 < unat numbers" "unat (numbers - 1) = unat numbers - 1"
      by (simp_all add: unat_gt_0 unat_minus_one_u32)
    then obtain n where n: "unat numbers = Suc n" "unat (numbers - 1) = n"
      by (cases "unat numbers") simp_all
    show ?thesis
    proof (cases "unat i = 15")
      case True
      then show ?thesis
        using less.hyps [of "numbers - 1" 0 "seen @ [leds_show b 0 s]" "leds_show b 0 s"] nx False n show_lit [of 0 s]
          upt_mod16 [of binary_leds n]
        by (simp add: leds_binary_loop.simps [of b numbers] upt_conv_Cons [of 16] Let_def del: upt_Suc)
    next
      case F: False
      then show ?thesis
        using less.hyps [of numbers "i + 1" "seen @ [leds_show b (i + 1) s]" "leds_show b (i + 1) s"] nx False n
          less.prems show_lit [of "i + 1" s]
        by (simp add: leds_binary_loop.simps [of b numbers] upt_conv_Cons [of "Suc (unat i)"] Let_def del: upt_Suc)
    qed
  qed (simp add: leds_binary_loop.simps upt_conv_Nil)
qed

lemma BIT_key: "k < 8 \<Longrightarrow> (ucast (x AND BIT k) :: u8) \<noteq> 0 \<longleftrightarrow> bit x k"
proof -
  assume k: "k < 8"
  have "(ucast (x AND BIT k) :: u8) = (if bit x k then push_bit k 1 else 0)"
    using k by (intro bit_word_eqI) (auto simp: BIT_def bit_simps push_bit_of_1)
  moreover have "bit (push_bit k 1 :: u8) k" using k by (simp add: bit_simps push_bit_of_1)
  then have "(push_bit k 1 :: u8) \<noteq> 0" by (metis bit_0_eq bot_apply bot_bool_def)
  ultimately show ?thesis by simp
qed

lemma key_led_view:
  assumes "n \<in> {1, 2, 3, 4}"
  shows "view (key_led b n s) GPNDAT = view s GPNDAT"
    and "k \<le> 4 \<Longrightarrow> led_lit (view (key_led b n s) GPKDAT) k \<longleftrightarrow>
      (if k = n then \<not> bit (view s GPNDAT) (n - 1) else led_lit (view s GPKDAT) k)"
proof -
  have n: "n \<le> 4" "n - 1 < 8" using assms by auto
  have ne: "GPNDAT \<noteq> GPKDAT" by (simp add: gpio_addrs)
  have "view (snd (rd32 b GPNDAT s)) a = view s a" if "a \<in> A" for a using that by (simp add: rd_keeps)
  then show "view (key_led b n s) GPNDAT = view s GPNDAT"
    using ne by (simp add: key_led_def key_n_def case_prod_beta Let_def leds_OFF_LED [OF assms] leds_ON_LED [OF assms]
        LED_OFF_view LED_ON_view)
  show "led_lit (view (key_led b n s) GPKDAT) k \<longleftrightarrow>
      (if k = n then \<not> bit (view s GPNDAT) (n - 1) else led_lit (view s GPKDAT) k)" if "k \<le> 4"
    using that n by (simp add: key_led_def key_n_def case_prod_beta Let_def leds_OFF_LED [OF assms]
        leds_ON_LED [OF assms] led_lit_OFF led_lit_ON rd_keeps rd_value BIT_key)
qed

lemma poll_lit:
  "lit_leds (view (key_poll b s) GPKDAT) = filter (\<lambda>n. \<not> bit (view s GPNDAT) (n - 1)) [1, 2, 3, 4]"
  "view (key_poll b s) GPNDAT = view s GPNDAT"
  by (simp_all add: lit_leds_def key_poll_def key_led_view)

end

interpretation gpio_ram: gpio_port ram_bus "\<lambda>m. m" UNIV
  by unfold_locales auto

section \<open>Properties\<close>

text \<open>
  The running light.  On a device whose GPIO registers hold what is written to them, \<open>leds_flowing\<close> runs
  through its delays with exactly LED 1, 2, 3 and 4 lit in turn, for the given number of rounds.
\<close>

lemma leds_flowing_pattern:
  assumes "gpio_port b view A"
  shows "map (\<lambda>s. lit_leds (view s GPKDAT)) (fst (leds_flowing b numbers s)) =
    concat (replicate (unat numbers) [[1], [2], [3], [4]])"
  using gpio_port.flowing_loop_lit [OF assms, of "unat numbers" "[]" s] by (simp add: leds_flowing_def)

lemma leds_flowing_pattern_witness:
  "map (\<lambda>s. lit_leds (s GPKDAT)) (fst (leds_flowing ram_bus 1 (\<lambda>_. 0))) = [[1], [2], [3], [4]]"
  using leds_flowing_pattern [OF gpio_ram.gpio_port_axioms, of 1 "\<lambda>_. 0"] by simp

text \<open>
  The binary counter.  \<open>leds_binary\<close> ends, and at its delays the LEDs show 1, 2, ..., 15, 0 in binary, for
  the given number of rounds.
\<close>

lemma leds_binary_counts:
  assumes "gpio_port b view A"
  shows "map (\<lambda>s. lit_leds (view s GPKDAT)) (fst (leds_binary b numbers s)) =
    map (\<lambda>k. binary_leds (k mod 16)) [1..<16 * unat numbers + 1]"
  using gpio_port.binary_loop_lit [OF assms, of 0 numbers "[]" s] by (simp add: leds_binary_def)

lemma leds_binary_counts_witness:
  "length (fst (leds_binary ram_bus 3 (\<lambda>_. 0))) = 48"
  using arg_cong [OF leds_binary_counts [OF gpio_ram.gpio_port_axioms, of 3 "\<lambda>_. 0"], of length] by simp

text \<open>
  One round of the key program lights exactly the LEDs of the pressed keys, whatever was lit before, as
  long as the keys do not change during the round.
\<close>

lemma key_poll_shows_keys:
  assumes "gpio_port b view A"
  shows "lit_leds (view (key_poll b s) GPKDAT) = filter (\<lambda>n. \<not> bit (view s GPNDAT) (n - 1)) [1, 2, 3, 4] \<and>
    view (key_poll b s) GPNDAT = view s GPNDAT"
  using gpio_port.poll_lit [OF assms] by simp

lemma key_poll_shows_keys_witness:
  "lit_leds (key_poll ram_bus ((\<lambda>_. 0)(GPNDAT := 0xd)) GPKDAT) = [2]"
  using key_poll_shows_keys [OF gpio_ram.gpio_port_axioms, of "(\<lambda>_. 0)(GPNDAT := 0xd)"]
  by (simp add: bit_numeral_rec)

end
