(* ===== verification/Mmu.thy ===== *)
theory Mmu
  imports Bus
begin

text \<open>
  The MMU set-up: \<open>create_page_table\<close> in the versions of \<open>no-os/timer/mmu.c\<close>, \<open>no-os/interrupt/cpsr/mmu.c\<close>,
  \<open>no-os/interrupt/irq/mmu.c\<close>, \<open>workspace/interrupt/NVI/mmu.c\<close>, \<open>workspace/nand/mmu.c\<close> and \<open>no-os/mmu/mmu.c\<close>, and
  \<open>mmu_enable\<close>, whose assembly is the same in all of them.  The first-level table lies at \<open>MMU_BASE\<close>, one
  descriptor for each megabyte of the address space.
\<close>

section \<open>Descriptors\<close>

definition MMU_BASE :: u32 where "MMU_BASE = 0x51000000"
definition MMU_SECTION_FULL_ACCESS :: u32 where "MMU_SECTION_FULL_ACCESS = push_bit 10 3"
definition MMU_SECTION_DOMAIN :: u32 where "MMU_SECTION_DOMAIN = push_bit 5 0"
definition MMU_SECTION_SPECIAL :: u32 where "MMU_SECTION_SPECIAL = push_bit 4 1"
definition MMU_SECTION_CACHEABLE :: u32 where "MMU_SECTION_CACHEABLE = push_bit 3 1"
definition MMU_SECTION_BUFFERABLE :: u32 where "MMU_SECTION_BUFFERABLE = push_bit 2 1"
definition MMU_SCETION_SECDESC :: u32 where "MMU_SCETION_SECDESC = push_bit 0 2"

definition MMU_SECTION_WB :: u32 where
  "MMU_SECTION_WB = MMU_SECTION_FULL_ACCESS OR MMU_SECTION_DOMAIN OR MMU_SECTION_SPECIAL OR
     MMU_SECTION_CACHEABLE OR MMU_SECTION_BUFFERABLE OR MMU_SCETION_SECDESC"

definition MMU_SECTION_NCNB :: u32 where
  "MMU_SECTION_NCNB = MMU_SECTION_FULL_ACCESS OR MMU_SECTION_DOMAIN OR MMU_SECTION_SPECIAL OR MMU_SCETION_SECDESC"

section \<open>Page tables\<close>

text \<open>\<open>*(table + (virtul_addr >> 20)) = (physical_addr & 0xFFF00000) | attr\<close>; \<open>table\<close> points to words.\<close>

definition map_section :: "'d bus \<Rightarrow> u32 \<Rightarrow> u32 \<Rightarrow> u32 \<Rightarrow> 'd \<Rightarrow> 'd" where
  "map_section b va pa attr s = wr32 b (MMU_BASE + 4 * drop_bit 20 va) ((pa AND 0xFFF00000) OR attr) s"

text \<open>The loops that map a range; one with a limit in the last megabyte would not end.\<close>

partial_function (option) map_range :: "'d bus \<Rightarrow> u32 \<Rightarrow> u32 \<Rightarrow> u32 \<Rightarrow> u32 \<Rightarrow> 'd \<Rightarrow> 'd option" where
  "map_range b va pa limit attr s =
     (if va < limit then map_range b (va + 0x100000) (pa + 0x100000) limit attr (map_section b va pa attr s)
      else Some s)"

text \<open>\<open>no-os/timer/mmu.c\<close>, the same in the watchdog and \<open>irq_advanced\<close> programs.\<close>

definition create_page_table :: "'d bus \<Rightarrow> 'd \<Rightarrow> 'd option" where
  "create_page_table b s = do {
     s \<leftarrow> map_range b 0 0 0x80000000 MMU_SECTION_NCNB s;
     let s = map_section b 0x0C000000 0x0C000000 MMU_SECTION_WB s;
     s \<leftarrow> map_range b 0x50000000 0x50000000 0x60000000 MMU_SECTION_NCNB s;
     map_range b 0x70000000 0x70000000 0x80000000 MMU_SECTION_NCNB s }"

definition cpsr_create_page_table :: "'d bus \<Rightarrow> 'd \<Rightarrow> 'd option" where
  "cpsr_create_page_table b s = do {
     let s = map_section b 0x0C000000 0x0C000000 MMU_SECTION_WB s;
     let s = map_section b 0x7F000000 0x7F000000 MMU_SECTION_NCNB s;
     s \<leftarrow> map_range b 0x50000000 0x50000000 0x60000000 MMU_SECTION_NCNB s;
     Some (map_section b 0 0x50000000 MMU_SECTION_NCNB s) }"

definition irq_create_page_table :: "'d bus \<Rightarrow> 'd \<Rightarrow> 'd option" where
  "irq_create_page_table b s = do {
     let s = map_section b 0x0C000000 0x0C000000 MMU_SECTION_WB s;
     let s = map_section b 0x7F000000 0x7F000000 MMU_SECTION_NCNB s;
     map_range b 0x50000000 0x50000000 0x60000000 MMU_SECTION_NCNB s }"

text \<open>The flag is \<open>MMU_VIRSUAL_ADDRESS\<close>: the LED registers are reached through a virtual address.\<close>

definition map_gpio :: "'d bus \<Rightarrow> bool \<Rightarrow> 'd \<Rightarrow> 'd" where
  "map_gpio b virsual s =
     (if \<not> virsual then map_section b 0x7F000000 0x7F000000 MMU_SECTION_NCNB s
      else map_section b 0x10000000 0x7F000000 MMU_SECTION_NCNB s)"

definition nvi_create_page_table :: "'d bus \<Rightarrow> bool \<Rightarrow> 'd \<Rightarrow> 'd option" where
  "nvi_create_page_table b virsual s = do {
     let s = map_section b 0 0 MMU_SECTION_WB s;
     let s = map_section b 0x0C000000 0x0C000000 MMU_SECTION_WB s;
     let s = map_gpio b virsual s;
     s \<leftarrow> map_range b 0x71000000 0x71000000 0x71300000 MMU_SECTION_NCNB s;
     map_range b 0x50000000 0x50000000 0x54000000 MMU_SECTION_NCNB s }"

definition nand_create_page_table :: "'d bus \<Rightarrow> bool \<Rightarrow> 'd \<Rightarrow> 'd option" where
  "nand_create_page_table b virsual s = do {
     let s = map_section b 0 0 MMU_SECTION_WB s;
     let s = map_section b 0x0C000000 0x0C000000 MMU_SECTION_WB s;
     let s = map_gpio b virsual s;
     map_range b 0x50000000 0x50000000 0x54000000 MMU_SECTION_NCNB s }"

definition mmu_create_page_table :: "'d bus \<Rightarrow> bool \<Rightarrow> 'd \<Rightarrow> 'd option" where
  "mmu_create_page_table b virsual s = do {
     let s = map_section b 0x0C000000 0x0C000000 MMU_SECTION_WB s;
     let s = map_gpio b virsual s;
     map_range b 0x50000000 0x50000000 0x54000000 MMU_SECTION_NCNB s }"

section \<open>The system control coprocessor\<close>

datatype cp15_op = Invalidate_caches | Drain_write_buffer | Invalidate_tlbs

record cp15 =
  cp_control :: u32
  cp_ttb :: u32
  cp_domain :: u32
  cp_ops :: "cp15_op list"

definition mmu_enable :: "cp15 \<Rightarrow> cp15" where
  "mmu_enable c =
     (let c = c\<lparr>cp_ops := cp_ops c @ [Invalidate_caches, Drain_write_buffer, Invalidate_tlbs]\<rparr>;
          c = c\<lparr>cp_ttb := MMU_BASE\<rparr>;
          c = c\<lparr>cp_domain := NOT 0\<rparr>;
          r0 = cp_control c;
          r0 = r0 AND NOT 0x3000;
          r0 = r0 AND NOT 0x0300;
          r0 = r0 AND NOT 0x0087;
          r0 = r0 OR 0x0002;
          r0 = r0 OR 0x0004;
          r0 = r0 OR 0x1000;
          r0 = r0 OR 0x0001
      in c\<lparr>cp_control := r0\<rparr>)"

definition mmu_init :: "'d bus \<Rightarrow> 'd \<times> cp15 \<Rightarrow> ('d \<times> cp15) option" where
  "mmu_init b st = (let (s, c) = st in do { s \<leftarrow> create_page_table b s; Some (s, mmu_enable c) })"

section \<open>Translation\<close>

text \<open>
  How the MMU reads the table, as the comments of \<open>mmu.h\<close> describe it: bits 31 to 20 of the virtual address index
  the table; a descriptor with low bits \<open>0b10\<close> is a section, whose bits 31 to 20 are the physical base; every
  other kind is a fault here, since the program uses no second-level tables.
\<close>

definition translate :: "(u32 \<Rightarrow> u32) \<Rightarrow> u32 \<Rightarrow> u32 \<Rightarrow> u32 option" where
  "translate m ttb va =
     (let d = m (ttb + 4 * drop_bit 20 va) in
      if d AND 3 = 2 then Some ((d AND 0xFFF00000) OR (va AND 0x000FFFFF)) else None)"

text \<open>The descriptors, by their index.\<close>

definition table_addrs :: "u32 set" where
  "table_addrs = {MMU_BASE + 4 * i | i. i < 4096}"

section \<open>The table as a function of the megabyte\<close>

definition sec :: "nat \<Rightarrow> u32" where "sec k = push_bit 20 (of_nat k)"
definition entry :: "nat \<Rightarrow> u32" where "entry k = MMU_BASE + 4 * of_nat k"

lemma sec_of_nat: "sec k = of_nat (k * 2 ^ 20)"
  by (simp add: sec_def push_bit_eq_mult)

lemma unat_sec: "k < 4096 \<Longrightarrow> unat (sec k) = k * 2 ^ 20"
  by (simp add: sec_of_nat u32_of_nat_less del: of_nat_mult)

lemma drop_sec: "k < 4096 \<Longrightarrow> drop_bit 20 (sec k) = of_nat k"
proof -
  assume "k < 4096"
  then have "unat (drop_bit 20 (sec k)) = unat (of_nat k :: u32)"
    by (simp add: drop_bit_eq_div unat_div unat_sec u32_of_nat_less)
  then show ?thesis by (simp only: word_unat_eq_iff)
qed

lemma sec_less: "i < 4096 \<Longrightarrow> j < 4096 \<Longrightarrow> sec i < sec j \<longleftrightarrow> i < j"
  by (simp add: word_less_nat_alt unat_sec)

lemma sec_Suc: "sec i + 0x100000 = sec (Suc i)"
  by (simp add: sec_of_nat algebra_simps)

lemma entry_inj: "k < 4096 \<Longrightarrow> l < 4096 \<Longrightarrow> entry k = entry l \<longleftrightarrow> k = l"
proof -
  assume k: "k < 4096" "l < 4096"
  have "entry k = of_nat (0x51000000 + 4 * k)" for k by (simp add: entry_def MMU_BASE_def)
  then have "unat (entry k) = 0x51000000 + 4 * k" if "k < 4096" for k
    using that by (simp only:) (rule u32_of_nat_less, simp)
  then show ?thesis using k by (metis add_left_cancel mult_cancel1 zero_neq_numeral)
qed

lemma index_va: "drop_bit 20 (va :: u32) = of_nat (unat va div 2 ^ 20)" "unat va div 2 ^ 20 < 4096"
proof -
  have "of_nat (unat (drop_bit 20 va)) = drop_bit 20 va" by simp
  then show "drop_bit 20 va = of_nat (unat va div 2 ^ 20)" by (simp add: drop_bit_eq_div unat_div)
  show "unat va div 2 ^ 20 < 4096" using unat_u32_bound [of va] by auto
qed

lemma table_addrs_entry: "k < 4096 \<Longrightarrow> entry k \<in> table_addrs"
  unfolding table_addrs_def entry_def
  by (intro CollectI exI [of _ "of_nat k"]) (simp add: word_less_nat_alt u32_of_nat_less)

lemma sec_masks: "sec q AND 0xFFF00000 = sec q" "sec q AND 3 = 0" "sec q AND 0xFFFFF = 0"
proof -
  have "(0xFFF00000 :: u32) = push_bit 20 (mask 12)" "(3 :: u32) = mask 2" "(0xFFFFF :: u32) = mask 20"
    by (simp_all add: mask_eq_exp_minus_1 push_bit_eq_mult)
  then show "sec q AND 0xFFF00000 = sec q" "sec q AND 3 = 0" "sec q AND 0xFFFFF = 0"
    by (simp_all only:) (auto simp: sec_def bit_eq_iff bit_simps)
qed

lemma va_split: "sec (unat va div 2 ^ 20) OR (va AND 0x000FFFFF) = va"
proof -
  have "(0xFFFFF :: u32) = mask 20" by (simp add: mask_eq_exp_minus_1)
  then show ?thesis
    by (simp only: sec_def index_va(1) [symmetric]) (auto simp: bit_eq_iff bit_simps)
qed

text \<open>A section descriptor, and what translation makes of it.\<close>

definition section_attr :: "u32 \<Rightarrow> bool" where
  "section_attr attr \<longleftrightarrow> attr AND 3 = 2 \<and> attr AND 0xFFF00000 = 0"

lemma section_attrs [simp]: "section_attr MMU_SECTION_WB" "section_attr MMU_SECTION_NCNB"
  by (simp_all add: section_attr_def MMU_SECTION_WB_def MMU_SECTION_NCNB_def MMU_SECTION_FULL_ACCESS_def
      MMU_SECTION_DOMAIN_def MMU_SECTION_SPECIAL_def MMU_SECTION_CACHEABLE_def MMU_SECTION_BUFFERABLE_def
      MMU_SCETION_SECDESC_def)

lemma translate_section:
  assumes "m (entry (unat va div 2 ^ 20)) = sec p OR attr" "section_attr attr"
  shows "translate m MMU_BASE va = Some (sec p OR (va AND 0x000FFFFF))"
proof -
  have "m (MMU_BASE + 4 * drop_bit 20 va) = sec p OR attr"
    using assms(1) by (simp add: entry_def index_va)
  moreover have "(sec p OR attr) AND 3 = 2" "(sec p OR attr) AND 0xFFF00000 = sec p"
    using assms(2) by (simp_all add: section_attr_def sec_masks bit.conj_disj_distrib2)
  ultimately show ?thesis by (simp add: translate_def)
qed

lemma translate_identity:
  "m (entry (unat va div 2 ^ 20)) = sec (unat va div 2 ^ 20) OR attr \<Longrightarrow> section_attr attr \<Longrightarrow>
    translate m MMU_BASE va = Some va"
  using translate_section [where m = m and p = "unat va div 2 ^ 20" and va = va] va_split by simp

text \<open>Every constant of the tables is the base of a megabyte.\<close>

lemma megabytes:
  "0x80000000 = sec 2048" "0x70000000 = sec 1792" "0x60000000 = sec 1536" "0x50000000 = sec 1280"
  "0x0C000000 = sec 192" "0x7F000000 = sec 2032" "0x71000000 = sec 1808" "0x71300000 = sec 1811"
  "0x54000000 = sec 1344" "0x10000000 = sec 256" "(0 :: u32) = sec 0"
  by (simp_all add: sec_def push_bit_eq_mult)

context register_file
begin

lemma map_section_view:
  assumes "table_addrs \<subseteq> A" "i < 4096" "k < 4096"
  shows "view (map_section b (sec i) (sec p) attr s) (entry k) =
    (if k = i then sec p OR attr else view s (entry k))"
proof -
  have "entry i \<in> A" "entry k \<in> A" using assms table_addrs_entry by blast+
  then show ?thesis using assms
    by (simp add: map_section_def drop_sec sec_masks wr_value entry_inj entry_def [symmetric])
qed

lemma map_range_view:
  assumes "table_addrs \<subseteq> A" "j < 4096" "i \<le> j"
  shows "\<exists>s'. map_range b (sec i) (sec p) (sec j) attr s = Some s' \<and>
    (\<forall>k<4096. view s' (entry k) = (if i \<le> k \<and> k < j then sec (p + (k - i)) OR attr else view s (entry k)))"
  using assms(3)
proof (induction "j - i" arbitrary: i p s)
  case 0
  then show ?case using assms by (subst map_range.simps) (auto simp: sec_less)
next
  case (Suc n)
  let ?s = "map_section b (sec i) (sec p) attr s"
  have i: "i < j" "i < 4096" using Suc assms by simp_all
  obtain s' where s': "map_range b (sec (Suc i)) (sec (Suc p)) (sec j) attr ?s = Some s'"
    "\<forall>k<4096. view s' (entry k) =
       (if Suc i \<le> k \<and> k < j then sec (Suc p + (k - Suc i)) OR attr else view ?s (entry k))"
    using Suc(1) [of "Suc i" "Suc p" ?s] Suc(2) i by (metis Suc_diff_Suc Suc_leI nat.inject)
  have "map_range b (sec i) (sec p) (sec j) attr s = Some s'"
    using s'(1) i assms by (subst map_range.simps) (simp add: sec_less sec_Suc)
  moreover have "view s' (entry k) = (if i \<le> k \<and> k < j then sec (p + (k - i)) OR attr else view s (entry k))"
    if "k < 4096" for k
  proof -
    have "Suc i \<le> k \<Longrightarrow> Suc (p + k - Suc i) = p + k - i" by simp
    then show ?thesis using that s'(2) i assms
      by (auto simp: map_section_view not_less_eq_eq Suc_diff_le le_Suc_eq)
  qed
  ultimately show ?case by blast
qed

lemma create_page_table_view:
  assumes "table_addrs \<subseteq> A"
  shows "\<exists>s'. create_page_table b s = Some s' \<and> (\<forall>k<4096. view s' (entry k) =
     (if k < 2048 then sec k OR (if k = 192 then MMU_SECTION_WB else MMU_SECTION_NCNB) else view s (entry k)))"
proof -
  note range = map_range_view [OF assms]
  obtain s1 where s1: "map_range b (sec 0) (sec 0) (sec 2048) MMU_SECTION_NCNB s = Some s1"
    "\<And>k. k < 4096 \<Longrightarrow> view s1 (entry k) = (if k < 2048 then sec k OR MMU_SECTION_NCNB else view s (entry k))"
    using range [of 2048 0 0 MMU_SECTION_NCNB s] by auto
  define s2 where "s2 = map_section b (sec 192) (sec 192) MMU_SECTION_WB s1"
  obtain s3 where s3: "map_range b (sec 1280) (sec 1280) (sec 1536) MMU_SECTION_NCNB s2 = Some s3"
    "\<And>k. k < 4096 \<Longrightarrow> view s3 (entry k) =
       (if 1280 \<le> k \<and> k < 1536 then sec k OR MMU_SECTION_NCNB else view s2 (entry k))"
    using range [of 1536 1280 1280 MMU_SECTION_NCNB s2] by (auto cong: if_cong)
  obtain s4 where s4: "map_range b (sec 1792) (sec 1792) (sec 2048) MMU_SECTION_NCNB s3 = Some s4"
    "\<And>k. k < 4096 \<Longrightarrow> view s4 (entry k) =
       (if 1792 \<le> k \<and> k < 2048 then sec k OR MMU_SECTION_NCNB else view s3 (entry k))"
    using range [of 2048 1792 1792 MMU_SECTION_NCNB s3] by (auto cong: if_cong)
  have "create_page_table b s = Some s4"
    using s1(1) s3(1) s4(1) by (simp add: create_page_table_def megabytes s2_def)
  moreover have "view s4 (entry k) =
     (if k < 2048 then sec k OR (if k = 192 then MMU_SECTION_WB else MMU_SECTION_NCNB) else view s (entry k))"
    if "k < 4096" for k
    using that by (simp add: s4(2) s3(2) s1(2) s2_def map_section_view [OF assms])
  ultimately show ?thesis by blast
qed

lemma cpsr_create_page_table_view:
  assumes "table_addrs \<subseteq> A"
  shows "\<exists>s'. cpsr_create_page_table b s = Some s' \<and> (\<forall>k<4096. view s' (entry k) =
     (if k = 0 then sec 1280 OR MMU_SECTION_NCNB
      else if k = 192 then sec 192 OR MMU_SECTION_WB
      else if k = 2032 \<or> 1280 \<le> k \<and> k < 1536 then sec k OR MMU_SECTION_NCNB else view s (entry k)))"
proof -
  define s2 where "s2 = map_section b (sec 2032) (sec 2032) MMU_SECTION_NCNB
    (map_section b (sec 192) (sec 192) MMU_SECTION_WB s)"
  obtain s3 where s3: "map_range b (sec 1280) (sec 1280) (sec 1536) MMU_SECTION_NCNB s2 = Some s3"
    "\<And>k. k < 4096 \<Longrightarrow> view s3 (entry k) =
       (if 1280 \<le> k \<and> k < 1536 then sec k OR MMU_SECTION_NCNB else view s2 (entry k))"
    using map_range_view [OF assms, of 1536 1280 1280 MMU_SECTION_NCNB s2] by (auto cong: if_cong)
  have "cpsr_create_page_table b s = Some (map_section b (sec 0) (sec 1280) MMU_SECTION_NCNB s3)"
    using s3(1) by (simp add: cpsr_create_page_table_def megabytes s2_def)
  then show ?thesis by (auto simp: s3(2) s2_def map_section_view [OF assms])
qed

lemma mmu_create_page_table_view:
  assumes "table_addrs \<subseteq> A"
  shows "\<exists>s'. mmu_create_page_table b v s = Some s' \<and> (\<forall>k<4096. view s' (entry k) =
     (if k = 192 then sec 192 OR MMU_SECTION_WB
      else if k = (if v then 256 else 2032) then sec 2032 OR MMU_SECTION_NCNB
      else if 1280 \<le> k \<and> k < 1344 then sec k OR MMU_SECTION_NCNB else view s (entry k)))"
proof -
  define s2 where "s2 = map_section b (sec (if v then 256 else 2032)) (sec 2032) MMU_SECTION_NCNB
    (map_section b (sec 192) (sec 192) MMU_SECTION_WB s)"
  obtain s3 where s3: "map_range b (sec 1280) (sec 1280) (sec 1344) MMU_SECTION_NCNB s2 = Some s3"
    "\<And>k. k < 4096 \<Longrightarrow> view s3 (entry k) =
       (if 1280 \<le> k \<and> k < 1344 then sec k OR MMU_SECTION_NCNB else view s2 (entry k))"
    using map_range_view [OF assms, of 1344 1280 1280 MMU_SECTION_NCNB s2] by (auto cong: if_cong)
  have "mmu_create_page_table b v s = Some s3"
    using s3(1) by (cases v) (simp_all add: mmu_create_page_table_def map_gpio_def megabytes s2_def)
  then show ?thesis by (auto simp: s3(2) s2_def map_section_view [OF assms])
qed

end

lemma mmu_enable_state:
  "mmu_enable c = c\<lparr>cp_control := (cp_control c AND NOT 0x3387) OR 0x1007, cp_ttb := MMU_BASE, cp_domain := NOT 0,
     cp_ops := cp_ops c @ [Invalidate_caches, Drain_write_buffer, Invalidate_tlbs]\<rparr>"
  by (simp add: mmu_enable_def Let_def and.assoc or.assoc)

lemma below_index: "(va :: u32) < 0x80000000 \<longleftrightarrow> unat va div 2 ^ 20 < 2048"
  by (simp add: word_less_nat_alt) linarith

section \<open>Correctness\<close>

text \<open>C21: After \<open>mmu_init\<close> of the timer, watchdog and interrupt programs the MMU is on, with the table at \<open>MMU_BASE\<close>,
  and every address of the lower two gigabytes, so every device and all of RAM, translates to itself: the
  program goes on running where it is.  The loops of \<open>create_page_table\<close> end, and the descriptors of the upper two
  gigabytes are what the RAM held before: they are never initialised.\<close>

theorem mmu_identity:
  assumes "register_file b view A" "table_addrs \<subseteq> A"
  shows "\<exists>s' c'. mmu_init b (s, c) = Some (s', c') \<and>
     cp_ttb c' = MMU_BASE \<and> bit (cp_control c') 0 \<and> bit (cp_control c') 12 \<and>
     (\<forall>va. va < 0x80000000 \<longrightarrow> translate (view s') (cp_ttb c') va = Some va) \<and>
     (\<forall>va. 0x80000000 \<le> va \<longrightarrow>
        translate (view s') (cp_ttb c') va = translate (view s) (cp_ttb c') va)"
proof -
  obtain s' where s': "create_page_table b s = Some s'"
    "\<And>k. k < 4096 \<Longrightarrow> view s' (entry k) =
       (if k < 2048 then sec k OR (if k = 192 then MMU_SECTION_WB else MMU_SECTION_NCNB) else view s (entry k))"
    using register_file.create_page_table_view [OF assms] by blast
  have low: "translate (view s') MMU_BASE va = Some va" if "va < 0x80000000" for va
  proof -
    let ?k = "unat va div 2 ^ 20"
    have "?k < 2048" using that by (simp add: below_index)
    then have "view s' (entry ?k) = sec ?k OR (if ?k = 192 then MMU_SECTION_WB else MMU_SECTION_NCNB)"
      by (simp add: s'(2))
    then show ?thesis by (rule translate_identity) simp
  qed
  have "translate (view s') MMU_BASE va = translate (view s) MMU_BASE va" if "0x80000000 \<le> va" for va
  proof -
    have "\<not> unat va div 2 ^ 20 < 2048" using that below_index [of va] by (simp add: leD)
    then have "view s' (entry (unat va div 2 ^ 20)) = view s (entry (unat va div 2 ^ 20))"
      using index_va(2) [of va] by (simp add: s'(2))
    then show ?thesis by (simp add: translate_def entry_def index_va(1))
  qed
  then show ?thesis using low s'(1)
    by (auto simp: mmu_init_def mmu_enable_state bit_or_iff bit_and_iff)
qed

text \<open>On word-addressed RAM, from a table that is all zero.\<close>

theorem mmu_identity_witness:
  "\<exists>s' c'. mmu_init ram_bus (\<lambda>_. 0, \<lparr>cp_control = 0x50078, cp_ttb = 0, cp_domain = 0, cp_ops = []\<rparr>) = Some (s', c') \<and>
     translate s' (cp_ttb c') 0x7F008800 = Some 0x7F008800 \<and> translate s' (cp_ttb c') 0xC0000000 = None"
proof -
  have "translate (\<lambda>_. 0) ttb 0xC0000000 = None" for ttb by (simp add: translate_def)
  then show ?thesis
    using mmu_identity [OF ram.register_file_axioms subset_refl, of "\<lambda>_. 0"
      "\<lparr>cp_control = 0x50078, cp_ttb = 0, cp_domain = 0, cp_ops = []\<rparr>"] by fastforce
qed

text \<open>With the table of the \<open>cpsr\<close> program the exception vectors at address 0 are those of the image in RAM at
  \<open>0x50000000\<close>: an address of the first megabyte translates to the same offset there, while the RAM itself, the
  internal memory and the GPIO registers stay where they are.\<close>

lemma cpsr_vectors_in_ram:
  assumes "register_file b view A" "table_addrs \<subseteq> A"
  shows "\<exists>s'. cpsr_create_page_table b s = Some s' \<and>
     (\<forall>va. va < 0x00100000 \<longrightarrow> translate (view s') MMU_BASE va = Some (0x50000000 OR va)) \<and>
     (\<forall>va. drop_bit 20 va \<in> {0x0C0, 0x7F0} \<or> 0x50000000 \<le> va \<and> va < 0x60000000 \<longrightarrow>
        translate (view s') MMU_BASE va = Some va)"
proof -
  obtain s' where s': "cpsr_create_page_table b s = Some s'" "\<And>k. k < 4096 \<Longrightarrow> view s' (entry k) =
     (if k = 0 then sec 1280 OR MMU_SECTION_NCNB
      else if k = 192 then sec 192 OR MMU_SECTION_WB
      else if k = 2032 \<or> 1280 \<le> k \<and> k < 1536 then sec k OR MMU_SECTION_NCNB else view s (entry k))"
    using register_file.cpsr_create_page_table_view [OF assms] by blast
  have "translate (view s') MMU_BASE va = Some (0x50000000 OR va)" if "va < 0x00100000" for va
  proof -
    have "unat va div 2 ^ 20 = 0" using that by (simp add: word_less_nat_alt)
    then show ?thesis
      using translate_section [of "view s'" va 1280 MMU_SECTION_NCNB] va_split [of va]
      by (simp add: s'(2) megabytes(4) megabytes(11) [symmetric])
  qed
  moreover have "translate (view s') MMU_BASE va = Some va"
    if "drop_bit 20 va \<in> {0x0C0, 0x7F0} \<or> 0x50000000 \<le> va \<and> va < 0x60000000" for va
  proof -
    let ?k = "unat va div 2 ^ 20"
    have "?k = unat (drop_bit 20 va)" by (simp add: drop_bit_eq_div unat_div)
    then have "?k = 192 \<or> ?k = 2032 \<or> 1280 \<le> ?k \<and> ?k < 1536"
      using that by (auto simp: word_le_nat_alt word_less_nat_alt)
    then have "view s' (entry ?k) = sec ?k OR (if ?k = 192 then MMU_SECTION_WB else MMU_SECTION_NCNB)"
      by (auto simp: s'(2))
    then show ?thesis by (rule translate_identity) simp
  qed
  ultimately show ?thesis using s'(1) by blast
qed

lemma cpsr_vectors_in_ram_witness:
  "\<exists>s'. cpsr_create_page_table ram_bus (\<lambda>_. 0) = Some s' \<and>
     translate s' MMU_BASE 0x18 = Some 0x50000018 \<and> translate s' MMU_BASE 0x50000018 = Some 0x50000018"
  using cpsr_vectors_in_ram [OF ram.register_file_axioms subset_refl, of "\<lambda>_. 0"] by fastforce

text \<open>With \<open>MMU_VIRSUAL_ADDRESS\<close> the \<open>mmu\<close> program reaches the GPIO registers through the virtual megabyte
  \<open>0x10000000\<close>, and without it at their own address.\<close>

lemma mmu_virsual_gpio:
  assumes "register_file b view A" "table_addrs \<subseteq> A" "va < 0x00100000"
  shows "\<exists>s'. mmu_create_page_table b v s = Some s' \<and>
     translate (view s') MMU_BASE ((if v then 0x10000000 else 0x7F000000) + va) = Some (0x7F000000 OR va)"
proof -
  let ?va = "(if v then 0x10000000 else 0x7F000000) + va"
  let ?k = "if v then 256 else 2032 :: nat"
  obtain s' where s': "mmu_create_page_table b v s = Some s'" "\<And>k. k < 4096 \<Longrightarrow> view s' (entry k) =
     (if k = 192 then sec 192 OR MMU_SECTION_WB
      else if k = ?k then sec 2032 OR MMU_SECTION_NCNB
      else if 1280 \<le> k \<and> k < 1344 then sec k OR MMU_SECTION_NCNB else view s (entry k))"
    using register_file.mmu_create_page_table_view [OF assms(1,2)] by blast
  have va: "unat va < 2 ^ 20" using assms(3) by (simp add: word_less_nat_alt)
  then have "unat ?va = ?k * 2 ^ 20 + unat va" by (simp add: unat_plus_if')
  then have "unat ?va div 2 ^ 20 = ?k" using va by (simp only:) simp
  moreover have "?va AND 0x000FFFFF = va"
  proof -
    have mask: "(0xFFFFF :: u32) = mask 20" by (simp add: mask_eq_exp_minus_1)
    have "unat ?va mod 2 ^ 20 = unat va" using va \<open>unat ?va = _\<close> by (simp only:) simp
    then show ?thesis
      by (simp only: mask take_bit_eq_mask [symmetric] word_unat_eq_iff) (simp add: take_bit_eq_mod unat_mod)
  qed
  ultimately have "translate (view s') MMU_BASE ?va = Some (sec 2032 OR va)"
    using translate_section [of "view s'" ?va 2032 MMU_SECTION_NCNB] by (simp add: s'(2))
  then show ?thesis using s'(1) by (simp add: megabytes(6))
qed

lemma mmu_virsual_gpio_witness:
  "\<exists>s'. mmu_create_page_table ram_bus True (\<lambda>_. 0) = Some s' \<and>
     translate s' MMU_BASE 0x10008808 = Some 0x7F008808"
  using mmu_virsual_gpio [OF ram.register_file_axioms subset_refl, where va = "0x8808" and v = True and s = "\<lambda>_. 0"] by simp

end
