(* ===== verification/Irq.thy ===== *)
theory Irq
  imports Gpio Uart Mmu
begin

text \<open>
  Interrupts: the vectored interrupt controller and the external interrupts of \<open>no-os/timer/irq.h\<close>,
  \<open>irq_init\<close>, \<open>irq_disable\<close> and \<open>irq_enable\<close> of \<open>no-os/timer/irq.c\<close>, the key interrupt of
  \<open>no-os/interrupt/irq_advanced/key.c\<close>, the PWM timer of \<open>no-os/timer/timer.c\<close> and the watchdog of
  \<open>no-os/watchdog/watchdog.c\<close>.  The addresses of the handlers, which the linker chooses, are parameters.  The
  instructions that save and restore the registers around a handler are not modelled: a handler is its effect on
  the devices.
\<close>

section \<open>Registers\<close>

definition EINT0CON0 :: u32 where "EINT0CON0 = 0x7F008900"
definition EINT0MASK :: u32 where "EINT0MASK = 0x7F008920"
definition EINT0PEND :: u32 where "EINT0PEND = 0x7F008924"
definition EINT0FLTCON0 :: u32 where "EINT0FLTCON0 = 0x7F008910"
definition VIC0INTSELECT :: u32 where "VIC0INTSELECT = 0x7120000c"
definition VIC0INTENABLE :: u32 where "VIC0INTENABLE = 0x71200010"
definition VIC0INTENCLEAR :: u32 where "VIC0INTENCLEAR = 0x71200014"
definition VIC0ADDRESS :: u32 where "VIC0ADDRESS = 0x71200f00"
definition VIC0VECTADDR :: "nat \<Rightarrow> u32" where "VIC0VECTADDR x = 0x71200100 + of_nat (x * 4)"

definition PWMTIMER_BASE :: u32 where "PWMTIMER_BASE = 0x7F006000"
definition TCFG0 :: u32 where "TCFG0 = PWMTIMER_BASE + 0x00"
definition TCFG1 :: u32 where "TCFG1 = PWMTIMER_BASE + 0x04"
definition TCON :: u32 where "TCON = PWMTIMER_BASE + 0x08"
definition TCNTB0 :: u32 where "TCNTB0 = PWMTIMER_BASE + 0x0C"
definition TCMPB0 :: u32 where "TCMPB0 = PWMTIMER_BASE + 0x10"
definition TINT_CSTAT :: u32 where "TINT_CSTAT = PWMTIMER_BASE + 0x44"

definition WDT_BASE :: u32 where "WDT_BASE = 0x7E004000"
definition WTCON :: u32 where "WTCON = WDT_BASE + 0x00"
definition WTDAT :: u32 where "WTDAT = WDT_BASE + 0x04"
definition WTCLRINT :: u32 where "WTCLRINT = WDT_BASE + 0x0C"

lemmas irq_addrs = EINT0CON0_def EINT0MASK_def EINT0PEND_def EINT0FLTCON0_def VIC0INTSELECT_def
  VIC0INTENABLE_def VIC0INTENCLEAR_def VIC0ADDRESS_def VIC0VECTADDR_def PWMTIMER_BASE_def TCFG0_def TCFG1_def
  TCON_def TCNTB0_def TCMPB0_def TINT_CSTAT_def WDT_BASE_def WTCON_def WTDAT_def WTCLRINT_def

section \<open>Keys\<close>

definition key_irq_init :: "'d bus \<Rightarrow> u32 \<Rightarrow> 'd \<Rightarrow> 'd" where
  "key_irq_init b key_irq_handler s =
     (let s = reg_and b GPNCON (NOT (GPN_mask 0 + GPN_mask 1 + GPN_mask 2 + GPN_mask 3)) s;
          s = reg_or b GPNCON (GPN_int 0 + GPN_int 1 + GPN_int 2 + GPN_int 3) s;
          s = reg_and b EINT0CON0 (NOT 0xff) s;
          s = reg_or b EINT0CON0 0x33 s;
          s = reg_or b EINT0FLTCON0 0xcfff s;
          s = reg_and b EINT0MASK (NOT 0xf) s;
          s = reg_and b VIC0INTSELECT (NOT 0x1) s;
          s = wr32 b (VIC0VECTADDR 0) key_irq_handler s
      in reg_or b VIC0INTENABLE 0x1 s)"

text \<open>Each of the four tests of \<open>EINT0PEND\<close> reads the register again.\<close>

definition on_pending :: "'d bus \<Rightarrow> u32 \<Rightarrow> ('d \<Rightarrow> 'd option) \<Rightarrow> 'd \<Rightarrow> 'd option" where
  "on_pending b m f s = (let (x, s) = rd32 b EINT0PEND s in if x AND m \<noteq> 0 then f s else Some s)"

definition key_message :: "u8 \<Rightarrow> u8 list" where
  "key_message c = lit ''C irq - key '' @ [c, 10, 13]"

definition key_irq_handler :: "'d bus \<Rightarrow> 'd \<Rightarrow> 'd option" where
  "key_irq_handler b s = do {
     s \<leftarrow> on_pending b 0x1 (\<lambda>s. UART0_SendString b (c_array (key_message 49)) (leds_ON b 1 s)) s;
     s \<leftarrow> on_pending b 0x2 (\<lambda>s. UART0_SendString b (c_array (key_message 50)) (leds_ON b 2 s)) s;
     s \<leftarrow> on_pending b 0x4 (\<lambda>s. UART0_SendString b (c_array (key_message 51)) (leds_ON b 3 s)) s;
     s \<leftarrow> on_pending b 0x8 (\<lambda>s. UART0_SendString b (c_array (key_message 52)) (leds_OFF_all b s)) s;
     let s = wr32 b EINT0PEND 0xf s;
     Some (wr32 b VIC0ADDRESS 0 s) }"

section \<open>PWM timer\<close>

definition timer_irq_init :: "'d bus \<Rightarrow> u32 \<Rightarrow> 'd \<Rightarrow> 'd" where
  "timer_irq_init b timer0_irq_handler s =
     (let s = reg_and b VIC0INTSELECT (NOT (push_bit 23 1)) s;
          s = wr32 b (VIC0VECTADDR 23) timer0_irq_handler s
      in reg_or b VIC0INTENABLE (push_bit 23 1) s)"

text \<open>
  The shift amounts are 32-bit numbers; the ARM shifts a register by the low byte of the amount, which is
  \<open>4 * timer_id\<close> itself for the timer numbers that exist.
\<close>

definition timer_init :: "'d bus \<Rightarrow> u32 \<Rightarrow> u32 \<Rightarrow> u32 \<Rightarrow> u32 \<Rightarrow> u32 \<Rightarrow> 'd \<Rightarrow> 'd" where
  "timer_init b timer_id prescaler divider tcntbn tcmpbn s =
     (let (temp_data, s) = rd32 b TCFG0 s;
          temp_data = (temp_data AND NOT 0xff) OR push_bit 0 (prescaler - 1);
          s = wr32 b TCFG0 temp_data s;
          (temp_data, s) = rd32 b TCFG1 s;
          n = unat (4 * timer_id) mod 256;
          temp_data = (temp_data AND NOT (push_bit n 0xf)) OR push_bit n divider;
          temp_data = temp_data AND NOT (push_bit 20 0xf);
          s = wr32 b TCFG1 temp_data s;
          s = wr32 b TCNTB0 tcntbn s;
          s = wr32 b TCMPB0 tcmpbn s;
          s = reg_or b TCON (push_bit 1 1) s;
          s = reg_and b TCON (NOT (push_bit 1 1)) s;
          s = reg_or b TCON (push_bit 0 1 OR push_bit 3 1) s;
          (temp_data, s) = rd32 b TINT_CSTAT s;
          temp_data = temp_data OR push_bit (unat timer_id mod 256) 1
      in wr32 b TINT_CSTAT temp_data s)"

text \<open>The static variable \<open>my_led_flag\<close> is part of the state.\<close>

definition timer0_irq_handler :: "'d bus \<Rightarrow> u32 \<times> 'd \<Rightarrow> u32 \<times> 'd" where
  "timer0_irq_handler b st =
     (let (my_led_flag, s) = st;
          my_led_flag = (my_led_flag + 1) mod 2;
          s = (if my_led_flag = 1 then leds_ON b 1 s else leds_OFF b 1 s);
          s = reg_or b TINT_CSTAT (push_bit 5 1) s
      in (my_led_flag, wr32 b VIC0ADDRESS 0 s))"

section \<open>Watchdog\<close>

definition watchdog_irq_init :: "'d bus \<Rightarrow> u32 \<Rightarrow> 'd \<Rightarrow> 'd" where
  "watchdog_irq_init b watchdog_irq_handler s =
     (let s = reg_and b VIC0INTSELECT (NOT (push_bit 26 1)) s;
          s = wr32 b (VIC0VECTADDR 26) watchdog_irq_handler s
      in reg_or b VIC0INTENABLE (push_bit 26 1) s)"

definition watchdog_start :: "'d bus \<Rightarrow> 'd \<Rightarrow> 'd" where
  "watchdog_start b s = reg_or b WTCON (push_bit 5 1) s"

definition watchdog_stop :: "'d bus \<Rightarrow> 'd \<Rightarrow> 'd" where
  "watchdog_stop b s = reg_and b WTCON (NOT (push_bit 5 1)) s"

definition watchdog_init :: "'d bus \<Rightarrow> u32 \<Rightarrow> u32 \<Rightarrow> u32 \<Rightarrow> u32 \<Rightarrow> u32 \<Rightarrow> 'd \<Rightarrow> 'd" where
  "watchdog_init b prescaler divider wtdat interrupt reset s =
     (let s = wr32 b WTDAT wtdat s;
          s = wr32 b WTCON (push_bit 8 (prescaler - 1) OR push_bit 3 divider OR push_bit 2 interrupt OR push_bit 0 reset) s
      in watchdog_start b s)"

definition watchdog_irq_handler :: "'d bus \<Rightarrow> 'd \<Rightarrow> 'd option" where
  "watchdog_irq_handler b s = do {
     s \<leftarrow> UART0_SendString b (c_array ([13, 10] @ lit ''Watchdog interrupt!'' @ [13, 10])) s;
     let s = wr32 b WTCLRINT 1 s;
     Some (wr32 b VIC0ADDRESS 0 s) }"

section \<open>Start-up and masking\<close>

text \<open>\<open>IRQ_KEY\<close> and \<open>IRQ_TIMER\<close> are defined in the timer program.\<close>

definition irq_init :: "'d bus \<Rightarrow> u32 \<Rightarrow> u32 \<Rightarrow> 'd \<times> cp15 \<Rightarrow> 'd \<times> cp15" where
  "irq_init b key_handler timer_handler st =
     (let (s, c) = st;
          c = c\<lparr>cp_control := cp_control c OR push_bit 24 1\<rparr>;
          s = wr32 b VIC0INTENCLEAR 0xffffffff s;
          s = wr32 b VIC0ADDRESS 0 s;
          s = wr32 b EINT0PEND 0xffffffff s;
          s = key_irq_init b key_handler s;
          s = timer_irq_init b timer_handler s
      in (s, c))"

definition watchdog_program_irq_init :: "'d bus \<Rightarrow> u32 \<Rightarrow> 'd \<times> cp15 \<Rightarrow> 'd \<times> cp15" where
  "watchdog_program_irq_init b watchdog_handler st =
     (let (s, c) = st;
          c = c\<lparr>cp_control := cp_control c OR push_bit 24 1\<rparr>;
          s = wr32 b VIC0INTENCLEAR 0xffffffff s;
          s = wr32 b VIC0ADDRESS 0 s;
          s = wr32 b EINT0PEND 0xffffffff s;
          s = watchdog_irq_init b watchdog_handler s
      in (s, c))"

text \<open>\<open>msr cpsr_c\<close> writes the low byte of the status register alone.\<close>

definition msr_cpsr_c :: "u32 \<Rightarrow> u32 \<Rightarrow> u32" where
  "msr_cpsr_c cpsr r0 = (cpsr AND NOT 0xff) OR (r0 AND 0xff)"

definition irq_disable :: "u32 \<Rightarrow> u32" where
  "irq_disable cpsr = msr_cpsr_c cpsr (cpsr OR push_bit 7 1)"

definition irq_enable :: "u32 \<Rightarrow> u32" where
  "irq_enable cpsr = msr_cpsr_c cpsr (cpsr AND NOT (push_bit 7 1))"

section \<open>The devices\<close>

text \<open>
  How the registers answer a write, from the comments of \<open>irq.h\<close>, \<open>timer.h\<close> and \<open>watchdog.h\<close>: a pending bit of the
  external interrupts and a status bit of the timers is cleared by writing 1, the other bits of \<open>TINT_CSTAT\<close> are
  held; writing 1 to \<open>VIC0INTENABLE\<close> enables a source and writing 1 to \<open>VIC0INTENCLEAR\<close> disables it; every other
  register holds its value.
\<close>

definition soc_write :: "u32 \<Rightarrow> u32 \<Rightarrow> (u32 \<Rightarrow> u32) \<Rightarrow> u32 \<Rightarrow> u32" where
  "soc_write a v m =
     (if a = EINT0PEND then m(a := m a AND NOT v)
      else if a = TINT_CSTAT then m(a := (v AND NOT 0x3e0) OR (m a AND 0x3e0 AND NOT v))
      else if a = VIC0INTENCLEAR then m(VIC0INTENABLE := m VIC0INTENABLE AND NOT v)
      else if a = VIC0INTENABLE then m(a := m a OR v)
      else m(a := v))"

definition uart_regs :: "u32 set" where
  "uart_regs = {UFSTAT0, UTXH0, URXH0}"

lemma not_uart [simp]:
  "EINT0CON0 \<notin> uart_regs" "EINT0MASK \<notin> uart_regs" "EINT0PEND \<notin> uart_regs" "EINT0FLTCON0 \<notin> uart_regs"
  "VIC0INTSELECT \<notin> uart_regs" "VIC0INTENABLE \<notin> uart_regs" "VIC0INTENCLEAR \<notin> uart_regs" "VIC0ADDRESS \<notin> uart_regs"
  "TCFG0 \<notin> uart_regs" "TCFG1 \<notin> uart_regs" "TCON \<notin> uart_regs" "TCNTB0 \<notin> uart_regs" "TCMPB0 \<notin> uart_regs"
  "TINT_CSTAT \<notin> uart_regs" "WTCON \<notin> uart_regs" "WTDAT \<notin> uart_regs" "WTCLRINT \<notin> uart_regs"
  "GPKCON0 \<notin> uart_regs" "GPKDAT \<notin> uart_regs" "GPNCON \<notin> uart_regs" "GPNDAT \<notin> uart_regs"
  by (simp_all add: uart_regs_def uart_addrs irq_addrs gpio_addrs)

lemma test_bits:
  "(x :: u32) AND 0x1 \<noteq> 0 \<longleftrightarrow> bit x 0" "x AND 0x2 \<noteq> 0 \<longleftrightarrow> bit x 1" "x AND 0x4 \<noteq> 0 \<longleftrightarrow> bit x 2" "x AND 0x8 \<noteq> 0 \<longleftrightarrow> bit x 3"
proof -
  have "x AND push_bit n 1 \<noteq> 0 \<longleftrightarrow> bit x n" if "n < 32" for n
    using that by (auto simp: bit_simps push_bit_of_1 intro!: bit_word_eqI dest!: arg_cong [where f = "\<lambda>x. bit x n"])
  from this [of 0] this [of 1] this [of 2] this [of 3]
  show "x AND 0x1 \<noteq> 0 \<longleftrightarrow> bit x 0" "x AND 0x2 \<noteq> 0 \<longleftrightarrow> bit x 1" "x AND 0x4 \<noteq> 0 \<longleftrightarrow> bit x 2" "x AND 0x8 \<noteq> 0 \<longleftrightarrow> bit x 3"
    by simp_all
qed

locale soc = uart_port b sent input tx_delay rx_delay
  for b :: "'d bus" and sent input :: "'d \<Rightarrow> u8 list" and tx_delay rx_delay :: "'d \<Rightarrow> nat" +
  fixes view :: "'d \<Rightarrow> u32 \<Rightarrow> u32"
  assumes soc_rd: "a \<notin> uart_regs \<Longrightarrow> fst (rd32 b a s) = view s a \<and> view (snd (rd32 b a s)) = view s \<and>
      sent (snd (rd32 b a s)) = sent s \<and> input (snd (rd32 b a s)) = input s"
    and soc_wr: "a \<notin> uart_regs \<Longrightarrow> view (wr32 b a v s) = soc_write a v (view s) \<and>
      sent (wr32 b a v s) = sent s \<and> input (wr32 b a v s) = input s"
    and poll_view: "view (snd (rd32 b UFSTAT0 s)) = view s"
    and put_view: "view (bus_wr b W8 UTXH0 v s) = view s"
begin

lemma soc_update:
  "a \<notin> uart_regs \<Longrightarrow> view (reg_update b a f s) = soc_write a (f (view s a)) (view s)"
  "a \<notin> uart_regs \<Longrightarrow> sent (reg_update b a f s) = sent s"
  "a \<notin> uart_regs \<Longrightarrow> input (reg_update b a f s) = input s"
  using soc_rd [of a s] by (simp_all add: reg_update_def case_prod_beta Let_def soc_wr)

lemmas soc_access = soc_rd soc_wr soc_update reg_or_def reg_and_def

lemma SendString_loop_view: "SendString_loop b string index s = Some s' \<Longrightarrow> view s' = view s"
  by (rule SendString_loop_keeps [where P = "\<lambda>t. view t = view s"]) (auto simp: poll_view put_view)

lemma message_sends:
  "0 \<notin> set xs \<Longrightarrow> length xs \<le> MAX_STRING_LENGTH \<Longrightarrow>
   \<exists>s'. UART0_SendString b (c_array xs) s = Some s' \<and> sent s' = sent s @ xs \<and> input s' = input s \<and> view s' = view s"
  using literal_sends [of xs s] SendString_loop_view by (auto simp: UART0_SendString_def)

lemma LED_view:
  "view (LED_ON b n s) = (view s)(GPKDAT := view s GPKDAT AND NOT (BIT (n + 3)))"
  "view (LED_OFF b n s) = (view s)(GPKDAT := view s GPKDAT OR BIT (n + 3))"
  "sent (LED_ON b n s) = sent s" "sent (LED_OFF b n s) = sent s"
  "input (LED_ON b n s) = input s" "input (LED_OFF b n s) = input s"
proof -
  have "GPKDAT \<notin> {EINT0PEND, TINT_CSTAT, VIC0INTENCLEAR, VIC0INTENABLE}" by (simp add: irq_addrs gpio_addrs)
  then show "view (LED_ON b n s) = (view s)(GPKDAT := view s GPKDAT AND NOT (BIT (n + 3)))"
    "view (LED_OFF b n s) = (view s)(GPKDAT := view s GPKDAT OR BIT (n + 3))"
    "sent (LED_ON b n s) = sent s" "sent (LED_OFF b n s) = sent s"
    "input (LED_ON b n s) = input s" "input (LED_OFF b n s) = input s"
    by (simp_all add: LED_ON_def LED_OFF_def soc_access soc_write_def)
qed

lemma leds_view:
  "n \<in> {1, 2, 3, 4} \<Longrightarrow> view (leds_ON b (of_nat n) s) = (view s)(GPKDAT := view s GPKDAT AND NOT (BIT (n + 3)))"
  "n \<in> {1, 2, 3, 4} \<Longrightarrow> view (leds_OFF b (of_nat n) s) = (view s)(GPKDAT := view s GPKDAT OR BIT (n + 3))"
  "view (leds_OFF_all b s) = (view s)(GPKDAT := view s GPKDAT OR BIT 4 OR BIT 5 OR BIT 6 OR BIT 7)"
  "n \<in> {1, 2, 3, 4} \<Longrightarrow> sent (leds_ON b (of_nat n) s) = sent s"
  "n \<in> {1, 2, 3, 4} \<Longrightarrow> sent (leds_OFF b (of_nat n) s) = sent s"
  "sent (leds_OFF_all b s) = sent s"
  "n \<in> {1, 2, 3, 4} \<Longrightarrow> input (leds_ON b (of_nat n) s) = input s"
  "n \<in> {1, 2, 3, 4} \<Longrightarrow> input (leds_OFF b (of_nat n) s) = input s"
  "input (leds_OFF_all b s) = input s"
  by (simp_all add: leds_ON_LED leds_OFF_LED leds_OFF_all_LED LED_view or.assoc)

text \<open>One test of the handler: if the bit is pending, \<open>f\<close> changes \<open>GPKDAT\<close> alone and the message is sent.\<close>

lemma on_pending_step:
  assumes f: "\<And>s. view (f s) = (view s)(GPKDAT := g (view s GPKDAT))" "\<And>s. sent (f s) = sent s" "\<And>s. input (f s) = input s"
    and c: "c \<noteq> 0" and p: "view s EINT0PEND = p" and m: "p AND m \<noteq> 0 \<longleftrightarrow> bit p k"
  shows "\<exists>s'. on_pending b m (\<lambda>s. UART0_SendString b (c_array (key_message c)) (f s)) s = Some s' \<and>
    sent s' = sent s @ (if bit p k then key_message c else []) \<and> input s' = input s \<and>
    view s' = (view s)(GPKDAT := (if bit p k then g else id) (view s GPKDAT)) \<and> view s' EINT0PEND = p"
proof -
  obtain x s1 where r: "rd32 b EINT0PEND s = (x, s1)" by (cases "rd32 b EINT0PEND s")
  then have s1: "x = p" "view s1 = view s" "sent s1 = sent s" "input s1 = input s"
    using soc_rd [of EINT0PEND s] p by auto
  obtain s2 where "UART0_SendString b (c_array (key_message c)) (f s1) = Some s2" "sent s2 = sent s1 @ key_message c"
    "input s2 = input s1" "view s2 = view (f s1)"
    using message_sends [of "key_message c" "f s1"] c
    by (auto simp: key_message_def lit_def MAX_STRING_LENGTH_def f)
  moreover have "EINT0PEND \<noteq> GPKDAT" by (simp add: irq_addrs gpio_addrs)
  ultimately show ?thesis using r s1 p m by (simp add: on_pending_def f)
qed

lemma handler_leds:
  assumes "dat' = (if bit p 3 then \<lambda>d. d OR BIT 4 OR BIT 5 OR BIT 6 OR BIT 7 else id)
      ((if bit p 2 then \<lambda>d. d AND NOT (BIT 6) else id) ((if bit p 1 then \<lambda>d. d AND NOT (BIT 5) else id)
        ((if bit p 0 then \<lambda>d. d AND NOT (BIT 4) else id) dat)))"
  shows "lit_leds dat' = (if bit p 3 then [] else filter (\<lambda>n. led_lit dat n \<or> bit p (n - 1)) [1, 2, 3, 4])"
  unfolding assms by (simp add: lit_leds_def led_lit_def bit_simps BIT_def push_bit_of_1)

lemma key_irq_handler_runs:
  "\<exists>s'. key_irq_handler b s = Some s' \<and>
     sent s' = sent s @ concat (map (\<lambda>n. key_message (48 + of_nat n))
       (filter (\<lambda>n. bit (view s EINT0PEND) (n - 1)) [1, 2, 3, 4])) \<and> input s' = input s \<and>
     lit_leds (view s' GPKDAT) = (if bit (view s EINT0PEND) 3 then []
       else filter (\<lambda>n. led_lit (view s GPKDAT) n \<or> bit (view s EINT0PEND) (n - 1)) [1, 2, 3, 4]) \<and>
     view s' EINT0PEND = view s EINT0PEND AND NOT 0xf \<and> view s' VIC0ADDRESS = 0 \<and>
     (\<forall>a. a \<notin> {GPKDAT, EINT0PEND, VIC0ADDRESS} \<longrightarrow> view s' a = view s a)"
proof -
  have ne: "GPKDAT \<noteq> EINT0PEND" "EINT0PEND \<noteq> GPKDAT" "GPKDAT \<noteq> VIC0ADDRESS" "EINT0PEND \<noteq> VIC0ADDRESS"
    "VIC0ADDRESS \<notin> {EINT0PEND, TINT_CSTAT, VIC0INTENCLEAR, VIC0INTENABLE}" by (simp_all add: irq_addrs gpio_addrs)
  have nz: "(49 :: u8) \<noteq> 0" "(50 :: u8) \<noteq> 0" "(51 :: u8) \<noteq> 0" "(52 :: u8) \<noteq> 0" by simp_all
  define p where "p = view s EINT0PEND"
  obtain s1 where s1: "on_pending b 1 (\<lambda>s. UART0_SendString b (c_array (key_message 49)) (leds_ON b 1 s)) s = Some s1"
    "sent s1 = sent s @ (if bit p 0 then key_message 49 else [])" "input s1 = input s"
    "view s1 = (view s)(GPKDAT := (if bit p 0 then \<lambda>d. d AND NOT (BIT 4) else id) (view s GPKDAT))"
    "view s1 EINT0PEND = p"
    using on_pending_step [OF leds_view(1) [of 1, simplified] leds_view(4) [of 1, simplified] leds_view(7) [of 1, simplified] nz(1) p_def [symmetric] test_bits(1)] by blast
  obtain s2 where s2: "on_pending b 2 (\<lambda>s. UART0_SendString b (c_array (key_message 50)) (leds_ON b 2 s)) s1 = Some s2"
    "sent s2 = sent s1 @ (if bit p 1 then key_message 50 else [])" "input s2 = input s1"
    "view s2 = (view s1)(GPKDAT := (if bit p 1 then \<lambda>d. d AND NOT (BIT 5) else id) (view s1 GPKDAT))"
    "view s2 EINT0PEND = p"
    using on_pending_step [OF leds_view(1) [of 2, simplified] leds_view(4) [of 2, simplified] leds_view(7) [of 2, simplified] nz(2) s1(5) test_bits(2)] by blast
  obtain s3 where s3: "on_pending b 4 (\<lambda>s. UART0_SendString b (c_array (key_message 51)) (leds_ON b 3 s)) s2 = Some s3"
    "sent s3 = sent s2 @ (if bit p 2 then key_message 51 else [])" "input s3 = input s2"
    "view s3 = (view s2)(GPKDAT := (if bit p 2 then \<lambda>d. d AND NOT (BIT 6) else id) (view s2 GPKDAT))"
    "view s3 EINT0PEND = p"
    using on_pending_step [OF leds_view(1) [of 3, simplified] leds_view(4) [of 3, simplified] leds_view(7) [of 3, simplified] nz(3) s2(5) test_bits(3)] by blast
  obtain s4 where s4: "on_pending b 8 (\<lambda>s. UART0_SendString b (c_array (key_message 52)) (leds_OFF_all b s)) s3 = Some s4"
    "sent s4 = sent s3 @ (if bit p 3 then key_message 52 else [])" "input s4 = input s3"
    "view s4 = (view s3)(GPKDAT := (if bit p 3 then \<lambda>d. d OR BIT 4 OR BIT 5 OR BIT 6 OR BIT 7 else id) (view s3 GPKDAT))"
    "view s4 EINT0PEND = p"
    using on_pending_step [OF leds_view(3) leds_view(6) leds_view(9) nz(4) s3(5) test_bits(4)] by blast
  define s' where "s' = wr32 b VIC0ADDRESS 0 (wr32 b EINT0PEND 0xf s4)"
  have "key_irq_handler b s = Some s'"
    using s1(1) s2(1) s3(1) s4(1) by (simp add: key_irq_handler_def s'_def Let_def)
  moreover have "sent s' = sent s @ concat (map (\<lambda>n. key_message (48 + of_nat n))
       (filter (\<lambda>n. bit p (n - 1)) [1, 2, 3, 4]))" "input s' = input s"
    by (simp_all add: s'_def soc_wr s4 s3 s2 s1)
  moreover have v: "view s' = (view s4)(EINT0PEND := view s4 EINT0PEND AND NOT 0xf, VIC0ADDRESS := 0)"
    using ne(5) by (simp add: s'_def soc_wr soc_write_def)
  moreover have "lit_leds (view s' GPKDAT) = (if bit p 3 then []
       else filter (\<lambda>n. led_lit (view s GPKDAT) n \<or> bit p (n - 1)) [1, 2, 3, 4])"
    by (rule handler_leds) (simp only: v fun_upd_same fun_upd_other ne not_False_eq_True s4(4) s3(4) s2(4) s1(4))
  ultimately show ?thesis using ne by (auto simp: p_def s4(4) s3(4) s2(4) s1(4))
qed

lemma VECTADDR_not_uart [simp]: "VIC0VECTADDR 0 \<notin> uart_regs" "VIC0VECTADDR 23 \<notin> uart_regs" "VIC0VECTADDR 26 \<notin> uart_regs"
  by (simp_all add: uart_regs_def uart_addrs irq_addrs)

lemma key_irq_init_view:
  "view (key_irq_init b h s) = (view s)(GPNCON := (view s GPNCON AND NOT 0xff) OR 0xaa,
     EINT0CON0 := (view s EINT0CON0 AND NOT 0xff) OR 0x33, EINT0FLTCON0 := view s EINT0FLTCON0 OR 0xcfff,
     EINT0MASK := view s EINT0MASK AND NOT 0xf, VIC0INTSELECT := view s VIC0INTSELECT AND NOT 1,
     VIC0VECTADDR 0 := h, VIC0INTENABLE := view s VIC0INTENABLE OR 1)"
  by (rule ext)
    (simp add: key_irq_init_def Let_def soc_access soc_write_def uart_regs_def uart_addrs irq_addrs gpio_addrs gpio_masks)

lemma timer_irq_init_view:
  "view (timer_irq_init b h s) = (view s)(VIC0INTSELECT := view s VIC0INTSELECT AND NOT (push_bit 23 1),
     VIC0VECTADDR 23 := h, VIC0INTENABLE := view s VIC0INTENABLE OR push_bit 23 1)"
  by (rule ext) (simp add: timer_irq_init_def Let_def soc_access soc_write_def uart_regs_def uart_addrs irq_addrs)

lemma watchdog_irq_init_view:
  "view (watchdog_irq_init b h s) = (view s)(VIC0INTSELECT := view s VIC0INTSELECT AND NOT (push_bit 26 1),
     VIC0VECTADDR 26 := h, VIC0INTENABLE := view s VIC0INTENABLE OR push_bit 26 1)"
  by (rule ext) (simp add: watchdog_irq_init_def Let_def soc_access soc_write_def uart_regs_def uart_addrs irq_addrs)

lemma vic_reset_view:
  "view (wr32 b EINT0PEND 0xffffffff (wr32 b VIC0ADDRESS 0 (wr32 b VIC0INTENCLEAR 0xffffffff s))) =
     (view s)(VIC0INTENABLE := 0, VIC0ADDRESS := 0, EINT0PEND := 0)"
proof -
  have none: "(- 4294967296 :: u32) = 0" by code_simp
  have "(x :: u32) AND - 4294967296 = 0" for x by (subst none) simp
  then show ?thesis by (intro ext) (simp add: soc_wr soc_write_def uart_regs_def uart_addrs irq_addrs)
qed

lemma timer_init_view:
  "view (timer_init b timer_id prescaler divider tcntbn tcmpbn s) = (view s)(
     TCFG0 := (view s TCFG0 AND NOT 0xff) OR (prescaler - 1),
     TCFG1 := ((view s TCFG1 AND NOT (push_bit (unat (4 * timer_id) mod 256) 0xf)) OR
       push_bit (unat (4 * timer_id) mod 256) divider) AND NOT (push_bit 20 0xf),
     TCNTB0 := tcntbn, TCMPB0 := tcmpbn,
     TCON := (((view s TCON OR 2) AND NOT 2) OR 9),
     TINT_CSTAT := (view s TINT_CSTAT OR push_bit (unat timer_id mod 256) 1) AND NOT 0x3e0 OR
       (view s TINT_CSTAT AND 0x3e0 AND NOT (view s TINT_CSTAT OR push_bit (unat timer_id mod 256) 1)))"
  by (rule ext)
    (simp add: timer_init_def Let_def case_prod_beta soc_access soc_write_def uart_regs_def uart_addrs irq_addrs)

lemma timer0_irq_handler_view:
  "view (snd (timer0_irq_handler b (flag, s))) = (view s)(
     GPKDAT := (if (flag + 1) mod 2 = 1 then view s GPKDAT AND NOT (BIT 4) else view s GPKDAT OR BIT 4),
     TINT_CSTAT := (view s TINT_CSTAT OR 0x20) AND NOT 0x3e0 OR
       (view s TINT_CSTAT AND 0x3e0 AND NOT (view s TINT_CSTAT OR 0x20)),
     VIC0ADDRESS := 0)"
  using leds_view(1) [of 1 s] leds_view(2) [of 1 s]
  by (intro ext)
    (simp add: timer0_irq_handler_def Let_def case_prod_beta soc_access soc_write_def uart_regs_def uart_addrs
      irq_addrs gpio_addrs)

lemma watchdog_view:
  "view (watchdog_init b prescaler divider wtdat interrupt reset s) = (view s)(WTDAT := wtdat,
     WTCON := (push_bit 8 (prescaler - 1) OR push_bit 3 divider OR push_bit 2 interrupt OR reset) OR 0x20)"
  "view (watchdog_stop b s) = (view s)(WTCON := view s WTCON AND NOT 0x20)"
  by (rule ext, simp add: watchdog_init_def watchdog_start_def watchdog_stop_def Let_def soc_access soc_write_def
      uart_regs_def uart_addrs irq_addrs)+

end

section \<open>A system with a UART and registers\<close>

definition soc_bus :: "(fifo_dev \<times> (u32 \<Rightarrow> u32)) bus" where
  "soc_bus = \<lparr>
     bus_rd = \<lambda>w a (d, m). if a \<in> uart_regs then (let (x, d) = bus_rd fifo_bus w a d in (x, (d, m))) else (m a, (d, m)),
     bus_wr = \<lambda>w a v (d, m). if a \<in> uart_regs then (bus_wr fifo_bus w a v d, m) else (d, soc_write a v m) \<rparr>"

lemma soc_bus_access:
  "a \<in> uart_regs \<Longrightarrow> bus_rd soc_bus w a (d, m) = (fst (bus_rd fifo_bus w a d), (snd (bus_rd fifo_bus w a d), m))"
  "a \<in> uart_regs \<Longrightarrow> bus_wr soc_bus w a v (d, m) = (bus_wr fifo_bus w a v d, m)"
  "a \<notin> uart_regs \<Longrightarrow> bus_rd soc_bus w a (d, m) = (m a, (d, m))"
  "a \<notin> uart_regs \<Longrightarrow> bus_wr soc_bus w a v (d, m) = (d, soc_write a v m)"
  by (simp_all add: soc_bus_def case_prod_beta Let_def)

lemma uart_regs_in [simp]: "UFSTAT0 \<in> uart_regs" "UTXH0 \<in> uart_regs" "URXH0 \<in> uart_regs"
  by (simp_all add: uart_regs_def)

lemma soc_bus_poll: "rd32 soc_bus UFSTAT0 (d, m) = (fst (rd32 fifo_bus UFSTAT0 d), (snd (rd32 fifo_bus UFSTAT0 d), m))"
  by (simp add: rd32_def soc_bus_access)

interpretation board: soc soc_bus "\<lambda>(d, m). line d @ txq d" "\<lambda>(d, m). rxq d" "\<lambda>(d, m). length (txq d)" "\<lambda>_. 0"
  "\<lambda>(d, m). m"
proof (unfold_locales, goal_cases)
  case (1 s) then show ?case using fifo.poll_sent by (cases s) (simp add: soc_bus_poll)
next
  case (2 s) then show ?case using fifo.poll_input by (cases s) (simp add: soc_bus_poll)
next
  case (3 s) then show ?case using fifo.poll_full by (cases s) (simp add: soc_bus_poll)
next
  case (4 s) then show ?case using fifo.poll_empty by (cases s) (fastforce simp add: soc_bus_poll)
next
  case (5 s v) then show ?case using fifo.put by (cases s) (simp add: soc_bus_poll soc_bus_access)
next
  case (6 s c cs) then show ?case using fifo.get [of "fst s" c cs]
    by (cases s) (auto simp: soc_bus_poll soc_bus_access case_prod_beta Let_def)
next
  case (7 a s) then show ?case by (cases s) (simp add: rd32_def soc_bus_access)
next
  case (8 a v s) then show ?case by (cases s) (simp add: wr32_def soc_bus_access)
next
  case (9 s) then show ?case by (cases s) (simp add: soc_bus_poll)
next
  case (10 v s) then show ?case by (cases s) (simp add: soc_bus_access)
qed

section \<open>Properties\<close>

text \<open>C8: The key interrupt.  The handler ends, sends the message of every pending key in the order of the keys, lights
  the LEDs of keys 1 to 3 and puts out all LEDs for key 4, acknowledges the four interrupts of the group and clears
  the active vector; no other register and no input is touched.\<close>

theorem key_irq_handler_correct:
  assumes "soc b sent input tx_delay rx_delay view"
  shows "\<exists>s'. key_irq_handler b s = Some s' \<and>
     sent s' = sent s @ concat (map (\<lambda>n. key_message (48 + of_nat n))
       (filter (\<lambda>n. bit (view s EINT0PEND) (n - 1)) [1, 2, 3, 4])) \<and> input s' = input s \<and>
     lit_leds (view s' GPKDAT) = (if bit (view s EINT0PEND) 3 then []
       else filter (\<lambda>n. led_lit (view s GPKDAT) n \<or> bit (view s EINT0PEND) (n - 1)) [1, 2, 3, 4]) \<and>
     view s' EINT0PEND = view s EINT0PEND AND NOT 0xf \<and> view s' VIC0ADDRESS = 0 \<and>
     (\<forall>a. a \<notin> {GPKDAT, EINT0PEND, VIC0ADDRESS} \<longrightarrow> view s' a = view s a)"
  using assms by (rule soc.key_irq_handler_runs)

theorem key_irq_handler_correct_witness:
  "\<exists>d m. key_irq_handler soc_bus (\<lparr>line = [], txq = [], rxq = []\<rparr>, (\<lambda>_. 0)(EINT0PEND := 0x12, GPKDAT := 0xf0)) = Some (d, m) \<and>
     line d @ txq d = key_message 50 \<and> lit_leds (m GPKDAT) = [2] \<and> m EINT0PEND = 0x10"
proof -
  have "GPKDAT \<noteq> EINT0PEND" by (simp add: irq_addrs gpio_addrs)
  then show ?thesis
    using key_irq_handler_correct [OF board.soc_axioms,
      of "(\<lparr>line = [], txq = [], rxq = []\<rparr>, (\<lambda>_. 0)(EINT0PEND := 0x12, GPKDAT := 0xf0))"]
    by (auto simp: bit_numeral_rec led_lit_def)
qed

text \<open>The interrupt set-up of the timer program enables exactly the key and the timer 0 interrupts, both as IRQs with
  their handlers in the vector table; nothing is pending or active, the key pins are interrupt pins with falling
  edges, unmasked, and the VIC port of the core is on.  It does so whatever was enabled or pending before.\<close>

lemma irq_init_correct:
  assumes "soc b sent input tx_delay rx_delay view" "irq_init b kh th (s, c) = (s', c')"
  shows "view s' VIC0INTENABLE = 0x00800001 \<and> view s' VIC0INTSELECT = view s VIC0INTSELECT AND NOT 0x00800001 \<and>
    view s' (VIC0VECTADDR 0) = kh \<and> view s' (VIC0VECTADDR 23) = th \<and> view s' EINT0PEND = 0 \<and>
    view s' VIC0ADDRESS = 0 \<and> view s' EINT0MASK AND 0xf = 0 \<and> view s' GPNCON AND 0xff = 0xaa \<and>
    view s' EINT0CON0 AND 0xff = 0x33 \<and> bit (cp_control c') 24"
proof -
  have bits: "((x :: u32) AND NOT 0xf) AND 0xf = 0" "((x AND NOT 0xff) OR 0xaa) AND 0xff = 0xaa"
    "((x AND NOT 0xff) OR 0x33) AND 0xff = 0x33" for x
    by (simp_all add: bit.conj_disj_distrib2 and.assoc)
  from assms(2) have "view s' = view (timer_irq_init b th (key_irq_init b kh
      (wr32 b EINT0PEND 0xffffffff (wr32 b VIC0ADDRESS 0 (wr32 b VIC0INTENCLEAR 0xffffffff s)))))"
    and "cp_control c' = cp_control c OR push_bit 24 1"
    by (auto simp: irq_init_def Let_def)
  then show ?thesis
    by (simp only: soc.timer_irq_init_view [OF assms(1)] soc.key_irq_init_view [OF assms(1)]
        soc.vic_reset_view [OF assms(1)])
      (simp add: irq_addrs gpio_addrs bits [simplified] and.assoc bit_or_iff)
qed

lemma irq_init_correct_witness:
  "\<exists>d m c. irq_init soc_bus 0x50001000 0x50002000 ((\<lparr>line = [], txq = [], rxq = []\<rparr>, \<lambda>_. 0xffffffff),
      \<lparr>cp_control = 0, cp_ttb = 0, cp_domain = 0, cp_ops = []\<rparr>) = ((d, m), c) \<and>
    m VIC0INTENABLE = 0x00800001 \<and> m (VIC0VECTADDR 23) = 0x50002000 \<and> m EINT0PEND = 0"
proof -
  obtain d m c where *: "irq_init soc_bus 0x50001000 0x50002000 ((\<lparr>line = [], txq = [], rxq = []\<rparr>, \<lambda>_. 0xffffffff),
      \<lparr>cp_control = 0, cp_ttb = 0, cp_domain = 0, cp_ops = []\<rparr>) = ((d, m), c)"
    by (metis prod.collapse)
  from irq_init_correct [OF board.soc_axioms *] show ?thesis using * by auto
qed

lemma status_cleared: "((x OR y) AND NOT 0x3e0 OR (x AND 0x3e0 AND NOT (x OR y))) AND 0x3e0 = (0 :: u32)"
  by (rule bit_word_eqI) (auto simp: bit_simps)

text \<open>Fields of a register.\<close>

lemma masks: "(0xff :: u32) = mask 8" "(0xf :: u32) = mask 4" "(3 :: u32) = mask 2" "(1 :: u32) = mask 1"
  by (simp_all add: mask_eq_exp_minus_1)

lemma set_field:
  fixes x v :: u32
  assumes "unat v < 2 ^ len" "n + len \<le> 32"
  shows "drop_bit n ((x AND NOT (push_bit n (mask len))) OR push_bit n v) AND mask len = v"
    and "((x AND NOT (push_bit n (mask len))) OR push_bit n v) AND NOT (push_bit n (mask len)) =
      x AND NOT (push_bit n (mask len))"
  using bit_word_less [OF _ assms(1)] assms(2)
  by (intro bit_word_eqI; fastforce simp: bit_simps)+

lemma bit_BIT: "bit (BIT n) k \<longleftrightarrow> k = n \<and> n < 32"
  by (auto simp: BIT_def push_bit_of_1 bit_simps)

lemma clear_above:
  fixes x :: u32
  shows "n + len \<le> m \<Longrightarrow> drop_bit n (x AND NOT (push_bit m y)) AND mask len = drop_bit n x AND mask len"
  by (rule bit_word_eqI) (auto simp: bit_simps dest: bit_imp_le_length)

text \<open>The timer set-up, for a prescaler from 1 to 256 and a divider of four bits.  The prescaler of timers 0 and 1
  becomes \<open>prescaler - 1\<close> and the divider of the timer named becomes \<open>divider\<close>; the DMA request is off.  But the
  counter loaded and the timer started are those of timer 0 whatever timer is named: the other bits of \<open>TCON\<close> keep
  their values.\<close>

lemma timer_init_correct:
  assumes "soc b sent input tx_delay rx_delay view" "timer_id < 5" "1 \<le> prescaler" "prescaler \<le> 256" "divider < 16"
    and "s' = timer_init b timer_id prescaler divider tcntbn tcmpbn s"
  shows "view s' TCFG0 AND 0xff = prescaler - 1 \<and> view s' TCFG0 AND NOT 0xff = view s TCFG0 AND NOT 0xff \<and>
    drop_bit (4 * unat timer_id) (view s' TCFG1) AND 0xf = divider \<and> view s' TCFG1 AND 0xf00000 = 0 \<and>
    view s' TCNTB0 = tcntbn \<and> view s' TCMPB0 = tcmpbn \<and>
    (\<forall>k. bit (view s' TCON) k \<longleftrightarrow> k \<in> {0, 3} \<or> k \<noteq> 1 \<and> bit (view s TCON) k) \<and>
    bit (view s' TINT_CSTAT) (unat timer_id) \<and> view s' TINT_CSTAT AND 0x3e0 = 0"
proof -
  define p where "p = prescaler - 1"
  have p: "unat p < 2 ^ 8"
    using assms(3,4) by (simp add: p_def unat_sub word_le_nat_alt)
  define i where "i = unat timer_id"
  have i: "i < 5" using assms(2) by (simp add: i_def word_less_nat_alt)
  then have i4: "unat (4 * timer_id) mod 256 = 4 * i" "unat timer_id mod 256 = i"
    by (simp_all add: unat_word_ariths i_def)
  have d: "unat divider < 2 ^ 4" using assms(5) by (simp add: word_less_nat_alt)
  note v = soc.timer_init_view [OF assms(1), of timer_id prescaler divider tcntbn tcmpbn s,
    folded assms(6), unfolded i4, folded p_def]
  have "drop_bit (4 * i) (view s' TCFG1) AND 0xf = divider"
  proof -
    have "view s' TCFG1 = ((view s TCFG1 AND NOT (push_bit (4 * i) 0xf)) OR push_bit (4 * i) divider) AND NOT (push_bit 20 0xf)"
      by (simp only: v) (simp add: irq_addrs)
    moreover have "4 * i + 4 \<le> 20" "4 * i + 4 \<le> 32" using i by simp_all
    ultimately show ?thesis by (simp only: masks clear_above set_field(1) [OF d])
  qed
  moreover have "view s' TCFG0 AND 0xff = p" "view s' TCFG0 AND NOT 0xff = view s TCFG0 AND NOT 0xff"
    using set_field [OF p, of 0 "view s TCFG0"] by (simp_all only: v masks) (simp_all add: irq_addrs)
  moreover have "bit (view s' TCON) k \<longleftrightarrow> k \<in> {0, 3} \<or> k \<noteq> 1 \<and> bit (view s TCON) k" for k
  proof -
    have "view s' TCON = ((view s TCON OR BIT 1) AND NOT (BIT 1)) OR (BIT 0 OR BIT 3)"
      by (simp add: v irq_addrs BIT_def)
    then show ?thesis by (auto simp: bit_simps bit_BIT dest: bit_imp_le_length)
  qed
  moreover have "bit (view s' TINT_CSTAT) i"
  proof -
    have "\<not> bit (0x3e0 :: u32) i" using i by (auto simp: less_Suc_eq numeral_eq_Suc)
    then show ?thesis using i by (simp only: v fun_upd_same) (simp add: bit_simps push_bit_of_1)
  qed
  moreover have "view s' TINT_CSTAT AND 0x3e0 = 0"
    using status_cleared by (simp only: v fun_upd_same)
  moreover have "view s' TCFG1 AND 0xf00000 = 0" "view s' TCNTB0 = tcntbn" "view s' TCMPB0 = tcmpbn"
    by (simp_all add: v irq_addrs and.assoc)
  ultimately show ?thesis by (simp add: p_def i_def)
qed

lemma timer0_step:
  assumes "soc b sent input tx_delay rx_delay view" "timer0_irq_handler b (of_nat (k mod 2), s) = (flag, s')"
  shows "flag = of_nat (Suc k mod 2)" "led_lit (view s' GPKDAT) 1 \<longleftrightarrow> odd (Suc k)"
    "n \<in> {2, 3, 4} \<Longrightarrow> led_lit (view s' GPKDAT) n \<longleftrightarrow> led_lit (view s GPKDAT) n"
    "view s' TINT_CSTAT AND 0x3e0 = 0" "view s' VIC0ADDRESS = 0"
proof -
  have f: "(of_nat (k mod 2) + 1) mod 2 = (of_nat (Suc k mod 2) :: u32)"
    by (cases "even k") (simp_all add: even_iff_mod_2_eq_zero odd_iff_mod_2_eq_one mod_Suc)
  show "flag = of_nat (Suc k mod 2)"
    using assms(2) f by (auto simp: timer0_irq_handler_def Let_def)
  have one: "(of_nat (Suc k mod 2) :: u32) = 1 \<longleftrightarrow> odd (Suc k)"
    by (cases "even k") (simp_all add: even_iff_mod_2_eq_zero odd_iff_mod_2_eq_one mod_Suc)
  have v: "view s' = (view s)(
     GPKDAT := (if odd (Suc k) then view s GPKDAT AND NOT (BIT 4) else view s GPKDAT OR BIT 4),
     TINT_CSTAT := (view s TINT_CSTAT OR 0x20) AND NOT 0x3e0 OR
       (view s TINT_CSTAT AND 0x3e0 AND NOT (view s TINT_CSTAT OR 0x20)), VIC0ADDRESS := 0)"
    using soc.timer0_irq_handler_view [OF assms(1), of "of_nat (k mod 2)" s] unfolding assms(2) f one by simp
  have ne: "GPKDAT \<noteq> TINT_CSTAT" "GPKDAT \<noteq> VIC0ADDRESS" "TINT_CSTAT \<noteq> VIC0ADDRESS"
    by (simp_all add: irq_addrs gpio_addrs)
  show "led_lit (view s' GPKDAT) 1 \<longleftrightarrow> odd (Suc k)"
    using ne by (simp add: v led_lit_def bit_simps bit_BIT)
  show "n \<in> {2, 3, 4} \<Longrightarrow> led_lit (view s' GPKDAT) n \<longleftrightarrow> led_lit (view s GPKDAT) n"
    using ne by (auto simp: v led_lit_def bit_simps bit_BIT)
  show "view s' TINT_CSTAT AND 0x3e0 = 0" "view s' VIC0ADDRESS = 0"
    using status_cleared ne by (simp_all only: v fun_upd_same fun_upd_other not_False_eq_True)
qed

text \<open>The timer interrupt.  After \<open>n\<close> interrupts LED 1 is lit exactly if \<open>n\<close> is odd, and the other LEDs are
  as before.  Every interrupt clears the status bits of all five timers, since the status register is read and
  written back: an interrupt of another timer would be lost.\<close>

lemma timer0_irq_toggles:
  assumes "soc b sent input tx_delay rx_delay view" "((timer0_irq_handler b) ^^ Suc n) (0, s) = (flag, s')"
  shows "flag = of_nat (Suc n mod 2) \<and> (led_lit (view s' GPKDAT) 1 \<longleftrightarrow> odd (Suc n)) \<and>
    (\<forall>k\<in>{2, 3, 4}. led_lit (view s' GPKDAT) k \<longleftrightarrow> led_lit (view s GPKDAT) k) \<and>
    view s' TINT_CSTAT AND 0x3e0 = 0 \<and> view s' VIC0ADDRESS = 0"
  using assms(2)
proof (induction n arbitrary: flag s')
  case 0
  then have "timer0_irq_handler b (of_nat (0 mod 2), s) = (flag, s')" by simp
  from timer0_step [OF assms(1) this] show ?case by simp
next
  case (Suc n)
  obtain f t where ft: "((timer0_irq_handler b) ^^ Suc n) (0, s) = (f, t)" by fastforce
  then have "timer0_irq_handler b (of_nat (Suc n mod 2), t) = (flag, s')" using Suc.prems Suc.IH [OF ft] by simp
  from timer0_step [OF assms(1) this] show ?case using Suc.IH [OF ft] by simp
qed

text \<open>The watchdog set-up, for a prescaler from 1 to 256, a divider of two bits and the two flags: the fields of the
  control register are the parameters and the watchdog runs.  Stopping it clears the enable bit alone.\<close>

lemma watchdog_init_correct:
  assumes "soc b sent input tx_delay rx_delay view" "1 \<le> prescaler" "prescaler \<le> 256" "divider < 4"
    "interrupt < 2" "reset < 2"
    and "s' = watchdog_init b prescaler divider wtdat interrupt reset s"
  shows "view s' WTDAT = wtdat \<and> drop_bit 8 (view s' WTCON) = prescaler - 1 \<and>
    drop_bit 3 (view s' WTCON) AND 3 = divider \<and> drop_bit 2 (view s' WTCON) AND 1 = interrupt \<and>
    view s' WTCON AND 1 = reset \<and> bit (view s' WTCON) 5 \<and>
    view (watchdog_stop b s') WTCON = view s' WTCON AND NOT 0x20"
proof -
  define p where "p = prescaler - 1"
  have "unat p < 2 ^ 8" using assms(2,3) by (simp add: p_def unat_sub word_le_nat_alt)
  then have small: "bit p k \<Longrightarrow> k < 24" "bit divider k \<Longrightarrow> k < 2" "bit interrupt k \<Longrightarrow> k < 1" "bit reset k \<Longrightarrow> k < 1" for k
    using bit_word_less [of p k 8] bit_word_less [of divider k 2] bit_word_less [of interrupt k 1]
      bit_word_less [of reset k 1] assms(4-6) by (auto simp: word_less_nat_alt)
  have v: "view s' WTDAT = wtdat"
    "view s' WTCON = (push_bit 8 p OR push_bit 3 divider OR push_bit 2 interrupt OR reset) OR BIT 5"
    by (simp_all add: assms(7) soc.watchdog_view [OF assms(1)] p_def irq_addrs BIT_def)
  have stop: "view (watchdog_stop b s') WTCON = view s' WTCON AND NOT 0x20"
    by (simp add: soc.watchdog_view(2) [OF assms(1)])
  have z: "0 < k \<Longrightarrow> \<not> bit interrupt k" "0 < k \<Longrightarrow> \<not> bit reset k" for k
    using small(3,4) by blast+
  have z3: "bit interrupt k \<Longrightarrow> k < 30" for k using small(3) [of k] by auto
  have z2: "2 \<le> k \<Longrightarrow> \<not> bit divider k" for k using small(2) [of k] by auto
  have "drop_bit 8 (view s' WTCON) = p"
    by (rule bit_word_eqI) (use small(1) in \<open>auto simp: v bit_simps bit_BIT z z2\<close>)
  moreover have "drop_bit 3 (view s' WTCON) AND mask 2 = divider"
    by (rule bit_word_eqI) (use small(2) in \<open>auto simp: v bit_simps bit_BIT z z2\<close>)
  moreover have "drop_bit 2 (view s' WTCON) AND mask 1 = interrupt"
    by (rule bit_word_eqI) (use small(3) in \<open>auto simp: v bit_simps bit_BIT z(2) dest: z3\<close>)
  moreover have "view s' WTCON AND mask 1 = reset"
    by (rule bit_word_eqI) (use small(4) in \<open>auto simp: v bit_simps bit_BIT\<close>)
  moreover have "bit (view s' WTCON) 5" by (simp add: v bit_or_iff bit_BIT)
  ultimately show ?thesis unfolding masks(3,4) [symmetric] p_def by (simp only: v(1) stop simp_thms)
qed

lemma timer_init_correct_witness:
  "\<exists>d m. timer_init soc_bus 0 66 4 62500 0 (\<lparr>line = [], txq = [], rxq = []\<rparr>, \<lambda>_. 0) = (d, m) \<and>
     m TCFG0 AND 0xff = 65 \<and> m TCFG1 AND 0xf = 4 \<and> m TCNTB0 = 62500 \<and> bit (m TCON) 0 \<and> bit (m TINT_CSTAT) 0"
  using timer_init_correct [OF board.soc_axioms _ _ _ _ refl, of 0 66 4 62500 0 "(\<lparr>line = [], txq = [], rxq = []\<rparr>, \<lambda>_. 0)"]
  by (auto split: prod.splits)

lemma timer0_irq_toggles_witness:
  "\<exists>f d m. ((timer0_irq_handler soc_bus) ^^ Suc 2) (0, (\<lparr>line = [], txq = [], rxq = []\<rparr>, \<lambda>_. 0xff)) = (f, (d, m)) \<and>
     led_lit (m GPKDAT) 1 \<and> \<not> led_lit (m GPKDAT) 2"
proof -
  obtain f d m where *: "((timer0_irq_handler soc_bus) ^^ Suc 2) (0, (\<lparr>line = [], txq = [], rxq = []\<rparr>, \<lambda>_. 0xff)) = (f, (d, m))"
    by (metis prod.collapse)
  from timer0_irq_toggles [OF board.soc_axioms *] * show ?thesis by (auto simp: led_lit_def bit_numeral_rec)
qed

lemma watchdog_init_correct_witness:
  "\<exists>d m. watchdog_init soc_bus 66 0 62500 1 0 (\<lparr>line = [], txq = [], rxq = []\<rparr>, \<lambda>_. 0) = (d, m) \<and>
     m WTDAT = 62500 \<and> drop_bit 8 (m WTCON) = 65 \<and> bit (m WTCON) 5"
  using watchdog_init_correct [OF board.soc_axioms _ _ _ _ _ refl, of 66 0 1 0 62500 "(\<lparr>line = [], txq = [], rxq = []\<rparr>, \<lambda>_. 0)"]
  by (auto split: prod.splits)

end
