(* ===== verification/Echo.thy ===== *)
theory Echo
  imports Irq
begin

text \<open>
  The main programs of \<open>no-os/timer/main.c\<close> and \<open>no-os/interrupt/irq_advanced/main.c\<close> together with their interrupt
  handlers: a step relation in which an interrupt can come between any two accesses of the main loop.  Both loops
  echo what is received on the UART; both handlers of the keys write to the same UART.  The theory shows that the
  loop that masks interrupts around \<open>UART0_PutChar\<close> is correct in every interleaving, and that the other one is not.
\<close>

section \<open>Before the loops\<close>

definition hello :: "u8 list" where
  "hello = [10, 13] @ lit ''Hello World!'' @ [10, 13]"

definition irq_main_setup :: "'d bus \<Rightarrow> 'd \<Rightarrow> 'd option" where
  "irq_main_setup b s =
     (let s = leds_init b s;
          s = leds_OFF_all b s;
          s = UART0_Port_Init b s;
          s = UART0_Set_BaudRate b s;
          s = UART0_Set_Format b s
      in UART0_SendString b (c_array hello) s)"

definition timer_main_setup :: "'d bus \<Rightarrow> 'd \<Rightarrow> 'd option" where
  "timer_main_setup b s =
     (let s = leds_init b s;
          s = leds_OFF_all b s;
          s = timer_init b 0 66 4 65000 0 s;
          s = UART0_Port_Init b s;
          s = UART0_Set_BaudRate b s;
          s = UART0_Set_Format b s
      in UART0_SendString b (c_array hello) s)"

section \<open>The main loops\<close>

text \<open>
  Where the main loop is: before the poll of the receive FIFO, before the read of the byte, and so on.  The timer
  program masks interrupts around \<open>UART0_PutChar\<close>; the program of \<open>irq_advanced\<close> does not.
\<close>

datatype echo_pc = Rx_poll | Rx_read | Irq_off u8 | Tx_poll u8 | Tx_write u8 | Irq_on

record 'd echo =
  pc :: echo_pc
  cpsr :: u32
  led_flag :: u32
  board_dev :: 'd

definition after_get :: "bool \<Rightarrow> u8 \<Rightarrow> echo_pc" where
  "after_get masked c = (if masked then Irq_off c else Tx_poll c)"

definition after_put :: "bool \<Rightarrow> echo_pc" where
  "after_put masked = (if masked then Irq_on else Rx_poll)"

text \<open>What a step did: the byte it received or sent, the keys whose interrupt it served.\<close>

datatype echo_event = Silent | Got u8 | Echoed u8 | Key_irq "nat list" | Timer_irq

text \<open>
  One step: one access of the main loop, a whole interrupt handler, or a change of the outside world.  \<open>pend\<close> tells
  whether the interrupt controller presents the source to the core; the core takes it when bit 7 of CPSR is clear.
  During a handler the core has interrupts masked, and the return restores CPSR, so a handler is one step.
\<close>

inductive echo_step ::
  "bool \<Rightarrow> 'd bus \<Rightarrow> (nat \<Rightarrow> 'd \<Rightarrow> bool) \<Rightarrow> ('d \<Rightarrow> nat list) \<Rightarrow> ('d \<Rightarrow> 'd \<Rightarrow> bool) \<Rightarrow> 'd echo \<Rightarrow> echo_event \<Rightarrow> 'd echo \<Rightarrow> bool"
  for masked b pend keys env where
  rx_poll: "pc e = Rx_poll \<Longrightarrow> rd32 b UFSTAT0 (board_dev e) = (x, s) \<Longrightarrow>
    echo_step masked b pend keys env e Silent (e\<lparr>pc := (if x AND 0x7f = 0 then Rx_poll else Rx_read), board_dev := s\<rparr>)"
| rx_read: "pc e = Rx_read \<Longrightarrow> bus_rd b W8 URXH0 (board_dev e) = (x, s) \<Longrightarrow>
    echo_step masked b pend keys env e (Got (ucast x)) (e\<lparr>pc := after_get masked (ucast x), board_dev := s\<rparr>)"
| irq_off: "pc e = Irq_off c \<Longrightarrow>
    echo_step masked b pend keys env e Silent (e\<lparr>pc := Tx_poll c, cpsr := irq_disable (cpsr e)\<rparr>)"
| tx_poll: "pc e = Tx_poll c \<Longrightarrow> rd32 b UFSTAT0 (board_dev e) = (x, s) \<Longrightarrow>
    echo_step masked b pend keys env e Silent
      (e\<lparr>pc := (if x AND push_bit 14 1 \<noteq> 0 then Tx_poll c else Tx_write c), board_dev := s\<rparr>)"
| tx_write: "pc e = Tx_write c \<Longrightarrow>
    echo_step masked b pend keys env e (Echoed c)
      (e\<lparr>pc := after_put masked, board_dev := bus_wr b W8 UTXH0 (ucast c) (board_dev e)\<rparr>)"
| irq_on: "pc e = Irq_on \<Longrightarrow>
    echo_step masked b pend keys env e Silent (e\<lparr>pc := Rx_poll, cpsr := irq_enable (cpsr e)\<rparr>)"
| key_irq: "\<not> bit (cpsr e) 7 \<Longrightarrow> pend 0 (board_dev e) \<Longrightarrow> key_irq_handler b (board_dev e) = Some s \<Longrightarrow>
    echo_step masked b pend keys env e (Key_irq (keys (board_dev e))) (e\<lparr>board_dev := s\<rparr>)"
| timer_irq: "\<not> bit (cpsr e) 7 \<Longrightarrow> pend 23 (board_dev e) \<Longrightarrow> timer0_irq_handler b (led_flag e, board_dev e) = (f, s) \<Longrightarrow>
    echo_step masked b pend keys env e Timer_irq (e\<lparr>led_flag := f, board_dev := s\<rparr>)"
| world: "env (board_dev e) s \<Longrightarrow> echo_step masked b pend keys env e Silent (e\<lparr>board_dev := s\<rparr>)"

inductive echo_run ::
  "bool \<Rightarrow> 'd bus \<Rightarrow> (nat \<Rightarrow> 'd \<Rightarrow> bool) \<Rightarrow> ('d \<Rightarrow> nat list) \<Rightarrow> ('d \<Rightarrow> 'd \<Rightarrow> bool) \<Rightarrow>
   'd echo \<Rightarrow> echo_event list \<Rightarrow> 'd echo \<Rightarrow> bool"
  for masked b pend keys env e0 where
  start: "echo_run masked b pend keys env e0 [] e0"
| step: "echo_run masked b pend keys env e0 tr e \<Longrightarrow> echo_step masked b pend keys env e ev e' \<Longrightarrow>
    echo_run masked b pend keys env e0 (tr @ [ev]) e'"

inductive_cases echo_stepE: "echo_step masked b pend keys env e ev e'"

section \<open>What a run shows to the outside\<close>

fun event_out :: "echo_event \<Rightarrow> u8 list" where
  "event_out (Echoed c) = [c]"
| "event_out (Key_irq ks) = concat (map (\<lambda>n. key_message (48 + of_nat n)) ks)"
| "event_out _ = []"

fun event_in :: "echo_event \<Rightarrow> u8 list" where
  "event_in (Got c) = [c]"
| "event_in _ = []"

fun event_echo :: "echo_event \<Rightarrow> u8 list" where
  "event_echo (Echoed c) = [c]"
| "event_echo _ = []"

fun in_flight :: "echo_pc \<Rightarrow> u8 list" where
  "in_flight (Irq_off c) = [c]"
| "in_flight (Tx_poll c) = [c]"
| "in_flight (Tx_write c) = [c]"
| "in_flight _ = []"

fun masked_at :: "echo_pc \<Rightarrow> bool" where
  "masked_at (Tx_poll c) = True"
| "masked_at (Tx_write c) = True"
| "masked_at Irq_on = True"
| "masked_at _ = False"

text \<open>The keys whose interrupts are pending.\<close>

definition pressed :: "('d \<Rightarrow> u32 \<Rightarrow> u32) \<Rightarrow> 'd \<Rightarrow> nat list" where
  "pressed view s = filter (\<lambda>n. bit (view s EINT0PEND) (n - 1)) [1, 2, 3, 4]"

lemma irq_mask_bits [simp]: "bit (irq_disable x) 7" "\<not> bit (irq_enable x) 7"
  by (simp_all add: irq_disable_def irq_enable_def msr_cpsr_c_def bit_simps)

text \<open>
  The board: besides the laws of \<open>soc\<close>, room in the transmit FIFO once seen stays until the next byte is written, and a
  received byte stays until it is read.
\<close>

locale echo_board = soc b sent input tx_delay rx_delay view
  for b :: "'d bus" and sent input :: "'d \<Rightarrow> u8 list" and tx_delay rx_delay :: "'d \<Rightarrow> nat" and view :: "'d \<Rightarrow> u32 \<Rightarrow> u32" +
  fixes room avail :: "'d \<Rightarrow> bool" and env :: "'d \<Rightarrow> 'd \<Rightarrow> bool"
  assumes poll_room: "fst (rd32 b UFSTAT0 s) AND push_bit 14 1 = 0 \<Longrightarrow> room (snd (rd32 b UFSTAT0 s))"
    and poll_avail: "fst (rd32 b UFSTAT0 s) AND 0x7f \<noteq> 0 \<Longrightarrow> avail (snd (rd32 b UFSTAT0 s))"
    and room_put: "room s \<Longrightarrow> sent (bus_wr b W8 UTXH0 v s) = sent s @ [ucast v] \<and> input (bus_wr b W8 UTXH0 v s) = input s"
    and avail_get: "avail s \<Longrightarrow> \<exists>c cs. input s = c # cs \<and> ucast (fst (bus_rd b W8 URXH0 s)) = c \<and>
      input (snd (bus_rd b W8 URXH0 s)) = cs \<and> sent (snd (bus_rd b W8 URXH0 s)) = sent s"
    and avail_poll: "avail s \<Longrightarrow> avail (snd (rd32 b UFSTAT0 s))"
    and avail_put: "avail s \<Longrightarrow> avail (bus_wr b W8 UTXH0 v s)"
    and avail_rd: "a \<notin> uart_regs \<Longrightarrow> avail s \<Longrightarrow> avail (snd (rd32 b a s))"
    and avail_wr: "a \<notin> uart_regs \<Longrightarrow> avail s \<Longrightarrow> avail (wr32 b a v s)"
    and env_keeps: "env s s' \<Longrightarrow> sent s' = sent s \<and> input s' = input s \<and> (room s \<longrightarrow> room s') \<and> (avail s \<longrightarrow> avail s')"
begin

lemma avail_update: "a \<notin> uart_regs \<Longrightarrow> avail s \<Longrightarrow> avail (reg_update b a f s)"
  by (simp add: reg_update_def case_prod_beta Let_def avail_rd avail_wr)

lemma avail_LED:
  "avail s \<Longrightarrow> avail (LED_ON b n s)" "avail s \<Longrightarrow> avail (LED_OFF b n s)"
  by (simp_all add: LED_ON_def LED_OFF_def reg_or_def reg_and_def avail_update)

lemma avail_leds:
  "n \<in> {1, 2, 3, 4} \<Longrightarrow> avail s \<Longrightarrow> avail (leds_ON b (of_nat n) s)"
  "n \<in> {1, 2, 3, 4} \<Longrightarrow> avail s \<Longrightarrow> avail (leds_OFF b (of_nat n) s)"
  "avail s \<Longrightarrow> avail (leds_OFF_all b s)"
  by (simp_all add: leds_ON_LED leds_OFF_LED leds_OFF_all_LED avail_LED)

lemma avail_on_pending:
  assumes "on_pending b m (\<lambda>s. UART0_SendString b str (f s)) s = Some s'" "avail s" "\<And>s. avail s \<Longrightarrow> avail (f s)"
  shows "avail s'"
proof -
  obtain x s1 where r: "rd32 b EINT0PEND s = (x, s1)" by (cases "rd32 b EINT0PEND s")
  then have "avail s1" using avail_rd [of EINT0PEND s] assms(2) by simp
  then show ?thesis
    using assms(1,3) r SendString_loop_keeps [where P = avail, OF avail_poll avail_put]
    by (auto simp: on_pending_def UART0_SendString_def split: if_splits)
qed

lemma avail_key_irq:
  assumes "key_irq_handler b s = Some s'" "avail s"
  shows "avail s'"
proof -
  obtain s1 s2 s3 s4 where h:
    "on_pending b 1 (\<lambda>s. UART0_SendString b (c_array (key_message 49)) (leds_ON b 1 s)) s = Some s1"
    "on_pending b 2 (\<lambda>s. UART0_SendString b (c_array (key_message 50)) (leds_ON b 2 s)) s1 = Some s2"
    "on_pending b 4 (\<lambda>s. UART0_SendString b (c_array (key_message 51)) (leds_ON b 3 s)) s2 = Some s3"
    "on_pending b 8 (\<lambda>s. UART0_SendString b (c_array (key_message 52)) (leds_OFF_all b s)) s3 = Some s4"
    "s' = wr32 b VIC0ADDRESS 0 (wr32 b EINT0PEND 0xf s4)"
    using assms(1) by (auto simp: key_irq_handler_def Let_def Option.bind_eq_Some_conv)
  have leds: "avail t \<Longrightarrow> avail (leds_ON b 1 t)" "avail t \<Longrightarrow> avail (leds_ON b 2 t)" "avail t \<Longrightarrow> avail (leds_ON b 3 t)" for t
    using avail_leds(1) [of 1 t] avail_leds(1) [of 2 t] avail_leds(1) [of 3 t] by simp_all
  have "avail s1" by (rule avail_on_pending [OF h(1) assms(2) leds(1)])
  from avail_on_pending [OF h(2) this leds(2)] have "avail s2" .
  from avail_on_pending [OF h(3) this leds(3)] have "avail s3" .
  from avail_on_pending [OF h(4) this avail_leds(3)] have "avail s4" .
  then show ?thesis by (simp add: h(5) avail_wr)
qed

lemma avail_timer_irq: "timer0_irq_handler b (f, s) = (f', s') \<Longrightarrow> avail s \<Longrightarrow> avail s'"
  using avail_leds(1,2) [of 1 s]
  by (auto simp: timer0_irq_handler_def Let_def reg_or_def intro!: avail_wr avail_update split: if_splits)

lemma timer_irq_silent:
  "timer0_irq_handler b (f, s) = (f', s') \<Longrightarrow> sent s' = sent s \<and> input s' = input s"
  using leds_view(4,5,7,8) [of 1 s] by (auto simp: timer0_irq_handler_def Let_def soc_access split: if_splits)

text \<open>The invariant of the masked loop.\<close>

definition echo_inv :: "'d echo \<Rightarrow> echo_event list \<Rightarrow> 'd echo \<Rightarrow> bool" where
  "echo_inv e0 tr e \<longleftrightarrow>
     sent (board_dev e) = sent (board_dev e0) @ concat (map event_out tr) \<and>
     concat (map event_in tr) @ input (board_dev e) = input (board_dev e0) \<and>
     concat (map event_in tr) = concat (map event_echo tr) @ in_flight (pc e) \<and>
     (bit (cpsr e) 7 \<longleftrightarrow> masked_at (pc e)) \<and>
     (\<forall>c. pc e = Tx_write c \<longrightarrow> room (board_dev e)) \<and> (pc e = Rx_read \<longrightarrow> avail (board_dev e))"

lemma echo_step_inv:
  assumes "echo_step True b pend (pressed view) env e ev e'" "echo_inv e0 tr e"
  shows "echo_inv e0 (tr @ [ev]) e'"
  using assms(1)
proof (cases rule: echo_step.cases)
  case (rx_poll x s)
  then show ?thesis using assms(2) poll_sent [of "board_dev e"] poll_input [of "board_dev e"] poll_avail [of "board_dev e"]
    by (auto simp: echo_inv_def)
next
  case (rx_read x s)
  then show ?thesis using assms(2) avail_get [of "board_dev e"] by (auto simp: echo_inv_def after_get_def)
next
  case (irq_off c)
  then show ?thesis using assms(2) by (auto simp: echo_inv_def)
next
  case (tx_poll c x s)
  then show ?thesis using assms(2) poll_sent [of "board_dev e"] poll_input [of "board_dev e"] poll_room [of "board_dev e"]
    by (auto simp: echo_inv_def)
next
  case (tx_write c)
  then show ?thesis using assms(2) room_put [of "board_dev e"] by (auto simp: echo_inv_def after_put_def)
next
  case irq_on
  then show ?thesis using assms(2) by (auto simp: echo_inv_def)
next
  case (key_irq s)
  then show ?thesis using assms(2) key_irq_handler_runs [of "board_dev e"] avail_key_irq [of "board_dev e" s]
    by (auto simp: echo_inv_def pressed_def)
next
  case (timer_irq f s)
  then show ?thesis using assms(2) timer_irq_silent [of "led_flag e" "board_dev e"] avail_timer_irq [of "led_flag e" "board_dev e"]
    by (auto simp: echo_inv_def)
next
  case (world s)
  then show ?thesis using assms(2) env_keeps [of "board_dev e" s] by (auto simp: echo_inv_def)
qed

lemma echo_run_inv:
  assumes "echo_run True b pend (pressed view) env e0 tr e" "pc e0 = Rx_poll" "\<not> bit (cpsr e0) 7"
  shows "echo_inv e0 tr e"
  using assms(1)
proof induction
  case start
  then show ?case using assms(2,3) by (simp add: echo_inv_def)
next
  case (step tr e ev e')
  show ?case by (rule echo_step_inv [OF step.hyps(2) step.IH])
qed

end

section \<open>The board of the simulated devices\<close>

text \<open>Outside, a key may be pressed: pending bits are set.\<close>

definition press :: "fifo_dev \<times> (u32 \<Rightarrow> u32) \<Rightarrow> fifo_dev \<times> (u32 \<Rightarrow> u32) \<Rightarrow> bool" where
  "press s s' \<longleftrightarrow> (\<exists>v. s' = (fst s, (snd s)(EINT0PEND := snd s EINT0PEND OR v)))"

definition key_pending :: "nat \<Rightarrow> fifo_dev \<times> (u32 \<Rightarrow> u32) \<Rightarrow> bool" where
  "key_pending n s \<longleftrightarrow> n = 0 \<and> snd s EINT0PEND AND 0xf \<noteq> 0"

interpretation echo: echo_board soc_bus "\<lambda>(d, m). line d @ txq d" "\<lambda>(d, m). rxq d" "\<lambda>(d, m). length (txq d)" "\<lambda>_. 0"
  "\<lambda>(d, m). m" "\<lambda>(d, m). length (txq d) < 64" "\<lambda>(d, m). rxq d \<noteq> []" press
proof (unfold_locales, goal_cases)
  case (1 s)
  then show ?case by (cases s) (auto simp: soc_bus_access rd32_def fifo_bus_def fifo_status_bits [simplified])
next
  case (2 s)
  then show ?case by (cases s) (auto simp: soc_bus_access rd32_def fifo_bus_def fifo_status_bits [simplified])
next
  case (3 s v)
  then show ?case by (cases s) (auto simp: soc_bus_access fifo_bus_def)
next
  case (4 s)
  moreover have "URXH0 \<noteq> UFSTAT0" by (simp add: uart_addrs)
  ultimately show ?case by (cases s, cases "rxq (fst s)") (auto simp: soc_bus_access fifo_bus_def)
next
  case (5 s)
  then show ?case by (cases s) (auto simp: soc_bus_access rd32_def fifo_bus_def)
next
  case (6 s v)
  then show ?case by (cases s) (auto simp: soc_bus_access fifo_bus_def)
next
  case (7 a s)
  then show ?case by (cases s) (auto simp: soc_bus_access rd32_def)
next
  case (8 a s v)
  then show ?case by (cases s) (auto simp: soc_bus_access wr32_def)
next
  case (9 s s')
  then show ?case by (cases s) (auto simp: press_def)
qed

lemma ucast_ucast_byte8: "(ucast (ucast (x :: u8) :: u32) :: u8) = x"
  by (rule bit_word_eqI) (simp add: bit_simps)

lemma board_tx_wait:
  assumes "length (txq d) \<le> 64"
  shows "\<exists>d'. tx_wait soc_bus (d, m) = Some (d', m) \<and> length (txq d') = min 63 (length (txq d))"
proof (cases "length (txq d) < 64")
  case True
  then show ?thesis
    by (subst tx_wait.simps) (simp add: soc_bus_access rd32_def fifo_bus_def fifo_status_bits [simplified] Let_def)
next
  case False
  then show ?thesis using assms
    by (subst tx_wait.simps, simp add: soc_bus_access rd32_def fifo_bus_def fifo_status_bits [simplified] Let_def)
      (subst tx_wait.simps, simp add: soc_bus_access rd32_def fifo_bus_def fifo_status_bits [simplified] Let_def)
qed

text \<open>A message fills the FIFO.\<close>

lemma board_string_fills:
  assumes "length xs \<le> 250" "0 \<notin> set xs"
  shows "i \<le> length xs \<Longrightarrow> length (txq d) \<le> 64 \<Longrightarrow>
    \<exists>d'. SendString_loop soc_bus (c_array xs) i (d, m) = Some (d', m) \<and>
      length (txq d') = min 64 (length (txq d) + (length xs - i))"
proof (induction "length xs - i" arbitrary: i d)
  case 0
  then show ?case by (subst SendString_loop.simps) (simp add: c_array_def)
next
  case (Suc n)
  then have i: "i < length xs" "i < MAX_STRING_LENGTH" using assms(1) by (simp_all add: MAX_STRING_LENGTH_def)
  then have ch: "c_array xs i = xs ! i" "xs ! i \<noteq> 0" using assms(2) by (auto simp: c_array_def in_set_conv_nth)
  obtain d1 where d1: "tx_wait soc_bus (d, m) = Some (d1, m)" "length (txq d1) = min 63 (length (txq d))"
    using board_tx_wait [OF Suc.prems(2)] by blast
  define d2 where "d2 = d1\<lparr>txq := txq d1 @ [xs ! i]\<rparr>"
  have "bus_wr soc_bus W8 UTXH0 (ucast (xs ! i)) (d1, m) = (d2, m)"
    using d1(2) by (simp add: soc_bus_access fifo_bus_def d2_def ucast_ucast_byte8)
  then have "SendString_loop soc_bus (c_array xs) i (d, m) = SendString_loop soc_bus (c_array xs) (i + 1) (d2, m)"
    using ch i d1(1) by (subst SendString_loop.simps) simp
  moreover have len: "length (txq d2) = min 64 (length (txq d) + 1)" using d1(2) Suc.prems(2) by (simp add: d2_def)
  moreover obtain d' where "SendString_loop soc_bus (c_array xs) (i + 1) (d2, m) = Some (d', m)"
    "length (txq d') = min 64 (length (txq d2) + (length xs - (i + 1)))"
  proof -
    have "n = length xs - (i + 1)" "i + 1 \<le> length xs" "length (txq d2) \<le> 64" using Suc.hyps(2) i(1) len by simp_all
    from Suc.hyps(1) [OF this] show ?thesis using that by blast
  qed
  moreover have "min 64 (min 64 (length (txq d) + 1) + (length xs - (i + 1))) = min 64 (length (txq d) + (length xs - i))"
    using i(1) by linarith
  ultimately show ?case by auto
qed

section \<open>Properties\<close>

text \<open>C6: The echo loop of the timer program under interrupts.  Whatever the order in which its accesses, the interrupts and
  the outside world follow each other, what goes over the line is a sequence of echoed bytes and whole messages of the
  key handler; the bytes received are the input in order, and each is echoed exactly once and in order, at most the
  one in flight being still due.  Interrupts are masked exactly from \<open>irq_disable\<close> to \<open>irq_enable\<close>.\<close>

theorem echo_faithful:
  assumes "echo_board b sent input tx_delay rx_delay view room avail env"
    and "echo_run True b pend (pressed view) env e0 tr e" "pc e0 = Rx_poll" "\<not> bit (cpsr e0) 7"
  shows "sent (board_dev e) = sent (board_dev e0) @ concat (map event_out tr) \<and>
    input (board_dev e0) = concat (map event_in tr) @ input (board_dev e) \<and>
    concat (map event_in tr) = concat (map event_echo tr) @ in_flight (pc e) \<and>
    (bit (cpsr e) 7 \<longleftrightarrow> masked_at (pc e))"
  using echo_board.echo_run_inv [OF assms] unfolding echo_board.echo_inv_def [OF assms(1)] by (metis (no_types))

text \<open>A board with a received byte, a pending key and nearly full transmit FIFO.\<close>

definition race_dev :: "u8 list \<Rightarrow> fifo_dev" where
  "race_dev cs = \<lparr>line = [], txq = replicate 60 46, rxq = cs\<rparr>"

definition race_regs :: "u32 \<Rightarrow> u32" where
  "race_regs = (\<lambda>_. 0)(EINT0PEND := 1)"

definition race_at :: "echo_pc \<Rightarrow> fifo_dev \<times> (u32 \<Rightarrow> u32) \<Rightarrow> (fifo_dev \<times> (u32 \<Rightarrow> u32)) echo" where
  "race_at p s = \<lparr>pc = p, cpsr = 0x13, led_flag = 0, board_dev = s\<rparr>"

lemma race_at_simps [simp]:
  "pc (race_at p s) = p" "cpsr (race_at p s) = 0x13" "board_dev (race_at p s) = s" "(race_at p s)\<lparr>pc := q\<rparr> = race_at q s"
  "(race_at p s)\<lparr>board_dev := t\<rparr> = race_at p t" "(race_at p s)\<lparr>pc := q, board_dev := t\<rparr> = race_at q t"
  by (simp_all add: race_at_def)

text \<open>The first steps, in both programs.\<close>

lemma race_start:
  "echo_run masked soc_bus key_pending keys press (race_at Rx_poll (race_dev [65], race_regs)) [Silent, Got 65]
     (race_at (after_get masked 65) (race_dev [], race_regs))"
proof -
  have ne: "URXH0 \<noteq> UFSTAT0" by (simp add: uart_addrs)
  note S = soc_bus_access rd32_def fifo_bus_def race_dev_def
  have "rd32 soc_bus UFSTAT0 (race_dev [65], race_regs) = (fifo_status (race_dev [65]), race_dev [65], race_regs)"
    "fifo_status (race_dev [65]) AND 0x7f \<noteq> 0"
    by (simp_all add: S fifo_status_def)
  then have "echo_step masked soc_bus key_pending keys press (race_at Rx_poll (race_dev [65], race_regs)) Silent
      (race_at Rx_read (race_dev [65], race_regs))"
    using echo_step.rx_poll [of "race_at Rx_poll (race_dev [65], race_regs)" soc_bus "fifo_status (race_dev [65])"
      "(race_dev [65], race_regs)" masked key_pending keys press] by simp
  moreover have "bus_rd soc_bus W8 URXH0 (race_dev [65], race_regs) = (65, race_dev [], race_regs)"
    using ne by (simp add: S)
  then have "echo_step masked soc_bus key_pending keys press (race_at Rx_read (race_dev [65], race_regs)) (Got 65)
      (race_at (after_get masked 65) (race_dev [], race_regs))"
    using echo_step.rx_read [of "race_at Rx_read (race_dev [65], race_regs)" soc_bus 65 "(race_dev [], race_regs)" masked
      key_pending keys press] by simp
  ultimately have "echo_run masked soc_bus key_pending keys press (race_at Rx_poll (race_dev [65], race_regs))
      (([] @ [Silent]) @ [Got 65]) (race_at (after_get masked 65) (race_dev [], race_regs))"
    by (metis echo_run.start echo_run.step)
  then show ?thesis by simp
qed

lemma board_on_pending:
  "on_pending soc_bus k f (d, m) = (if m EINT0PEND AND k \<noteq> 0 then f (d, m) else Some (d, m))"
  by (simp add: on_pending_def rd32_def soc_bus_access)

lemma board_LED_ON: "LED_ON soc_bus n (d, m) = (d, m(GPKDAT := m GPKDAT AND NOT (BIT (n + 3))))"
proof -
  have "GPKDAT \<notin> {EINT0PEND, TINT_CSTAT, VIC0INTENCLEAR, VIC0INTENABLE}" by (simp add: irq_addrs gpio_addrs)
  then show ?thesis
    by (simp add: LED_ON_def reg_and_def reg_update_def rd32_def wr32_def soc_bus_access soc_write_def)
qed

lemma race_handler:
  assumes "length (txq d) = 60" "m EINT0PEND = 1"
  shows "\<exists>d' m'. key_irq_handler soc_bus (d, m) = Some (d', m') \<and> length (txq d') = 64 \<and>
    line d' @ txq d' = line d @ txq d @ key_message 49"
proof -
  obtain d1 m1 where h: "key_irq_handler soc_bus (d, m) = Some (d1, m1)" "line d1 @ txq d1 = line d @ txq d @ key_message 49"
    using board.key_irq_handler_runs [of "(d, m)"] assms(2) by (auto simp: bit_numeral_rec)
  define m2 where "m2 = m(GPKDAT := m GPKDAT AND NOT (BIT 4))"
  have m2: "leds_ON soc_bus 1 (d, m) = (d, m2)" "m2 EINT0PEND = 1"
    using leds_ON_LED [of 1 soc_bus "(d, m)"] assms(2) by (simp_all add: board_LED_ON m2_def irq_addrs gpio_addrs)
  obtain d' where d': "UART0_SendString soc_bus (c_array (key_message 49)) (d, m2) = Some (d', m2)" "length (txq d') = 64"
    using board_string_fills [of "key_message 49" 0 d m2] assms(1) by (auto simp: key_message_def lit_def UART0_SendString_def)
  have "key_irq_handler soc_bus (d, m) = Some (wr32 soc_bus VIC0ADDRESS 0 (wr32 soc_bus EINT0PEND 0xf (d', m2)))"
    using assms(2) m2 d'(1) by (simp add: key_irq_handler_def board_on_pending Let_def)
  then have "d1 = d'" using h(1) by (simp add: wr32_def soc_bus_access)
  then show ?thesis using h d'(2) by blast
qed

text \<open>C36: The same loop without masking, as the program of \<open>irq_advanced\<close> has it, can lose a byte.  The key interrupt comes
  between the poll that finds room in the transmit FIFO and the write; its message fills the FIFO, and the byte
  that was received and written is never sent.\<close>

theorem echo_unmasked_loses_byte:
  "\<exists>tr e. echo_run False soc_bus key_pending (pressed snd) press (race_at Rx_poll (race_dev [65], race_regs)) tr e \<and>
    pc e = Rx_poll \<and> concat (map event_in tr) = [65] \<and> concat (map event_echo tr) = [65] \<and>
    line (fst (board_dev e)) @ txq (fst (board_dev e)) = replicate 60 46 @ key_message 49"
proof -
  define d1 where "d1 = race_dev []"
  obtain d2 m2 where h: "key_irq_handler soc_bus (d1, race_regs) = Some (d2, m2)" "length (txq d2) = 64"
    "line d2 @ txq d2 = replicate 60 46 @ key_message 49"
    using race_handler [of d1 race_regs] by (auto simp: d1_def race_dev_def race_regs_def)
  have "rd32 soc_bus UFSTAT0 (d1, race_regs) = (fifo_status d1, d1, race_regs)" "fifo_status d1 AND push_bit 14 1 = 0"
    by (simp_all add: soc_bus_access rd32_def fifo_bus_def d1_def race_dev_def fifo_status_def)
  then have t1: "echo_step False soc_bus key_pending (pressed snd) press (race_at (Tx_poll 65) (d1, race_regs)) Silent
      (race_at (Tx_write 65) (d1, race_regs))"
    using echo_step.tx_poll [of "race_at (Tx_poll 65) (d1, race_regs)" 65 soc_bus "fifo_status d1" "(d1, race_regs)" False
      key_pending "pressed snd" press] by simp
  have t2: "echo_step False soc_bus key_pending (pressed snd) press (race_at (Tx_write 65) (d1, race_regs))
      (Key_irq (pressed snd (d1, race_regs))) (race_at (Tx_write 65) (d2, m2))"
    using echo_step.key_irq [of "race_at (Tx_write 65) (d1, race_regs)" key_pending soc_bus "(d2, m2)"] h(1)
    by (simp add: key_pending_def race_regs_def bit_numeral_rec)
  have t3: "echo_step False soc_bus key_pending (pressed snd) press (race_at (Tx_write 65) (d2, m2)) (Echoed 65)
      (race_at Rx_poll (d2, m2))"
    using echo_step.tx_write [of "race_at (Tx_write 65) (d2, m2)" 65 False soc_bus key_pending "pressed snd" press] h(2)
    by (simp add: after_put_def soc_bus_access fifo_bus_def)
  have run: "echo_run False soc_bus key_pending (pressed snd) press (race_at Rx_poll (race_dev [65], race_regs))
      [Silent, Got 65] (race_at (Tx_poll 65) (d1, race_regs))"
    using race_start [of False "pressed snd"] by (simp add: after_get_def d1_def)
  have "echo_run False soc_bus key_pending (pressed snd) press (race_at Rx_poll (race_dev [65], race_regs))
      ((([Silent, Got 65] @ [Silent]) @ [Key_irq (pressed snd (d1, race_regs))]) @ [Echoed 65]) (race_at Rx_poll (d2, m2))"
    by (rule echo_run.step [OF echo_run.step [OF echo_run.step [OF run t1] t2] t3])
  then show ?thesis using h(3)
    by (intro exI [of _ "(([Silent, Got 65] @ [Silent]) @ [Key_irq (pressed snd (d1, race_regs))]) @ [Echoed 65]"]
        exI [of _ "race_at Rx_poll (d2, m2)"]) simp
qed

theorem echo_faithful_witness:
  "\<exists>tr e. echo_run True soc_bus key_pending (pressed (\<lambda>(d, m). m)) press (race_at Rx_poll (race_dev [65], race_regs)) tr e \<and>
    concat (map event_in tr) = [65] \<and> in_flight (pc e) = [65] \<and>
    line (fst (board_dev e)) @ txq (fst (board_dev e)) = replicate 60 46 \<and> rxq (fst (board_dev e)) = []"
proof -
  define e where "e = race_at (after_get True 65) (race_dev [], race_regs)"
  have run: "echo_run True soc_bus key_pending (pressed (\<lambda>(d, m). m)) press (race_at Rx_poll (race_dev [65], race_regs))
      [Silent, Got 65] e"
    unfolding e_def by (rule race_start)
  have "\<not> bit (0x13 :: u32) 7" by (simp add: bit_numeral_rec)
  then have "concat (map event_in [Silent, Got 65]) = concat (map event_echo [Silent, Got 65]) @ in_flight (pc e)"
    "line (fst (board_dev e)) @ txq (fst (board_dev e)) = replicate 60 46" "rxq (fst (board_dev e)) = []"
    using echo_faithful [OF echo.echo_board_axioms run] by (simp_all add: race_dev_def case_prod_beta)
  then show ?thesis using run by (intro exI [of _ "[Silent, Got 65]"] exI [of _ e]) simp
qed

end
