(* ===== verification/Startup.thy ===== *)
theory Startup
  imports Uart
begin

text \<open>
  What runs before \<open>main\<close>: \<open>clock_init\<close>, the same in all programs (\<open>no-os/interrupt/irq_advanced/clock.c\<close>,
  \<open>no-os/stdio/clock.c\<close>, and \<open>ClockInit\<close> of \<open>workspace/clock/clock.c\<close>), and \<open>sdram_init\<close> in its two versions
  (\<open>no-os/interrupt/irq_advanced/sdram.c\<close> for the later programs, \<open>no-os/nand/sdram.c\<close> for the earlier ones).  The
  system controller and the DRAM controller are parameters, described by the locale \<open>system_regs\<close>.
\<close>

section \<open>Clock registers\<close>

definition APLL_LOCK :: u32 where "APLL_LOCK = 0x7E00F000"
definition MPLL_LOCK :: u32 where "MPLL_LOCK = 0x7E00F004"
definition EPLL_LOCK :: u32 where "EPLL_LOCK = 0x7E00F008"
definition APLL_CON :: u32 where "APLL_CON = 0x7E00F00C"
definition MPLL_CON :: u32 where "MPLL_CON = 0x7E00F010"
definition OTHERS :: u32 where "OTHERS = 0x7e00f900"
definition CLK_DIV0 :: u32 where "CLK_DIV0 = 0x7E00F020"
definition CLK_SRC :: u32 where "CLK_SRC = 0x7E00F01C"
definition APLL_CON_VAL :: u32 where "APLL_CON_VAL = push_bit 31 1 OR push_bit 16 266 OR push_bit 8 3 OR 1"
definition MPLL_CON_VAL :: u32 where "MPLL_CON_VAL = push_bit 31 1 OR push_bit 16 266 OR push_bit 8 3 OR 1"
definition ARM_RATIO :: u32 where "ARM_RATIO = 0"
definition MPLL_RATIO :: u32 where "MPLL_RATIO = 0"
definition HCLKX2_RATIO :: u32 where "HCLKX2_RATIO = 1"
definition HCLK_RATIO :: u32 where "HCLK_RATIO = 1"
definition PCLK_RATIO :: u32 where "PCLK_RATIO = 3"

lemmas clock_addrs = APLL_LOCK_def MPLL_LOCK_def EPLL_LOCK_def APLL_CON_def MPLL_CON_def OTHERS_def CLK_DIV0_def CLK_SRC_def

section \<open>Clock\<close>

text \<open>\<open>while ((OTHERS & 0xf00) != 0);\<close>\<close>

partial_function (option) syncack_wait :: "'d bus \<Rightarrow> 'd \<Rightarrow> 'd option" where
  "syncack_wait b s = (let (x, s') = rd32 b OTHERS s in if x AND 0xf00 \<noteq> 0 then syncack_wait b s' else Some s')"

definition clock_init :: "'d bus \<Rightarrow> 'd \<Rightarrow> 'd option" where
  "clock_init b s =
     (let s = wr32 b APLL_LOCK 0xffff s;
          s = wr32 b MPLL_LOCK 0xffff s;
          s = wr32 b EPLL_LOCK 0xffff s;
          s = reg_and b OTHERS (NOT 0xc0) s
      in case syncack_wait b s of
           None \<Rightarrow> None
         | Some s \<Rightarrow>
             (let s = wr32 b CLK_DIV0 (ARM_RATIO OR push_bit 4 MPLL_RATIO OR push_bit 8 HCLK_RATIO OR
                        push_bit 9 HCLKX2_RATIO OR push_bit 12 PCLK_RATIO) s;
                  s = wr32 b APLL_CON APLL_CON_VAL s;
                  s = wr32 b MPLL_CON MPLL_CON_VAL s
              in Some (wr32 b CLK_SRC 0x03 s)))"

section \<open>DRAM controller registers\<close>

definition HCLK :: nat where "HCLK = 133000000"
definition NS_TO_CLOCKPERIOD :: "nat \<Rightarrow> nat" where
  "NS_TO_CLOCKPERIOD nanosecond = nanosecond div (1000000000 div HCLK) + 1"

definition P1MEMSTAT :: u32 where "P1MEMSTAT = 0x7e001000"
definition P1MEMCCMD :: u32 where "P1MEMCCMD = 0x7e001004"
definition P1DIRECTCMD :: u32 where "P1DIRECTCMD = 0x7e001008"
definition P1MEMCFG :: u32 where "P1MEMCFG = 0x7e00100c"
definition P1REFRESH :: u32 where "P1REFRESH = 0x7e001010"
definition P1CASLAT :: u32 where "P1CASLAT = 0x7e001014"
definition P1T_DQSS :: u32 where "P1T_DQSS = 0x7e001018"
definition P1T_MRD :: u32 where "P1T_MRD = 0x7e00101c"
definition P1T_RAS :: u32 where "P1T_RAS = 0x7e001020"
definition P1T_RC :: u32 where "P1T_RC = 0x7e001024"
definition P1T_RCD :: u32 where "P1T_RCD = 0x7e001028"
definition P1T_RFC :: u32 where "P1T_RFC = 0x7e00102c"
definition P1T_RP :: u32 where "P1T_RP = 0x7e001030"
definition P1T_RRD :: u32 where "P1T_RRD = 0x7e001034"
definition P1T_WR :: u32 where "P1T_WR = 0x7e001038"
definition P1T_WTR :: u32 where "P1T_WTR = 0x7e00103c"
definition P1T_XP :: u32 where "P1T_XP = 0x7e001040"
definition P1T_XSR :: u32 where "P1T_XSR = 0x7e001044"
definition P1T_ESR :: u32 where "P1T_ESR = 0x7e001048"
definition P1MEMCFG2 :: u32 where "P1MEMCFG2 = 0x7e00104c"
definition P1_chip_0_cfg :: u32 where "P1_chip_0_cfg = 0x7e001200"
definition MEM_SYS_CFG :: u32 where "MEM_SYS_CFG = 0x7e00f120"

lemmas dram_addrs = P1MEMSTAT_def P1MEMCCMD_def P1DIRECTCMD_def P1MEMCFG_def P1REFRESH_def P1CASLAT_def P1T_DQSS_def
  P1T_MRD_def P1T_RAS_def P1T_RC_def P1T_RCD_def P1T_RFC_def P1T_RP_def P1T_RRD_def P1T_WR_def P1T_WTR_def P1T_XP_def
  P1T_XSR_def P1T_ESR_def P1MEMCFG2_def P1_chip_0_cfg_def MEM_SYS_CFG_def

section \<open>DRAM\<close>

text \<open>The timing registers; the programs differ in the nanoseconds they ask for.\<close>

definition dram_timing :: "'d bus \<Rightarrow> nat \<Rightarrow> nat \<Rightarrow> nat \<Rightarrow> nat \<Rightarrow> nat \<Rightarrow> nat \<Rightarrow> 'd \<Rightarrow> 'd" where
  "dram_timing b ras rc rcd rfc rp rrd s =
     (let s = VI_SET_VAL b P1REFRESH (of_nat (NS_TO_CLOCKPERIOD 7800)) s;
          s = VI_SET_VAL b P1CASLAT (push_bit 1 3) s;
          s = VI_SET_VAL b P1T_DQSS 0x1 s;
          s = VI_SET_VAL b P1T_MRD 0x2 s;
          s = VI_SET_VAL b P1T_RAS (of_nat (NS_TO_CLOCKPERIOD ras)) s;
          s = VI_SET_VAL b P1T_RC (of_nat (NS_TO_CLOCKPERIOD rc)) s;
          trcd = of_nat (NS_TO_CLOCKPERIOD rcd) :: u32;
          s = VI_SET_VAL b P1T_RCD (trcd OR push_bit 3 (trcd - 3)) s;
          trfc = of_nat (NS_TO_CLOCKPERIOD rfc) :: u32;
          s = VI_SET_VAL b P1T_RFC (trfc OR push_bit 5 (trfc - 3)) s;
          trp = of_nat (NS_TO_CLOCKPERIOD rp) :: u32;
          s = VI_SET_VAL b P1T_RP (trp OR push_bit 3 (trp - 3)) s;
          s = VI_SET_VAL b P1T_RRD (of_nat (NS_TO_CLOCKPERIOD rrd)) s;
          s = VI_SET_VAL b P1T_WR (of_nat (NS_TO_CLOCKPERIOD 12)) s;
          s = VI_SET_VAL b P1T_WTR 0x1 s;
          s = VI_SET_VAL b P1T_XP 0x1 s;
          s = VI_SET_VAL b P1T_XSR (of_nat (NS_TO_CLOCKPERIOD 120)) s
      in VI_SET_VAL b P1T_ESR (of_nat (NS_TO_CLOCKPERIOD 120)) s)"

definition dram_chip_config :: "'d bus \<Rightarrow> 'd \<Rightarrow> 'd" where
  "dram_chip_config b s =
     (let s = VI_SET_NBIT b P1MEMCFG 0 3 0x2 s;
          s = VI_SET_NBIT b P1MEMCFG 3 3 0x3 s;
          s = VI_SET_BIT_ZERO b P1MEMCFG 6 s;
          s = VI_SET_NBIT b P1MEMCFG 15 3 0x2 s;
          s = VI_SET_NBIT b P1MEMCFG2 0 4 0x5 s;
          s = VI_SET_2BIT b P1MEMCFG2 6 0x1 s;
          s = VI_SET_NBIT b P1MEMCFG2 8 3 0x3 s;
          s = VI_SET_2BIT b P1MEMCFG2 11 0x1 s
      in VI_SET_BIT_ONE b P1_chip_0_cfg 16 s)"

definition dram_commands :: "'d bus \<Rightarrow> 'd \<Rightarrow> 'd" where
  "dram_commands b s =
     (let s = VI_SET_VAL b P1DIRECTCMD 0xc0000 s;
          s = VI_SET_VAL b P1DIRECTCMD 0x00000 s;
          s = VI_SET_VAL b P1DIRECTCMD 0x40000 s;
          s = VI_SET_VAL b P1DIRECTCMD 0x40000 s;
          s = VI_SET_VAL b P1DIRECTCMD 0xa0000 s
      in VI_SET_VAL b P1DIRECTCMD 0x80032 s)"

text \<open>\<open>while (!((VI_READ_VAL(P1MEMSTAT) & 0x3) == 0x1));\<close>\<close>

partial_function (option) memstat_wait :: "'d bus \<Rightarrow> 'd \<Rightarrow> 'd option" where
  "memstat_wait b s = (let (x, s') = VI_READ_VAL b P1MEMSTAT s in if x AND 0x3 = 0x1 then Some s' else memstat_wait b s')"

definition dram_start :: "'d bus \<Rightarrow> 'd \<Rightarrow> 'd option" where
  "dram_start b s =
     (let s = dram_chip_config b s;
          s = dram_commands b s;
          s = VI_SET_VAL b MEM_SYS_CFG 0x0 s;
          s = VI_SET_VAL b P1MEMCCMD 0x000 s
      in memstat_wait b s)"

definition sdram_init :: "'d bus \<Rightarrow> 'd \<Rightarrow> 'd option" where
  "sdram_init b s =
     (let s = VI_SET_VAL b P1MEMCCMD 0x4 s;
          s = dram_timing b 40 55 15 120 15 10 s
      in dram_start b s)"

definition nand_sdram_init :: "'d bus \<Rightarrow> 'd \<Rightarrow> 'd option" where
  "nand_sdram_init b s =
     (let s = VI_SET_VAL b P1MEMCCMD 0x4 s;
          s = dram_timing b 42 60 18 72 18 12 s
      in dram_start b s)"

section \<open>The system controller and the DRAM controller\<close>

text \<open>
  Ordinary registers hold their values.  The acknowledge bits of \<open>OTHERS\<close> go away after a while once synchronous mode is
  not requested.  The DRAM controller takes direct commands in its configuration state, into which it goes with the
  command 4; with the command 0 it becomes ready after a while.
\<close>

definition special_regs :: "u32 set" where
  "special_regs = {OTHERS, P1MEMSTAT, P1MEMCCMD, P1DIRECTCMD}"

datatype dram_state = Dram_config | Dram_ready | Dram_other

text \<open>The timing registers after \<open>dram_timing\<close>.\<close>

definition timing_view :: "nat \<Rightarrow> nat \<Rightarrow> nat \<Rightarrow> nat \<Rightarrow> nat \<Rightarrow> nat \<Rightarrow> (u32 \<Rightarrow> u32) \<Rightarrow> u32 \<Rightarrow> u32" where
  "timing_view ras rc rcd rfc rp rrd m = m(P1REFRESH := 1115, P1CASLAT := 6, P1T_DQSS := 1, P1T_MRD := 2,
     P1T_RAS := of_nat (NS_TO_CLOCKPERIOD ras), P1T_RC := of_nat (NS_TO_CLOCKPERIOD rc),
     P1T_RCD := of_nat (NS_TO_CLOCKPERIOD rcd) OR push_bit 3 (of_nat (NS_TO_CLOCKPERIOD rcd) - 3),
     P1T_RFC := of_nat (NS_TO_CLOCKPERIOD rfc) OR push_bit 5 (of_nat (NS_TO_CLOCKPERIOD rfc) - 3),
     P1T_RP := of_nat (NS_TO_CLOCKPERIOD rp) OR push_bit 3 (of_nat (NS_TO_CLOCKPERIOD rp) - 3),
     P1T_RRD := of_nat (NS_TO_CLOCKPERIOD rrd), P1T_WR := of_nat (NS_TO_CLOCKPERIOD 12), P1T_WTR := 1, P1T_XP := 1,
     P1T_XSR := of_nat (NS_TO_CLOCKPERIOD 120), P1T_ESR := of_nat (NS_TO_CLOCKPERIOD 120))"

locale system_regs =
  fixes b :: "'d bus" and view :: "'d \<Rightarrow> u32 \<Rightarrow> u32" and others :: "'d \<Rightarrow> u32" and dram :: "'d \<Rightarrow> dram_state"
    and cmds :: "'d \<Rightarrow> u32 list" and delay :: "'d \<Rightarrow> nat"
  assumes plain_rd: "a \<notin> special_regs \<Longrightarrow> fst (rd32 b a s) = view s a \<and> view (snd (rd32 b a s)) = view s \<and>
      others (snd (rd32 b a s)) = others s \<and> dram (snd (rd32 b a s)) = dram s \<and> cmds (snd (rd32 b a s)) = cmds s"
    and plain_wr: "a \<notin> special_regs \<Longrightarrow> view (wr32 b a v s) = (view s)(a := v) \<and> others (wr32 b a v s) = others s \<and>
      dram (wr32 b a v s) = dram s \<and> cmds (wr32 b a v s) = cmds s"
    and others_rd: "fst (rd32 b OTHERS s) AND NOT 0xf00 = others s \<and> view (snd (rd32 b OTHERS s)) = view s \<and>
      others (snd (rd32 b OTHERS s)) = others s"
    and others_wait: "others s AND 0xc0 = 0 \<Longrightarrow> fst (rd32 b OTHERS s) AND 0xf00 \<noteq> 0 \<Longrightarrow> delay (snd (rd32 b OTHERS s)) < delay s"
    and others_wr: "others (wr32 b OTHERS v s) = v AND NOT 0xf00 \<and> view (wr32 b OTHERS v s) = view s"
    and direct_wr: "dram s = Dram_config \<Longrightarrow> cmds (wr32 b P1DIRECTCMD v s) = cmds s @ [v] \<and>
      view (wr32 b P1DIRECTCMD v s) = view s \<and> dram (wr32 b P1DIRECTCMD v s) = Dram_config"
    and config_wr: "dram (wr32 b P1MEMCCMD 4 s) = Dram_config \<and> view (wr32 b P1MEMCCMD 4 s) = view s \<and>
      cmds (wr32 b P1MEMCCMD 4 s) = cmds s"
    and go_wr: "dram s = Dram_config \<Longrightarrow> dram (wr32 b P1MEMCCMD 0 s) = Dram_ready \<and> view (wr32 b P1MEMCCMD 0 s) = view s \<and>
      cmds (wr32 b P1MEMCCMD 0 s) = cmds s"
    and stat_rd: "view (snd (rd32 b P1MEMSTAT s)) = view s \<and> cmds (snd (rd32 b P1MEMSTAT s)) = cmds s \<and>
      dram (snd (rd32 b P1MEMSTAT s)) = dram s"
    and stat_wait: "dram s = Dram_ready \<Longrightarrow> fst (rd32 b P1MEMSTAT s) AND 3 \<noteq> 1 \<Longrightarrow> delay (snd (rd32 b P1MEMSTAT s)) < delay s"
begin

lemma syncack_wait_ends:
  "others s AND 0xc0 = 0 \<Longrightarrow> \<exists>s'. syncack_wait b s = Some s' \<and> view s' = view s \<and> others s' = others s"
proof (induction "delay s" arbitrary: s rule: less_induct)
  case less
  show ?case
  proof (cases "fst (rd32 b OTHERS s) AND 0xf00 = 0")
    case True
    then show ?thesis using others_rd [of s] by (subst syncack_wait.simps) (simp add: case_prod_beta Let_def)
  next
    case False
    have "others (snd (rd32 b OTHERS s)) AND 0xc0 = 0" using less.prems others_rd [of s] by simp
    from less.hyps [OF others_wait [OF less.prems False] this] False show ?thesis
      using others_rd [of s] by (subst syncack_wait.simps) (simp add: case_prod_beta Let_def)
  qed
qed

lemma memstat_wait_ends:
  "dram s = Dram_ready \<Longrightarrow> \<exists>s'. memstat_wait b s = Some s' \<and> view s' = view s \<and> cmds s' = cmds s \<and> dram s' = Dram_ready"
proof (induction "delay s" arbitrary: s rule: less_induct)
  case less
  show ?case
  proof (cases "fst (rd32 b P1MEMSTAT s) AND 3 = 1")
    case True
    then show ?thesis using stat_rd [of s] less.prems by (subst memstat_wait.simps) (simp add: VI_READ_VAL_def case_prod_beta Let_def)
  next
    case False
    have "dram (snd (rd32 b P1MEMSTAT s)) = Dram_ready" using less.prems stat_rd [of s] by simp
    from less.hyps [OF stat_wait [OF less.prems False] this] False show ?thesis
      using stat_rd [of s] by (subst memstat_wait.simps) (simp add: VI_READ_VAL_def case_prod_beta Let_def)
  qed
qed

lemma plain [simp]:
  "APLL_LOCK \<notin> special_regs" "MPLL_LOCK \<notin> special_regs" "EPLL_LOCK \<notin> special_regs" "APLL_CON \<notin> special_regs"
  "MPLL_CON \<notin> special_regs" "CLK_DIV0 \<notin> special_regs" "CLK_SRC \<notin> special_regs" "P1MEMCFG \<notin> special_regs"
  "P1REFRESH \<notin> special_regs" "P1CASLAT \<notin> special_regs" "P1T_DQSS \<notin> special_regs" "P1T_MRD \<notin> special_regs"
  "P1T_RAS \<notin> special_regs" "P1T_RC \<notin> special_regs" "P1T_RCD \<notin> special_regs" "P1T_RFC \<notin> special_regs"
  "P1T_RP \<notin> special_regs" "P1T_RRD \<notin> special_regs" "P1T_WR \<notin> special_regs" "P1T_WTR \<notin> special_regs"
  "P1T_XP \<notin> special_regs" "P1T_XSR \<notin> special_regs" "P1T_ESR \<notin> special_regs" "P1MEMCFG2 \<notin> special_regs"
  "P1_chip_0_cfg \<notin> special_regs" "MEM_SYS_CFG \<notin> special_regs"
  by (simp_all add: special_regs_def clock_addrs dram_addrs)

lemma plain_update:
  "a \<notin> special_regs \<Longrightarrow> view (reg_update b a f s) = (view s)(a := f (view s a))"
  "a \<notin> special_regs \<Longrightarrow> dram (reg_update b a f s) = dram s"
  "a \<notin> special_regs \<Longrightarrow> cmds (reg_update b a f s) = cmds s"
  using plain_rd [of a s] by (simp_all add: reg_update_def case_prod_beta Let_def plain_wr)

lemma clock_init_runs:
  "\<exists>s'. clock_init b s = Some s' \<and> view s' = (view s)(APLL_LOCK := 0xffff, MPLL_LOCK := 0xffff, EPLL_LOCK := 0xffff,
     CLK_DIV0 := 0x3300, APLL_CON := 0x810a0301, MPLL_CON := 0x810a0301, CLK_SRC := 3) \<and> others s' AND 0xc0 = 0"
proof -
  define s1 where "s1 = wr32 b EPLL_LOCK 0xffff (wr32 b MPLL_LOCK 0xffff (wr32 b APLL_LOCK 0xffff s))"
  have s1: "view s1 = (view s)(APLL_LOCK := 0xffff, MPLL_LOCK := 0xffff, EPLL_LOCK := 0xffff)"
    by (simp add: s1_def plain_wr)
  define s2 where "s2 = reg_and b OTHERS (NOT 0xc0) s1"
  have s2: "view s2 = view s1" "others s2 AND 0xc0 = 0"
    using others_rd [of s1] by (simp_all add: s2_def reg_and_def reg_update_def case_prod_beta Let_def others_wr and.assoc)
  obtain s3 where s3: "syncack_wait b s2 = Some s3" "view s3 = view s2" "others s3 = others s2"
    using syncack_wait_ends [OF s2(2)] by blast
  have "clock_init b s = Some (wr32 b CLK_SRC 3 (wr32 b MPLL_CON MPLL_CON_VAL (wr32 b APLL_CON APLL_CON_VAL
      (wr32 b CLK_DIV0 (ARM_RATIO OR push_bit 4 MPLL_RATIO OR push_bit 8 HCLK_RATIO OR push_bit 9 HCLKX2_RATIO OR
        push_bit 12 PCLK_RATIO) s3))))"
    by (simp only: clock_init_def s1_def [symmetric] s2_def [symmetric] Let_def s3(1) option.case)
  then show ?thesis using s2 s3(2,3)
    by (simp add: plain_wr s1 ARM_RATIO_def MPLL_RATIO_def HCLK_RATIO_def HCLKX2_RATIO_def PCLK_RATIO_def
        APLL_CON_VAL_def MPLL_CON_VAL_def)
qed

lemma dram_timing_runs:
  "view (dram_timing b ras rc rcd rfc rp rrd s) = timing_view ras rc rcd rfc rp rrd (view s)"
  "dram (dram_timing b ras rc rcd rfc rp rrd s) = dram s" "cmds (dram_timing b ras rc rcd rfc rp rrd s) = cmds s"
proof -
  have r: "NS_TO_CLOCKPERIOD 7800 = 1115" by (simp add: NS_TO_CLOCKPERIOD_def HCLK_def)
  show "view (dram_timing b ras rc rcd rfc rp rrd s) = timing_view ras rc rcd rfc rp rrd (view s)"
    "dram (dram_timing b ras rc rcd rfc rp rrd s) = dram s" "cmds (dram_timing b ras rc rcd rfc rp rrd s) = cmds s"
    by (simp_all add: dram_timing_def timing_view_def Let_def VI_SET_VAL_def plain_wr r)
qed

lemma dram_chip_config_runs:
  "dram (dram_chip_config b s) = dram s" "cmds (dram_chip_config b s) = cmds s"
  "a \<notin> {P1MEMCFG, P1MEMCFG2, P1_chip_0_cfg} \<Longrightarrow> view (dram_chip_config b s) a = view s a"
  "view (dram_chip_config b s) P1MEMCFG AND 0x3807f = 0x1001a"
  "view (dram_chip_config b s) P1MEMCFG2 AND 0x1fcf = 0xb45"
  by (simp_all add: dram_chip_config_def Let_def VI_SET_NBIT_def VI_SET_BIT_ZERO_def VI_SET_BIT_ONE_def VI_SET_2BIT_def reg_or_def
      reg_and_def plain_update case_prod_beta plain_rd plain_wr) (simp_all add: dram_addrs bit.conj_disj_distrib2 and.assoc)

lemma dram_commands_run:
  assumes "dram s = Dram_config"
  shows "view (dram_commands b s) = view s" "dram (dram_commands b s) = Dram_config"
    "cmds (dram_commands b s) = cmds s @ [0xc0000, 0, 0x40000, 0x40000, 0xa0000, 0x80032]"
  using assms by (simp_all add: dram_commands_def Let_def VI_SET_VAL_def direct_wr)

lemma dram_start_runs:
  assumes "dram s = Dram_config"
  shows "\<exists>s'. dram_start b s = Some s' \<and> dram s' = Dram_ready \<and>
    cmds s' = cmds s @ [0xc0000, 0, 0x40000, 0x40000, 0xa0000, 0x80032] \<and>
    view s' = (view (dram_chip_config b s))(MEM_SYS_CFG := 0)"
proof -
  define s1 where "s1 = wr32 b P1MEMCCMD 0 (wr32 b MEM_SYS_CFG 0 (dram_commands b (dram_chip_config b s)))"
  have "dram (dram_chip_config b s) = Dram_config" using assms by (simp add: dram_chip_config_runs)
  from dram_commands_run [OF this] have s1: "dram s1 = Dram_ready" "view s1 = (view (dram_chip_config b s))(MEM_SYS_CFG := 0)"
    "cmds s1 = cmds s @ [0xc0000, 0, 0x40000, 0x40000, 0xa0000, 0x80032]"
    by (simp_all add: s1_def go_wr plain_wr dram_chip_config_runs)
  have "dram_start b s = memstat_wait b s1" by (simp add: dram_start_def Let_def VI_SET_VAL_def s1_def)
  then show ?thesis using memstat_wait_ends [OF s1(1)] s1 by auto
qed

end

section \<open>A system\<close>

record system =
  sys_regs :: "u32 \<Rightarrow> u32"
  sys_others :: u32
  sys_dram :: dram_state
  sys_cmds :: "u32 list"
  sys_delay :: nat

definition system_bus :: "system bus" where
  "system_bus = \<lparr>
     bus_rd = \<lambda>w a s.
       if a = OTHERS then ((sys_others s AND NOT 0xf00) OR (if 0 < sys_delay s then 0xf00 else 0), s\<lparr>sys_delay := sys_delay s - 1\<rparr>)
       else if a = P1MEMSTAT then
         (if sys_dram s = Dram_ready \<and> sys_delay s = 0 then 1 else 0, s\<lparr>sys_delay := sys_delay s - 1\<rparr>)
       else (sys_regs s a, s),
     bus_wr = \<lambda>w a v s.
       if a = OTHERS then s\<lparr>sys_others := v AND NOT 0xf00, sys_delay := 3\<rparr>
       else if a = P1MEMCCMD then
         s\<lparr>sys_dram := (if v = 4 then Dram_config else if v = 0 \<and> sys_dram s = Dram_config then Dram_ready else Dram_other),
           sys_delay := 3\<rparr>
       else if a = P1DIRECTCMD then (if sys_dram s = Dram_config then s\<lparr>sys_cmds := sys_cmds s @ [v]\<rparr> else s)
       else s\<lparr>sys_regs := (sys_regs s)(a := v)\<rparr> \<rparr>"

interpretation system: system_regs system_bus sys_regs "\<lambda>s. sys_others s AND NOT 0xf00" sys_dram sys_cmds sys_delay
proof (unfold_locales, goal_cases)
  case (3 s)
  then show ?case by (simp add: rd32_def system_bus_def bit.conj_disj_distrib2 and.assoc)
next
  case (4 s)
  then show ?case by (cases "0 < sys_delay s") (simp_all add: rd32_def system_bus_def and.assoc)
qed (auto simp: rd32_def wr32_def system_bus_def special_regs_def dram_addrs clock_addrs and.assoc split: if_splits)

section \<open>Properties\<close>

text \<open>The clocks that the registers select, in Hz, from the formulas beside the constants; the crystal has 12 MHz.\<close>

definition pll_out :: "u32 \<Rightarrow> nat" where
  "pll_out con = 12000000 * unat (drop_bit 16 con AND 0x3ff) div (unat (drop_bit 8 con AND 0x3f) * 2 ^ unat (con AND 7))"

definition arm_clock :: "(u32 \<Rightarrow> u32) \<Rightarrow> nat" where
  "arm_clock m = pll_out (m APLL_CON) div (unat (m CLK_DIV0 AND 7) + 1)"

definition hclkx2 :: "(u32 \<Rightarrow> u32) \<Rightarrow> nat" where
  "hclkx2 m = pll_out (m MPLL_CON) div (unat (drop_bit 4 (m CLK_DIV0) AND 1) + 1) div (unat (drop_bit 9 (m CLK_DIV0) AND 7) + 1)"

definition hclk :: "(u32 \<Rightarrow> u32) \<Rightarrow> nat" where
  "hclk m = hclkx2 m div (unat (drop_bit 8 (m CLK_DIV0) AND 1) + 1)"

definition pclk :: "(u32 \<Rightarrow> u32) \<Rightarrow> nat" where
  "pclk m = hclkx2 m div (unat (drop_bit 12 (m CLK_DIV0) AND 0xf) + 1)"

text \<open>\<open>clock_init\<close> ends and sets the clocks that the other parts count on: 532 MHz for the core, the 133 MHz of \<open>HCLK\<close>
  from which the DRAM timing is computed and the 66.5 MHz of \<open>UART0_CLK\<close> from which the baud rate is computed; both
  PLLs are enabled and selected, and synchronous mode is off.\<close>

lemma clock_init_frequencies:
  assumes "system_regs b view others dram cmds delay"
  shows "\<exists>s'. clock_init b s = Some s' \<and> arm_clock (view s') = 532000000 \<and> hclk (view s') = HCLK \<and>
    pclk (view s') = UART0_CLK \<and> view s' CLK_SRC = 3 \<and> bit (view s' APLL_CON) 31 \<and> bit (view s' MPLL_CON) 31 \<and>
    others s' AND 0xc0 = 0"
proof -
  obtain s' where s': "clock_init b s = Some s'" "others s' AND 0xc0 = 0"
    and v: "view s' = (view s)(APLL_LOCK := 0xffff, MPLL_LOCK := 0xffff, EPLL_LOCK := 0xffff,
      CLK_DIV0 := 0x3300, APLL_CON := 0x810a0301, MPLL_CON := 0x810a0301, CLK_SRC := 3)"
    using system_regs.clock_init_runs [OF assms, of s] by blast
  have "view s' CLK_DIV0 = 0x3300" "view s' APLL_CON = 0x810a0301" "view s' MPLL_CON = 0x810a0301" "view s' CLK_SRC = 3"
    by (simp_all add: v clock_addrs)
  then show ?thesis using s'
    by (simp add: arm_clock_def hclk_def pclk_def hclkx2_def pll_out_def HCLK_def UART0_CLK_def bit_numeral_rec flip: numeral_2_eq_2)
qed

lemma clock_init_frequencies_witness:
  "\<exists>s'. clock_init system_bus \<lparr>sys_regs = (\<lambda>_. 0), sys_others = 0xc0, sys_dram = Dram_other, sys_cmds = [], sys_delay = 0\<rparr> =
    Some s' \<and> hclk (sys_regs s') = 133000000"
  using clock_init_frequencies [OF system.system_regs_axioms,
    of "\<lparr>sys_regs = (\<lambda>_. 0), sys_others = 0xc0, sys_dram = Dram_other, sys_cmds = [], sys_delay = 0\<rparr>"]
  by (auto simp: HCLK_def)

text \<open>\<open>n\<close> cycles of the memory clock last at least \<open>t\<close> nanoseconds.\<close>

definition lasts :: "u32 \<Rightarrow> nat \<Rightarrow> bool" where
  "lasts n t \<longleftrightarrow> t * HCLK \<le> unat n * 1000000000"

text \<open>C32: \<open>sdram_init\<close> ends with the DRAM controller ready, after the initialisation commands of the memory, all issued in
  the configuration state, in order: NOP, precharge, two refreshes and the two mode registers.  Every minimal delay of
  the memory is kept.  But the time between two refreshes is longer than the 7.8 microseconds asked for, and longer
  than the 64 ms / 8192 the memory needs: \<open>NS_TO_CLOCKPERIOD\<close> divides by 7 instead of 7.52.\<close>

theorem sdram_init_correct:
  assumes "system_regs b view others dram cmds delay"
  shows "\<exists>s'. sdram_init b s = Some s' \<and> dram s' = Dram_ready \<and>
    cmds s' = cmds s @ [0xc0000, 0, 0x40000, 0x40000, 0xa0000, 0x80032] \<and>
    lasts (view s' P1T_RAS) 40 \<and> lasts (view s' P1T_RC) 55 \<and> lasts (view s' P1T_RCD AND 7) 15 \<and>
    lasts (view s' P1T_RFC AND 0x1f) 120 \<and> lasts (view s' P1T_RP AND 7) 15 \<and> lasts (view s' P1T_RRD) 10 \<and>
    lasts (view s' P1T_WR) 12 \<and> lasts (view s' P1T_XSR) 120 \<and> view s' P1CASLAT = 6 \<and>
    view s' P1MEMCFG AND 0x3807f = 0x1001a \<and> view s' P1MEMCFG2 AND 0x1fcf = 0xb45 \<and>
    64000000 * HCLK < unat (view s' P1REFRESH) * 8192 * 1000000000"
proof -
  define s1 where "s1 = dram_timing b 40 55 15 120 15 10 (wr32 b P1MEMCCMD 4 s)"
  have s1: "dram s1 = Dram_config" "cmds s1 = cmds s" "view s1 = timing_view 40 55 15 120 15 10 (view s)"
    using system_regs.config_wr [OF assms] by (simp_all add: s1_def system_regs.dram_timing_runs [OF assms])
  obtain s' where s': "dram_start b s1 = Some s'" "dram s' = Dram_ready"
    "cmds s' = cmds s @ [0xc0000, 0, 0x40000, 0x40000, 0xa0000, 0x80032]"
    and v: "view s' = (view (dram_chip_config b s1))(MEM_SYS_CFG := 0)"
    using system_regs.dram_start_runs [OF assms s1(1)] s1(2) by auto
  have other: "view s' a = timing_view 40 55 15 120 15 10 (view s) a" if "a \<notin> {P1MEMCFG, P1MEMCFG2, P1_chip_0_cfg, MEM_SYS_CFG}" for a
    using that by (simp add: v system_regs.dram_chip_config_runs [OF assms] s1(3))
  have "view s' P1T_RAS = 6" "view s' P1T_RC = 8" "view s' P1T_RCD = 3" "view s' P1T_RFC = 0x1f2" "view s' P1T_RP = 3"
    "view s' P1T_RRD = 2" "view s' P1T_WR = 2" "view s' P1T_XSR = 18" "view s' P1CASLAT = 6" "view s' P1REFRESH = 1115"
    by (simp_all add: other timing_view_def dram_addrs NS_TO_CLOCKPERIOD_def HCLK_def)
  moreover have "view s' P1MEMCFG AND 0x3807f = 0x1001a" "view s' P1MEMCFG2 AND 0x1fcf = 0xb45"
    using system_regs.dram_chip_config_runs(4,5) [OF assms, of s1] by (simp_all add: v dram_addrs)
  moreover have "sdram_init b s = Some s'" using s'(1) by (simp add: sdram_init_def Let_def VI_SET_VAL_def s1_def)
  ultimately show ?thesis using s'(2,3) by (simp add: lasts_def HCLK_def)
qed

theorem sdram_init_correct_witness:
  "\<exists>s'. sdram_init system_bus \<lparr>sys_regs = (\<lambda>_. 0), sys_others = 0, sys_dram = Dram_other, sys_cmds = [], sys_delay = 7\<rparr> = Some s' \<and>
    sys_cmds s' = [0xc0000, 0, 0x40000, 0x40000, 0xa0000, 0x80032] \<and> sys_dram s' = Dram_ready"
  using sdram_init_correct [OF system.system_regs_axioms,
    of "\<lparr>sys_regs = (\<lambda>_. 0), sys_others = 0, sys_dram = Dram_other, sys_cmds = [], sys_delay = 7\<rparr>"]
  by auto

end
