(* ===== verification/NandBase.thy ===== *)
theory NandBase
  imports Bus "HOL-Library.Monad_Syntax"
begin

text \<open>
  The lower half of the NAND driver of the kernel: how \<open>linux/kernel/common/s3c_nand.c\<close> drives the control lines
  of the controller, and the parts of the patched \<open>linux/kernel/common/nand_base.c\<close> that talk to the chip through
  them: transfers, commands with their address cycles, and the waits.

  The machine is a parameter: its bus, its clock \<open>jiffies\<close>, which a program can only read, and the address at
  which the controller is mapped.  Delays, scheduling points and LED triggers have no effect here.  The loops that
  wait for the chip may run for ever when neither the chip nor the clock makes progress, so they return an option.
\<close>

section \<open>The machine\<close>

record 'd machine =
  mbus :: "'d bus"
  jiffies :: "'d \<Rightarrow> u32 \<times> 'd"
  nand_regs :: u32
  in_panic :: bool

definition readl :: "'d machine \<Rightarrow> u32 \<Rightarrow> 'd \<Rightarrow> u32 \<times> 'd" where
  "readl k r s = rd32 (mbus k) (nand_regs k + r) s"

definition writel :: "'d machine \<Rightarrow> u32 \<Rightarrow> u32 \<Rightarrow> 'd \<Rightarrow> 'd" where
  "writel k v r s = wr32 (mbus k) (nand_regs k + r) v s"

definition readb :: "'d machine \<Rightarrow> u32 \<Rightarrow> 'd \<Rightarrow> u8 \<times> 'd" where
  "readb k r s = (let (x, s) = bus_rd (mbus k) W8 (nand_regs k + r) s in (ucast x, s))"

definition writeb :: "'d machine \<Rightarrow> u8 \<Rightarrow> u32 \<Rightarrow> 'd \<Rightarrow> 'd" where
  "writeb k v r s = bus_wr (mbus k) W8 (nand_regs k + r) (ucast v) s"

definition readw :: "'d machine \<Rightarrow> u32 \<Rightarrow> 'd \<Rightarrow> u16 \<times> 'd" where
  "readw k r s = (let (x, s) = bus_rd (mbus k) W16 (nand_regs k + r) s in (ucast x, s))"

definition writew :: "'d machine \<Rightarrow> u16 \<Rightarrow> u32 \<Rightarrow> 'd \<Rightarrow> 'd" where
  "writew k v r s = bus_wr (mbus k) W16 (nand_regs k + r) (ucast v) s"

text \<open>The difference is read as a signed number, so the order survives the wrap-around of the clock.\<close>

definition time_before :: "u32 \<Rightarrow> u32 \<Rightarrow> bool" where
  "time_before a b \<longleftrightarrow> sint (a - b) < 0"

section \<open>Registers and commands\<close>

definition S3C_NFCONF :: u32 where "S3C_NFCONF = 0x00"
definition S3C_NFCONT :: u32 where "S3C_NFCONT = 0x04"
definition S3C_NFCMMD :: u32 where "S3C_NFCMMD = 0x08"
definition S3C_NFADDR :: u32 where "S3C_NFADDR = 0x0c"
definition S3C_NFDATA :: u32 where "S3C_NFDATA = 0x10"
definition S3C_NFMECCDATA0 :: u32 where "S3C_NFMECCDATA0 = 0x14"
definition S3C_NFMECCDATA1 :: u32 where "S3C_NFMECCDATA1 = 0x18"
definition S3C_NFSTAT :: u32 where "S3C_NFSTAT = 0x28"
definition S3C_NFMECCERR0 :: u32 where "S3C_NFMECCERR0 = 0x2c"
definition S3C_NFMECCERR1 :: u32 where "S3C_NFMECCERR1 = 0x30"
definition S3C_NFMECC0 :: u32 where "S3C_NFMECC0 = 0x34"
definition S3C_NFMECC1 :: u32 where "S3C_NFMECC1 = 0x38"
definition S3C_NFMLCBITPT :: u32 where "S3C_NFMLCBITPT = 0x40"

definition S3C_NFCONF_ECC_MLC :: u32 where "S3C_NFCONF_ECC_MLC = push_bit 24 1"
definition S3C_NFCONF_ECC_1BIT :: u32 where "S3C_NFCONF_ECC_1BIT = push_bit 23 0"
definition S3C_NFCONF_ECC_4BIT :: u32 where "S3C_NFCONF_ECC_4BIT = push_bit 23 2"
definition S3C_NFCONT_ECC_ENC :: u32 where "S3C_NFCONT_ECC_ENC = push_bit 18 1"
definition S3C_NFCONT_MECCLOCK :: u32 where "S3C_NFCONT_MECCLOCK = push_bit 7 1"
definition S3C_NFCONT_INITMECC :: u32 where "S3C_NFCONT_INITMECC = push_bit 5 1"
definition S3C_NFCONT_nFCE0 :: u32 where "S3C_NFCONT_nFCE0 = push_bit 1 1"
definition S3C_NFSTAT_ECCENCDONE :: u32 where "S3C_NFSTAT_ECCENCDONE = push_bit 7 1"
definition S3C_NFSTAT_ECCDECDONE :: u32 where "S3C_NFSTAT_ECCDECDONE = push_bit 6 1"
definition S3C_NFSTAT_BUSY :: u32 where "S3C_NFSTAT_BUSY = push_bit 0 1"
definition S3C_NFECCERR0_ECCBUSY :: u32 where "S3C_NFECCERR0_ECCBUSY = push_bit 31 1"

lemmas nand_regs_defs = S3C_NFCONF_def S3C_NFCONT_def S3C_NFCMMD_def S3C_NFADDR_def S3C_NFDATA_def
  S3C_NFMECCDATA0_def S3C_NFMECCDATA1_def S3C_NFSTAT_def S3C_NFMECCERR0_def S3C_NFMECCERR1_def S3C_NFMECC0_def
  S3C_NFMECC1_def S3C_NFMLCBITPT_def

lemmas nand_bits_defs = S3C_NFCONF_ECC_MLC_def S3C_NFCONF_ECC_1BIT_def S3C_NFCONF_ECC_4BIT_def
  S3C_NFCONT_ECC_ENC_def S3C_NFCONT_MECCLOCK_def S3C_NFCONT_INITMECC_def S3C_NFCONT_nFCE0_def
  S3C_NFSTAT_ECCENCDONE_def S3C_NFSTAT_ECCDECDONE_def S3C_NFSTAT_BUSY_def S3C_NFECCERR0_ECCBUSY_def

definition NAND_NCE :: u32 where "NAND_NCE = 0x01"
definition NAND_CLE :: u32 where "NAND_CLE = 0x02"
definition NAND_ALE :: u32 where "NAND_ALE = 0x04"
definition NAND_CTRL_CLE :: u32 where "NAND_CTRL_CLE = NAND_NCE OR NAND_CLE"
definition NAND_CTRL_ALE :: u32 where "NAND_CTRL_ALE = NAND_NCE OR NAND_ALE"
definition NAND_CTRL_CHANGE :: u32 where "NAND_CTRL_CHANGE = 0x80"

lemmas nand_ctrl_defs = NAND_NCE_def NAND_CLE_def NAND_ALE_def NAND_CTRL_CLE_def NAND_CTRL_ALE_def
  NAND_CTRL_CHANGE_def

definition NAND_CMD_READ0 :: u32 where "NAND_CMD_READ0 = 0"
definition NAND_CMD_READ1 :: u32 where "NAND_CMD_READ1 = 1"
definition NAND_CMD_RNDOUT :: u32 where "NAND_CMD_RNDOUT = 5"
definition NAND_CMD_PAGEPROG :: u32 where "NAND_CMD_PAGEPROG = 0x10"
definition NAND_CMD_READOOB :: u32 where "NAND_CMD_READOOB = 0x50"
definition NAND_CMD_ERASE1 :: u32 where "NAND_CMD_ERASE1 = 0x60"
definition NAND_CMD_STATUS :: u32 where "NAND_CMD_STATUS = 0x70"
definition NAND_CMD_STATUS_MULTI :: u32 where "NAND_CMD_STATUS_MULTI = 0x71"
definition NAND_CMD_SEQIN :: u32 where "NAND_CMD_SEQIN = 0x80"
definition NAND_CMD_RNDIN :: u32 where "NAND_CMD_RNDIN = 0x85"
definition NAND_CMD_READID :: u32 where "NAND_CMD_READID = 0x90"
definition NAND_CMD_ERASE2 :: u32 where "NAND_CMD_ERASE2 = 0xd0"
definition NAND_CMD_RESET :: u32 where "NAND_CMD_RESET = 0xff"
definition NAND_CMD_READSTART :: u32 where "NAND_CMD_READSTART = 0x30"
definition NAND_CMD_RNDOUTSTART :: u32 where "NAND_CMD_RNDOUTSTART = 0xE0"
definition NAND_CMD_CACHEDPROG :: u32 where "NAND_CMD_CACHEDPROG = 0x15"
definition NAND_CMD_DEPLETE1 :: u32 where "NAND_CMD_DEPLETE1 = 0x100"
definition NAND_CMD_STATUS_ERROR :: "nat \<Rightarrow> u32" where "NAND_CMD_STATUS_ERROR n = 0x72 + of_nat n"
definition NAND_CMD_NONE :: u32 where "NAND_CMD_NONE = - 1"

lemmas nand_cmd_defs = NAND_CMD_READ0_def NAND_CMD_READ1_def NAND_CMD_RNDOUT_def NAND_CMD_PAGEPROG_def
  NAND_CMD_READOOB_def NAND_CMD_ERASE1_def NAND_CMD_STATUS_def NAND_CMD_STATUS_MULTI_def NAND_CMD_SEQIN_def
  NAND_CMD_RNDIN_def NAND_CMD_READID_def NAND_CMD_ERASE2_def NAND_CMD_RESET_def NAND_CMD_READSTART_def
  NAND_CMD_RNDOUTSTART_def NAND_CMD_CACHEDPROG_def NAND_CMD_DEPLETE1_def NAND_CMD_STATUS_ERROR_def
  NAND_CMD_NONE_def

definition NAND_STATUS_FAIL :: u8 where "NAND_STATUS_FAIL = 0x01"
definition NAND_STATUS_READY :: u8 where "NAND_STATUS_READY = 0x40"
definition NAND_STATUS_WP :: u8 where "NAND_STATUS_WP = 0x80"

section \<open>Control lines\<close>

definition s3c_nand_hwcontrol :: "'d machine \<Rightarrow> u32 \<Rightarrow> u32 \<Rightarrow> 'd \<Rightarrow> 'd" where
  "s3c_nand_hwcontrol k dat ctrl s =
     (let s = (if ctrl AND NAND_CTRL_CHANGE \<noteq> 0 then
                 (if ctrl AND NAND_NCE \<noteq> 0 then
                    (if dat \<noteq> NAND_CMD_NONE then
                       (let (cur, s) = readl k S3C_NFCONT s
                        in writel k (cur AND NOT S3C_NFCONT_nFCE0) S3C_NFCONT s)
                     else s)
                  else (let (cur, s) = readl k S3C_NFCONT s
                        in writel k (cur OR S3C_NFCONT_nFCE0) S3C_NFCONT s))
               else s)
      in if dat \<noteq> NAND_CMD_NONE then
           (if ctrl AND NAND_CLE \<noteq> 0 then writeb k (ucast dat) S3C_NFCMMD s
            else if ctrl AND NAND_ALE \<noteq> 0 then writeb k (ucast dat) S3C_NFADDR s
            else s)
         else s)"

definition s3c_nand_device_ready :: "'d machine \<Rightarrow> 'd \<Rightarrow> bool \<times> 'd" where
  "s3c_nand_device_ready k s = (let (x, s) = readl k S3C_NFSTAT s in (x AND S3C_NFSTAT_BUSY \<noteq> 0, s))"

section \<open>Transfers\<close>

definition nand_read_byte :: "'d machine \<Rightarrow> 'd \<Rightarrow> u8 \<times> 'd" where
  "nand_read_byte k s = readb k S3C_NFDATA s"

fun nand_write_buf :: "'d machine \<Rightarrow> u8 list \<Rightarrow> 'd \<Rightarrow> 'd" where
  "nand_write_buf k [] s = s"
| "nand_write_buf k (x # xs) s = nand_write_buf k xs (writeb k x S3C_NFDATA s)"

fun nand_read_buf :: "'d machine \<Rightarrow> nat \<Rightarrow> 'd \<Rightarrow> u8 list \<times> 'd" where
  "nand_read_buf k 0 s = ([], s)"
| "nand_read_buf k (Suc n) s =
     (let (x, s) = readb k S3C_NFDATA s; (xs, s) = nand_read_buf k n s in (x # xs, s))"

fun nand_verify_buf :: "'d machine \<Rightarrow> u8 list \<Rightarrow> 'd \<Rightarrow> bool \<times> 'd" where
  "nand_verify_buf k [] s = (True, s)"
| "nand_verify_buf k (y # ys) s =
     (let (x, s) = readb k S3C_NFDATA s in if y \<noteq> x then (False, s) else nand_verify_buf k ys s)"

text \<open>The same on a bus of 16 bits, two bytes at a time, the low one first; an odd byte at the end is not transferred.\<close>

definition nand_read_word :: "'d machine \<Rightarrow> 'd \<Rightarrow> u16 \<times> 'd" where
  "nand_read_word k s = readw k S3C_NFDATA s"

definition nand_read_byte16 :: "'d machine \<Rightarrow> 'd \<Rightarrow> u8 \<times> 'd" where
  "nand_read_byte16 k s = (let (x, s) = readw k S3C_NFDATA s in (ucast x, s))"

fun nand_write_buf16 :: "'d machine \<Rightarrow> u8 list \<Rightarrow> 'd \<Rightarrow> 'd" where
  "nand_write_buf16 k (x # y # xs) s = nand_write_buf16 k xs (writew k (push_bit 8 (ucast y) OR ucast x) S3C_NFDATA s)"
| "nand_write_buf16 k xs s = s"

fun nand_read_buf16 :: "'d machine \<Rightarrow> nat \<Rightarrow> 'd \<Rightarrow> u8 list \<times> 'd" where
  "nand_read_buf16 k (Suc (Suc n)) s =
     (let (x, s) = readw k S3C_NFDATA s; (xs, s) = nand_read_buf16 k n s in (ucast x # ucast (drop_bit 8 x) # xs, s))"
| "nand_read_buf16 k n s = ([], s)"

fun nand_verify_buf16 :: "'d machine \<Rightarrow> u8 list \<Rightarrow> 'd \<Rightarrow> bool \<times> 'd" where
  "nand_verify_buf16 k (x # y # xs) s =
     (let (z, s) = readw k S3C_NFDATA s
      in if push_bit 8 (ucast y) OR ucast x \<noteq> z then (False, s) else nand_verify_buf16 k xs s)"
| "nand_verify_buf16 k xs s = (True, s)"

definition nand_select_chip :: "'d machine \<Rightarrow> s32 \<Rightarrow> 'd \<Rightarrow> 'd option" where
  "nand_select_chip k chipnr s =
     (if chipnr = - 1 then Some (s3c_nand_hwcontrol k NAND_CMD_NONE (0 OR NAND_CTRL_CHANGE) s)
      else if chipnr = 0 then Some s
      else None)"

section \<open>Waits\<close>

text \<open>\<open>while (time_before(jiffies, timeo)) { if (test) break; }\<close>\<close>

partial_function (option) wait_loop :: "'d machine \<Rightarrow> u32 \<Rightarrow> ('d \<Rightarrow> bool \<times> 'd) \<Rightarrow> 'd \<Rightarrow> 'd option" where
  "wait_loop k timeo test s =
     (let (now, s) = jiffies k s
      in if time_before now timeo then (let (ok, s) = test s in if ok then Some s else wait_loop k timeo test s)
         else Some s)"

text \<open>\<open>do { if (test) break; } while (time_before(jiffies, timeo))\<close>\<close>

partial_function (option) wait_do_loop :: "'d machine \<Rightarrow> u32 \<Rightarrow> ('d \<Rightarrow> bool \<times> 'd) \<Rightarrow> 'd \<Rightarrow> 'd option" where
  "wait_do_loop k timeo test s =
     (let (ok, s) = test s
      in if ok then Some s
         else (let (now, s) = jiffies k s in if time_before now timeo then wait_do_loop k timeo test s else Some s))"

fun panic_loop :: "nat \<Rightarrow> ('d \<Rightarrow> bool \<times> 'd) \<Rightarrow> 'd \<Rightarrow> 'd" where
  "panic_loop 0 test s = s"
| "panic_loop (Suc n) test s = (let (ok, s) = test s in if ok then s else panic_loop n test s)"

definition panic_nand_wait_ready :: "'d machine \<Rightarrow> nat \<Rightarrow> 'd \<Rightarrow> 'd" where
  "panic_nand_wait_ready k timeo s = panic_loop timeo (s3c_nand_device_ready k) s"

definition nand_wait_ready :: "'d machine \<Rightarrow> 'd \<Rightarrow> 'd option" where
  "nand_wait_ready k s =
     (let (now, s) = jiffies k s; timeo = now + 2
      in if in_panic k then Some (panic_nand_wait_ready k 400 s)
         else wait_do_loop k timeo (s3c_nand_device_ready k) s)"

section \<open>Commands\<close>

text \<open>The chip as far as the command functions know it.\<close>

record nand_geom =
  writesize :: nat
  oobsize :: nat
  chipsize :: nat
  buswidth16 :: bool
  has_dev_ready :: bool

partial_function (option) status_loop :: "'d machine \<Rightarrow> 'd \<Rightarrow> 'd option" where
  "status_loop k s =
     (let (x, s) = nand_read_byte k s in if x AND NAND_STATUS_READY = 0 then status_loop k s else Some s)"

definition nand_reset_poll :: "'d machine \<Rightarrow> u32 \<Rightarrow> 'd \<Rightarrow> 'd option" where
  "nand_reset_poll k ctrl s =
     (let s = s3c_nand_hwcontrol k NAND_CMD_STATUS ctrl s;
          s = s3c_nand_hwcontrol k NAND_CMD_NONE (NAND_NCE OR NAND_CTRL_CHANGE) s
      in status_loop k s)"

text \<open>The address cycles of \<open>nand_command_lp\<close>; \<open>column\<close> and \<open>page_addr\<close> are \<open>int\<close>, -1 stands for none.\<close>

definition nand_lp_addr :: "'d machine \<Rightarrow> nand_geom \<Rightarrow> s32 \<Rightarrow> s32 \<Rightarrow> 'd \<Rightarrow> 'd" where
  "nand_lp_addr k c column page_addr s =
     (if column \<noteq> - 1 \<or> page_addr \<noteq> - 1 then
        (let ctrl = NAND_CTRL_CHANGE OR NAND_NCE OR NAND_ALE;
             (ctrl, s) =
               (if column \<noteq> - 1 then
                  (let column = (if buswidth16 c then signed_drop_bit 1 column else column);
                       s = s3c_nand_hwcontrol k column ctrl s;
                       ctrl = ctrl AND NOT NAND_CTRL_CHANGE
                   in (ctrl, s3c_nand_hwcontrol k (signed_drop_bit 8 column) ctrl s))
                else (ctrl, s))
         in if page_addr \<noteq> - 1 then
              (let s = s3c_nand_hwcontrol k page_addr ctrl s;
                   s = s3c_nand_hwcontrol k (signed_drop_bit 8 page_addr) (NAND_NCE OR NAND_ALE) s
               in if 2 ^ 27 < chipsize c
                  then s3c_nand_hwcontrol k (signed_drop_bit 16 page_addr) (NAND_NCE OR NAND_ALE) s
                  else s)
            else s)
      else s)"

definition nand_command_lp :: "'d machine \<Rightarrow> nand_geom \<Rightarrow> u32 \<Rightarrow> s32 \<Rightarrow> s32 \<Rightarrow> 'd \<Rightarrow> 'd option" where
  "nand_command_lp k c command column page_addr s =
     (let (command, column) =
        (if command = NAND_CMD_READOOB then (NAND_CMD_READ0, column + of_nat (writesize c)) else (command, column));
          s = s3c_nand_hwcontrol k (command AND 0xff) (NAND_NCE OR NAND_CLE OR NAND_CTRL_CHANGE) s;
          s = nand_lp_addr k c column page_addr s;
          s = s3c_nand_hwcontrol k NAND_CMD_NONE (NAND_NCE OR NAND_CTRL_CHANGE) s;
          finish = (\<lambda>s. nand_wait_ready k s);
          second = (\<lambda>cmd s. s3c_nand_hwcontrol k NAND_CMD_NONE (NAND_NCE OR NAND_CTRL_CHANGE)
                      (s3c_nand_hwcontrol k cmd (NAND_NCE OR NAND_CLE OR NAND_CTRL_CHANGE) s))
      in if command \<in> {NAND_CMD_CACHEDPROG, NAND_CMD_PAGEPROG, NAND_CMD_ERASE1, NAND_CMD_ERASE2, NAND_CMD_SEQIN,
                       NAND_CMD_RNDIN, NAND_CMD_STATUS, NAND_CMD_DEPLETE1} then Some s
         else if command \<in> NAND_CMD_STATUS_ERROR ` {0, 1, 2, 3, 4} then Some s
         else if command = NAND_CMD_RESET then
           (if has_dev_ready c then finish s
            else nand_reset_poll k (NAND_NCE OR NAND_CLE OR NAND_CTRL_CHANGE) s)
         else if command = NAND_CMD_RNDOUT then Some (second NAND_CMD_RNDOUTSTART s)
         else
           (let s = (if command = NAND_CMD_READ0 then second NAND_CMD_READSTART s else s)
            in if has_dev_ready c then finish s else Some s))"

definition nand_command :: "'d machine \<Rightarrow> nand_geom \<Rightarrow> u32 \<Rightarrow> s32 \<Rightarrow> s32 \<Rightarrow> 'd \<Rightarrow> 'd option" where
  "nand_command k c command column page_addr s =
     (let ctrl = NAND_CTRL_CLE OR NAND_CTRL_CHANGE;
          (ctrl, column, s) =
            (if command = NAND_CMD_SEQIN then
               (let (readcmd, column) =
                  (if of_nat (writesize c) \<le> column then (NAND_CMD_READOOB, column - of_nat (writesize c))
                   else if sint column < 256 then (NAND_CMD_READ0, column)
                   else (NAND_CMD_READ1, column - 256))
                in (ctrl AND NOT NAND_CTRL_CHANGE, column, s3c_nand_hwcontrol k readcmd ctrl s))
             else (ctrl, column, s));
          s = s3c_nand_hwcontrol k command ctrl s;
          ctrl = NAND_CTRL_ALE OR NAND_CTRL_CHANGE;
          (ctrl, s) =
            (if column \<noteq> - 1 then
               (let column = (if buswidth16 c then signed_drop_bit 1 column else column)
                in (ctrl AND NOT NAND_CTRL_CHANGE, s3c_nand_hwcontrol k column ctrl s))
             else (ctrl, s));
          s = (if page_addr \<noteq> - 1 then
                 (let s = s3c_nand_hwcontrol k page_addr ctrl s;
                      ctrl = ctrl AND NOT NAND_CTRL_CHANGE;
                      s = s3c_nand_hwcontrol k (signed_drop_bit 8 page_addr) ctrl s
                  in if 2 ^ 25 < chipsize c
                     then s3c_nand_hwcontrol k (signed_drop_bit 16 page_addr) ctrl s else s)
               else s);
          s = s3c_nand_hwcontrol k NAND_CMD_NONE (NAND_NCE OR NAND_CTRL_CHANGE) s
      in if command \<in> {NAND_CMD_PAGEPROG, NAND_CMD_ERASE1, NAND_CMD_ERASE2, NAND_CMD_SEQIN, NAND_CMD_STATUS}
         then Some s
         else if command = NAND_CMD_RESET \<and> \<not> has_dev_ready c
         then nand_reset_poll k (NAND_CTRL_CLE OR NAND_CTRL_CHANGE) s
         else if has_dev_ready c then nand_wait_ready k s
         else Some s)"

text \<open>
  \<open>nand_wait\<close> after program and erase, for the large-page commands; \<open>HZ\<close> is the kernel's clock rate.  In a panic
  the loop count is the time-out value itself.
\<close>

definition nand_wait :: "'d machine \<Rightarrow> nand_geom \<Rightarrow> nat \<Rightarrow> bool \<Rightarrow> bool \<Rightarrow> 'd \<Rightarrow> (u8 \<times> 'd) option" where
  "nand_wait k c HZ erasing is_and s = do {
     let (now, s) = jiffies k s;
     let timeo = now + (if erasing then of_nat (HZ * 400 div 1000) else of_nat (HZ * 20 div 1000));
     s \<leftarrow> nand_command_lp k c (if erasing \<and> is_and then NAND_CMD_STATUS_MULTI else NAND_CMD_STATUS) (- 1) (- 1) s;
     let test = (if has_dev_ready c then s3c_nand_device_ready k
                 else (\<lambda>s. let (x, s) = nand_read_byte k s in (x AND NAND_STATUS_READY \<noteq> 0, s)));
     s \<leftarrow> (if in_panic k then Some (panic_loop (unat timeo) test s) else wait_loop k timeo test s);
     Some (nand_read_byte k s) }"

end
