(* ===== verification/S3cNand.thy ===== *)
theory S3cNand
  imports NandBase
begin

text \<open>
  The page functions of \<open>linux/kernel/common/s3c_nand.c\<close> with the hardware ECC of the controller: one correctable
  bit for each 512 bytes of an SLC chip, four for an MLC chip; \<open>nand_write_page\<close> and the raw and standard functions of
  \<open>linux/kernel/common/nand_base.c\<close> around them.

  An access outside a buffer is an error, the value \<^const>\<open>None\<close>; so is a wait that never ends.
\<close>

section \<open>State\<close>

datatype s3c_cpu_type = TYPE_S3C2450 | TYPE_S3C6400 | TYPE_S3C6410 | TYPE_S5PC100
datatype nand_kind = S3C_NAND_TYPE_UNKNOWN | S3C_NAND_TYPE_SLC | S3C_NAND_TYPE_MLC
datatype ecc_mode = NAND_ECC_READ | NAND_ECC_WRITE | NAND_ECC_READSYN

record nand_ecclayout =
  eccbytes :: nat
  eccpos :: "nat list"
  oobfree :: "(nat \<times> nat) list"

definition s3c_nand_oob_16 :: nand_ecclayout where
  "s3c_nand_oob_16 = \<lparr>eccbytes = 4, eccpos = [1, 2, 3, 4], oobfree = [(6, 10)]\<rparr>"

definition s3c_nand_oob_64 :: nand_ecclayout where
  "s3c_nand_oob_64 = \<lparr>eccbytes = 16,
     eccpos = [40, 41, 42, 43, 44, 45, 46, 47, 48, 49, 50, 51, 52, 53, 54, 55], oobfree = [(2, 38)]\<rparr>"

definition s3c_nand_oob_mlc_64 :: nand_ecclayout where
  "s3c_nand_oob_mlc_64 = \<lparr>eccbytes = 32,
     eccpos = [32, 33, 34, 35, 36, 37, 38, 39, 40, 41, 42, 43, 44, 45, 46, 47,
       48, 49, 50, 51, 52, 53, 54, 55, 56, 57, 58, 59, 60, 61, 62, 63], oobfree = [(2, 28)]\<rparr>"

text \<open>What the driver fills in once, and what it changes: the buffers and the counters.\<close>

record chip = nand_geom +
  cpu_type :: s3c_cpu_type
  nand_type :: nand_kind
  ecc_size :: nat
  ecc_bytes :: nat
  ecc_steps :: nat
  ecc_total :: nat
  ecc_layout :: nand_ecclayout

record 'd nand =
  dev :: 'd
  oob_poi :: "u8 list"
  ecccalc :: "u8 list"
  cur_ecc_mode :: ecc_mode
  ecc_failed :: u32
  ecc_corrected :: u32

section \<open>Buffers\<close>

definition put_bytes :: "u8 list \<Rightarrow> nat \<Rightarrow> u8 list \<Rightarrow> u8 list option" where
  "put_bytes xs i ys = (if i + length ys \<le> length xs then Some (take i xs @ ys @ drop (i + length ys) xs) else None)"

definition get_bytes :: "u8 list \<Rightarrow> nat \<Rightarrow> nat \<Rightarrow> u8 list option" where
  "get_bytes xs i n = (if i + n \<le> length xs then Some (take n (drop i xs)) else None)"

text \<open>\<open>dat[i] ^= v\<close>\<close>

definition xor_byte :: "u8 list \<Rightarrow> nat \<Rightarrow> u8 \<Rightarrow> u8 list option" where
  "xor_byte xs i v = (if i < length xs then Some (xs[i := xs ! i XOR v]) else None)"

section \<open>ECC engine\<close>

definition poll_stat :: "'d machine \<Rightarrow> u32 \<Rightarrow> 'd \<Rightarrow> bool \<times> 'd" where
  "poll_stat k m s = (let (x, s) = readl k S3C_NFSTAT s in (x AND m \<noteq> 0, s))"

definition s3c_nand_wait_enc :: "'d machine \<Rightarrow> 'd \<Rightarrow> 'd option" where
  "s3c_nand_wait_enc k s = (let (now, s) = jiffies k s in wait_loop k (now + 16) (poll_stat k S3C_NFSTAT_ECCENCDONE) s)"

definition s3c_nand_wait_dec :: "'d machine \<Rightarrow> 'd \<Rightarrow> 'd option" where
  "s3c_nand_wait_dec k s = (let (now, s) = jiffies k s in wait_loop k (now + 16) (poll_stat k S3C_NFSTAT_ECCDECDONE) s)"

definition s3c_nand_wait_ecc_busy :: "'d machine \<Rightarrow> 'd \<Rightarrow> 'd option" where
  "s3c_nand_wait_ecc_busy k s =
     (let (now, s) = jiffies k s
      in wait_loop k (now + 16) (\<lambda>s. let (x, s) = readl k S3C_NFMECCERR0 s in (x AND S3C_NFECCERR0_ECCBUSY = 0, s)) s)"

definition s3c_nand_enable_hwecc :: "'d machine \<Rightarrow> chip \<Rightarrow> ecc_mode \<Rightarrow> 'd nand \<Rightarrow> 'd nand" where
  "s3c_nand_enable_hwecc k c mode n =
     (let n = n\<lparr>cur_ecc_mode := mode\<rparr>;
          (nfconf, s) = readl k S3C_NFCONF (dev n);
          nfconf =
            (if cpu_type c = TYPE_S3C6400 then
               (if nand_type c = S3C_NAND_TYPE_SLC then nfconf AND NOT S3C_NFCONF_ECC_MLC
                else nfconf OR S3C_NFCONF_ECC_MLC)
             else
               (let nfconf = nfconf AND NOT (push_bit 23 3)
                in if nand_type c = S3C_NAND_TYPE_SLC then nfconf OR S3C_NFCONF_ECC_1BIT
                   else nfconf OR S3C_NFCONF_ECC_4BIT));
          s = writel k nfconf S3C_NFCONF s;
          (nfcont, s) = readl k S3C_NFCONT s;
          nfcont = nfcont OR S3C_NFCONT_INITMECC;
          nfcont = nfcont AND NOT S3C_NFCONT_MECCLOCK;
          nfcont =
            (if nand_type c = S3C_NAND_TYPE_MLC then
               (if mode = NAND_ECC_WRITE then nfcont OR S3C_NFCONT_ECC_ENC
                else if mode = NAND_ECC_READ then nfcont AND NOT S3C_NFCONT_ECC_ENC
                else nfcont)
             else nfcont);
          s = writel k nfcont S3C_NFCONT s
      in n\<lparr>dev := s\<rparr>)"

text \<open>The four bytes of a code register, the lowest first.\<close>

definition ecc_code :: "u32 \<Rightarrow> u8 list" where
  "ecc_code x = [ucast (x AND 0xff), ucast (drop_bit 8 x AND 0xff), ucast (drop_bit 16 x AND 0xff),
     ucast (drop_bit 24 x AND 0xff)]"

text \<open>The bytes that \<open>s3c_nand_calculate_ecc\<close> stores through \<open>ecc_code\<close>: none when it reads with an MLC chip.\<close>

definition s3c_nand_calculate_ecc :: "'d machine \<Rightarrow> chip \<Rightarrow> 'd nand \<Rightarrow> (u8 list \<times> 'd nand) option" where
  "s3c_nand_calculate_ecc k c n =
     (let (nfcont, s) = readl k S3C_NFCONT (dev n);
          s = writel k (nfcont OR S3C_NFCONT_MECCLOCK) S3C_NFCONT s
      in if nand_type c = S3C_NAND_TYPE_SLC then
           (let (nfmecc0, s) = readl k S3C_NFMECC0 s in Some (ecc_code nfmecc0, n\<lparr>dev := s\<rparr>))
         else if cur_ecc_mode n = NAND_ECC_READ then do {
           s \<leftarrow> s3c_nand_wait_dec k s;
           Some ([], n\<lparr>dev := s\<rparr>) }
         else do {
           s \<leftarrow> s3c_nand_wait_enc k s;
           let (nfmecc0, s) = readl k S3C_NFMECC0 s;
           let (nfmecc1, s) = readl k S3C_NFMECC1 s;
           Some (ecc_code nfmecc0 @ ecc_code nfmecc1, n\<lparr>dev := s\<rparr>) })"

definition slc_correct :: "'d machine \<Rightarrow> u8 list \<Rightarrow> u8 list \<Rightarrow> 'd \<Rightarrow> (int \<times> u8 list \<times> 'd) option" where
  "slc_correct k dat read_ecc s = do {
     _ \<leftarrow> get_bytes read_ecc 0 4;
     let nfmeccdata0 = push_bit 16 (ucast (read_ecc ! 1)) OR ucast (read_ecc ! 0);
     let nfmeccdata1 = push_bit 16 (ucast (read_ecc ! 3)) OR ucast (read_ecc ! 2);
     let s = writel k nfmeccdata0 S3C_NFMECCDATA0 s;
     let s = writel k nfmeccdata1 S3C_NFMECCDATA1 s;
     let (nfestat0, s) = readl k S3C_NFMECCERR0 s;
     let err_type = nfestat0 AND 0x3;
     if err_type = 0 then Some (0, dat, s)
     else if err_type = 1 then do {
       dat \<leftarrow> xor_byte dat (unat (drop_bit 7 nfestat0 AND 0x7ff)) (push_bit (unat (drop_bit 4 nfestat0 AND 0x7)) 1);
       Some (1, dat, s) }
     else Some (- 1, dat, s) }"

text \<open>
  The corrections of the MLC switch: the cases fall through from the number of errors down to 1.  With
  \<open>err_type\<close> 6 or 7, which no case handles, the result stays -1.
\<close>

definition mlc_fix :: "nat \<Rightarrow> u32 \<Rightarrow> u32 \<Rightarrow> u32 \<Rightarrow> u8 list \<Rightarrow> u8 list option" where
  "mlc_fix err_type nfestat0 nfestat1 nfmlcbitpt dat = do {
     dat \<leftarrow> (if 4 \<le> err_type
       then xor_byte dat (unat (drop_bit 16 nfestat1 AND 0x3ff)) (ucast (drop_bit 24 nfmlcbitpt AND 0xff)) else Some dat);
     dat \<leftarrow> (if 3 \<le> err_type
       then xor_byte dat (unat (nfestat1 AND 0x3ff)) (ucast (drop_bit 16 nfmlcbitpt AND 0xff)) else Some dat);
     dat \<leftarrow> (if 2 \<le> err_type
       then xor_byte dat (unat (drop_bit 16 nfestat0 AND 0x3ff)) (ucast (drop_bit 8 nfmlcbitpt AND 0xff)) else Some dat);
     xor_byte dat (unat (nfestat0 AND 0x3ff)) (ucast (nfmlcbitpt AND 0xff)) }"

text \<open>The test for a clean page; \<open>&&\<close> reads no further than it must.\<close>

definition mlc_looks_free :: "u8 list \<Rightarrow> bool option" where
  "mlc_looks_free dat = foldr (\<lambda>i r. do { x \<leftarrow> get_bytes dat i 1; if x = [0xff] then r else Some False })
     [17, 26, 35, 44, 54] (Some True)"

definition mlc_correct :: "'d machine \<Rightarrow> u8 list \<Rightarrow> 'd \<Rightarrow> (int \<times> u8 list \<times> 'd) option" where
  "mlc_correct k dat s = do {
     s \<leftarrow> s3c_nand_wait_ecc_busy k s;
     let (nfestat0, s) = readl k S3C_NFMECCERR0 s;
     let (nfestat1, s) = readl k S3C_NFMECCERR1 s;
     let (nfmlcbitpt, s) = readl k S3C_NFMLCBITPT s;
     let err_type = unat (drop_bit 26 nfestat0 AND 0x7);
     err_type \<leftarrow> (if drop_bit 29 nfestat0 AND 0x1 \<noteq> 0 then Some 0
                  else do { f \<leftarrow> mlc_looks_free dat; Some (if f then 0 else err_type) });
     if err_type = 5 then Some (- 1, dat, s)
     else if err_type \<in> {1, 2, 3, 4} then do {
       dat \<leftarrow> mlc_fix err_type nfestat0 nfestat1 nfmlcbitpt dat;
       Some (int err_type, dat, s) }
     else if err_type = 0 then Some (0, dat, s)
     else Some (- 1, dat, s) }"

text \<open>\<open>dat\<close> may be a null pointer, here \<^const>\<open>None\<close>.\<close>

definition s3c_nand_correct_data ::
  "'d machine \<Rightarrow> chip \<Rightarrow> u8 list option \<Rightarrow> u8 list \<Rightarrow> 'd nand \<Rightarrow> (int \<times> u8 list option \<times> 'd nand) option" where
  "s3c_nand_correct_data k c dat read_ecc n =
     (case dat of
        None \<Rightarrow> Some (- 1, None, n)
      | Some dat \<Rightarrow> do {
          (ret, dat, s) \<leftarrow> (if nand_type c = S3C_NAND_TYPE_SLC then slc_correct k dat read_ecc (dev n)
                             else mlc_correct k dat (dev n));
          Some (ret, Some dat, n\<lparr>dev := s\<rparr>) })"

section \<open>Pages of an SLC chip\<close>

definition cmdfunc :: "'d machine \<Rightarrow> chip \<Rightarrow> u32 \<Rightarrow> s32 \<Rightarrow> s32 \<Rightarrow> 'd nand \<Rightarrow> 'd nand option" where
  "cmdfunc k c command column page_addr n = do {
     s \<leftarrow> nand_command_lp k (nand_geom.truncate c) command column page_addr (dev n);
     Some (n\<lparr>dev := s\<rparr>) }"

definition write_buf :: "'d machine \<Rightarrow> u8 list \<Rightarrow> 'd nand \<Rightarrow> 'd nand" where
  "write_buf k xs n = n\<lparr>dev := nand_write_buf k xs (dev n)\<rparr>"

definition read_buf :: "'d machine \<Rightarrow> nat \<Rightarrow> 'd nand \<Rightarrow> u8 list \<times> 'd nand" where
  "read_buf k len n = (let (xs, s) = nand_read_buf k len (dev n) in (xs, n\<lparr>dev := s\<rparr>))"

text \<open>\<open>chip->read_buf(mtd, chip->oob_poi + i, len)\<close>\<close>

definition read_oob_poi :: "'d machine \<Rightarrow> nat \<Rightarrow> nat \<Rightarrow> 'd nand \<Rightarrow> 'd nand option" where
  "read_oob_poi k i len n = do {
     let (xs, n) = read_buf k len n;
     ys \<leftarrow> put_bytes (oob_poi n) i xs;
     Some (n\<lparr>oob_poi := ys\<rparr>) }"

text \<open>\<open>chip->ecc.calculate(mtd, dat, &ecc_calc[i])\<close>\<close>

definition calculate_at :: "'d machine \<Rightarrow> chip \<Rightarrow> nat \<Rightarrow> 'd nand \<Rightarrow> 'd nand option" where
  "calculate_at k c i n = do {
     (code, n) \<leftarrow> s3c_nand_calculate_ecc k c n;
     ys \<leftarrow> put_bytes (ecccalc n) i code;
     Some (n\<lparr>ecccalc := ys\<rparr>) }"

definition secc_start :: "chip \<Rightarrow> nat option" where
  "secc_start c = (if ecc_bytes c \<le> oobsize c then Some (oobsize c - ecc_bytes c) else None)"

text \<open>The spare area: all of it but the last bytes, then its own code.\<close>

definition write_spare_1bit :: "'d machine \<Rightarrow> chip \<Rightarrow> 'd nand \<Rightarrow> 'd nand option" where
  "write_spare_1bit k c n = do {
     start \<leftarrow> secc_start c;
     let n = s3c_nand_enable_hwecc k c NAND_ECC_WRITE n;
     xs \<leftarrow> get_bytes (oob_poi n) 0 start;
     let n = write_buf k xs n;
     n \<leftarrow> calculate_at k c (ecc_total c) n;
     code \<leftarrow> get_bytes (ecccalc n) (ecc_total c) (ecc_bytes c);
     ys \<leftarrow> put_bytes (oob_poi n) start code;
     let n = n\<lparr>oob_poi := ys\<rparr>;
     xs \<leftarrow> get_bytes (oob_poi n) start (ecc_bytes c);
     Some (write_buf k xs n) }"

definition jffs2_clean :: "u8 list \<Rightarrow> bool option" where
  "jffs2_clean oob = do {
     x \<leftarrow> get_bytes oob 2 1;
     if x = [0x85] then do { y \<leftarrow> get_bytes oob 3 1; Some (y = [0x19]) } else Some False }"

definition read_spare_1bit :: "'d machine \<Rightarrow> chip \<Rightarrow> 'd nand \<Rightarrow> 'd nand option" where
  "read_spare_1bit k c n = do {
     start \<leftarrow> secc_start c;
     let n = s3c_nand_enable_hwecc k c NAND_ECC_READ n;
     n \<leftarrow> read_oob_poi k 0 start n;
     n \<leftarrow> calculate_at k c (ecc_total c) n;
     n \<leftarrow> read_oob_poi k start (ecc_bytes c) n;
     skip \<leftarrow> jffs2_clean (oob_poi n);
     if skip then Some n
     else do {
       (ret, dat, n) \<leftarrow> s3c_nand_correct_data k c (Some (oob_poi n)) (drop start (oob_poi n)) n;
       Some (case dat of Some ys \<Rightarrow> n\<lparr>oob_poi := ys\<rparr> | None \<Rightarrow> n) } }"

definition waitfunc :: "'d machine \<Rightarrow> chip \<Rightarrow> nat \<Rightarrow> bool \<Rightarrow> 'd nand \<Rightarrow> (u8 \<times> 'd nand) option" where
  "waitfunc k c HZ erasing n = do {
     (status, s) \<leftarrow> nand_wait k (nand_geom.truncate c) HZ erasing False (dev n);
     Some (status, n\<lparr>dev := s\<rparr>) }"

definition s3c_nand_write_oob_1bit :: "'d machine \<Rightarrow> chip \<Rightarrow> nat \<Rightarrow> s32 \<Rightarrow> 'd nand \<Rightarrow> (bool \<times> 'd nand) option" where
  "s3c_nand_write_oob_1bit k c HZ page n = do {
     n \<leftarrow> cmdfunc k c NAND_CMD_SEQIN (of_nat (writesize c)) page n;
     n \<leftarrow> write_spare_1bit k c n;
     n \<leftarrow> cmdfunc k c NAND_CMD_PAGEPROG (- 1) (- 1) n;
     (status, n) \<leftarrow> waitfunc k c HZ False n;
     Some (status AND NAND_STATUS_FAIL = 0, n) }"

definition s3c_nand_read_oob_1bit :: "'d machine \<Rightarrow> chip \<Rightarrow> s32 \<Rightarrow> bool \<Rightarrow> 'd nand \<Rightarrow> (bool \<times> 'd nand) option" where
  "s3c_nand_read_oob_1bit k c page sndcmd n = do {
     n \<leftarrow> (if sndcmd then cmdfunc k c NAND_CMD_READOOB 0 page n else Some n);
     n \<leftarrow> read_spare_1bit k c n;
     Some (False, n) }"

text \<open>The loop over the sectors of a page: \<open>p\<close> is the offset in the buffer, \<open>i\<close> that in \<open>ecc_calc\<close>.\<close>

fun write_sectors :: "'d machine \<Rightarrow> chip \<Rightarrow> u8 list \<Rightarrow> nat \<Rightarrow> nat \<Rightarrow> nat \<Rightarrow> 'd nand \<Rightarrow> 'd nand option" where
  "write_sectors k c buf 0 i p n = Some n"
| "write_sectors k c buf (Suc eccsteps) i p n = do {
     let n = s3c_nand_enable_hwecc k c NAND_ECC_WRITE n;
     xs \<leftarrow> get_bytes buf p (ecc_size c);
     let n = write_buf k xs n;
     n \<leftarrow> calculate_at k c i n;
     write_sectors k c buf eccsteps (i + ecc_bytes c) (p + ecc_size c) n }"

text \<open>\<open>eccpos\<close> is an array of 448 entries; those that a layout does not name are 0.\<close>

definition eccpos_at :: "nat list \<Rightarrow> nat \<Rightarrow> nat option" where
  "eccpos_at pos i = (if i < 448 then Some (if i < length pos then pos ! i else 0) else None)"

text \<open>\<open>for (i = 0; i < chip->ecc.total; i++) chip->oob_poi[eccpos[i]] = ecc_calc[i];\<close>\<close>

fun place_ecc :: "nat list \<Rightarrow> u8 list \<Rightarrow> nat list \<Rightarrow> u8 list \<Rightarrow> u8 list option" where
  "place_ecc pos calc [] oob = Some oob"
| "place_ecc pos calc (i # is) oob = do {
     x \<leftarrow> get_bytes calc i 1;
     p \<leftarrow> eccpos_at pos i;
     ys \<leftarrow> put_bytes oob p x;
     place_ecc pos calc is ys }"

definition place_codes :: "chip \<Rightarrow> 'd nand \<Rightarrow> 'd nand option" where
  "place_codes c n = do {
     ys \<leftarrow> place_ecc (eccpos (ecc_layout c)) (ecccalc n) [0..<ecc_total c] (oob_poi n);
     Some (n\<lparr>oob_poi := ys\<rparr>) }"

definition s3c_nand_write_page_1bit :: "'d machine \<Rightarrow> chip \<Rightarrow> u8 list \<Rightarrow> 'd nand \<Rightarrow> 'd nand option" where
  "s3c_nand_write_page_1bit k c buf n = do {
     n \<leftarrow> write_sectors k c buf (ecc_steps c) 0 0 n;
     n \<leftarrow> place_codes c n;
     write_spare_1bit k c n }"

text \<open>
  Correct a sector with the code of the spare area.  The sector is reached through a pointer into the buffer,
  so a correction can reach to the end of the buffer.
\<close>

definition correct_sector ::
  "'d machine \<Rightarrow> chip \<Rightarrow> u8 list \<Rightarrow> nat \<Rightarrow> u8 list \<Rightarrow> 'd nand \<Rightarrow> (u8 list \<times> 'd nand) option" where
  "correct_sector k c buf p code n = do {
     (stat, dat, n) \<leftarrow> s3c_nand_correct_data k c (Some (drop p buf)) code n;
     let n = (if stat = - 1 then n\<lparr>ecc_failed := ecc_failed n + 1\<rparr> else n);
     Some (case dat of Some ys \<Rightarrow> take p buf @ ys | None \<Rightarrow> buf, n) }"

definition code_of_sector :: "chip \<Rightarrow> nat \<Rightarrow> 'd nand \<Rightarrow> u8 list option" where
  "code_of_sector c eccsteps n =
     map_option (\<lambda>p. drop (p + (ecc_steps c - eccsteps) * ecc_bytes c) (oob_poi n)) (eccpos_at (eccpos (ecc_layout c)) 0)"

fun read_sectors ::
  "'d machine \<Rightarrow> chip \<Rightarrow> nat \<Rightarrow> nat \<Rightarrow> nat \<Rightarrow> nat \<Rightarrow> u8 list \<Rightarrow> 'd nand \<Rightarrow> (u8 list \<times> 'd nand) option" where
  "read_sectors k c 0 i p col buf n = Some (buf, n)"
| "read_sectors k c (Suc eccsteps) i p col buf n = do {
     n \<leftarrow> cmdfunc k c NAND_CMD_RNDOUT (of_nat col) (- 1) n;
     let n = s3c_nand_enable_hwecc k c NAND_ECC_READ n;
     let (xs, n) = read_buf k (ecc_size c) n;
     buf \<leftarrow> put_bytes buf p xs;
     n \<leftarrow> calculate_at k c i n;
     code \<leftarrow> code_of_sector c (Suc eccsteps) n;
     (buf, n) \<leftarrow> correct_sector k c buf p code n;
     read_sectors k c eccsteps (i + ecc_bytes c) (p + ecc_size c)
       (ecc_size c * (ecc_steps c + 1 - Suc eccsteps)) buf n }"

definition s3c_nand_read_page_1bit :: "'d machine \<Rightarrow> chip \<Rightarrow> u8 list \<Rightarrow> 'd nand \<Rightarrow> (u8 list \<times> 'd nand) option" where
  "s3c_nand_read_page_1bit k c buf n = do {
     n \<leftarrow> cmdfunc k c NAND_CMD_RNDOUT (of_nat (writesize c)) (- 1) n;
     n \<leftarrow> read_spare_1bit k c n;
     read_sectors k c (ecc_steps c) 0 0 0 buf n }"

section \<open>Pages of an MLC chip\<close>

fun read_sectors_4bit ::
  "'d machine \<Rightarrow> chip \<Rightarrow> nat \<Rightarrow> nat \<Rightarrow> nat \<Rightarrow> u8 list \<Rightarrow> 'd nand \<Rightarrow> (u8 list \<times> 'd nand) option" where
  "read_sectors_4bit k c 0 p col buf n = Some (buf, n)"
| "read_sectors_4bit k c (Suc eccsteps) p col buf n = do {
     n \<leftarrow> cmdfunc k c NAND_CMD_RNDOUT (of_nat col) (- 1) n;
     let n = s3c_nand_enable_hwecc k c NAND_ECC_READ n;
     let (xs, n) = read_buf k (ecc_size c) n;
     buf \<leftarrow> put_bytes buf p xs;
     code \<leftarrow> code_of_sector c (Suc eccsteps) n;
     code \<leftarrow> get_bytes code 0 (ecc_bytes c);
     let n = write_buf k code n;
     (_, n) \<leftarrow> s3c_nand_calculate_ecc k c n;
     (buf, n) \<leftarrow> correct_sector k c buf p [] n;
     read_sectors_4bit k c eccsteps (p + ecc_size c) (ecc_size c * (ecc_steps c + 1 - Suc eccsteps)) buf n }"

definition s3c_nand_read_page_4bit :: "'d machine \<Rightarrow> chip \<Rightarrow> u8 list \<Rightarrow> 'd nand \<Rightarrow> (u8 list \<times> 'd nand) option" where
  "s3c_nand_read_page_4bit k c buf n = do {
     n \<leftarrow> cmdfunc k c NAND_CMD_RNDOUT (of_nat (writesize c)) (- 1) n;
     n \<leftarrow> read_oob_poi k 0 (oobsize c) n;
     read_sectors_4bit k c (ecc_steps c) 0 0 buf n }"

definition s3c_nand_write_page_4bit :: "'d machine \<Rightarrow> chip \<Rightarrow> u8 list \<Rightarrow> 'd nand \<Rightarrow> 'd nand option" where
  "s3c_nand_write_page_4bit k c buf n = do {
     n \<leftarrow> write_sectors k c buf (ecc_steps c) 0 0 n;
     n \<leftarrow> place_codes c n;
     xs \<leftarrow> get_bytes (oob_poi n) 0 (oobsize c);
     Some (write_buf k xs n) }"

section \<open>Around the page functions\<close>

definition nand_read_page_raw :: "'d machine \<Rightarrow> chip \<Rightarrow> 'd nand \<Rightarrow> (u8 list \<times> 'd nand) option" where
  "nand_read_page_raw k c n = do {
     let (xs, n) = read_buf k (writesize c) n;
     n \<leftarrow> read_oob_poi k 0 (oobsize c) n;
     Some (xs, n) }"

definition nand_write_page_raw :: "'d machine \<Rightarrow> chip \<Rightarrow> u8 list \<Rightarrow> 'd nand \<Rightarrow> 'd nand option" where
  "nand_write_page_raw k c buf n = do {
     xs \<leftarrow> get_bytes buf 0 (writesize c);
     let n = write_buf k xs n;
     ys \<leftarrow> get_bytes (oob_poi n) 0 (oobsize c);
     Some (write_buf k ys n) }"

text \<open>
  \<open>nand_write_page\<close>, without \<open>CONFIG_MTD_NAND_VERIFY_WRITE\<close> and without an \<open>errstat\<close> function, which the driver
  does not set; \<open>cached\<close> is overwritten with 0.  The result tells whether the chip reported success.
\<close>

definition nand_write_page ::
  "'d machine \<Rightarrow> chip \<Rightarrow> ('d nand \<Rightarrow> 'd nand option) \<Rightarrow> nat \<Rightarrow> s32 \<Rightarrow> 'd nand \<Rightarrow> (bool \<times> 'd nand) option" where
  "nand_write_page k c write_page HZ page n = do {
     n \<leftarrow> cmdfunc k c NAND_CMD_SEQIN 0x00 page n;
     n \<leftarrow> write_page n;
     n \<leftarrow> cmdfunc k c NAND_CMD_PAGEPROG (- 1) (- 1) n;
     (status, n) \<leftarrow> waitfunc k c HZ False n;
     Some (status AND NAND_STATUS_FAIL = 0, n) }"

definition single_erase_cmd :: "'d machine \<Rightarrow> chip \<Rightarrow> s32 \<Rightarrow> 'd nand \<Rightarrow> 'd nand option" where
  "single_erase_cmd k c page n = do {
     n \<leftarrow> cmdfunc k c NAND_CMD_ERASE1 (- 1) page n;
     cmdfunc k c NAND_CMD_ERASE2 (- 1) (- 1) n }"

end
