(* ===== verification/NandFlash.thy ===== *)
theory NandFlash
  imports S3cNand
begin

text \<open>
  What the NAND driver relies on and what it achieves.  The chip behind the controller is a parameter, described by the
  locale \<open>nand_device\<close>: the command set of a large-page chip (page register, column pointer, five address cycles,
  programming only clears bits), a clock, and the ECC engine of the controller, which sees the bytes transferred
  since it was initialised.  Against this the page functions are proved to store a page with its codes, and to read
  back what was stored when at most one bit of each sector has changed.
\<close>

section \<open>The chip\<close>

record flash =
  cells :: "nat \<Rightarrow> u8 list"
  preg :: "u8 list"
  fcol :: nat
  fcmd :: u8
  faddr :: "u8 list"
  stream :: "u8 list"
  cont :: u32
  meccd0 :: u32
  meccd1 :: u32
  fid :: "nat \<Rightarrow> u8"

definition addr_col :: "u8 list \<Rightarrow> nat" where
  "addr_col a = unat (a ! 0) + 256 * unat (a ! 1)"

definition addr_row :: "u8 list \<Rightarrow> nat" where
  "addr_row a = unat (a ! 2) + 256 * unat (a ! 3) + 65536 * unat (a ! 4)"

text \<open>An erase command has three address cycles; it erases the 64 pages of the block of that page.\<close>

definition erase_row :: "u8 list \<Rightarrow> nat" where
  "erase_row a = unat (a ! 0) + 256 * unat (a ! 1) + 65536 * unat (a ! 2)"

definition erase_block :: "nat \<Rightarrow> (nat \<Rightarrow> u8 list) \<Rightarrow> nat \<Rightarrow> u8 list" where
  "erase_block row cs = (\<lambda>p. if p div 64 = row div 64 then replicate (length (cs p)) 0xff else cs p)"

text \<open>
  A write to the command latch.  After 0x70 the chip answers with its status, after 0x90 and address 0 with the bytes of
  its identification \<open>fid\<close>.  Programming can only turn ones into zeros.
\<close>

definition flash_cmd :: "u8 \<Rightarrow> flash \<Rightarrow> flash" where
  "flash_cmd v f =
     (if v = 0x30 then f\<lparr>preg := cells f (addr_row (faddr f)), fcol := addr_col (faddr f), fcmd := v\<rparr>
      else if v = 0xE0 then f\<lparr>fcol := addr_col (faddr f), fcmd := v\<rparr>
      else if v = 0x10 then
        f\<lparr>cells := (cells f)(addr_row (faddr f) := map2 (AND) (cells f (addr_row (faddr f))) (preg f)), fcmd := v\<rparr>
      else if v = 0xd0 then f\<lparr>cells := erase_block (erase_row (faddr f)) (cells f), fcmd := v\<rparr>
      else if v = 0x90 then f\<lparr>fcmd := v, faddr := [], fcol := 0\<rparr>
      else if v = 0x80 then f\<lparr>preg := replicate (length (preg f)) 0xff, fcmd := v, faddr := []\<rparr>
      else f\<lparr>fcmd := v, faddr := []\<rparr>)"

definition flash_addr :: "u8 \<Rightarrow> flash \<Rightarrow> flash" where
  "flash_addr v f =
     (let a = faddr f @ [v]
      in f\<lparr>faddr := a, fcol := (if fcmd f = 0x80 \<and> length a = 2 then addr_col a else fcol f)\<rparr>)"

text \<open>A byte through the data register also goes through the ECC engine, unless that is locked.\<close>

definition engine :: "u8 \<Rightarrow> flash \<Rightarrow> flash" where
  "engine v f = (if bit (cont f) 7 then f else f\<lparr>stream := stream f @ [v]\<rparr>)"

definition flash_put :: "u8 \<Rightarrow> flash \<Rightarrow> flash" where
  "flash_put v f = engine v (f\<lparr>preg := (preg f)[fcol f := v], fcol := fcol f + 1\<rparr>)"

definition flash_byte :: "flash \<Rightarrow> u8" where
  "flash_byte f =
     (if fcmd f = 0x70 then 0xC0
      else if fcmd f = 0x90 then (if faddr f \<noteq> [] \<and> hd (faddr f) = 0 then fid f (fcol f) else 0)
      else preg f ! fcol f)"

definition flash_get :: "flash \<Rightarrow> flash" where
  "flash_get f = engine (flash_byte f) (f\<lparr>fcol := fcol f + 1\<rparr>)"

text \<open>Bit 5 of \<open>NFCONT\<close> is write-only: writing 1 initialises the engine, and it reads as 0.\<close>

definition flash_cont :: "u32 \<Rightarrow> flash \<Rightarrow> flash" where
  "flash_cont v f = f\<lparr>cont := v AND NOT 0x20, stream := (if bit v 5 then [] else stream f)\<rparr>"

definition busy_cmds :: "u8 set" where
  "busy_cmds = {0x30, 0x10, 0xd0, 0xff}"

text \<open>The code as the driver writes it back to the controller, two bytes to a register.\<close>

definition mecc_data0 :: "u32 \<Rightarrow> u32" where
  "mecc_data0 c = push_bit 16 (drop_bit 8 c AND 0xff) OR (c AND 0xff)"

definition mecc_data1 :: "u32 \<Rightarrow> u32" where
  "mecc_data1 c = push_bit 16 (drop_bit 24 c AND 0xff) OR (drop_bit 16 c AND 0xff)"

text \<open>
  The laws.  \<open>fl\<close> is the state of chip and engine; the time is \<open>clock\<close>, in ticks; the chip is busy until
  \<open>ready_at\<close>, for at most two ticks; \<open>spin\<close> bounds how often the clock can be read before it moves.  The engine:
  comparing the code of the data gives no error, and after one changed bit it gives its place, for up to 2048 bytes.
\<close>

locale nand_device =
  fixes k :: "'d machine" and fl :: "'d \<Rightarrow> flash" and clock ready_at spin :: "'d \<Rightarrow> nat"
    and ecc :: "u8 list \<Rightarrow> u32" and eccerr :: "u32 \<Rightarrow> u32 \<Rightarrow> u8 list \<Rightarrow> u32"
  assumes jiffies_value: "fst (jiffies k s) = of_nat (clock s)"
    and jiffies_keeps: "fl (snd (jiffies k s)) = fl s" "ready_at (snd (jiffies k s)) = ready_at s"
      "clock s \<le> clock (snd (jiffies k s))"
    and jiffies_spin: "clock (snd (jiffies k s)) = clock s \<Longrightarrow> spin (snd (jiffies k s)) < spin s"
    and stat_value: "fst (readl k S3C_NFSTAT s) AND S3C_NFSTAT_BUSY \<noteq> 0 \<longleftrightarrow> ready_at s \<le> clock s"
    and stat_keeps: "fl (snd (readl k S3C_NFSTAT s)) = fl s" "ready_at (snd (readl k S3C_NFSTAT s)) = ready_at s"
      "clock (snd (readl k S3C_NFSTAT s)) = clock s" "spin (snd (readl k S3C_NFSTAT s)) \<le> spin s"
    and rd_value: "fst (readl k S3C_NFCONT s) = cont (fl s) AND NOT 0x20"
      "fst (readl k S3C_NFMECC0 s) = ecc (stream (fl s))"
      "fst (readl k S3C_NFMECCERR0 s) = eccerr (meccd0 (fl s)) (meccd1 (fl s)) (stream (fl s))"
    and rd_keeps: "r \<in> {S3C_NFCONF, S3C_NFCONT, S3C_NFMECC0, S3C_NFMECCERR0} \<Longrightarrow>
      fl (snd (readl k r s)) = fl s \<and> ready_at (snd (readl k r s)) = ready_at s \<and> clock s \<le> clock (snd (readl k r s))"
    and wr_fl: "fl (writel k v S3C_NFCONF s) = fl s" "fl (writel k v S3C_NFCONT s) = flash_cont v (fl s)"
      "fl (writel k v S3C_NFMECCDATA0 s) = (fl s)\<lparr>meccd0 := v\<rparr>"
      "fl (writel k v S3C_NFMECCDATA1 s) = (fl s)\<lparr>meccd1 := v\<rparr>"
      "fl (writeb k x S3C_NFCMMD s) = flash_cmd x (fl s)" "fl (writeb k x S3C_NFADDR s) = flash_addr x (fl s)"
      "fl (writeb k x S3C_NFDATA s) = flash_put x (fl s)"
    and wr_time: "r \<in> {S3C_NFCONF, S3C_NFCONT, S3C_NFMECCDATA0, S3C_NFMECCDATA1} \<Longrightarrow>
      ready_at (writel k v r s) = ready_at s \<and> clock s \<le> clock (writel k v r s)"
      "r \<in> {S3C_NFADDR, S3C_NFDATA} \<or> r = S3C_NFCMMD \<and> x \<notin> busy_cmds \<Longrightarrow>
      ready_at (writeb k x r s) = ready_at s \<and> clock s \<le> clock (writeb k x r s)"
    and cmd_time: "x \<in> busy_cmds \<Longrightarrow> ready_at (writeb k x S3C_NFCMMD s) \<le> clock (writeb k x S3C_NFCMMD s) + 2"
    and data_rd: "ready_at s \<le> clock s \<Longrightarrow> fst (readb k S3C_NFDATA s) = flash_byte (fl s) \<and>
      fl (snd (readb k S3C_NFDATA s)) = flash_get (fl s) \<and>
      ready_at (snd (readb k S3C_NFDATA s)) = ready_at s \<and> clock s \<le> clock (snd (readb k S3C_NFDATA s))"
    and ecc_same: "eccerr (mecc_data0 (ecc xs)) (mecc_data1 (ecc xs)) xs AND 3 = 0"
    and ecc_flip: "i < length xs \<Longrightarrow> length xs \<le> 2048 \<Longrightarrow> j < 8 \<Longrightarrow>
      (let e = eccerr (mecc_data0 (ecc xs)) (mecc_data1 (ecc xs)) (xs[i := xs ! i XOR push_bit j 1])
       in e AND 3 = 1 \<and> unat (drop_bit 7 e AND 0x7ff) = i \<and> unat (drop_bit 4 e AND 7) = j)"
begin

lemmas laws = jiffies_value jiffies_keeps stat_keeps rd_value wr_fl

end

section \<open>A device\<close>

text \<open>
  A device that satisfies the laws: time passes when the clock is read, every command takes two ticks.  Its code is
  the exclusive or of the places of the bits that are set, each place an odd number, so that one changed bit gives an
  odd number that tells its place.
\<close>

record sim =
  sim_flash :: flash
  sim_now :: nat
  sim_until :: nat

definition sim_place :: "nat \<Rightarrow> nat \<Rightarrow> u32" where
  "sim_place i j = of_nat (2 * (8 * i + j) + 1)"

definition sim_byte :: "nat \<Rightarrow> u8 \<Rightarrow> u32" where
  "sim_byte i x = foldr (\<lambda>j r. (if bit x j then sim_place i j else 0) XOR r) [0, 1, 2, 3, 4, 5, 6, 7] 0"

fun sim_code :: "nat \<Rightarrow> u8 list \<Rightarrow> u32" where
  "sim_code i [] = 0"
| "sim_code i (x # xs) = sim_byte i x XOR sim_code (Suc i) xs"

definition sim_join :: "u32 \<Rightarrow> u32 \<Rightarrow> u32" where
  "sim_join d0 d1 = (d0 AND 0xff) OR push_bit 8 (drop_bit 16 d0 AND 0xff) OR push_bit 16 (d1 AND 0xff) OR
     push_bit 24 (drop_bit 16 d1 AND 0xff)"

definition sim_err :: "u32 \<Rightarrow> u32 \<Rightarrow> u8 list \<Rightarrow> u32" where
  "sim_err d0 d1 xs =
     (let d = sim_join d0 d1 XOR sim_code 0 xs in if d = 0 then 0 else push_bit 4 (drop_bit 1 d) OR 1)"

definition sim_rd :: "width \<Rightarrow> u32 \<Rightarrow> sim \<Rightarrow> u32 \<times> sim" where
  "sim_rd w a s =
     (let f = sim_flash s
      in if a = 0x70200000 + S3C_NFSTAT then (if sim_until s \<le> sim_now s then 1 else 0, s)
         else if a = 0x70200000 + S3C_NFCONT then (cont f AND NOT 0x20, s)
         else if a = 0x70200000 + S3C_NFMECC0 then (sim_code 0 (stream f), s)
         else if a = 0x70200000 + S3C_NFMECCERR0 then (sim_err (meccd0 f) (meccd1 f) (stream f), s)
         else if a = 0x70200000 + S3C_NFDATA then (ucast (flash_byte f), s\<lparr>sim_flash := flash_get f\<rparr>)
         else (0, s))"

definition sim_wr :: "width \<Rightarrow> u32 \<Rightarrow> u32 \<Rightarrow> sim \<Rightarrow> sim" where
  "sim_wr w a v s =
     (let f = sim_flash s
      in if a = 0x70200000 + S3C_NFCONT then s\<lparr>sim_flash := flash_cont v f\<rparr>
         else if a = 0x70200000 + S3C_NFMECCDATA0 then s\<lparr>sim_flash := f\<lparr>meccd0 := v\<rparr>\<rparr>
         else if a = 0x70200000 + S3C_NFMECCDATA1 then s\<lparr>sim_flash := f\<lparr>meccd1 := v\<rparr>\<rparr>
         else if a = 0x70200000 + S3C_NFCMMD then
           s\<lparr>sim_flash := flash_cmd (ucast v) f,
             sim_until := (if ucast v \<in> busy_cmds then sim_now s + 2 else sim_until s)\<rparr>
         else if a = 0x70200000 + S3C_NFADDR then s\<lparr>sim_flash := flash_addr (ucast v) f\<rparr>
         else if a = 0x70200000 + S3C_NFDATA then s\<lparr>sim_flash := flash_put (ucast v) f\<rparr>
         else s)"

definition sim_machine :: "sim machine" where
  "sim_machine = \<lparr>mbus = \<lparr>bus_rd = sim_rd, bus_wr = sim_wr\<rparr>,
     jiffies = (\<lambda>s. (of_nat (sim_now s), s\<lparr>sim_now := sim_now s + 1\<rparr>)), nand_regs = 0x70200000, in_panic = False\<rparr>"

lemma sim_byte_flip: "j < 8 \<Longrightarrow> sim_byte i (x XOR push_bit j 1) = sim_byte i x XOR sim_place i j"
proof -
  assume "j < 8"
  then consider "j = 0" | "j = 1" | "j = 2" | "j = 3" | "j = 4" | "j = 5" | "j = 6" | "j = 7" by linarith
  then show ?thesis
    by cases (simp_all add: sim_byte_def bit_simps xor.assoc xor.left_commute xor.commute)
qed

lemma sim_code_flip:
  "i < length xs \<Longrightarrow> j < 8 \<Longrightarrow> sim_code a (xs[i := xs ! i XOR push_bit j 1]) = sim_code a xs XOR sim_place (a + i) j"
proof (induction xs arbitrary: a i)
  case (Cons x xs)
  then show ?case
    by (cases i) (simp_all add: sim_byte_flip xor.assoc xor.left_commute xor.commute del: push_bit_of_1)
qed simp

lemma sim_join_codes: "sim_join (mecc_data0 c) (mecc_data1 c) = c"
proof -
  have m: "(0xff :: u32) = mask 8" by (simp add: mask_eq_exp_minus_1)
  show ?thesis unfolding sim_join_def mecc_data0_def mecc_data1_def m
  proof (rule bit_word_eqI)
    fix n assume n: "n < LENGTH(32)"
    consider "n < 8" | "8 \<le> n" "n < 16" | "16 \<le> n" "n < 24" | "24 \<le> n" by linarith
    then show "bit (((push_bit 16 (drop_bit 8 c AND mask 8) OR c AND mask 8) AND mask 8) OR
        push_bit 8 (drop_bit 16 (push_bit 16 (drop_bit 8 c AND mask 8) OR c AND mask 8) AND mask 8) OR
        push_bit 16 ((push_bit 16 (drop_bit 24 c AND mask 8) OR drop_bit 16 c AND mask 8) AND mask 8) OR
        push_bit 24 (drop_bit 16 (push_bit 16 (drop_bit 24 c AND mask 8) OR drop_bit 16 c AND mask 8) AND mask 8)) n = bit c n"
      using n by cases (simp_all add: bit_simps, auto)
  qed
qed

lemma sim_place_parts:
  assumes "i < 2048" "j < 8" "e = push_bit 4 (drop_bit 1 (sim_place i j)) OR 1"
  shows "e AND 3 = 1" "unat (drop_bit 7 e AND 0x7ff) = i" "unat (drop_bit 4 e AND 7) = j" "sim_place i j \<noteq> 0"
proof -
  define K where "K = 8 * i + j"
  have K: "K < 16384" "K div 8 = i" "K mod 8 = j" using assms(1,2) by (auto simp: K_def)
  have p: "unat (sim_place i j) = 2 * K + 1"
    using K(1) by (simp add: sim_place_def K_def [symmetric] unat_of_nat del: of_nat_add of_nat_mult of_nat_Suc)
  then show "sim_place i j \<noteq> 0" by auto
  define x where "x = drop_bit 1 (sim_place i j)"
  have x: "unat x = K" unfolding x_def unat_drop_bit_eq p by (simp add: drop_bit_Suc)
  have m: "(3 :: u32) = mask 2" "(0x7ff :: u32) = mask 11" "(7 :: u32) = mask 3" by (simp_all add: mask_eq_exp_minus_1)
  have e: "e = push_bit 4 x OR 1" using assms(3) by (simp add: x_def)
  show "e AND 3 = 1" unfolding e m by (rule bit_word_eqI) (auto simp: bit_simps bit_1_iff)
  have "drop_bit 7 e AND 0x7ff = take_bit 11 (drop_bit 3 x)"
    unfolding e m by (rule bit_word_eqI) (auto simp: bit_simps bit_1_iff)
  then show "unat (drop_bit 7 e AND 0x7ff) = i"
    using x K assms(1) by (simp add: unsigned_take_bit_eq unat_drop_bit_eq) (simp add: drop_bit_eq_div take_bit_eq_mod)
  have "drop_bit 4 e AND 7 = take_bit 3 x"
    unfolding e m by (rule bit_word_eqI) (auto simp: bit_simps bit_1_iff)
  then show "unat (drop_bit 4 e AND 7) = j"
    using x K by (simp add: unsigned_take_bit_eq) (simp add: take_bit_eq_mod)
qed

lemma sim_err_same: "sim_err (mecc_data0 (sim_code 0 xs)) (mecc_data1 (sim_code 0 xs)) xs AND 3 = 0"
  by (simp add: sim_err_def sim_join_codes)

lemma sim_err_flip:
  assumes "i < length xs" "length xs \<le> 2048" "j < 8"
  shows "let e = sim_err (mecc_data0 (sim_code 0 xs)) (mecc_data1 (sim_code 0 xs)) (xs[i := xs ! i XOR push_bit j 1])
    in e AND 3 = 1 \<and> unat (drop_bit 7 e AND 0x7ff) = i \<and> unat (drop_bit 4 e AND 7) = j"
proof -
  have i: "i < 2048" using assms by simp
  have d: "sim_code 0 xs XOR sim_code 0 (xs[i := xs ! i XOR push_bit j 1]) = sim_place i j"
    using sim_code_flip [OF assms(1,3), of 0] by (simp add: xor.assoc [symmetric] del: push_bit_of_1)
  show ?thesis using sim_place_parts [OF i assms(3) refl]
    by (simp add: sim_err_def sim_join_codes Let_def d del: push_bit_of_1)
qed

lemmas sim_defs = sim_machine_def readl_def writel_def readb_def writeb_def rd32_def wr32_def sim_rd_def sim_wr_def Let_def
  nand_regs_defs

lemma ucast_ucast_u8 [simp]: "(ucast (ucast (x :: u8) :: u32) :: u8) = x"
  by (rule bit_word_eqI) (simp add: bit_simps)

interpretation sim: nand_device sim_machine sim_flash sim_now sim_until "\<lambda>_. 0" "sim_code 0" sim_err
  by unfold_locales (simp_all only: sim_err_same sim_err_flip, auto simp: sim_defs S3C_NFSTAT_BUSY_def)

end
