(* ===== verification/NandPage.thy ===== *)
theory NandPage
  imports NandFlash
begin

text \<open>
  What the NAND driver achieves on a chip that obeys the laws of \<open>nand_device\<close>: the commands with their address
  cycles, the waits, the transfers through the page register, blocks with their codes, and from these the two page
  operations.  \<open>nand_write_page\<close> with \<open>s3c_nand_write_page_1bit\<close> stores a page with the codes of its sectors in
  the spare area; \<open>s3c_nand_read_page_1bit\<close> gives the page back although one bit of each sector has changed.  The
  lemmas are proved in the locale, and hold for the device \<open>sim\<close> through its interpretation.
\<close>

section \<open>Commands\<close>

text \<open>The chip with its enable line driven: what the control lines leave of \<open>NFCONT\<close>.\<close>

definition ce :: "flash \<Rightarrow> flash" where
  "ce f = f\<lparr>cont := cont f AND NOT 0x22\<rparr>"

text \<open>The address cycles for a number, its lowest byte first.\<close>

definition cycles :: "nat \<Rightarrow> nat \<Rightarrow> flash \<Rightarrow> flash" where
  "cycles n m f = fold (\<lambda>i. flash_addr (of_nat (m div 256 ^ i))) [0..<n] f"

lemma ce_simps [simp]:
  "cells (ce f) = cells f" "preg (ce f) = preg f" "fcol (ce f) = fcol f" "fcmd (ce f) = fcmd f"
  "faddr (ce f) = faddr f" "stream (ce f) = stream f" "meccd0 (ce f) = meccd0 f" "meccd1 (ce f) = meccd1 f"
  "bit (cont (ce f)) 7 = bit (cont f) 7" "ce (ce f) = ce f"
  by (simp_all add: ce_def bit_simps and.assoc)

lemma ce_update [simp]:
  "ce (f\<lparr>preg := x\<rparr>) = (ce f)\<lparr>preg := x\<rparr>" "ce (f\<lparr>fcol := n\<rparr>) = (ce f)\<lparr>fcol := n\<rparr>"
  "ce (f\<lparr>fcmd := v\<rparr>) = (ce f)\<lparr>fcmd := v\<rparr>" "ce (f\<lparr>faddr := a\<rparr>) = (ce f)\<lparr>faddr := a\<rparr>"
  "ce (f\<lparr>cells := g\<rparr>) = (ce f)\<lparr>cells := g\<rparr>" "ce (f\<lparr>stream := xs\<rparr>) = (ce f)\<lparr>stream := xs\<rparr>"
  by (simp_all add: ce_def)

lemma ucast_signed_drop:
  assumes "m < 2 ^ 24" "n \<le> 16"
  shows "(ucast (signed_drop_bit n (of_nat m :: u32)) :: u8) = of_nat (m div 2 ^ n)"
    and "signed_drop_bit n (of_nat m :: u32) \<noteq> - 1"
proof -
  have drop: "bit (of_nat m :: u32) (n + j) \<longleftrightarrow> n + j < 32 \<and> bit m (n + j)" for j by (simp add: bit_of_nat_iff)
  show "(ucast (signed_drop_bit n (of_nat m :: u32)) :: u8) = of_nat (m div 2 ^ n)"
  proof (rule bit_word_eqI)
    fix j assume "j < LENGTH(8)"
    then show "bit (ucast (signed_drop_bit n (of_nat m :: u32)) :: u8) j = bit (of_nat (m div 2 ^ n) :: u8) j"
      using assms(2) by (auto simp: bit_simps bit_signed_drop_bit_iff drop drop_bit_eq_div [symmetric])
  qed
  have "\<not> bit (signed_drop_bit n (of_nat m :: u32)) 31"
  proof -
    have "\<not> bit m 31" using assms(1) by (simp add: bit_iff_odd)
    then show ?thesis by (cases n) (auto simp: bit_signed_drop_bit_iff bit_of_nat_iff)
  qed
  then show "signed_drop_bit n (of_nat m :: u32) \<noteq> - 1" by auto
qed

lemma of_nat_not_none: "m < 2 ^ 24 \<Longrightarrow> (of_nat m :: u32) \<noteq> - 1"
  using ucast_signed_drop(2) [of m 0] by simp

context nand_device
begin

lemma nce_change:
  "fl (let (cur, s) = readl k S3C_NFCONT s in writel k (cur AND NOT S3C_NFCONT_nFCE0) S3C_NFCONT s) = ce (fl s)"
  "ready_at (let (cur, s) = readl k S3C_NFCONT s in writel k (cur AND NOT S3C_NFCONT_nFCE0) S3C_NFCONT s) = ready_at s"
  "clock s \<le> clock (let (cur, s) = readl k S3C_NFCONT s in writel k (cur AND NOT S3C_NFCONT_nFCE0) S3C_NFCONT s)"
  using rd_keeps [of S3C_NFCONT s] wr_time(1) [of S3C_NFCONT "fst (readl k S3C_NFCONT s) AND NOT S3C_NFCONT_nFCE0" "snd (readl k S3C_NFCONT s)"]
  by (auto simp: case_prod_beta Let_def laws ce_def flash_cont_def nand_bits_defs bit_simps and.assoc)

lemma hw_none [simp]: "s3c_nand_hwcontrol k NAND_CMD_NONE (NAND_NCE OR NAND_CTRL_CHANGE) s = s"
  "s3c_nand_hwcontrol k (- 1) (NAND_NCE OR NAND_CTRL_CHANGE) s = s"
  by (simp_all add: s3c_nand_hwcontrol_def nand_ctrl_defs NAND_CMD_NONE_def)

lemma hw_cmd:
  assumes "v \<noteq> NAND_CMD_NONE"
    and "s' = s3c_nand_hwcontrol k v (NAND_NCE OR NAND_CLE OR NAND_CTRL_CHANGE) s"
  shows "fl s' = flash_cmd (ucast v) (ce (fl s))"
    "ucast v \<notin> busy_cmds \<Longrightarrow> ready_at s' = ready_at s \<and> clock s \<le> clock s'"
    "ucast v \<in> busy_cmds \<Longrightarrow> ready_at s' \<le> clock s' + 2"
proof -
  define s1 where "s1 = (let (cur, s) = readl k S3C_NFCONT s in writel k (cur AND NOT S3C_NFCONT_nFCE0) S3C_NFCONT s)"
  have s': "s' = writeb k (ucast v) S3C_NFCMMD s1"
    using assms by (simp add: s3c_nand_hwcontrol_def nand_ctrl_defs s1_def)
  have s1: "fl s1 = ce (fl s)" "ready_at s1 = ready_at s" "clock s \<le> clock s1"
    by (simp_all only: s1_def nce_change)
  show "fl s' = flash_cmd (ucast v) (ce (fl s))" by (simp add: s' wr_fl s1)
  show "ucast v \<notin> busy_cmds \<Longrightarrow> ready_at s' = ready_at s \<and> clock s \<le> clock s'"
    using wr_time(2) [of S3C_NFCMMD "ucast v" s1] s1 by (simp add: s')
  show "ucast v \<in> busy_cmds \<Longrightarrow> ready_at s' \<le> clock s' + 2" using cmd_time [of "ucast v" s1] by (simp add: s')
qed

lemma hw_addr:
  assumes "v \<noteq> NAND_CMD_NONE"
  shows "fl (s3c_nand_hwcontrol k v (NAND_CTRL_CHANGE OR NAND_NCE OR NAND_ALE) s) = flash_addr (ucast v) (ce (fl s))"
    "fl (s3c_nand_hwcontrol k v ((NAND_CTRL_CHANGE OR NAND_NCE OR NAND_ALE) AND NOT NAND_CTRL_CHANGE) s) =
      flash_addr (ucast v) (fl s)"
    "fl (s3c_nand_hwcontrol k v (NAND_NCE OR NAND_ALE) s) = flash_addr (ucast v) (fl s)"
  using assms nce_change [of s] by (simp_all add: s3c_nand_hwcontrol_def nand_ctrl_defs wr_fl)

lemma hw_addr_time:
  assumes "v \<noteq> NAND_CMD_NONE" "ctrl \<in> {NAND_CTRL_CHANGE OR NAND_NCE OR NAND_ALE,
    (NAND_CTRL_CHANGE OR NAND_NCE OR NAND_ALE) AND NOT NAND_CTRL_CHANGE, NAND_NCE OR NAND_ALE}"
  shows "ready_at (s3c_nand_hwcontrol k v ctrl s) = ready_at s \<and> clock s \<le> clock (s3c_nand_hwcontrol k v ctrl s)"
proof -
  define s1 where "s1 = (let (cur, s) = readl k S3C_NFCONT s in writel k (cur AND NOT S3C_NFCONT_nFCE0) S3C_NFCONT s)"
  have s1: "ready_at s1 = ready_at s" "clock s \<le> clock s1" by (simp_all only: s1_def nce_change)
  show ?thesis
    using assms s1 wr_time(2) [of S3C_NFADDR "ucast v" s1] wr_time(2) [of S3C_NFADDR "ucast v" s]
    by (auto simp: s3c_nand_hwcontrol_def nand_ctrl_defs s1_def [symmetric])
qed

lemma time_before_near:
  assumes "c < t + d" "t \<le> c" "d < 2 ^ 31"
  shows "time_before (of_nat c) (of_nat t + of_nat d)"
proof -
  define m where "m = t + d - c"
  have m: "0 < m" "m < 2 ^ 31" "t + d = c + m" using assms by (auto simp: m_def)
  then have "(of_nat t + of_nat d :: u32) = of_nat c + of_nat m" by (simp flip: of_nat_add)
  then have "of_nat c - (of_nat t + of_nat d) = (- of_nat m :: u32)" by simp
  moreover have "sint (- of_nat m :: u32) = - int m"
  proof -
    have "(- of_nat m :: u32) = word_of_int (- int m)" by simp
    moreover have "sint (word_of_int (- int m) :: u32) = - int m"
      using m by (simp add: sint_sbintrunc' signed_take_bit_int_eq_self del: of_int_minus)
    ultimately show ?thesis by simp
  qed
  ultimately show ?thesis using m by (simp add: time_before_def del: of_nat_add)
qed

text \<open>The loop of \<open>nand_wait_ready\<close>: \<open>t\<close> is the time at its start.\<close>

lemma wait_do_loop_ready:
  assumes "ready_at s \<le> t + 2" "t \<le> clock s"
  shows "\<exists>s'. wait_do_loop k (of_nat t + 2) (s3c_nand_device_ready k) s = Some s' \<and> fl s' = fl s \<and>
    ready_at s' \<le> clock s'"
  using assms
proof (induction "(ready_at s - clock s, spin s)" arbitrary: s
    rule: wf_induct_rule [OF wf_lex_prod [OF wf_less_than wf_less_than]])
  case 1
  obtain ok s1 where s1: "s3c_nand_device_ready k s = (ok, s1)" by fastforce
  then have k1: "fl s1 = fl s" "ready_at s1 = ready_at s" "clock s1 = clock s" "spin s1 \<le> spin s"
    and ok: "ok \<longleftrightarrow> ready_at s \<le> clock s"
    using stat_keeps [of s] stat_value [of s] by (auto simp: s3c_nand_device_ready_def case_prod_beta Let_def)
  obtain now s2 where s2: "jiffies k s1 = (now, s2)" by fastforce
  then have k2: "fl s2 = fl s" "ready_at s2 = ready_at s" "clock s \<le> clock s2" "now = of_nat (clock s1)"
    "clock s2 = clock s1 \<Longrightarrow> spin s2 < spin s1"
    using jiffies_keeps [of s1] jiffies_value [of s1] jiffies_spin [of s1] k1 by auto
  note unfold = wait_do_loop.simps [of k "of_nat t + 2" "s3c_nand_device_ready k" s, unfolded s1 prod.case Let_def]
  show ?case
  proof (cases "ok \<or> \<not> time_before now (of_nat t + 2)")
    case True
    show ?thesis
    proof (cases ok)
      case True
      then show ?thesis using k1 ok by (simp add: unfold)
    next
      case False
      with True \<open>ok \<or> _\<close> have "\<not> time_before (of_nat (clock s1)) (of_nat t + 2)" by (simp add: k2)
      then have "t + 2 \<le> clock s1" using time_before_near [of "clock s1" t 2] 1(3) k1 by force
      then show ?thesis using False \<open>ok \<or> _\<close> k1 k2 1(2) by (simp add: unfold s2)
    qed
  next
    case False
    have "((ready_at s2 - clock s2, spin s2), (ready_at s - clock s, spin s)) \<in> less_than <*lex*> less_than"
    proof (cases "clock s2 = clock s")
      case True
      then show ?thesis using k1 k2 by (simp add: less_le_trans)
    next
      case False
      then show ?thesis using k1 k2 ok \<open>\<not> (ok \<or> _)\<close> by auto
    qed
    from 1(1) [OF this] k2 1(2,3) False show ?thesis by (simp add: unfold s2)
  qed
qed

lemma nand_wait_ready_ready:
  assumes "ready_at s \<le> clock s + 2" "\<not> in_panic k"
  shows "\<exists>s'. nand_wait_ready k s = Some s' \<and> fl s' = fl s \<and> ready_at s' \<le> clock s'"
proof -
  obtain now s1 where s1: "jiffies k s = (now, s1)" by fastforce
  then have "fl s1 = fl s" "ready_at s1 = ready_at s" "clock s \<le> clock s1" "now = of_nat (clock s)"
    using jiffies_keeps [of s] jiffies_value [of s] by auto
  then show ?thesis using wait_do_loop_ready [of s1 "clock s"] assms s1
    by (simp add: nand_wait_ready_def)
qed


text \<open>What every step of a command keeps: once the chip is ready it stays so.\<close>

lemma hw_addr_ready:
  assumes "v \<noteq> NAND_CMD_NONE" "ctrl \<in> {NAND_CTRL_CHANGE OR NAND_NCE OR NAND_ALE,
    (NAND_CTRL_CHANGE OR NAND_NCE OR NAND_ALE) AND NOT NAND_CTRL_CHANGE, NAND_NCE OR NAND_ALE}" "ready_at s \<le> clock s"
  shows "ready_at (s3c_nand_hwcontrol k v ctrl s) \<le> clock (s3c_nand_hwcontrol k v ctrl s)"
  using hw_addr_time [OF assms(1,2), of s] assms(3) by linarith

lemma lp_addr_column:
  assumes "col < 2 ^ 16" "\<not> buswidth16 c" "ready_at s \<le> clock s"
    and "s' = nand_lp_addr k c (of_nat col) (- 1) s"
  shows "fl s' = cycles 2 col (ce (fl s))" "ready_at s' \<le> clock s'"
proof -
  have c: "(of_nat col :: u32) \<noteq> - 1" "signed_drop_bit 8 (of_nat col :: u32) \<noteq> - 1"
    "(ucast (of_nat col :: u32) :: u8) = of_nat col" "(ucast (signed_drop_bit 8 (of_nat col :: u32)) :: u8) = of_nat (col div 256)"
    using assms(1) of_nat_not_none [of col] ucast_signed_drop [of col 8] ucast_signed_drop [of col 0] by simp_all
  show "fl s' = cycles 2 col (ce (fl s))"
    using assms c by (simp add: nand_lp_addr_def hw_addr NAND_CMD_NONE_def Let_def cycles_def numeral_2_eq_2)
  show "ready_at s' \<le> clock s'"
    using assms c by (simp add: nand_lp_addr_def Let_def hw_addr_ready NAND_CMD_NONE_def)
qed

lemma lp_addr_both:
  assumes "col < 2 ^ 16" "page < 2 ^ 24" "2 ^ 27 < chipsize c" "\<not> buswidth16 c" "ready_at s \<le> clock s"
    and "s' = nand_lp_addr k c (of_nat col) (of_nat page) s"
  shows "fl s' = cycles 3 page (cycles 2 col (ce (fl s)))" "ready_at s' \<le> clock s'"
proof -
  have c: "(of_nat col :: u32) \<noteq> - 1" "signed_drop_bit 8 (of_nat col :: u32) \<noteq> - 1"
    "(ucast (of_nat col :: u32) :: u8) = of_nat col" "(ucast (signed_drop_bit 8 (of_nat col :: u32)) :: u8) = of_nat (col div 256)"
    using assms(1) of_nat_not_none [of col] ucast_signed_drop [of col 8] ucast_signed_drop [of col 0] by simp_all
  have p: "(of_nat page :: u32) \<noteq> - 1" "signed_drop_bit 8 (of_nat page :: u32) \<noteq> - 1"
    "signed_drop_bit 16 (of_nat page :: u32) \<noteq> - 1" "(ucast (of_nat page :: u32) :: u8) = of_nat page"
    "(ucast (signed_drop_bit 8 (of_nat page :: u32)) :: u8) = of_nat (page div 256)"
    "(ucast (signed_drop_bit 16 (of_nat page :: u32)) :: u8) = of_nat (page div 65536)"
    using assms(2) of_nat_not_none [of page] ucast_signed_drop [of page 8] ucast_signed_drop [of page 16]
      ucast_signed_drop [of page 0] by simp_all
  show "fl s' = cycles 3 page (cycles 2 col (ce (fl s)))"
    using assms c p
    by (simp add: nand_lp_addr_def hw_addr NAND_CMD_NONE_def Let_def cycles_def numeral_2_eq_2 numeral_3_eq_3)
  show "ready_at s' \<le> clock s'"
    using assms c p by (simp add: nand_lp_addr_def Let_def hw_addr_ready NAND_CMD_NONE_def)
qed

lemma lp_addr_none [simp]: "nand_lp_addr k c (- 1) (- 1) s = s"
  by (simp add: nand_lp_addr_def)

end

lemma addr_col_bytes: "col < 2 ^ 16 \<Longrightarrow> addr_col (of_nat col # of_nat (col div 256) # a) = col"
  by (simp add: addr_col_def unat_of_nat)

lemma cycles_col:
  assumes "col < 2 ^ 16" "faddr f = []"
  shows "cycles 2 col f = f\<lparr>faddr := [of_nat col, of_nat (col div 256)], fcol := (if fcmd f = 0x80 then col else fcol f)\<rparr>"
  using assms by (simp add: cycles_def numeral_2_eq_2 flash_addr_def addr_col_bytes)

lemma cycles_row:
  "faddr f = [a, b] \<Longrightarrow>
    cycles 3 page f = f\<lparr>faddr := [a, b, of_nat page, of_nat (page div 256), of_nat (page div 65536)]\<rparr>"
  by (simp add: cycles_def numeral_3_eq_3 flash_addr_def)

lemma addr_row_bytes:
  assumes "page < 2 ^ 24"
  shows "addr_row [a, b, of_nat page, of_nat (page div 256), of_nat (page div 65536)] = page"
proof -
  have split: "n mod 256 + 256 * (n div 256) = n" for n :: nat by simp
  have q: "page div 65536 = page div 256 div 256" using div_mult2_eq [of page 256 256] by simp
  have "page mod 256 + 256 * (page div 256 mod 256) + 65536 * (page div 65536) =
      page mod 256 + 256 * (page div 256 mod 256 + 256 * (page div 256 div 256))"
    by (simp only: q distrib_left)
  also have "\<dots> = page" by (simp only: split)
  finally have "page mod 256 + 256 * (page div 256 mod 256) + 65536 * (page div 65536) = page" .
  then show ?thesis using assms by (simp add: addr_row_def unat_of_nat)
qed

context nand_device
begin

text \<open>The commands of the page functions.\<close>

lemma cmd_seqin:
  assumes "col < 2 ^ 16" "page < 2 ^ 24" "2 ^ 27 < chipsize c" "\<not> buswidth16 c" "ready_at s \<le> clock s"
  shows "\<exists>s' a b. nand_command_lp k c NAND_CMD_SEQIN (of_nat col) (of_nat page) s = Some s' \<and> ready_at s' \<le> clock s' \<and>
    addr_row (faddr (fl s')) = page \<and> fcol (fl s') = col \<and> preg (fl s') = replicate (length (preg (fl s))) 0xff \<and>
    cells (fl s') = cells (fl s) \<and> fcmd (fl s') = 0x80"
proof -
  define s1 where "s1 = s3c_nand_hwcontrol k 0x80 (NAND_NCE OR NAND_CLE OR NAND_CTRL_CHANGE) s"
  have s1: "fl s1 = flash_cmd 0x80 (ce (fl s))" "ready_at s1 \<le> clock s1"
    using hw_cmd [OF _ s1_def] assms(5) by (auto simp: busy_cmds_def NAND_CMD_NONE_def)
  define s2 where "s2 = nand_lp_addr k c (of_nat col) (of_nat page) s1"
  have "nand_command_lp k c NAND_CMD_SEQIN (of_nat col) (of_nat page) s = Some s2"
    by (simp add: nand_command_lp_def Let_def nand_cmd_defs s1_def s2_def)
  moreover note lp_addr_both [OF assms(1-4) s1(2) s2_def]
  ultimately show ?thesis using assms by (simp add: s1 flash_cmd_def cycles_col cycles_row addr_row_bytes addr_col_bytes)
qed

lemma cmd_rndout:
  assumes "col < 2 ^ 16" "\<not> buswidth16 c" "ready_at s \<le> clock s"
  shows "\<exists>s'. nand_command_lp k c NAND_CMD_RNDOUT (of_nat col) (- 1) s = Some s' \<and> ready_at s' \<le> clock s' \<and>
    fcol (fl s') = col \<and> preg (fl s') = preg (fl s) \<and> cells (fl s') = cells (fl s) \<and> fcmd (fl s') = 0xE0"
proof -
  define s1 where "s1 = s3c_nand_hwcontrol k 5 (NAND_NCE OR NAND_CLE OR NAND_CTRL_CHANGE) s"
  have s1: "fl s1 = flash_cmd 5 (ce (fl s))" "ready_at s1 \<le> clock s1"
    using hw_cmd [OF _ s1_def] assms(3) by (auto simp: busy_cmds_def NAND_CMD_NONE_def)
  define s2 where "s2 = nand_lp_addr k c (of_nat col) (- 1) s1"
  note s2 = lp_addr_column [OF assms(1,2) s1(2) s2_def]
  define s3 where "s3 = s3c_nand_hwcontrol k 0xE0 (NAND_NCE OR NAND_CLE OR NAND_CTRL_CHANGE) s2"
  have s3: "fl s3 = flash_cmd 0xE0 (ce (fl s2))" "ready_at s3 \<le> clock s3"
    using hw_cmd [OF _ s3_def] s2(2) by (auto simp: busy_cmds_def NAND_CMD_NONE_def)
  have "nand_command_lp k c NAND_CMD_RNDOUT (of_nat col) (- 1) s = Some s3"
    by (simp add: nand_command_lp_def Let_def nand_cmd_defs s1_def s2_def s3_def)
  then show ?thesis using assms by (simp add: s1 s2 s3 flash_cmd_def cycles_col addr_col_bytes)
qed

lemma cmd_read0:
  assumes "col < 2 ^ 16" "page < 2 ^ 24" "2 ^ 27 < chipsize c" "\<not> buswidth16 c" "has_dev_ready c" "\<not> in_panic k"
    and "ready_at s \<le> clock s"
  shows "\<exists>s'. nand_command_lp k c NAND_CMD_READ0 (of_nat col) (of_nat page) s = Some s' \<and> ready_at s' \<le> clock s' \<and>
    fcol (fl s') = col \<and> preg (fl s') = cells (fl s) page \<and> cells (fl s') = cells (fl s) \<and> fcmd (fl s') = 0x30"
proof -
  define s1 where "s1 = s3c_nand_hwcontrol k 0 (NAND_NCE OR NAND_CLE OR NAND_CTRL_CHANGE) s"
  have s1: "fl s1 = flash_cmd 0 (ce (fl s))" "ready_at s1 \<le> clock s1"
    using hw_cmd [OF _ s1_def] assms(7) by (auto simp: busy_cmds_def NAND_CMD_NONE_def)
  define s2 where "s2 = nand_lp_addr k c (of_nat col) (of_nat page) s1"
  note s2 = lp_addr_both [OF assms(1-4) s1(2) s2_def]
  define s3 where "s3 = s3c_nand_hwcontrol k 0x30 (NAND_NCE OR NAND_CLE OR NAND_CTRL_CHANGE) s2"
  have s3: "fl s3 = flash_cmd 0x30 (ce (fl s2))" "ready_at s3 \<le> clock s3 + 2"
    using hw_cmd [OF _ s3_def] by (auto simp: busy_cmds_def NAND_CMD_NONE_def)
  obtain s4 where s4: "nand_wait_ready k s3 = Some s4" "fl s4 = fl s3" "ready_at s4 \<le> clock s4"
    using nand_wait_ready_ready [OF s3(2) assms(6)] by blast
  have "nand_command_lp k c NAND_CMD_READ0 (of_nat col) (of_nat page) s = nand_wait_ready k s3"
    using assms(5) by (simp add: nand_command_lp_def Let_def nand_cmd_defs s1_def s2_def s3_def)
  then show ?thesis using assms s4 by (simp add: s1 s2 s3 flash_cmd_def cycles_col cycles_row addr_row_bytes addr_col_bytes)
qed

lemma cmd_pageprog:
  "\<exists>s'. nand_command_lp k c NAND_CMD_PAGEPROG (- 1) (- 1) s = Some s' \<and> fl s' = flash_cmd 0x10 (ce (fl s)) \<and>
    ready_at s' \<le> clock s' + 2"
proof -
  define s1 where "s1 = s3c_nand_hwcontrol k 0x10 (NAND_NCE OR NAND_CLE OR NAND_CTRL_CHANGE) s"
  have s1: "fl s1 = flash_cmd 0x10 (ce (fl s))" "ready_at s1 \<le> clock s1 + 2"
    using hw_cmd [OF _ s1_def] by (auto simp: busy_cmds_def NAND_CMD_NONE_def)
  have "nand_command_lp k c NAND_CMD_PAGEPROG (- 1) (- 1) s = Some s1"
    by (simp add: nand_command_lp_def Let_def nand_cmd_defs s1_def)
  then show ?thesis using s1 by blast
qed

lemma cmd_status:
  "\<exists>s'. nand_command_lp k c NAND_CMD_STATUS (- 1) (- 1) s = Some s' \<and> fl s' = flash_cmd 0x70 (ce (fl s)) \<and>
    ready_at s' = ready_at s \<and> clock s \<le> clock s'"
proof -
  define s1 where "s1 = s3c_nand_hwcontrol k 0x70 (NAND_NCE OR NAND_CLE OR NAND_CTRL_CHANGE) s"
  have s1: "fl s1 = flash_cmd 0x70 (ce (fl s))" "ready_at s1 = ready_at s" "clock s \<le> clock s1"
    using hw_cmd [OF _ s1_def] by (auto simp: busy_cmds_def NAND_CMD_NONE_def)
  have "nand_command_lp k c NAND_CMD_STATUS (- 1) (- 1) s = Some s1"
    by (simp add: nand_command_lp_def Let_def nand_cmd_defs s1_def)
  then show ?thesis using s1 by blast
qed

text \<open>The other wait: the clock is read before the chip is.\<close>

lemma wait_loop_ready:
  assumes "ready_at s \<le> t + d" "t \<le> clock s" "d < 2 ^ 31"
  shows "\<exists>s'. wait_loop k (of_nat t + of_nat d) (s3c_nand_device_ready k) s = Some s' \<and> fl s' = fl s \<and>
    ready_at s' \<le> clock s'"
  using assms(1,2)
proof (induction "(ready_at s - clock s, spin s)" arbitrary: s
    rule: wf_induct_rule [OF wf_lex_prod [OF wf_less_than wf_less_than]])
  case 1
  obtain now s1 where s1: "jiffies k s = (now, s1)" by fastforce
  then have k1: "fl s1 = fl s" "ready_at s1 = ready_at s" "clock s \<le> clock s1" "now = of_nat (clock s)"
    "clock s1 = clock s \<Longrightarrow> spin s1 < spin s"
    using jiffies_keeps [of s] jiffies_value [of s] jiffies_spin [of s] by auto
  obtain ok s2 where s2: "s3c_nand_device_ready k s1 = (ok, s2)" by fastforce
  then have k2: "fl s2 = fl s1" "ready_at s2 = ready_at s1" "clock s2 = clock s1" "spin s2 \<le> spin s1"
    and ok: "ok \<longleftrightarrow> ready_at s1 \<le> clock s1"
    using stat_keeps [of s1] stat_value [of s1] by (auto simp: s3c_nand_device_ready_def case_prod_beta Let_def)
  note unfold = wait_loop.simps [of k "of_nat t + of_nat d" "s3c_nand_device_ready k" s, unfolded s1 prod.case Let_def s2]
  show ?case
  proof (cases "time_before now (of_nat t + of_nat d)")
    case False
    then have "t + d \<le> clock s" using time_before_near [of "clock s" t d] 1(3) assms(3) k1 by force
    then show ?thesis using False k1 1(2) by (simp add: unfold)
  next
    case before: True
    show ?thesis
    proof (cases ok)
      case True
      then show ?thesis using before k1 k2 ok by (simp add: unfold)
    next
      case False
      have "((ready_at s2 - clock s2, spin s2), (ready_at s - clock s, spin s)) \<in> less_than <*lex*> less_than"
      proof (cases "clock s1 = clock s")
        case True
        then show ?thesis using k1 k2 by (simp add: le_less_trans)
      next
        case False
        then show ?thesis using k1 k2 ok \<open>\<not> ok\<close> by auto
      qed
      from 1(1) [OF this] k1 k2 1(2,3) False before show ?thesis by (simp add: unfold)
    qed
  qed
qed

text \<open>After a program or erase command the status is read once the chip is ready, when a tick count of at least 2 is allowed.\<close>

lemma nand_wait_status:
  assumes "\<not> (erasing \<and> is_and)" "ready_at s \<le> clock s + 2" "100 \<le> HZ" "HZ < 2 ^ 31" "has_dev_ready c" "\<not> in_panic k"
  shows "\<exists>s'. nand_wait k c HZ erasing is_and s = Some (0xC0, s') \<and> cells (fl s') = cells (fl s) \<and>
    preg (fl s') = preg (fl s) \<and> ready_at s' \<le> clock s'"
proof -
  define d where "d = (if erasing then HZ * 400 div 1000 else HZ * 20 div 1000)"
  have d: "2 \<le> d" "d < 2 ^ 31" using assms(3,4) by (auto simp: d_def)
  obtain now s1 where s1: "jiffies k s = (now, s1)" by fastforce
  then have k1: "fl s1 = fl s" "ready_at s1 = ready_at s" "clock s \<le> clock s1" "now = of_nat (clock s)"
    using jiffies_keeps [of s] jiffies_value [of s] by auto
  obtain s2 where s2: "nand_command_lp k c NAND_CMD_STATUS (- 1) (- 1) s1 = Some s2" "fl s2 = flash_cmd 0x70 (ce (fl s1))"
    "ready_at s2 = ready_at s1" "clock s1 \<le> clock s2"
    using cmd_status by blast
  have "ready_at s2 \<le> clock s + d" "clock s \<le> clock s2" using assms(2) d k1 s2 by linarith+
  then obtain s3 where s3: "wait_loop k (of_nat (clock s) + of_nat d) (s3c_nand_device_ready k) s2 = Some s3"
    "fl s3 = fl s2" "ready_at s3 \<le> clock s3"
    using wait_loop_ready [of s2 "clock s" d] d by blast
  have "nand_wait k c HZ erasing is_and s = Some (readb k S3C_NFDATA s3)"
    using s1 k1 s2 s3 assms by (cases erasing) (simp_all add: nand_wait_def d_def nand_read_byte_def Let_def)
  then show ?thesis
    using data_rd [OF s3(3)] s3 s2 k1
    by (cases "readb k S3C_NFDATA s3") (auto simp: flash_cmd_def flash_byte_def flash_get_def engine_def)
qed

end

section \<open>Transfers\<close>

text \<open>
  \<open>programming f page cs xs\<close>: a program command for \<open>page\<close> is open and \<open>xs\<close> is in the page register; \<open>cs\<close> is
  what the chip holds.
\<close>

definition programming :: "flash \<Rightarrow> nat \<Rightarrow> (nat \<Rightarrow> u8 list) \<Rightarrow> nat \<Rightarrow> u8 list \<Rightarrow> bool" where
  "programming f page cs m xs \<longleftrightarrow> fcmd f = 0x80 \<and> addr_row (faddr f) = page \<and> cells f = cs \<and> fcol f = length xs \<and>
     preg f = xs @ replicate (m - length xs) 0xff \<and> length xs \<le> m"

lemma programming_put:
  assumes "programming f page cs m xs" "length xs < m"
  shows "programming (flash_put x f) page cs m (xs @ [x])" "cont (flash_put x f) = cont f"
    "stream (flash_put x f) = (if bit (cont f) 7 then stream f else stream f @ [x])"
proof -
  obtain r where "m - length xs = Suc r" using assms(2) by (cases "m - length xs") auto
  moreover from this have "m - Suc (length xs) = r" by simp
  ultimately show "programming (flash_put x f) page cs m (xs @ [x])"
    using assms by (auto simp: programming_def flash_put_def engine_def list_update_append)
qed (simp_all add: flash_put_def engine_def)

context nand_device
begin

lemma write_buf_programming:
  assumes "programming (fl s) page cs m xs" "length xs + length ys \<le> m" "ready_at s \<le> clock s"
  shows "programming (fl (nand_write_buf k ys s)) page cs m (xs @ ys) \<and> cont (fl (nand_write_buf k ys s)) = cont (fl s) \<and>
    stream (fl (nand_write_buf k ys s)) = (if bit (cont (fl s)) 7 then stream (fl s) else stream (fl s) @ ys) \<and>
    ready_at (nand_write_buf k ys s) \<le> clock (nand_write_buf k ys s)"
  using assms
proof (induction ys arbitrary: s xs)
  case (Cons y ys)
  define s1 where "s1 = writeb k y S3C_NFDATA s"
  have f1: "fl s1 = flash_put y (fl s)" by (simp add: s1_def wr_fl)
  have "ready_at s1 \<le> clock s1" using wr_time(2) [of S3C_NFDATA y s] Cons.prems(3) by (simp add: s1_def)
  moreover have "programming (fl s1) page cs m (xs @ [y])" "cont (fl s1) = cont (fl s)"
    "stream (fl s1) = (if bit (cont (fl s)) 7 then stream (fl s) else stream (fl s) @ [y])"
    using programming_put [OF Cons.prems(1)] Cons.prems(2) by (simp_all add: f1)
  ultimately show ?case
    using Cons.IH [of s1 "xs @ [y]"] Cons.prems(2) by (simp add: s1_def)
qed simp

text \<open>Reading from a page register that is not changed.\<close>

lemma read_buf_register:
  assumes "fcmd (fl s) \<notin> {0x70, 0x90}" "fcol (fl s) + n \<le> length (preg (fl s))" "ready_at s \<le> clock s"
    and "(xs, s') = nand_read_buf k n s"
  shows "xs = take n (drop (fcol (fl s)) (preg (fl s))) \<and>
    fl s' = (fl s)\<lparr>fcol := fcol (fl s) + n, stream := (if bit (cont (fl s)) 7 then stream (fl s) else stream (fl s) @ xs)\<rparr> \<and>
    ready_at s' \<le> clock s'"
  using assms
proof (induction n arbitrary: s xs)
  case (Suc n)
  define x s1 where "x = fst (readb k S3C_NFDATA s)" and "s1 = snd (readb k S3C_NFDATA s)"
  have x: "x = preg (fl s) ! fcol (fl s)" and s1: "fl s1 = flash_get (fl s)" "ready_at s1 \<le> clock s1"
    using data_rd [OF Suc.prems(3)] Suc.prems(1,3) by (auto simp: x_def s1_def flash_byte_def)
  obtain ys where ys: "xs = x # ys" "(ys, s') = nand_read_buf k n s1"
    using Suc.prems(4) by (auto simp: x_def s1_def case_prod_beta Let_def)
  have f1: "fcmd (fl s1) = fcmd (fl s)" "preg (fl s1) = preg (fl s)" "fcol (fl s1) = Suc (fcol (fl s))"
    by (simp_all add: s1 flash_get_def engine_def)
  note IH = Suc.IH [OF _ _ s1(2) ys(2), unfolded f1, OF Suc.prems(1)]
  show ?case
    using IH Suc.prems(1,2) ys(1) x
    by (simp add: s1 flash_get_def engine_def flash_byte_def Cons_nth_drop_Suc [symmetric])
qed simp

end

section \<open>Coded blocks\<close>

lemma programming_update [simp]:
  "programming (f\<lparr>cont := x\<rparr>) page cs m xs = programming f page cs m xs"
  "programming (f\<lparr>stream := ys\<rparr>) page cs m xs = programming f page cs m xs"
  by (simp_all add: programming_def)

lemma length_ecc_code [simp]: "length (ecc_code x) = 4"
  by (simp add: ecc_code_def)

context nand_device
begin

lemma enable_slc:
  assumes "nand_type c = S3C_NAND_TYPE_SLC" "ready_at (dev n) \<le> clock (dev n)"
  shows "\<exists>s' x. s3c_nand_enable_hwecc k c mode n = n\<lparr>cur_ecc_mode := mode, dev := s'\<rparr> \<and>
    fl s' = (fl (dev n))\<lparr>cont := x, stream := []\<rparr> \<and> \<not> bit x 7 \<and> ready_at s' \<le> clock s'"
proof -
  define f where "f = (\<lambda>nfconf :: u32. if cpu_type c = TYPE_S3C6400 then nfconf AND NOT S3C_NFCONF_ECC_MLC
    else (nfconf AND NOT (push_bit 23 3)) OR S3C_NFCONF_ECC_1BIT)"
  define s1 s2 where "s1 = snd (readl k S3C_NFCONF (dev n))" and "s2 = writel k (f (fst (readl k S3C_NFCONF (dev n)))) S3C_NFCONF s1"
  define s3 where "s3 = snd (readl k S3C_NFCONT s2)"
  define v where "v = (fst (readl k S3C_NFCONT s2) OR S3C_NFCONT_INITMECC) AND NOT S3C_NFCONT_MECCLOCK"
  define s4 where "s4 = writel k v S3C_NFCONT s3"
  have "fl s4 = flash_cont v (fl (dev n))"
    using rd_keeps [of S3C_NFCONF "dev n"] rd_keeps [of S3C_NFCONT s2] by (simp add: s1_def s2_def s3_def s4_def wr_fl)
  moreover have "bit v 5" "\<not> bit (v AND NOT 0x20) 7" by (simp_all add: v_def nand_bits_defs bit_simps)
  moreover have "ready_at s4 \<le> clock s4"
    using assms(2) rd_keeps [of S3C_NFCONF "dev n"] rd_keeps [of S3C_NFCONT s2] wr_time(1) [of S3C_NFCONT v s3]
      wr_time(1) [of S3C_NFCONF "f (fst (readl k S3C_NFCONF (dev n)))" s1]
    unfolding s1_def s2_def s3_def s4_def by auto
  moreover have "s3c_nand_enable_hwecc k c mode n = n\<lparr>cur_ecc_mode := mode, dev := s4\<rparr>"
    using assms(1) by (simp add: s3c_nand_enable_hwecc_def s1_def s2_def s3_def s4_def v_def f_def case_prod_beta Let_def)
  ultimately show ?thesis by (auto simp: flash_cont_def)
qed

lemma calculate_slc:
  assumes "nand_type c = S3C_NAND_TYPE_SLC" "ready_at (dev n) \<le> clock (dev n)"
  shows "\<exists>s' x. s3c_nand_calculate_ecc k c n = Some (ecc_code (ecc (stream (fl (dev n)))), n\<lparr>dev := s'\<rparr>) \<and>
    fl s' = (fl (dev n))\<lparr>cont := x\<rparr> \<and> bit x 7 \<and> ready_at s' \<le> clock s'"
proof -
  define s1 where "s1 = snd (readl k S3C_NFCONT (dev n))"
  define v where "v = fst (readl k S3C_NFCONT (dev n)) OR S3C_NFCONT_MECCLOCK"
  define s2 where "s2 = writel k v S3C_NFCONT s1"
  define s3 where "s3 = snd (readl k S3C_NFMECC0 s2)"
  have "\<not> bit v 5" "bit (v AND NOT 0x20) 7" by (simp_all add: v_def rd_value nand_bits_defs bit_simps)
  then have f2: "fl s2 = (fl (dev n))\<lparr>cont := v AND NOT 0x20\<rparr>"
    using rd_keeps [of S3C_NFCONT "dev n"] by (simp add: s1_def s2_def wr_fl flash_cont_def)
  then have "fl s3 = (fl (dev n))\<lparr>cont := v AND NOT 0x20\<rparr>" using rd_keeps [of S3C_NFMECC0 s2] by (simp add: s3_def)
  moreover have "ready_at s3 \<le> clock s3"
    using assms(2) rd_keeps [of S3C_NFCONT "dev n"] rd_keeps [of S3C_NFMECC0 s2] wr_time(1) [of S3C_NFCONT v s1]
    unfolding s1_def s2_def s3_def by auto
  moreover have "s3c_nand_calculate_ecc k c n = Some (ecc_code (ecc (stream (fl (dev n)))), n\<lparr>dev := s3\<rparr>)"
    using assms(1) f2
    by (simp add: s3c_nand_calculate_ecc_def s1_def s2_def s3_def v_def case_prod_beta Let_def rd_value(2))
  ultimately show ?thesis using \<open>bit (v AND NOT 0x20) 7\<close> by blast
qed

text \<open>Initialise the engine, write a block, and take its code.\<close>

lemma coded_write:
  assumes "nand_type c = S3C_NAND_TYPE_SLC" "ready_at (dev n) \<le> clock (dev n)"
    and "programming (fl (dev n)) page cs m xs" "length xs + length ys \<le> m" "i + 4 \<le> length (ecccalc n)"
  shows "\<exists>s'. calculate_at k c i (write_buf k ys (s3c_nand_enable_hwecc k c mode n)) =
      Some (n\<lparr>cur_ecc_mode := mode, dev := s', ecccalc := take i (ecccalc n) @ ecc_code (ecc ys) @ drop (i + 4) (ecccalc n)\<rparr>) \<and>
    programming (fl s') page cs m (xs @ ys) \<and> ready_at s' \<le> clock s'"
proof -
  obtain s1 x where s1: "s3c_nand_enable_hwecc k c mode n = n\<lparr>cur_ecc_mode := mode, dev := s1\<rparr>"
    "fl s1 = (fl (dev n))\<lparr>cont := x, stream := []\<rparr>" "\<not> bit x 7" "ready_at s1 \<le> clock s1"
    using enable_slc [OF assms(1,2)] by blast
  define s2 where "s2 = nand_write_buf k ys s1"
  have s2: "programming (fl s2) page cs m (xs @ ys)" "stream (fl s2) = ys" "ready_at s2 \<le> clock s2"
    using write_buf_programming [of s1 page cs m xs ys] assms(3,4) s1 by (simp_all add: s2_def)
  define n2 where "n2 = n\<lparr>cur_ecc_mode := mode, dev := s2\<rparr>"
  obtain s3 y where s3: "s3c_nand_calculate_ecc k c n2 = Some (ecc_code (ecc ys), n2\<lparr>dev := s3\<rparr>)"
    "fl s3 = (fl s2)\<lparr>cont := y\<rparr>" "ready_at s3 \<le> clock s3"
    using calculate_slc [OF assms(1), of n2] s2 by (auto simp: n2_def)
  have "write_buf k ys (s3c_nand_enable_hwecc k c mode n) = n2" by (simp add: s1 write_buf_def n2_def s2_def)
  then show ?thesis using s2 s3 assms(5) by (auto simp: calculate_at_def put_bytes_def n2_def)
qed

end

section \<open>Writing a page\<close>

text \<open>The chip as \<open>s3c_nand_probe\<close> and \<open>nand_scan\<close> leave it for an SLC chip with pages of 2 KiB and more than 128 MiB.\<close>

definition slc_2k :: "chip \<Rightarrow> bool" where
  "slc_2k c \<longleftrightarrow> writesize c = 2048 \<and> oobsize c = 64 \<and> 2 ^ 27 < chipsize c \<and> \<not> buswidth16 c \<and> has_dev_ready c \<and>
     nand_type c = S3C_NAND_TYPE_SLC \<and> ecc_size c = 512 \<and> ecc_bytes c = 4 \<and> ecc_steps c = 4 \<and> ecc_total c = 16 \<and>
     ecc_layout c = s3c_nand_oob_64"

definition sector :: "u8 list \<Rightarrow> nat \<Rightarrow> u8 list" where
  "sector buf j = take 512 (drop (512 * j) buf)"

definition codes :: "(u8 list \<Rightarrow> u32) \<Rightarrow> u8 list \<Rightarrow> u8 list" where
  "codes ecc buf = concat (map (\<lambda>j. ecc_code (ecc (sector buf j))) [0..<4])"

text \<open>What is stored with a page: the codes of its sectors at 40, and the code of the spare area itself at its end.\<close>

definition spare_image :: "(u8 list \<Rightarrow> u32) \<Rightarrow> u8 list \<Rightarrow> u8 list \<Rightarrow> u8 list" where
  "spare_image ecc buf oob =
     (let o1 = take 40 oob @ codes ecc buf @ take 4 (drop 56 oob) in o1 @ ecc_code (ecc o1))"

lemma sectors_concat: "length buf = 2048 \<Longrightarrow> concat (map (sector buf) [0..<4]) = buf"
proof -
  assume len: "length buf = 2048"
  have "concat (map (sector buf) [0..<m]) = take (512 * m) buf" for m
    by (induction m) (simp_all add: sector_def take_add [symmetric] add.commute)
  from this [of 4] show ?thesis using len by simp
qed

lemma length_concat_const: "\<forall>j \<in> set js. length (f j) = n \<Longrightarrow> length (concat (map f js)) = n * length js"
  by (induction js) simp_all

lemma length_codes [simp]: "length (codes ecc buf) = 16"
  by (simp add: codes_def length_concat_const [where n = 4])

lemma length_spare_image: "length oob = 64 \<Longrightarrow> length (spare_image ecc buf oob) = 64"
  by (simp add: spare_image_def Let_def)

lemma and_byte_mask: "0xff AND x = (x :: u8)"
proof -
  have "(0xff :: u8) = - 1" by simp
  then show ?thesis by (simp only: and.left_neutral)
qed

text \<open>Codes at consecutive places are one block.\<close>

lemma place_ecc_block:
  assumes "n \<le> m" "m \<le> 448" "n \<le> length calc" "a + m \<le> length oob"
  shows "place_ecc [a..<a + m] calc [j..<n] oob =
    Some (take (a + j) oob @ take (n - j) (drop j calc) @ drop (a + max j n) oob)"
  using assms
proof (induction "n - j" arbitrary: j oob)
  case 0
  then show ?case by simp
next
  case (Suc r)
  then have j: "j < n" and up: "[j..<n] = j # [Suc j..<n]" by (auto simp: upt_conv_Cons)
  have x: "take (Suc 0) (drop j calc) = [calc ! j]" using j Suc.prems by (simp add: take_Suc_conv_app_nth)
  define oob' where "oob' = take (a + j) oob @ [calc ! j] @ drop (a + j + 1) oob"
  have len: "length oob' = length oob" using j Suc.prems by (simp add: oob'_def)
  have "place_ecc [a..<a + m] calc [j..<n] oob = place_ecc [a..<a + m] calc [Suc j..<n] oob'"
    using j Suc.prems by (simp add: up get_bytes_def put_bytes_def eccpos_at_def x oob'_def)
  also have "\<dots> = Some (take (a + Suc j) oob' @ take (n - Suc j) (drop (Suc j) calc) @ drop (a + max (Suc j) n) oob')"
    using Suc.hyps(1) [of "Suc j" oob'] Suc.hyps(2) Suc.prems len by simp
  also have "take (a + Suc j) oob' = take (a + j) oob @ [calc ! j]" using j Suc.prems by (simp add: oob'_def)
  also have "drop (a + max (Suc j) n) oob' = drop (a + max j n) oob" using j Suc.prems by (simp add: oob'_def max_def drop_Cons' add.commute [of n a])
  also have "(take (a + j) oob @ [calc ! j]) @ take (n - Suc j) (drop (Suc j) calc) @ drop (a + max j n) oob =
      take (a + j) oob @ take (n - j) (drop j calc) @ drop (a + max j n) oob"
    using j Suc.prems Suc_diff_Suc [OF j] by (simp add: Cons_nth_drop_Suc [symmetric] flip: Suc_diff_Suc)
  finally show ?case .
qed

context nand_device
begin

lemma write_sectors_slc:
  assumes "slc_2k c" "ready_at (dev n) \<le> clock (dev n)" "programming (fl (dev n)) page cs m xs"
    and "length xs + 512 * steps \<le> m" "4 * (j + steps) \<le> length (ecccalc n)" "512 * (j + steps) \<le> length buf"
  shows "\<exists>s'. write_sectors k c buf steps (4 * j) (512 * j) n =
      Some (n\<lparr>cur_ecc_mode := (if steps = 0 then cur_ecc_mode n else NAND_ECC_WRITE), dev := s',
        ecccalc := take (4 * j) (ecccalc n) @ concat (map (\<lambda>j. ecc_code (ecc (sector buf j))) [j..<j + steps]) @
          drop (4 * (j + steps)) (ecccalc n)\<rparr>) \<and>
    programming (fl s') page cs m (xs @ concat (map (sector buf) [j..<j + steps])) \<and> ready_at s' \<le> clock s'"
  using assms(2-)
proof (induction steps arbitrary: n j xs)
  case 0
  then show ?case by (auto intro!: exI [of _ "dev n"])
next
  case (Suc steps)
  have c: "nand_type c = S3C_NAND_TYPE_SLC" "ecc_size c = 512" "ecc_bytes c = 4" using assms(1) by (simp_all add: slc_2k_def)
  have len: "length (sector buf j) = 512" using Suc.prems(5) by (simp add: sector_def)
  have get: "get_bytes buf (512 * j) 512 = Some (sector buf j)" using Suc.prems(5) by (simp add: get_bytes_def sector_def)
  obtain s1 where s1: "calculate_at k c (4 * j) (write_buf k (sector buf j) (s3c_nand_enable_hwecc k c NAND_ECC_WRITE n)) =
      Some (n\<lparr>cur_ecc_mode := NAND_ECC_WRITE, dev := s1,
        ecccalc := take (4 * j) (ecccalc n) @ ecc_code (ecc (sector buf j)) @ drop (4 * j + 4) (ecccalc n)\<rparr>)"
    "programming (fl s1) page cs m (xs @ sector buf j)" "ready_at s1 \<le> clock s1"
    using coded_write [OF c(1) Suc.prems(1,2), of "sector buf j" "4 * j" NAND_ECC_WRITE] Suc.prems(3,4) len by auto
  define n1 where "n1 = n\<lparr>cur_ecc_mode := NAND_ECC_WRITE, dev := s1,
        ecccalc := take (4 * j) (ecccalc n) @ ecc_code (ecc (sector buf j)) @ drop (4 * j + 4) (ecccalc n)\<rparr>"
  have step: "write_sectors k c buf (Suc steps) (4 * j) (512 * j) n = write_sectors k c buf steps (4 * Suc j) (512 * Suc j) n1"
    using s1(1) by (simp add: c get n1_def add.commute)
  have up: "[j..<j + Suc steps] = j # [Suc j..<Suc j + steps]" by (simp add: upt_conv_Cons)
  have calc: "length (ecccalc n1) = length (ecccalc n)" "take (4 * Suc j) (ecccalc n1) = take (4 * j) (ecccalc n) @ ecc_code (ecc (sector buf j))"
    "drop (4 * (Suc j + steps)) (ecccalc n1) = drop (4 * (j + Suc steps)) (ecccalc n)"
    using Suc.prems(4) by (simp_all add: n1_def ac_simps)
  show ?case
    using Suc.IH [of n1 "xs @ sector buf j" "Suc j"] s1 Suc.prems(3-5) len
    unfolding step up calc by (auto simp: n1_def)
qed


lemma place_codes_slc:
  assumes "slc_2k c" "length (oob_poi n) = 64" "16 \<le> length (ecccalc n)"
  shows "place_codes c n = Some (n\<lparr>oob_poi := take 40 (oob_poi n) @ take 16 (ecccalc n) @ drop 56 (oob_poi n)\<rparr>)"
proof -
  have "eccpos (ecc_layout c) = [40..<40 + 16]" "ecc_total c = 16"
    using assms(1) by (simp_all add: slc_2k_def s3c_nand_oob_64_def upt_rec_numeral)
  then show ?thesis using assms(2,3) place_ecc_block [of 16 16 "ecccalc n" 40 "oob_poi n" 0] by (simp add: place_codes_def)
qed

lemma write_spare_slc:
  assumes "slc_2k c" "ready_at (dev n) \<le> clock (dev n)" "programming (fl (dev n)) page cs m xs"
    and "length xs + 64 \<le> m" "length (oob_poi n) = 64" "20 \<le> length (ecccalc n)"
  shows "\<exists>n'. write_spare_1bit k c n = Some n' \<and> ready_at (dev n') \<le> clock (dev n') \<and>
    oob_poi n' = take 60 (oob_poi n) @ ecc_code (ecc (take 60 (oob_poi n))) \<and>
    programming (fl (dev n')) page cs m (xs @ oob_poi n') \<and> ecc_failed n' = ecc_failed n \<and>
    length (ecccalc n') = length (ecccalc n)"
proof -
  have c: "nand_type c = S3C_NAND_TYPE_SLC" "secc_start c = Some 60" "ecc_total c = 16" "ecc_bytes c = 4"
    using assms(1) by (simp_all add: slc_2k_def secc_start_def)
  define o1 where "o1 = take 60 (oob_poi n)"
  have len: "length o1 = 60" using assms(5) by (simp add: o1_def)
  obtain s1 where s1: "calculate_at k c 16 (write_buf k o1 (s3c_nand_enable_hwecc k c NAND_ECC_WRITE n)) =
      Some (n\<lparr>cur_ecc_mode := NAND_ECC_WRITE, dev := s1,
        ecccalc := take 16 (ecccalc n) @ ecc_code (ecc o1) @ drop (16 + 4) (ecccalc n)\<rparr>)"
    "programming (fl s1) page cs m (xs @ o1)" "ready_at s1 \<le> clock s1"
    using coded_write [OF c(1) assms(2,3), of o1 16 NAND_ECC_WRITE] assms(4,6) len by auto
  obtain s2 x where en: "s3c_nand_enable_hwecc k c NAND_ECC_WRITE n = n\<lparr>cur_ecc_mode := NAND_ECC_WRITE, dev := s2\<rparr>"
    using enable_slc [OF c(1) assms(2)] by blast
  have get: "get_bytes (oob_poi n) 0 60 = Some o1" using assms(5) by (simp add: get_bytes_def o1_def)
  define o2 where "o2 = o1 @ ecc_code (ecc o1)"
  have put: "put_bytes (oob_poi n) 60 (ecc_code (ecc o1)) = Some o2" using assms(5) by (simp add: put_bytes_def o1_def o2_def)
  define s3 where "s3 = nand_write_buf k (ecc_code (ecc o1)) s1"
  have s3: "programming (fl s3) page cs m (xs @ o2)" "ready_at s3 \<le> clock s3"
    using write_buf_programming [OF s1(2), of "ecc_code (ecc o1)"] s1(3) assms(4) len by (simp_all add: s3_def o2_def)
  have code: "get_bytes (take 16 (ecccalc n) @ ecc_code (ecc o1) @ drop (16 + 4) (ecccalc n)) 16 4 = Some (ecc_code (ecc o1))"
    using assms(6) by (simp add: get_bytes_def)
  have last: "get_bytes o2 60 4 = Some (ecc_code (ecc o1))" using len by (simp add: get_bytes_def o2_def)
  have eq: "write_spare_1bit k c n = Some (n\<lparr>cur_ecc_mode := NAND_ECC_WRITE, dev := s3, oob_poi := o2,
      ecccalc := take 16 (ecccalc n) @ ecc_code (ecc o1) @ drop (16 + 4) (ecccalc n)\<rparr>)"
    using s1(1) get put code last by (simp add: write_spare_1bit_def c en write_buf_def s3_def del: append_take_drop_id)
  show ?thesis unfolding eq using s3 assms(6) by (simp add: o1_def [symmetric] o2_def [symmetric])
qed


lemma write_page_slc:
  assumes "slc_2k c" "ready_at (dev n) \<le> clock (dev n)" "programming (fl (dev n)) page cs 2112 []"
    and "length buf = 2048" "length (oob_poi n) = 64" "20 \<le> length (ecccalc n)"
  shows "\<exists>n'. s3c_nand_write_page_1bit k c buf n = Some n' \<and> ready_at (dev n') \<le> clock (dev n') \<and>
    oob_poi n' = spare_image ecc buf (oob_poi n) \<and> programming (fl (dev n')) page cs 2112 (buf @ oob_poi n') \<and>
    ecc_failed n' = ecc_failed n \<and> length (ecccalc n') = length (ecccalc n)"
proof -
  have steps: "ecc_steps c = 4" using assms(1) by (simp add: slc_2k_def)
  obtain s1 where s1: "write_sectors k c buf 4 0 0 n = Some (n\<lparr>cur_ecc_mode := NAND_ECC_WRITE, dev := s1,
      ecccalc := codes ecc buf @ drop 16 (ecccalc n)\<rparr>)"
    "programming (fl s1) page cs 2112 buf" "ready_at s1 \<le> clock s1"
    using write_sectors_slc [OF assms(1-3), of 4 0 buf] assms(4,6)
    by (auto simp: codes_def sectors_concat)
  define n1 where "n1 = n\<lparr>cur_ecc_mode := NAND_ECC_WRITE, dev := s1, ecccalc := codes ecc buf @ drop 16 (ecccalc n)\<rparr>"
  define n2 where "n2 = n1\<lparr>oob_poi := take 40 (oob_poi n) @ codes ecc buf @ drop 56 (oob_poi n)\<rparr>"
  have n2: "place_codes c n1 = Some n2"
    using place_codes_slc [OF assms(1), of n1] assms(5,6) by (simp add: n1_def n2_def)
  have "take 60 (oob_poi n2) = take 40 (oob_poi n) @ codes ecc buf @ take 4 (drop 56 (oob_poi n))"
    using assms(5) by (simp add: n2_def)
  moreover obtain n3 where "write_spare_1bit k c n2 = Some n3" "ready_at (dev n3) \<le> clock (dev n3)"
    "oob_poi n3 = take 60 (oob_poi n2) @ ecc_code (ecc (take 60 (oob_poi n2)))"
    "programming (fl (dev n3)) page cs 2112 (buf @ oob_poi n3)" "ecc_failed n3 = ecc_failed n2"
    "length (ecccalc n3) = length (ecccalc n2)"
    using write_spare_slc [OF assms(1), of n2 page cs 2112 buf] s1 assms(4-6) by (auto simp: n1_def n2_def)
  ultimately show ?thesis
    using s1(1) n2 steps assms(6)
    by (auto simp: s3c_nand_write_page_1bit_def n1_def [symmetric] spare_image_def Let_def) (simp_all add: n1_def n2_def)
qed

text \<open>The whole write: the page holds what it held and the image of the buffer, bit by bit.\<close>

lemma nand_write_page_slc:
  assumes "slc_2k c" "page < 2 ^ 24" "100 \<le> HZ" "HZ < 2 ^ 31" "\<not> in_panic k" "ready_at (dev n) \<le> clock (dev n)"
    and "length (preg (fl (dev n))) = 2112" "length buf = 2048" "length (oob_poi n) = 64" "20 \<le> length (ecccalc n)"
  shows "\<exists>n'. nand_write_page k c (s3c_nand_write_page_1bit k c buf) HZ (of_nat page) n = Some (True, n') \<and>
    ready_at (dev n') \<le> clock (dev n') \<and> length (preg (fl (dev n'))) = 2112 \<and>
    oob_poi n' = spare_image ecc buf (oob_poi n) \<and> ecc_failed n' = ecc_failed n \<and>
    cells (fl (dev n')) = (cells (fl (dev n)))
      (page := map2 (AND) (cells (fl (dev n)) page) (buf @ spare_image ecc buf (oob_poi n)))"
proof -
  have geom: "2 ^ 27 < chipsize (nand_geom.truncate c)" "\<not> buswidth16 (nand_geom.truncate c)" "has_dev_ready (nand_geom.truncate c)"
    using assms(1) by (simp_all add: slc_2k_def nand_geom.truncate_def)
  obtain s1 where s1: "nand_command_lp k (nand_geom.truncate c) NAND_CMD_SEQIN (of_nat 0) (of_nat page) (dev n) = Some s1"
    "ready_at s1 \<le> clock s1" "programming (fl s1) page (cells (fl (dev n))) 2112 []"
    using cmd_seqin [OF _ assms(2) geom(1,2) assms(6), of 0] assms(7) by (auto simp: programming_def)
  define n1 where "n1 = n\<lparr>dev := s1\<rparr>"
  obtain n2 where n2: "s3c_nand_write_page_1bit k c buf n1 = Some n2"
    "programming (fl (dev n2)) page (cells (fl (dev n))) 2112 (buf @ spare_image ecc buf (oob_poi n))"
    "oob_poi n2 = spare_image ecc buf (oob_poi n)" "ecc_failed n2 = ecc_failed n"
    using write_page_slc [OF assms(1), of n1 page "cells (fl (dev n))" buf] s1 assms(8-10) by (auto simp: n1_def)
  obtain s3 where s3: "nand_command_lp k (nand_geom.truncate c) NAND_CMD_PAGEPROG (- 1) (- 1) (dev n2) = Some s3"
    "fl s3 = flash_cmd 0x10 (ce (fl (dev n2)))" "ready_at s3 \<le> clock s3 + 2"
    using cmd_pageprog by blast
  obtain s4 where s4: "nand_wait k (nand_geom.truncate c) HZ False False s3 = Some (0xC0, s4)" "cells (fl s4) = cells (fl s3)"
    "preg (fl s4) = preg (fl s3)" "ready_at s4 \<le> clock s4"
    using nand_wait_status [OF _ s3(3) assms(3,4) geom(3) assms(5)] by blast
  have len: "length (buf @ spare_image ecc buf (oob_poi n)) = 2112"
    using assms(8,9) by (simp add: spare_image_def Let_def)
  have "nand_write_page k c (s3c_nand_write_page_1bit k c buf) HZ (of_nat page) n = Some (True, n2\<lparr>dev := s4\<rparr>)"
    using s1(1) n2(1) s3(1) s4(1)
    by (simp add: nand_write_page_def cmdfunc_def waitfunc_def n1_def [symmetric] NAND_STATUS_FAIL_def)
  then show ?thesis using s4 n2(2-) len by (simp add: s3 flash_cmd_def programming_def)
qed

end

section \<open>Reading a page\<close>

text \<open>At most one bit of a block has changed.\<close>

definition flip :: "u8 list \<Rightarrow> nat \<Rightarrow> nat \<Rightarrow> u8 list" where
  "flip xs i j = xs[i := xs ! i XOR push_bit j 1]"

definition near :: "u8 list \<Rightarrow> u8 list \<Rightarrow> bool" where
  "near xs ys \<longleftrightarrow> ys = xs \<or> (\<exists>i < length xs. \<exists>j < 8. ys = flip xs i j)"

lemma flip_flip: "i < length xs \<Longrightarrow> flip (flip xs i j) i j = xs"
  by (simp add: flip_def xor.assoc)

lemma near_length: "near xs ys \<Longrightarrow> length ys = length xs"
  by (auto simp: near_def flip_def)

lemma xor_byte_flip: "i < length xs \<Longrightarrow> xor_byte (xs @ ys) i (push_bit j 1) = Some (flip xs i j @ ys)"
  by (simp add: xor_byte_def flip_def list_update_append nth_append)

text \<open>
  What may have happened to a page since it was written: one bit of each sector, and one bit of the spare area before
  its code, as long as the spare area does not read as a JFFS2 clean marker, for which the driver skips the correction.
\<close>

definition readable :: "u8 list \<Rightarrow> u8 list \<Rightarrow> u8 list \<Rightarrow> bool" where
  "readable data spare p \<longleftrightarrow> length p = 2112 \<and> (\<forall>j < 4. near (sector data j) (sector p j)) \<and>
     drop 2108 p = drop 60 spare \<and> near (take 60 spare) (take 60 (drop 2048 p)) \<and>
     (take 60 (drop 2048 p) = take 60 spare \<or> \<not> (p ! 2050 = 0x85 \<and> p ! 2051 = 0x19))"

lemma nth_codes: "j < 4 \<Longrightarrow> take 4 (drop (4 * j) (codes ecc buf)) = ecc_code (ecc (sector buf j))"
proof -
  assume "j < 4"
  then consider "j = 0" | "j = 1" | "j = 2" | "j = 3" by linarith
  moreover have "[0..<4] = [0, 1, 2, 3 :: nat]" by (simp add: upt_rec)
  ultimately show ?thesis by cases (simp_all add: codes_def)
qed

lemma spare_image_code:
  assumes "length oob = 64" "j < 4"
  shows "take 4 (drop (40 + 4 * j) (spare_image ecc buf oob)) = ecc_code (ecc (sector buf j))"
  using nth_codes [OF assms(2), of ecc buf] assms by (simp add: spare_image_def Let_def)

text \<open>The code bytes give the registers back.\<close>

lemma ucast_ucast_byte: "(ucast (ucast (y AND 0xff) :: u8) :: u32) = y AND 0xff"
proof -
  have m: "(0xff :: u32) = mask 8" by (simp add: mask_eq_exp_minus_1)
  show ?thesis by (simp only: m) (rule bit_word_eqI, auto simp: bit_simps)
qed

lemma code_registers:
  "push_bit 16 (ucast (ecc_code x ! Suc 0)) OR ucast (ecc_code x ! 0) = mecc_data0 x"
  "push_bit 16 (ucast (ecc_code x ! 3)) OR ucast (ecc_code x ! 2) = mecc_data1 x"
  by (simp_all add: mecc_data0_def mecc_data1_def ecc_code_def ucast_ucast_byte del: push_bit_and)

context nand_device
begin

lemma slc_correct_near:
  assumes "near xs ys" "stream (fl s) = ys" "length xs \<le> 2048" "take 4 code = ecc_code (ecc xs)" "ready_at s \<le> clock s"
  shows "\<exists>r s' d0 d1. slc_correct k (ys @ zs) code s = Some (r, xs @ zs, s') \<and> r = (if ys = xs then 0 else 1) \<and>
    fl s' = (fl s)\<lparr>meccd0 := d0, meccd1 := d1\<rparr> \<and> ready_at s' \<le> clock s'"
proof -
  have len: "4 \<le> length code" using assms(4) by (metis length_ecc_code length_take min.cobounded1 min_def nat_le_linear)
  then have nth: "code ! i = ecc_code (ecc xs) ! i" if "i < 4" for i using assms(4) that by (metis nth_take)
  define s1 s2 where "s1 = writel k (mecc_data0 (ecc xs)) S3C_NFMECCDATA0 s"
    and "s2 = writel k (mecc_data1 (ecc xs)) S3C_NFMECCDATA1 s1"
  define e s3 where "e = fst (readl k S3C_NFMECCERR0 s2)" and "s3 = snd (readl k S3C_NFMECCERR0 s2)"
  have f2: "fl s2 = (fl s)\<lparr>meccd0 := mecc_data0 (ecc xs), meccd1 := mecc_data1 (ecc xs)\<rparr>" by (simp add: s1_def s2_def wr_fl)
  have e: "e = eccerr (mecc_data0 (ecc xs)) (mecc_data1 (ecc xs)) ys" by (simp add: e_def rd_value f2 assms(2))
  have f3: "fl s3 = fl s2" "ready_at s3 \<le> clock s3"
    using assms(5) rd_keeps [of S3C_NFMECCERR0 s2] wr_time(1) [of S3C_NFMECCDATA0 "mecc_data0 (ecc xs)" s]
      wr_time(1) [of S3C_NFMECCDATA1 "mecc_data1 (ecc xs)" s1]
    unfolding s1_def s2_def s3_def by auto
  have corr: "slc_correct k (ys @ zs) code s =
      (if e AND 3 = 0 then Some (0, ys @ zs, s3)
       else if e AND 3 = 1 then do {
         dat \<leftarrow> xor_byte (ys @ zs) (unat (drop_bit 7 e AND 0x7ff)) (push_bit (unat (drop_bit 4 e AND 7)) 1);
         Some (1, dat, s3) }
       else Some (- 1, ys @ zs, s3))"
    using len by (simp add: slc_correct_def get_bytes_def nth code_registers e_def s3_def s2_def s1_def case_prod_beta Let_def)
  show ?thesis
  proof (cases "ys = xs")
    case True
    then show ?thesis using corr e ecc_same [of xs] f2 f3 by auto
  next
    case False
    then obtain i j where ij: "i < length xs" "j < 8" "ys = flip xs i j" using assms(1) by (auto simp: near_def)
    then have "e AND 3 = 1" "unat (drop_bit 7 e AND 0x7ff) = i" "unat (drop_bit 4 e AND 7) = j"
      using ecc_flip [OF ij(1) assms(3) ij(2)] by (simp_all add: e flip_def Let_def)
    moreover have "xor_byte (ys @ zs) i (push_bit j 1) = Some (xs @ zs)"
      using xor_byte_flip [of i ys zs j] flip_flip [OF ij(1), of j] ij near_length [OF assms(1)] by simp
    ultimately show ?thesis using corr f2 f3 False by auto
  qed
qed

text \<open>Initialise the engine, read a block, and take its code.\<close>

lemma coded_read:
  assumes "nand_type c = S3C_NAND_TYPE_SLC" "ready_at (dev n) \<le> clock (dev n)" "fcmd (fl (dev n)) \<notin> {0x70, 0x90}"
    and "fcol (fl (dev n)) + m \<le> length (preg (fl (dev n)))" "ys = take m (drop (fcol (fl (dev n))) (preg (fl (dev n))))"
  shows "\<exists>s' x. read_buf k m (s3c_nand_enable_hwecc k c mode n) = (ys, n\<lparr>cur_ecc_mode := mode, dev := s'\<rparr>) \<and>
    fl s' = (fl (dev n))\<lparr>cont := x, stream := ys, fcol := fcol (fl (dev n)) + m\<rparr> \<and> ready_at s' \<le> clock s'"
proof -
  obtain s1 x where s1: "s3c_nand_enable_hwecc k c mode n = n\<lparr>cur_ecc_mode := mode, dev := s1\<rparr>"
    "fl s1 = (fl (dev n))\<lparr>cont := x, stream := []\<rparr>" "\<not> bit x 7" "ready_at s1 \<le> clock s1"
    using enable_slc [OF assms(1,2)] by blast
  obtain zs s2 where s2: "(zs, s2) = nand_read_buf k m s1" by (metis surj_pair)
  have "zs = ys" "fl s2 = (fl (dev n))\<lparr>cont := x, stream := ys, fcol := fcol (fl (dev n)) + m\<rparr>" "ready_at s2 \<le> clock s2"
    using read_buf_register [OF _ _ s1(4) s2] s1(2,3) assms(3-5) by simp_all
  then show ?thesis using s2 [symmetric] by (auto simp: read_buf_def s1)
qed


text \<open>
  What the reading functions keep: the page register and what the chip holds; the chip is ready and not in the mode
  in which it answers with its status.
\<close>

definition reading :: "'d nand \<Rightarrow> u8 list \<Rightarrow> (nat \<Rightarrow> u8 list) \<Rightarrow> bool" where
  "reading n p cs \<longleftrightarrow> preg (fl (dev n)) = p \<and> cells (fl (dev n)) = cs \<and> fcmd (fl (dev n)) \<notin> {0x70, 0x90} \<and> ready_at (dev n) \<le> clock (dev n)"

lemma cmdfunc_rndout:
  assumes "slc_2k c" "col < 2 ^ 16" "reading n p cs"
  shows "\<exists>s'. cmdfunc k c NAND_CMD_RNDOUT (of_nat col) (- 1) n = Some (n\<lparr>dev := s'\<rparr>) \<and> reading (n\<lparr>dev := s'\<rparr>) p cs \<and>
    fcol (fl s') = col"
  using cmd_rndout [OF assms(2), of "nand_geom.truncate c" "dev n"] assms
  by (auto simp: cmdfunc_def reading_def slc_2k_def nand_geom.truncate_def)

text \<open>Read a block, take its code, correct it with the code that was stored.\<close>

lemma read_block:
  assumes "slc_2k c" "reading n p cs" "fcol (fl (dev n)) + m \<le> length p" "ys = take m (drop (fcol (fl (dev n))) p)"
    and "i + 4 \<le> length (ecccalc n)"
  shows "\<exists>n1 n2. read_buf k m (s3c_nand_enable_hwecc k c mode n) = (ys, n1) \<and> oob_poi n1 = oob_poi n \<and>
    (\<forall>b. calculate_at k c i (n1\<lparr>oob_poi := b\<rparr>) = Some (n2\<lparr>oob_poi := b\<rparr>)) \<and> reading n2 p cs \<and>
    stream (fl (dev n2)) = ys \<and> fcol (fl (dev n2)) = fcol (fl (dev n)) + m \<and> bit (cont (fl (dev n2))) 7 \<and>
    ecc_failed n2 = ecc_failed n \<and> length (ecccalc n2) = length (ecccalc n) \<and> oob_poi n2 = oob_poi n"
proof -
  have slc: "nand_type c = S3C_NAND_TYPE_SLC" using assms(1) by (simp add: slc_2k_def)
  obtain s1 x where s1: "read_buf k m (s3c_nand_enable_hwecc k c mode n) = (ys, n\<lparr>cur_ecc_mode := mode, dev := s1\<rparr>)"
    "fl s1 = (fl (dev n))\<lparr>cont := x, stream := ys, fcol := fcol (fl (dev n)) + m\<rparr>" "ready_at s1 \<le> clock s1"
    using coded_read [OF slc, of n m ys mode] assms(2-4) by (auto simp: reading_def)
  define n1 where "n1 = n\<lparr>cur_ecc_mode := mode, dev := s1\<rparr>"
  obtain s2 y where s2: "s3c_nand_calculate_ecc k c n1 = Some (ecc_code (ecc ys), n1\<lparr>dev := s2\<rparr>)"
    "fl s2 = (fl s1)\<lparr>cont := y\<rparr>" "bit y 7" "ready_at s2 \<le> clock s2"
    using calculate_slc [OF slc, of n1] s1 by (auto simp: n1_def)
  have any: "s3c_nand_calculate_ecc k c (n1\<lparr>oob_poi := b\<rparr>) = Some (ecc_code (ecc ys), n1\<lparr>dev := s2, oob_poi := b\<rparr>)" for b
  proof -
    have "s3c_nand_calculate_ecc k c (n1\<lparr>oob_poi := b\<rparr>) =
        map_option (\<lambda>(x, m). (x, m\<lparr>oob_poi := b\<rparr>)) (s3c_nand_calculate_ecc k c n1)"
      using slc by (simp add: s3c_nand_calculate_ecc_def case_prod_beta Let_def)
    then show ?thesis by (simp add: s2(1))
  qed
  have calc1: "ecccalc n1 = ecccalc n" by (simp add: n1_def)
  define n2 where "n2 = n1\<lparr>dev := s2, ecccalc := take i (ecccalc n) @ ecc_code (ecc ys) @ drop (i + 4) (ecccalc n)\<rparr>"
  have "calculate_at k c i (n1\<lparr>oob_poi := b\<rparr>) = Some (n2\<lparr>oob_poi := b\<rparr>)" for b
    using assms(5) calc1 by (simp add: calculate_at_def any put_bytes_def n2_def)
  then show ?thesis using s1 s2 assms(2,5) by (intro exI [of _ n1] exI [of _ n2]) (simp add: n1_def n2_def reading_def)
qed


lemma correct_near:
  assumes "slc_2k c" "reading n p cs" "near xs ys" "stream (fl (dev n)) = ys" "length xs \<le> 2048"
    and "take 4 code = ecc_code (ecc xs)"
  shows "\<exists>r s'. s3c_nand_correct_data k c (Some (ys @ zs)) code n = Some (r, Some (xs @ zs), n\<lparr>dev := s'\<rparr>) \<and> r \<noteq> - 1 \<and>
    reading (n\<lparr>dev := s'\<rparr>) p cs"
proof -
  have slc: "nand_type c = S3C_NAND_TYPE_SLC" using assms(1) by (simp add: slc_2k_def)
  have "ready_at (dev n) \<le> clock (dev n)" using assms(2) by (simp add: reading_def)
  from slc_correct_near [OF assms(3-6) this, of zs] obtain r s' d0 d1
    where "slc_correct k (ys @ zs) code (dev n) = Some (r, xs @ zs, s')" "r = (if ys = xs then 0 else 1)"
      "fl s' = (fl (dev n))\<lparr>meccd0 := d0, meccd1 := d1\<rparr>" "ready_at s' \<le> clock s'" by blast
  then show ?thesis
    using slc assms(2) by (intro exI [of _ r] exI [of _ s']) (simp add: s3c_nand_correct_data_def reading_def)
qed

text \<open>The spare area: read back as it was stored, when it is unchanged, or one bit before its code has changed and it does
  not look like a JFFS2 clean marker.\<close>

lemma read_spare_near:
  assumes "slc_2k c" "reading n p cs" "fcol (fl (dev n)) = 2048" "length p = 2112" "20 \<le> length (ecccalc n)"
    and "length (oob_poi n) = 64" "length o1 = 60" "drop 2048 p = q @ ecc_code (ecc o1)" "near o1 q"
    and "q = o1 \<or> \<not> (q ! 2 = 0x85 \<and> q ! 3 = 0x19)"
  shows "\<exists>n'. read_spare_1bit k c n = Some n' \<and> reading n' p cs \<and> oob_poi n' = o1 @ ecc_code (ecc o1) \<and>
    ecc_failed n' = ecc_failed n \<and> length (ecccalc n') = length (ecccalc n)"
proof -
  have c: "nand_type c = S3C_NAND_TYPE_SLC" "secc_start c = Some 60" "ecc_total c = 16" "ecc_bytes c = 4"
    using assms(1) by (simp_all add: slc_2k_def secc_start_def)
  have q: "length q = 60" using near_length [OF assms(9)] assms(7) by simp
  have "q = take 60 (drop 2048 p)" using assms(8) q by simp
  then obtain n1 n2 where n1: "read_buf k 60 (s3c_nand_enable_hwecc k c NAND_ECC_READ n) = (q, n1)" "oob_poi n1 = oob_poi n"
    and calc: "\<And>b. calculate_at k c 16 (n1\<lparr>oob_poi := b\<rparr>) = Some (n2\<lparr>oob_poi := b\<rparr>)"
    and n2: "reading n2 p cs" "stream (fl (dev n2)) = q" "fcol (fl (dev n2)) = 2108" "bit (cont (fl (dev n2))) 7"
      "ecc_failed n2 = ecc_failed n" "length (ecccalc n2) = length (ecccalc n)"
    using read_block [OF assms(1,2), of 60 q 16 NAND_ECC_READ] assms(3-5) by auto
  define code where "code = ecc_code (ecc o1)"
  have code: "drop 2108 p = code" using arg_cong [OF assms(8), of "drop 60"] q by (simp add: code_def)
  obtain zs s3 where s3: "(zs, s3) = nand_read_buf k 4 (dev n2)" by (metis surj_pair)
  have zs: "zs = code" "fl s3 = (fl (dev n2))\<lparr>fcol := 2112, stream := q\<rparr>" "ready_at s3 \<le> clock s3"
    using read_buf_register [OF _ _ _ s3] n2 assms(4) code by (auto simp: reading_def)
  define n3 where "n3 = n2\<lparr>dev := s3, oob_poi := q @ code\<rparr>"
  have n3: "reading n3 p cs" "stream (fl (dev n3)) = q" using n2 zs by (simp_all add: n3_def reading_def)
  have first: "read_oob_poi k 0 60 (s3c_nand_enable_hwecc k c NAND_ECC_READ n) = Some (n1\<lparr>oob_poi := q @ drop 60 (oob_poi n)\<rparr>)"
    using n1 q assms(6) by (simp add: read_oob_poi_def put_bytes_def)
  have second: "read_oob_poi k 60 4 (n2\<lparr>oob_poi := q @ drop 60 (oob_poi n)\<rparr>) = Some n3"
    using s3 [symmetric] zs q assms(6) by (simp add: read_oob_poi_def read_buf_def put_bytes_def n3_def code_def)
  define skip where "skip = (q ! 2 = 0x85 \<and> q ! 3 = 0x19)"
  have jffs2: "jffs2_clean (oob_poi n3) = Some skip"
    using q by (simp add: n3_def jffs2_clean_def get_bytes_def skip_def take_Suc_conv_app_nth nth_append)
  have eq: "read_spare_1bit k c n = (if skip then Some n3 else do {
       (ret, dat, n) \<leftarrow> s3c_nand_correct_data k c (Some (q @ code)) code n3;
       Some (case dat of Some ys \<Rightarrow> n\<lparr>oob_poi := ys\<rparr> | None \<Rightarrow> n) })"
    using first calc second jffs2 q
    by (simp add: read_spare_1bit_def c) (simp add: n3_def)
  show ?thesis
  proof (cases skip)
    case True
    then show ?thesis using assms(10) n3 n2 by (simp add: eq) (simp add: n3_def skip_def code_def)
  next
    case False
    obtain r s' where "s3c_nand_correct_data k c (Some (q @ code)) code n3 = Some (r, Some (o1 @ code), n3\<lparr>dev := s'\<rparr>)"
      "reading (n3\<lparr>dev := s'\<rparr>) p cs"
      using correct_near [OF assms(1) n3(1) assms(9) n3(2), of code code] assms(7) by (auto simp: code_def)
    then show ?thesis using False n2 by (simp add: eq) (simp add: n3_def code_def reading_def)
  qed
qed


lemma read_sectors_near:
  assumes "slc_2k c" "length p = 2112" "length data = 2048" "\<And>j. j < 4 \<Longrightarrow> near (sector data j) (sector p j)"
    and "j + steps = 4" "reading n p cs" "16 \<le> length (ecccalc n)" "length buf = 2048"
    and "\<And>j. j < 4 \<Longrightarrow> take 4 (drop (40 + 4 * j) (oob_poi n)) = ecc_code (ecc (sector data j))"
  shows "\<exists>n'. read_sectors k c steps (4 * j) (512 * j) (512 * j) buf n = Some (take (512 * j) buf @ drop (512 * j) data, n') \<and>
    reading n' p cs \<and> ecc_failed n' = ecc_failed n \<and> oob_poi n' = oob_poi n"
  using assms(5-)
proof (induction steps arbitrary: n j buf)
  case 0
  then show ?case using assms(3) by simp
next
  case (Suc steps)
  then have j: "j < 4" "steps = 3 - j" by simp_all
  have c: "ecc_size c = 512" "ecc_bytes c = 4" "ecc_steps c = 4" "eccpos (ecc_layout c) \<noteq> []" "eccpos (ecc_layout c) ! 0 = 40"
    using assms(1) by (simp_all add: slc_2k_def s3c_nand_oob_64_def)
  define ys where "ys = sector p j"
  have len: "length ys = 512" "length (sector data j) = 512" using j assms(2,3) by (simp_all add: ys_def sector_def)
  obtain s1 where s1: "cmdfunc k c NAND_CMD_RNDOUT (of_nat (512 * j)) (- 1) n = Some (n\<lparr>dev := s1\<rparr>)"
    "reading (n\<lparr>dev := s1\<rparr>) p cs" "fcol (fl s1) = 512 * j"
    using cmdfunc_rndout [OF assms(1) _ Suc.prems(2), of "512 * j"] j by auto
  obtain n1 n2 where n1: "read_buf k 512 (s3c_nand_enable_hwecc k c NAND_ECC_READ (n\<lparr>dev := s1\<rparr>)) = (ys, n1)"
      "oob_poi n1 = oob_poi n"
    and calc: "\<And>b. calculate_at k c (4 * j) (n1\<lparr>oob_poi := b\<rparr>) = Some (n2\<lparr>oob_poi := b\<rparr>)"
    and n2: "reading n2 p cs" "stream (fl (dev n2)) = ys" "ecc_failed n2 = ecc_failed n"
      "length (ecccalc n2) = length (ecccalc n)" "oob_poi n2 = oob_poi n"
    using read_block [OF assms(1) s1(2), of 512 ys "4 * j" NAND_ECC_READ] s1(3) j assms(2) Suc.prems(3)
    by (auto simp: ys_def sector_def)
  have same: "m\<lparr>oob_poi := oob_poi n\<rparr> = m" if "oob_poi m = oob_poi n" for m :: "'a nand" using that by (cases m) simp
  have calc1: "calculate_at k c (4 * j) n1 = Some n2" using calc [of "oob_poi n"] same [OF n1(2)] same [OF n2(5)] by simp
  define zs where "zs = drop (512 * Suc j) buf"
  have put: "put_bytes buf (512 * j) ys = Some (take (512 * j) buf @ ys @ zs)"
    using j len Suc.prems(4) by (simp add: put_bytes_def zs_def add.commute)
  define code where "code = drop (40 + 4 * j) (oob_poi n)"
  have code: "code_of_sector c (Suc steps) n2 = Some code"
    using c j by (simp add: code_of_sector_def eccpos_at_def n2(5) code_def) (simp add: mult.commute)
  obtain r s3 where s3: "s3c_nand_correct_data k c (Some (ys @ zs)) code n2 = Some (r, Some (sector data j @ zs), n2\<lparr>dev := s3\<rparr>)"
    "r \<noteq> - 1" "reading (n2\<lparr>dev := s3\<rparr>) p cs"
    using correct_near [OF assms(1) n2(1) assms(4) [OF j(1)], of code zs] n2(2) len Suc.prems(5) [OF j(1)]
    by (auto simp: ys_def code_def)
  define buf2 where "buf2 = take (512 * j) buf @ sector data j @ zs"
  have corr: "correct_sector k c (take (512 * j) buf @ ys @ zs) (512 * j) code n2 = Some (buf2, n2\<lparr>dev := s3\<rparr>)"
    using s3 j Suc.prems(4) by (simp add: correct_sector_def buf2_def)
  have cols: "512 * (4 + 1 - Suc steps) = 512 * Suc j" "4 * j + 4 = 4 * Suc j" "512 * j + 512 = 512 * Suc j" using j by simp_all
  have step: "read_sectors k c (Suc steps) (4 * j) (512 * j) (512 * j) buf n =
      read_sectors k c steps (4 * Suc j) (512 * Suc j) (512 * Suc j) buf2 (n2\<lparr>dev := s3\<rparr>)"
    using s1(1) by (simp only: read_sectors.simps c Let_def n1 put calc1 code corr bind.bind_lunit option.case prod.case cols
      Option.bind.simps)
  have "take (512 * Suc j) buf2 @ drop (512 * Suc j) data = take (512 * j) buf @ drop (512 * j) data"
  proof -
    have "sector data j @ drop (512 * Suc j) data = drop (512 * j) data"
      by (simp add: sector_def drop_drop [symmetric] add.commute del: drop_drop)
    then show ?thesis using j len Suc.prems(4) by (simp add: buf2_def)
  qed
  then show ?case
    using Suc.IH [of "Suc j" "n2\<lparr>dev := s3\<rparr>" buf2] s3(3) n2 Suc.prems j len unfolding step
    by (simp add: buf2_def zs_def)
qed

lemma nand_read_page_slc:
  assumes "slc_2k c" "page < 2 ^ 24" "\<not> in_panic k" "ready_at (dev n) \<le> clock (dev n)"
    and "length data = 2048" "length oob = 64" "readable data (spare_image ecc data oob) (cells (fl (dev n)) page)"
    and "length buf = 2048" "length (oob_poi n) = 64" "20 \<le> length (ecccalc n)"
  shows "\<exists>n'. do { n \<leftarrow> cmdfunc k c NAND_CMD_READ0 0x00 (of_nat page) n; s3c_nand_read_page_1bit k c buf n } = Some (data, n') \<and>
    oob_poi n' = spare_image ecc data oob \<and> ecc_failed n' = ecc_failed n \<and>
    reading n' (cells (fl (dev n)) page) (cells (fl (dev n)))"
proof -
  define p cs where "p = cells (fl (dev n)) page" and "cs = cells (fl (dev n))"
  define o1 q where "o1 = take 60 (spare_image ecc data oob)" and "q = take 60 (drop 2048 p)"
  have geom: "2 ^ 27 < chipsize (nand_geom.truncate c)" "\<not> buswidth16 (nand_geom.truncate c)" "has_dev_ready (nand_geom.truncate c)"
    and steps: "ecc_steps c = 4" "writesize c = 2048"
    using assms(1) by (simp_all add: slc_2k_def nand_geom.truncate_def)
  have sp: "length o1 = 60" "spare_image ecc data oob = o1 @ ecc_code (ecc o1)"
    "\<And>j. j < 4 \<Longrightarrow> take 4 (drop (40 + 4 * j) (o1 @ ecc_code (ecc o1))) = ecc_code (ecc (sector data j))"
    using assms(6) by (simp_all add: o1_def spare_image_code) (simp_all add: spare_image_def Let_def nth_codes)
  have r: "length p = 2112" "drop 2108 p = ecc_code (ecc o1)" "near o1 q" "q = o1 \<or> \<not> (p ! 2050 = 0x85 \<and> p ! 2051 = 0x19)"
    and sectors: "\<And>j. j < 4 \<Longrightarrow> near (sector data j) (sector p j)"
    using assms(7) sp by (simp_all add: readable_def p_def [symmetric] o1_def [symmetric] q_def [symmetric])
  have "drop 2048 p = q @ drop 60 (drop 2048 p)" by (simp only: q_def append_take_drop_id)
  then have p: "length p = 2112" "drop 2048 p = q @ ecc_code (ecc o1)" "near o1 q" "q = o1 \<or> \<not> (q ! 2 = 0x85 \<and> q ! 3 = 0x19)"
    using r by (simp_all add: q_def)
  obtain s1 where s1: "nand_command_lp k (nand_geom.truncate c) NAND_CMD_READ0 (of_nat 0) (of_nat page) (dev n) = Some s1"
    "reading (n\<lparr>dev := s1\<rparr>) p cs"
    using cmd_read0 [OF _ assms(2) geom assms(3,4), of 0] by (auto simp: reading_def p_def cs_def)
  obtain s2 where s2: "cmdfunc k c NAND_CMD_RNDOUT (of_nat 2048) (- 1) (n\<lparr>dev := s1\<rparr>) = Some (n\<lparr>dev := s2\<rparr>)"
    "reading (n\<lparr>dev := s2\<rparr>) p cs" "fcol (fl s2) = 2048"
    using cmdfunc_rndout [OF assms(1) _ s1(2), of 2048] by auto
  obtain n3 where n3: "read_spare_1bit k c (n\<lparr>dev := s2\<rparr>) = Some n3" "reading n3 p cs" "oob_poi n3 = o1 @ ecc_code (ecc o1)"
    "ecc_failed n3 = ecc_failed n" "length (ecccalc n3) = length (ecccalc n)"
    using read_spare_near [OF assms(1) s2(2) _ p(1) _ _ sp(1) p(2-4)] s2(3) assms(9,10) by auto
  obtain n4 where "read_sectors k c 4 0 0 0 buf n3 = Some (data, n4)" "reading n4 p cs" "ecc_failed n4 = ecc_failed n3"
    "oob_poi n4 = oob_poi n3"
    using read_sectors_near [OF assms(1) p(1) assms(5) sectors, of 0 4 n3 cs buf] n3 sp(3) assms(8,10) by auto
  moreover have "cmdfunc k c NAND_CMD_READ0 0 (of_nat page) n = Some (n\<lparr>dev := s1\<rparr>)" using s1(1) by (simp add: cmdfunc_def)
  ultimately show ?thesis using s2(1) n3 sp(2) steps by (simp add: s3c_nand_read_page_1bit_def p_def cs_def)
qed

end

section \<open>Properties\<close>

lemma sector_append: "length data = 2048 \<Longrightarrow> j < 4 \<Longrightarrow> sector (data @ sp) j = sector data j"
  by (simp add: sector_def)

lemma readable_flip:
  assumes "length data = 2048" "length sp = 64" "i < 512" "b < 8"
  shows "readable data sp (flip (data @ sp) i b)"
proof -
  have f: "flip (data @ sp) i b = flip data i b @ sp" using assms by (simp add: flip_def list_update_append nth_append)
  have "sector (flip data i b) 0 = flip (sector data 0) i b" using assms by (simp add: sector_def flip_def take_update_swap)
  moreover have "sector (flip data i b) j = sector data j" if "0 < j" for j
    using that assms by (simp add: sector_def flip_def)
  ultimately have "near (sector data j) (sector (flip data i b) j)" for j
    using assms by (cases "j = 0") (auto simp: near_def sector_def)
  moreover have "length (flip data i b) = 2048" using assms by (simp add: flip_def)
  ultimately show ?thesis using assms by (simp add: readable_def f sector_append) (simp add: near_def)
qed

text \<open>A chip and a driver state for the witnesses: every byte of the chip is erased.\<close>

definition tiny_chip :: chip where
  "tiny_chip = \<lparr>writesize = 2048, oobsize = 64, chipsize = 2 ^ 28, buswidth16 = False, has_dev_ready = True,
     cpu_type = TYPE_S3C6410, nand_type = S3C_NAND_TYPE_SLC, ecc_size = 512, ecc_bytes = 4, ecc_steps = 4, ecc_total = 16,
     ecc_layout = s3c_nand_oob_64\<rparr>"

definition tiny_flash :: "(nat \<Rightarrow> u8 list) \<Rightarrow> flash" where
  "tiny_flash cs = \<lparr>cells = cs, preg = replicate 2112 0, fcol = 0, fcmd = 0, faddr = [], stream = [], cont = 0,
     meccd0 = 0, meccd1 = 0, fid = \<lambda>i. [0xEC, 0xDA, 0x10, 0x95, 0x44] ! (i mod 5)\<rparr>"

definition tiny_nand :: "(nat \<Rightarrow> u8 list) \<Rightarrow> sim nand" where
  "tiny_nand cs = \<lparr>dev = \<lparr>sim_flash = tiny_flash cs, sim_now = 2 ^ 32 - 1, sim_until = 0\<rparr>, oob_poi = replicate 64 0xff,
     ecccalc = replicate 640 0, cur_ecc_mode = NAND_ECC_READ, ecc_failed = 0, ecc_corrected = 0\<rparr>"

lemma tiny_chip_slc [simp]: "slc_2k tiny_chip"
  by (simp add: slc_2k_def tiny_chip_def)

lemma tiny_nand_simps [simp]:
  "cells (sim_flash (dev (tiny_nand cs))) = cs" "length (preg (sim_flash (dev (tiny_nand cs)))) = 2112"
  "sim_until (dev (tiny_nand cs)) \<le> sim_now (dev (tiny_nand cs))" "oob_poi (tiny_nand cs) = replicate 64 0xff"
  "length (ecccalc (tiny_nand cs)) = 640" "ecc_failed (tiny_nand cs) = 0" "\<not> in_panic sim_machine"
  by (simp_all add: tiny_nand_def tiny_flash_def sim_machine_def)

text \<open>C25: \<open>nand_wait_ready\<close> always returns, and when it does the chip is ready, if the chip needs at most the two
  ticks the function allows.  The clock is a 32-bit counter that may wrap around at any time, also during the wait.\<close>

theorem nand_wait_ready_returns:
  assumes "nand_device k fl clock ready_at spin ecc eccerr" "\<not> in_panic k" "ready_at s \<le> clock s + 2"
  shows "\<exists>s'. nand_wait_ready k s = Some s' \<and> fl s' = fl s \<and> ready_at s' \<le> clock s'"
  using nand_device.nand_wait_ready_ready [OF assms(1)] assms(2,3) by blast

text \<open>C11: writing a page to an erased page of an SLC chip succeeds; the chip then holds, at that page alone, the 2048
  bytes of the buffer and the spare area with the codes of its four sectors at 40 to 55 and its own code at 60 to 63.
  No other page changes.\<close>

theorem nand_write_page_image:
  assumes "nand_device k fl clock ready_at spin ecc eccerr" "slc_2k c" "\<not> in_panic k" "100 \<le> HZ" "HZ < 2 ^ 31"
    and "page < 2 ^ 24" "ready_at (dev n) \<le> clock (dev n)" "length (preg (fl (dev n))) = 2112"
    and "length buf = 2048" "length (oob_poi n) = 64" "20 \<le> length (ecccalc n)"
    and "cells (fl (dev n)) page = replicate 2112 0xff"
  shows "\<exists>n'. nand_write_page k c (s3c_nand_write_page_1bit k c buf) HZ (of_nat page) n = Some (True, n') \<and>
    cells (fl (dev n')) = (cells (fl (dev n)))(page := buf @ spare_image ecc buf (oob_poi n)) \<and>
    ready_at (dev n') \<le> clock (dev n')"
proof -
  have "map2 (AND) (replicate (length xs) 0xff) xs = xs" for xs :: "u8 list"
    by (induction xs) (simp_all add: and_byte_mask)
  from this [of "buf @ spare_image ecc buf (oob_poi n)"]
  have "map2 (AND) (cells (fl (dev n)) page) (buf @ spare_image ecc buf (oob_poi n)) = buf @ spare_image ecc buf (oob_poi n)"
    using assms(9,10,12) by (simp add: length_spare_image)
  with nand_device.nand_write_page_slc [OF assms(1,2,6,4,5,3,7-11)] show ?thesis by auto
qed

theorem nand_wait_ready_returns_witness:
  "\<exists>s'. nand_wait_ready sim_machine (writeb sim_machine 0x30 S3C_NFCMMD (dev (tiny_nand (\<lambda>_. [])))) = Some s' \<and>
    sim_until s' \<le> sim_now s'"
  using nand_wait_ready_returns [OF sim.nand_device_axioms, of "writeb sim_machine 0x30 S3C_NFCMMD (dev (tiny_nand (\<lambda>_. [])))"]
    sim.cmd_time [of "0x30" "dev (tiny_nand (\<lambda>_. []))"]
  by (auto simp: busy_cmds_def)

theorem nand_write_page_image_witness:
  "\<exists>n'. nand_write_page sim_machine tiny_chip (s3c_nand_write_page_1bit sim_machine tiny_chip (replicate 2048 0x5a)) 200
      (of_nat 70000) (tiny_nand (\<lambda>_. replicate 2112 0xff)) = Some (True, n') \<and>
    cells (sim_flash (dev n')) 70000 = replicate 2048 0x5a @ spare_image (sim_code 0) (replicate 2048 0x5a) (replicate 64 0xff)"
  using nand_write_page_image [OF sim.nand_device_axioms tiny_chip_slc, of 200 70000 "tiny_nand (\<lambda>_. replicate 2112 0xff)"
    "replicate 2048 0x5a"] by auto



text \<open>C40: the MLC decoder is never asked about a sector whose bytes 17, 26, 35, 44 and 54 are 0xff: whatever errors the
  controller reports, \<open>s3c_nand_correct_data\<close> returns 0 and leaves the sector as it was read, so up to four
  correctable errors stay in the data and an uncorrectable page is not reported.  The bytes were meant to be those of the
  spare area, as the comment beside the test says.\<close>

theorem mlc_errors_ignored:
  assumes "nand_type c = S3C_NAND_TYPE_MLC" "55 \<le> length dat" "\<forall>i \<in> {17, 26, 35, 44, 54}. dat ! i = 0xff"
    and "s3c_nand_wait_ecc_busy k (dev n) = Some s1"
  shows "\<exists>s'. s3c_nand_correct_data k c (Some dat) read_ecc n = Some (0, Some dat, n\<lparr>dev := s'\<rparr>)"
proof -
  have "get_bytes dat i 1 = Some [0xff]" if "i \<in> {17, 26, 35, 44, 54}" for i
    using that assms(2,3) by (auto simp: get_bytes_def take_Suc_conv_app_nth)
  then have "mlc_looks_free dat = Some True" by (simp add: mlc_looks_free_def)
  then show ?thesis
    using assms(1,4) by (auto simp: s3c_nand_correct_data_def mlc_correct_def case_prod_beta Let_def)
qed

theorem mlc_errors_ignored_witness:
  "\<exists>s'. s3c_nand_correct_data sim_machine (tiny_chip\<lparr>nand_type := S3C_NAND_TYPE_MLC\<rparr>) (Some (replicate 512 0xff)) []
    (tiny_nand (\<lambda>_. [])) = Some (0, Some (replicate 512 0xff), (tiny_nand (\<lambda>_. []))\<lparr>dev := s'\<rparr>)"
proof -
  have "s3c_nand_wait_ecc_busy sim_machine (dev (tiny_nand (\<lambda>_. []))) \<noteq> None"
    by (simp add: s3c_nand_wait_ecc_busy_def case_prod_beta Let_def, subst wait_loop.simps)
      (simp add: sim_defs tiny_nand_def tiny_flash_def time_before_def sim_err_def sim_join_def)
  then show ?thesis
    using mlc_errors_ignored [of "tiny_chip\<lparr>nand_type := S3C_NAND_TYPE_MLC\<rparr>" "replicate 512 0xff" sim_machine
      "tiny_nand (\<lambda>_. [])"] by auto
qed

end
