(* ===== verification/MtdLock.thy ===== *)
theory MtdLock
  imports Prelude
begin

text \<open>
  How the NAND core of the kernel shares a controller: \<open>nand_get_device\<close> and \<open>nand_release_device\<close> of
  \<open>linux/kernel/common/nand_base.c\<close>, with \<open>nand_suspend\<close> and \<open>nand_resume\<close> on top of them.  The spin lock of the
  controller makes each pass of the \<open>retry\<close> loop one atomic step; a thread that does not get the chip puts itself
  on the wait queue within that step, and a release wakes all threads of the queue.

  The threads are a step relation.  With one chip on the controller, as \<open>nand_set_defaults\<close> sets it up, no two
  threads ever hold the chip, and no thread sleeps while the controller is free.  With two chips on one controller
  the resume of one chip can take the controller away from a thread that holds the other.
\<close>

section \<open>The controller\<close>

datatype flstate = FL_READY | FL_STATUS | FL_CFI_QUERY | FL_JEDEC_QUERY | FL_ERASING | FL_ERASE_SUSPENDING
  | FL_ERASE_SUSPENDED | FL_WRITING | FL_WRITING_TO_BUFFER | FL_OTP_WRITE | FL_WRITE_SUSPENDING | FL_WRITE_SUSPENDED
  | FL_PM_SUSPENDED | FL_SYNCING | FL_UNLOADING | FL_LOCKING | FL_UNLOCKING | FL_POINT | FL_XIP_WHILE_ERASING
  | FL_XIP_WHILE_WRITING | FL_SHUTDOWN | FL_READING | FL_CACHEDPRG | FL_RESETING | FL_OTPING | FL_PREPARING_ERASE
  | FL_VERIFYING_ERASE | FL_UNKNOWN

text \<open>The chips of a controller are numbered; \<open>active\<close> is the one that has the controller.\<close>

record nand_hw_control =
  active :: "nat option"
  chip_state :: "nat \<Rightarrow> flstate"

text \<open>One pass of the loop: whether \<open>nand_get_device\<close> returns, and the controller when the lock is released.\<close>

definition get_device_pass :: "nat \<Rightarrow> flstate \<Rightarrow> nand_hw_control \<Rightarrow> bool \<times> nand_hw_control" where
  "get_device_pass chip new_state h =
     (let h = (if active h = None then h\<lparr>active := Some chip\<rparr> else h)
      in if active h = Some chip \<and> chip_state h chip = FL_READY
         then (True, h\<lparr>chip_state := (chip_state h)(chip := new_state)\<rparr>)
         else if new_state = FL_PM_SUSPENDED \<and> chip_state h (the (active h)) = FL_PM_SUSPENDED
         then (True, h\<lparr>chip_state := (chip_state h)(chip := FL_PM_SUSPENDED)\<rparr>)
         else (False, h))"

definition panic_nand_get_device :: "nat \<Rightarrow> flstate \<Rightarrow> nand_hw_control \<Rightarrow> nand_hw_control" where
  "panic_nand_get_device chip new_state h = h\<lparr>active := Some chip, chip_state := (chip_state h)(chip := new_state)\<rparr>"

text \<open>What \<open>nand_release_device\<close> does to the controller, under its lock.\<close>

definition release_control :: "nat \<Rightarrow> nand_hw_control \<Rightarrow> nand_hw_control" where
  "release_control chip h = h\<lparr>active := None, chip_state := (chip_state h)(chip := FL_READY)\<rparr>"

section \<open>Threads\<close>

text \<open>
  A thread is outside the driver, about to take the lock of the controller, asleep on its wait queue, or it holds
  a chip.  A thread that has suspended a chip returns to its caller and leaves the chip suspended.
\<close>

datatype thread = Outside | Trying nat flstate | Asleep nat flstate | Holding nat flstate

type_synonym threads = "nat \<Rightarrow> thread"

text \<open>\<open>wake_up\<close>: every thread of the queue continues at \<open>retry\<close>.\<close>

definition wake_up :: "threads \<Rightarrow> threads" where
  "wake_up thr = (\<lambda>t. case thr t of Asleep chip st \<Rightarrow> Trying chip st | x \<Rightarrow> x)"

text \<open>\<open>chips\<close> are the chips of the controller.\<close>

inductive lock_step :: "nat set \<Rightarrow> nand_hw_control \<times> threads \<Rightarrow> nand_hw_control \<times> threads \<Rightarrow> bool" for chips where
  enter: "thr t = Outside \<Longrightarrow> chip \<in> chips \<Longrightarrow> st \<noteq> FL_READY \<Longrightarrow>
    lock_step chips (h, thr) (h, thr(t := Trying chip st))"
| taken: "thr t = Trying chip st \<Longrightarrow> get_device_pass chip st h = (True, h') \<Longrightarrow> st \<noteq> FL_PM_SUSPENDED \<Longrightarrow>
    lock_step chips (h, thr) (h', thr(t := Holding chip st))"
| suspended: "thr t = Trying chip FL_PM_SUSPENDED \<Longrightarrow> get_device_pass chip FL_PM_SUSPENDED h = (True, h') \<Longrightarrow>
    lock_step chips (h, thr) (h', thr(t := Outside))"
| sleeps: "thr t = Trying chip st \<Longrightarrow> get_device_pass chip st h = (False, h') \<Longrightarrow>
    lock_step chips (h, thr) (h', thr(t := Asleep chip st))"
| released: "thr t = Holding chip st \<Longrightarrow>
    lock_step chips (h, thr) (release_control chip h, wake_up (thr(t := Outside)))"
| resumed: "thr t = Outside \<Longrightarrow> chip \<in> chips \<Longrightarrow> chip_state h chip = FL_PM_SUSPENDED \<Longrightarrow>
    lock_step chips (h, thr) (release_control chip h, wake_up thr)"

inductive_cases lock_stepE: "lock_step chips x y"

definition lock_init :: "nand_hw_control \<times> threads" where
  "lock_init = (\<lparr>active = None, chip_state = \<lambda>_. FL_READY\<rparr>, \<lambda>_. Outside)"

definition lock_reachable :: "nat set \<Rightarrow> nand_hw_control \<times> threads \<Rightarrow> bool" where
  "lock_reachable chips x \<longleftrightarrow> (lock_step chips)\<^sup>*\<^sup>* lock_init x"

lemma lock_reachable_step: "lock_reachable chips x \<Longrightarrow> lock_step chips x y \<Longrightarrow> lock_reachable chips y"
  unfolding lock_reachable_def by (rule rtranclp.rtrancl_into_rtrancl)

text \<open>The states after a list of steps, for concrete runs: a thread enters, or makes a pass, or releases, or resumes a chip.\<close>

datatype move = Enter nat nat flstate | Pass nat | Leave nat | Resume nat nat

definition move :: "nat set \<Rightarrow> move \<Rightarrow> nand_hw_control \<times> threads \<Rightarrow> (nand_hw_control \<times> threads) option" where
  "move chips mv x = (case x of (h, thr) \<Rightarrow>
     (case mv of
        Enter t chip st \<Rightarrow>
          if thr t = Outside \<and> chip \<in> chips \<and> st \<noteq> FL_READY then Some (h, thr(t := Trying chip st)) else None
      | Pass t \<Rightarrow>
          (case thr t of
             Trying chip st \<Rightarrow>
               (case get_device_pass chip st h of (ok, h') \<Rightarrow>
                  Some (h', thr(t := if \<not> ok then Asleep chip st
                                     else if st = FL_PM_SUSPENDED then Outside else Holding chip st)))
           | _ \<Rightarrow> None)
      | Leave t \<Rightarrow>
          (case thr t of Holding chip st \<Rightarrow> Some (release_control chip h, wake_up (thr(t := Outside))) | _ \<Rightarrow> None)
      | Resume t chip \<Rightarrow>
          if thr t = Outside \<and> chip \<in> chips \<and> chip_state h chip = FL_PM_SUSPENDED
          then Some (release_control chip h, wake_up thr) else None))"

fun moves :: "nat set \<Rightarrow> move list \<Rightarrow> nand_hw_control \<times> threads \<Rightarrow> (nand_hw_control \<times> threads) option" where
  "moves chips [] x = Some x"
| "moves chips (mv # mvs) x = Option.bind (move chips mv x) (moves chips mvs)"

lemma move_step: "move chips mv x = Some y \<Longrightarrow> lock_step chips x y"
  by (auto simp: move_def split: move.splits thread.splits prod.splits if_splits intro: lock_step.intros)

lemma moves_reachable: "lock_reachable chips x \<Longrightarrow> moves chips mvs x = Some y \<Longrightarrow> lock_reachable chips y"
  by (induction mvs arbitrary: x) (auto simp: bind_eq_Some_conv dest: lock_reachable_step move_step)

lemma lock_reachable_init [simp]: "lock_reachable chips lock_init"
  by (simp add: lock_reachable_def)

section \<open>One chip\<close>

text \<open>
  The invariant with one chip, number 0: the controller is free exactly when the chip is ready, a thread that holds
  the chip has it in the state it asked for, at most one does, and nobody sleeps while the controller is free.
\<close>

definition held :: "threads \<Rightarrow> bool" where
  "held thr \<longleftrightarrow> (\<exists>t st. thr t = Holding 0 st)"

definition lock_inv :: "nand_hw_control \<times> threads \<Rightarrow> bool" where
  "lock_inv x \<longleftrightarrow> (case x of (h, thr) \<Rightarrow>
     (active h = None \<or> active h = Some 0) \<and> (active h = None \<longleftrightarrow> chip_state h 0 = FL_READY) \<and>
     (\<forall>t chip st. thr t = Trying chip st \<or> thr t = Asleep chip st \<or> thr t = Holding chip st \<longrightarrow> chip = 0 \<and> st \<noteq> FL_READY) \<and>
     (\<forall>t st. thr t = Holding 0 st \<longrightarrow> chip_state h 0 = st \<and> st \<noteq> FL_PM_SUSPENDED) \<and>
     (\<forall>t u st st'. thr t = Holding 0 st \<and> thr u = Holding 0 st' \<longrightarrow> t = u) \<and>
     (\<forall>t st. thr t = Asleep 0 st \<longrightarrow> active h \<noteq> None) \<and>
     (active h \<noteq> None \<longrightarrow> chip_state h 0 = FL_PM_SUSPENDED \<or> held thr))"

lemma held_upd [simp]:
  "(\<forall>st. thr t \<noteq> Holding 0 st) \<Longrightarrow> (\<forall>st. x \<noteq> Holding 0 st) \<Longrightarrow> held (thr(t := x)) = held thr"
  "held (thr(t := Holding 0 st))"
  by (auto simp: held_def)

lemma wake_up_cases [simp]:
  "wake_up thr t = Outside \<longleftrightarrow> thr t = Outside"
  "wake_up thr t = Holding chip st \<longleftrightarrow> thr t = Holding chip st"
  "wake_up thr t = Trying chip st \<longleftrightarrow> thr t = Trying chip st \<or> thr t = Asleep chip st"
  "wake_up thr t \<noteq> Asleep chip st"
  by (simp_all add: wake_up_def split: thread.splits)

lemma lock_inv_init [simp]: "lock_inv lock_init"
  by (simp add: lock_inv_def lock_init_def)

lemma get_device_pass_one:
  assumes "active h = None \<or> active h = Some 0" "active h = None \<longleftrightarrow> chip_state h 0 = FL_READY"
  shows "get_device_pass 0 st h =
    (if active h = None then (True, h\<lparr>active := Some 0, chip_state := (chip_state h)(0 := st)\<rparr>)
     else if st = FL_PM_SUSPENDED \<and> chip_state h 0 = FL_PM_SUSPENDED then (True, h) else (False, h))"
  using assms by (cases h) (auto simp: get_device_pass_def Let_def fun_upd_idem)

lemma lock_inv_trying:
  assumes "lock_inv (h, thr)" "thr t = Trying chip st"
  shows "chip = 0" "st \<noteq> FL_READY" "get_device_pass 0 st h =
    (if active h = None then (True, h\<lparr>active := Some 0, chip_state := (chip_state h)(0 := st)\<rparr>)
     else if st = FL_PM_SUSPENDED \<and> chip_state h 0 = FL_PM_SUSPENDED then (True, h) else (False, h))"
  using assms get_device_pass_one [of h st] unfolding lock_inv_def prod.case by metis+

lemma lock_step_inv: "lock_step {0} x y \<Longrightarrow> lock_inv x \<Longrightarrow> lock_inv y"
proof (induction rule: lock_step.induct)
  case (enter thr t chip st h)
  then show ?case by (auto simp: lock_inv_def)
next
  case (taken thr t chip st h h')
  note tr = lock_inv_trying [OF taken(4,1)]
  have "active h = None" "h' = h\<lparr>active := Some 0, chip_state := (chip_state h)(0 := st)\<rparr>"
    using taken(2,3) tr by (auto split: if_splits)
  with taken(3,4) tr(1,2) show ?case by (auto simp: lock_inv_def)
next
  case (suspended thr t chip h h')
  note tr = lock_inv_trying [OF suspended(3,1)]
  from suspended tr show ?case by (cases "active h") (auto simp: lock_inv_def split: if_splits)
next
  case (sleeps thr t chip st h h')
  note tr = lock_inv_trying [OF sleeps(3,1)]
  have "h' = h" "active h \<noteq> None" using sleeps(2) tr by (auto split: if_splits)
  with sleeps(1,3) tr(1,2) show ?case by (auto simp: lock_inv_def)
next
  case (released thr t chip st h)
  then have "chip = 0" by (auto simp: lock_inv_def)
  with released show ?case by (auto simp: lock_inv_def release_control_def)
next
  case (resumed thr t chip h)
  then show ?case by (auto simp: lock_inv_def release_control_def)
qed

lemma lock_reachable_inv: "lock_reachable {0} x \<Longrightarrow> lock_inv x"
  unfolding lock_reachable_def
  by (induction rule: rtranclp_induct) (auto intro: lock_step_inv)

text \<open>C10: no two threads ever hold the chip, and whenever a thread sleeps for it there is a thread that holds it, whose
  release will wake the sleeper, or the chip is suspended, and its resume will.\<close>

theorem nand_lock_exclusive:
  assumes "lock_reachable {0} (h, thr)"
  shows "(\<forall>t u chip st chip' st'. thr t = Holding chip st \<and> thr u = Holding chip' st' \<longrightarrow> t = u) \<and>
    (\<forall>s chip st. thr s = Asleep chip st \<longrightarrow> chip_state h 0 = FL_PM_SUSPENDED \<or> (\<exists>t st. thr t = Holding 0 st))"
  using lock_reachable_inv [OF assms] unfolding lock_inv_def held_def prod.case by metis

lemmas move_simps = move_def get_device_pass_def release_control_def lock_init_def wake_up_def Let_def

theorem nand_lock_exclusive_witness:
  "\<exists>h thr. lock_reachable {0} (h, thr) \<and> thr 1 = Holding 0 FL_READING \<and> thr 2 = Asleep 0 FL_WRITING \<and>
    (\<forall>u chip st. thr u = Holding chip st \<longrightarrow> u = 1)"
proof -
  have "\<exists>h thr. moves {0} [Enter 1 0 FL_READING, Enter 2 0 FL_WRITING, Pass 1, Pass 2] lock_init = Some (h, thr) \<and>
      thr 1 = Holding 0 FL_READING \<and> thr 2 = Asleep 0 FL_WRITING"
    by (simp add: move_simps)
  then obtain h thr where "lock_reachable {0} (h, thr)" "thr 1 = Holding 0 FL_READING" "thr 2 = Asleep 0 FL_WRITING"
    using moves_reachable [OF lock_reachable_init] by blast
  with nand_lock_exclusive [of h thr] show ?thesis by metis
qed

section \<open>Two chips\<close>

text \<open>C39: with two chips on one controller the lock does not exclude.  Both chips are suspended, the first is resumed
  and taken by a thread; the resume of the second chip then clears \<open>active\<close> although that thread holds the
  controller, and a second thread takes the second chip.\<close>

theorem nand_shared_lock_broken:
  "\<exists>h thr. lock_reachable {0, 1} (h, thr) \<and> thr 1 = Holding 0 FL_READING \<and> thr 2 = Holding 1 FL_WRITING"
proof -
  have "\<exists>h thr. moves {0, 1} [Enter 0 0 FL_PM_SUSPENDED, Pass 0, Enter 0 1 FL_PM_SUSPENDED, Pass 0, Resume 0 0,
      Enter 1 0 FL_READING, Pass 1, Resume 0 1, Enter 2 1 FL_WRITING, Pass 2] lock_init = Some (h, thr) \<and>
      thr 1 = Holding 0 FL_READING \<and> thr 2 = Holding 1 FL_WRITING"
    by (simp add: move_simps)
  then show ?thesis using moves_reachable [OF lock_reachable_init] by blast
qed

end
