(* ===== verification/Mtd.thy ===== *)
theory Mtd
  imports S3cNand MtdLock
begin

text \<open>
  The upper half of the NAND core, the MTD interface of \<open>linux/kernel/common/nand_base.c\<close>: reading and writing at any
  offset with the page cache, the spare area with its three placement modes, erasing, bad blocks, locking of the
  device, suspend and resume.

  The functions the core reaches through \<open>struct nand_chip\<close> are fields of the records \<open>chip_base\<close> and \<open>nand_chip\<close>;
  the table at the end fills them in as \<open>s3c_nand_probe\<close> and \<open>nand_scan\<close> do for an SLC chip with pages of 2 KiB.  The
  driver keeps no bad block table, so \<open>chip->bbt\<close> and \<open>chip->bbt_td\<close> are null.  Buffers are lists, a pointer
  into one is an offset.  The value \<^const>\<open>None\<close> stands for a \<open>BUG()\<close>, an access through a null pointer or outside a
  buffer, a wait that never ends, or a thread that sleeps until another one releases the chip.
\<close>

section \<open>Chip and state\<close>

datatype nand_ecc_modes = NAND_ECC_NONE | NAND_ECC_SOFT | NAND_ECC_HW | NAND_ECC_HW_SYNDROME | NAND_ECC_HW_OOB_FIRST

text \<open>What the functions behind the pointers need themselves.\<close>

record 'd chip_base = chip +
  mtd_size :: u64
  erasesize :: u32
  oobavail :: u32
  options :: u32
  page_shift :: nat
  phys_erase_shift :: nat
  chip_shift :: nat
  pagemask :: s32
  subpagesize :: s32
  badblockpos :: s32
  badblockbits :: s32
  ecc_modus :: nand_ecc_modes
  p_select_chip :: "s32 \<Rightarrow> 'd nand \<Rightarrow> 'd nand option"
  p_read_byte :: "'d nand \<Rightarrow> u8 \<times> 'd nand"
  p_read_word :: "'d nand \<Rightarrow> u16 \<times> 'd nand"
  p_cmdfunc :: "u32 \<Rightarrow> s32 \<Rightarrow> s32 \<Rightarrow> 'd nand \<Rightarrow> 'd nand option"
  p_waitfunc :: "flstate \<Rightarrow> 'd nand \<Rightarrow> (u8 \<times> 'd nand) option"

record 'd nand_chip = "'d chip_base" +
  p_block_bad :: "u64 \<Rightarrow> 'd nand \<Rightarrow> (s32 \<times> 'd nand) option"
  p_erase_cmd :: "s32 \<Rightarrow> 'd nand \<Rightarrow> 'd nand option"
  p_read_page :: "u8 list \<Rightarrow> s32 \<Rightarrow> 'd nand \<Rightarrow> (s32 \<times> u8 list \<times> 'd nand) option"
  p_read_page_raw :: "u8 list \<Rightarrow> s32 \<Rightarrow> 'd nand \<Rightarrow> (s32 \<times> u8 list \<times> 'd nand) option"
  p_read_subpage :: "u32 \<Rightarrow> u32 \<Rightarrow> u8 list \<Rightarrow> 'd nand \<Rightarrow> (s32 \<times> u8 list \<times> 'd nand) option"
  p_write_page :: "u8 list \<Rightarrow> s32 \<Rightarrow> bool \<Rightarrow> 'd nand \<Rightarrow> (s32 \<times> 'd nand) option"
  p_read_oob :: "s32 \<Rightarrow> bool \<Rightarrow> 'd nand \<Rightarrow> (bool \<times> 'd nand) option"
  p_write_oob :: "s32 \<Rightarrow> 'd nand \<Rightarrow> (s32 \<times> 'd nand) option"

definition NAND_NO_AUTOINCR :: u32 where "NAND_NO_AUTOINCR = 0x1"
definition NAND_BUSWIDTH_16 :: u32 where "NAND_BUSWIDTH_16 = 0x2"
definition NAND_NO_PADDING :: u32 where "NAND_NO_PADDING = 0x4"
definition NAND_CACHEPRG :: u32 where "NAND_CACHEPRG = 0x8"
definition NAND_COPYBACK :: u32 where "NAND_COPYBACK = 0x10"
definition NAND_IS_AND :: u32 where "NAND_IS_AND = 0x20"
definition NAND_4PAGE_ARRAY :: u32 where "NAND_4PAGE_ARRAY = 0x40"
definition BBT_AUTO_REFRESH :: u32 where "BBT_AUTO_REFRESH = 0x80"
definition NAND_NO_READRDY :: u32 where "NAND_NO_READRDY = 0x100"
definition NAND_NO_SUBPAGE_WRITE :: u32 where "NAND_NO_SUBPAGE_WRITE = 0x200"
definition NAND_BROKEN_XD :: u32 where "NAND_BROKEN_XD = 0x400"
definition NAND_BBT_SCAN2NDPAGE :: u32 where "NAND_BBT_SCAN2NDPAGE = 0x4000"
definition NAND_BBT_SCANLASTPAGE :: u32 where "NAND_BBT_SCANLASTPAGE = 0x8000"
definition NAND_USE_FLASH_BBT :: u32 where "NAND_USE_FLASH_BBT = 0x10000"
definition NAND_BBT_SCANBYTE1AND6 :: u32 where "NAND_BBT_SCANBYTE1AND6 = 0x100000"
definition NAND_SMALL_BADBLOCK_POS :: s32 where "NAND_SMALL_BADBLOCK_POS = 5"
definition NAND_LARGE_BADBLOCK_POS :: s32 where "NAND_LARGE_BADBLOCK_POS = 0"

lemmas nand_option_defs = NAND_NO_AUTOINCR_def NAND_BUSWIDTH_16_def NAND_NO_PADDING_def NAND_CACHEPRG_def
  NAND_COPYBACK_def NAND_IS_AND_def NAND_4PAGE_ARRAY_def BBT_AUTO_REFRESH_def NAND_NO_READRDY_def
  NAND_NO_SUBPAGE_WRITE_def NAND_BROKEN_XD_def NAND_BBT_SCAN2NDPAGE_def NAND_BBT_SCANLASTPAGE_def
  NAND_USE_FLASH_BBT_def NAND_BBT_SCANBYTE1AND6_def

definition has_option :: "('d, 'z) chip_base_scheme \<Rightarrow> u32 \<Rightarrow> bool" where
  "has_option c x \<longleftrightarrow> options c AND x \<noteq> 0"

definition NAND_CANAUTOINCR :: "('d, 'z) chip_base_scheme \<Rightarrow> bool" where
  "NAND_CANAUTOINCR c \<longleftrightarrow> \<not> has_option c NAND_NO_AUTOINCR"

definition NAND_SUBPAGE_READ :: "('d, 'z) chip_base_scheme \<Rightarrow> bool" where
  "NAND_SUBPAGE_READ c \<longleftrightarrow> ecc_modus c = NAND_ECC_SOFT \<and> 9 < page_shift c"

definition MTD_OOB_PLACE :: u32 where "MTD_OOB_PLACE = 0"
definition MTD_OOB_AUTO :: u32 where "MTD_OOB_AUTO = 1"
definition MTD_OOB_RAW :: u32 where "MTD_OOB_RAW = 2"

lemmas oob_mode_defs = MTD_OOB_PLACE_def MTD_OOB_AUTO_def MTD_OOB_RAW_def

text \<open>A buffer is what the caller's memory holds from the pointer on; \<^const>\<open>None\<close> is a null pointer.\<close>

record mtd_oob_ops =
  o_mode :: u32
  o_len :: u32
  o_retlen :: u32
  o_ooblen :: u32
  o_oobretlen :: u32
  o_ooboffs :: u32
  o_datbuf :: "u8 list option"
  o_oobbuf :: "u8 list option"

text \<open>The state that the core adds: \<open>databuf\<close> holds page \<open>pagebuf\<close>, if that is not -1.\<close>

record 'd mtd =
  nand :: "'d nand"
  databuf :: "u8 list"
  pagebuf :: s32
  control :: nand_hw_control
  chip_ops :: mtd_oob_ops
  badblocks :: u32

definition on_nand :: "('d nand \<Rightarrow> 'd nand option) \<Rightarrow> 'd mtd \<Rightarrow> 'd mtd option" where
  "on_nand f m = do { n \<leftarrow> f (nand m); Some (m\<lparr>nand := n\<rparr>) }"

definition ask_nand :: "('d nand \<Rightarrow> ('a \<times> 'd nand) option) \<Rightarrow> 'd mtd \<Rightarrow> ('a \<times> 'd mtd) option" where
  "ask_nand f m = do { (x, n) \<leftarrow> f (nand m); Some (x, m\<lparr>nand := n\<rparr>) }"

text \<open>\<open>(int)(ofs >> n)\<close> for an \<open>loff_t\<close>.\<close>

definition shift_int :: "u64 \<Rightarrow> nat \<Rightarrow> s32" where
  "shift_int ofs n = ucast (signed_drop_bit n ofs)"

text \<open>\<open>(1 << (chip->phys_erase_shift - chip->page_shift))\<close>\<close>

definition block_pages :: "('d, 'z) chip_base_scheme \<Rightarrow> s32" where
  "block_pages c = push_bit (phys_erase_shift c - page_shift c) 1"

section \<open>Taking and releasing the device\<close>

definition nand_release_device :: "('d, 'z) chip_base_scheme \<Rightarrow> 'd mtd \<Rightarrow> 'd mtd option" where
  "nand_release_device c m = do {
     m \<leftarrow> on_nand (p_select_chip c (- 1)) m;
     Some (m\<lparr>control := release_control 0 (control m)\<rparr>) }"

text \<open>The chip has a controller of its own; a thread that does not get it sleeps.\<close>

definition nand_get_device :: "flstate \<Rightarrow> 'd mtd \<Rightarrow> 'd mtd option" where
  "nand_get_device new_state m =
     (case get_device_pass 0 new_state (control m) of
        (True, h) \<Rightarrow> Some (m\<lparr>control := h\<rparr>)
      | (False, _) \<Rightarrow> None)"

definition nand_sync :: "('d, 'z) chip_base_scheme \<Rightarrow> 'd mtd \<Rightarrow> 'd mtd option" where
  "nand_sync c m = do { m \<leftarrow> nand_get_device FL_SYNCING m; nand_release_device c m }"

definition nand_suspend :: "'d mtd \<Rightarrow> (s32 \<times> 'd mtd) option" where
  "nand_suspend m = do { m \<leftarrow> nand_get_device FL_PM_SUSPENDED m; Some (0, m) }"

definition nand_resume :: "('d, 'z) chip_base_scheme \<Rightarrow> 'd mtd \<Rightarrow> 'd mtd option" where
  "nand_resume c m = (if chip_state (control m) 0 = FL_PM_SUSPENDED then nand_release_device c m else Some m)"

section \<open>Checks\<close>

definition check_offs_len :: "('d, 'z) chip_base_scheme \<Rightarrow> u64 \<Rightarrow> u64 \<Rightarrow> s32" where
  "check_offs_len c ofs len =
     (let mask = scast (push_bit (phys_erase_shift c) 1 - 1 :: s32) :: u64
      in if ofs AND mask \<noteq> 0 \<or> len AND mask \<noteq> 0 \<or> mtd_size c < ofs + len then - EINVAL else 0)"

definition nand_check_wp :: "('d, 'z) chip_base_scheme \<Rightarrow> 'd nand \<Rightarrow> (bool \<times> 'd nand) option" where
  "nand_check_wp c n =
     (if has_option c NAND_BROKEN_XD then Some (False, n)
      else do {
        n \<leftarrow> p_cmdfunc c NAND_CMD_STATUS (- 1) (- 1) n;
        let (x, n) = p_read_byte c n;
        Some (x AND NAND_STATUS_WP = 0, n) })"

text \<open>The number of bits of a byte, summed up in parallel.\<close>

definition hweight8 :: "u32 \<Rightarrow> u32" where
  "hweight8 w =
     (let res = w - (drop_bit 1 w AND 0x55);
          res = (res AND 0x33) + (drop_bit 2 res AND 0x33)
      in (res + drop_bit 4 res) AND 0x0F)"

definition nand_block_bad :: "('d, 'z) chip_base_scheme \<Rightarrow> u64 \<Rightarrow> 'd nand \<Rightarrow> (s32 \<times> 'd nand) option" where
  "nand_block_bad c ofs n = do {
     let ofs = (if has_option c NAND_BBT_SCANLASTPAGE then ofs + ucast (erasesize c - of_nat (writesize c)) else ofs);
     let page = shift_int ofs (page_shift c) AND pagemask c;
     (bad, n) \<leftarrow>
       (if has_option c NAND_BUSWIDTH_16 then do {
          n \<leftarrow> p_cmdfunc c NAND_CMD_READOOB (badblockpos c AND 0xFE) page n;
          let (bad, n) = p_read_word c n;
          Some (if badblockpos c AND 0x1 \<noteq> 0 then drop_bit 8 bad else bad AND 0xFF, n) }
        else do {
          n \<leftarrow> p_cmdfunc c NAND_CMD_READOOB (badblockpos c) page n;
          let (bad, n) = p_read_byte c n;
          Some (ucast bad, n) });
     let res = (if badblockbits c = 8 then bad \<noteq> 0xFF else hweight8 (ucast bad) < badblockbits c);
     Some (if res then 1 else 0, n) }"

text \<open>With \<open>chip->bbt\<close> null.\<close>

definition nand_block_checkbad :: "('d, 'z) nand_chip_scheme \<Rightarrow> u64 \<Rightarrow> bool \<Rightarrow> 'd mtd \<Rightarrow> (s32 \<times> 'd mtd) option" where
  "nand_block_checkbad c ofs getchip m = do {
     m \<leftarrow> (if getchip then do {
            m \<leftarrow> nand_get_device FL_READING m;
            on_nand (p_select_chip c (shift_int ofs (chip_shift c))) m }
          else Some m);
     (res, m) \<leftarrow> ask_nand (p_block_bad c ofs) m;
     m \<leftarrow> (if getchip then nand_release_device c m else Some m);
     Some (res, m) }"

definition nand_block_isbad :: "('d, 'z) nand_chip_scheme \<Rightarrow> u64 \<Rightarrow> 'd mtd \<Rightarrow> (s32 \<times> 'd mtd) option" where
  "nand_block_isbad c offs m = (if mtd_size c < offs then Some (- EINVAL, m) else nand_block_checkbad c offs True m)"

section \<open>The spare area\<close>

text \<open>The parts of the free regions that a transfer of \<open>len\<close> bytes from offset \<open>offs\<close> covers, as offset and length.\<close>

fun oob_chunks :: "(nat \<times> nat) list \<Rightarrow> nat \<Rightarrow> nat \<Rightarrow> (nat \<times> nat) list" where
  "oob_chunks [] offs len = []"
| "oob_chunks ((offset, flen) # free) offs len =
     (if flen = 0 \<or> len = 0 then []
      else if offs \<noteq> 0 then
        (if flen \<le> offs then oob_chunks free (offs - flen) len
         else (let bytes = min len (flen - offs) in (offset + offs, bytes) # oob_chunks free 0 (len - bytes)))
      else (let bytes = min len flen in (offset, bytes) # oob_chunks free 0 (len - bytes)))"

fun get_chunks :: "u8 list \<Rightarrow> (nat \<times> nat) list \<Rightarrow> u8 list option" where
  "get_chunks oob [] = Some []"
| "get_chunks oob ((boffs, bytes) # cs) = do {
     xs \<leftarrow> get_bytes oob boffs bytes;
     ys \<leftarrow> get_chunks oob cs;
     Some (xs @ ys) }"

fun put_chunks :: "u8 list \<Rightarrow> (nat \<times> nat) list \<Rightarrow> u8 list \<Rightarrow> u8 list option" where
  "put_chunks oob [] xs = Some oob"
| "put_chunks oob ((boffs, bytes) # cs) xs = do {
     ys \<leftarrow> get_bytes xs 0 bytes;
     oob \<leftarrow> put_bytes oob boffs ys;
     put_chunks oob cs (drop bytes xs) }"

text \<open>How many spare bytes of a page the client can use.\<close>

definition oob_limit :: "('d, 'z) chip_base_scheme \<Rightarrow> mtd_oob_ops \<Rightarrow> u32" where
  "oob_limit c ops = (if o_mode ops = MTD_OOB_AUTO then oobavail c else of_nat (oobsize c))"

text \<open>The bytes that go to the client's buffer.\<close>

definition nand_transfer_oob ::
  "('d, 'z) chip_base_scheme \<Rightarrow> mtd_oob_ops \<Rightarrow> nat \<Rightarrow> 'd nand \<Rightarrow> u8 list option" where
  "nand_transfer_oob c ops len n =
     (if o_mode ops = MTD_OOB_PLACE \<or> o_mode ops = MTD_OOB_RAW then get_bytes (oob_poi n) (unat (o_ooboffs ops)) len
      else if o_mode ops = MTD_OOB_AUTO
      then get_chunks (oob_poi n) (oob_chunks (oobfree (ecc_layout c)) (unat (o_ooboffs ops)) len)
      else None)"

text \<open>\<open>oob\<close> is the client's buffer from the pointer on.\<close>

definition nand_fill_oob ::
  "('d, 'z) chip_base_scheme \<Rightarrow> u8 list \<Rightarrow> nat \<Rightarrow> mtd_oob_ops \<Rightarrow> 'd nand \<Rightarrow> 'd nand option" where
  "nand_fill_oob c oob len ops n = do {
     ys \<leftarrow> (if o_mode ops = MTD_OOB_PLACE \<or> o_mode ops = MTD_OOB_RAW then do {
              xs \<leftarrow> get_bytes oob 0 len;
              put_bytes (oob_poi n) (unat (o_ooboffs ops)) xs }
            else if o_mode ops = MTD_OOB_AUTO
            then put_chunks (oob_poi n) (oob_chunks (oobfree (ecc_layout c)) (unat (o_ooboffs ops)) len) oob
            else None);
     Some (n\<lparr>oob_poi := ys\<rparr>) }"

definition set_oob_ff :: "('d, 'z) chip_base_scheme \<Rightarrow> 'd nand \<Rightarrow> 'd nand option" where
  "set_oob_ff c n = do {
     ys \<leftarrow> put_bytes (oob_poi n) 0 (replicate (oobsize c) 0xff);
     Some (n\<lparr>oob_poi := ys\<rparr>) }"

definition nand_read_oob_std :: "'d machine \<Rightarrow> chip \<Rightarrow> s32 \<Rightarrow> bool \<Rightarrow> 'd nand \<Rightarrow> (bool \<times> 'd nand) option" where
  "nand_read_oob_std k c page sndcmd n = do {
     n \<leftarrow> (if sndcmd then cmdfunc k c NAND_CMD_READOOB 0 page n else Some n);
     n \<leftarrow> read_oob_poi k 0 (oobsize c) n;
     Some (False, n) }"

definition nand_write_oob_std :: "'d machine \<Rightarrow> chip \<Rightarrow> nat \<Rightarrow> s32 \<Rightarrow> 'd nand \<Rightarrow> (s32 \<times> 'd nand) option" where
  "nand_write_oob_std k c HZ page n = do {
     n \<leftarrow> cmdfunc k c NAND_CMD_SEQIN (of_nat (writesize c)) page n;
     xs \<leftarrow> get_bytes (oob_poi n) 0 (oobsize c);
     let n = write_buf k xs n;
     n \<leftarrow> cmdfunc k c NAND_CMD_PAGEPROG (- 1) (- 1) n;
     (status, n) \<leftarrow> waitfunc k c HZ False n;
     Some (if status AND NAND_STATUS_FAIL \<noteq> 0 then - EIO else 0, n) }"

section \<open>Reading\<close>

text \<open>
  The variables of the loop of \<open>nand_do_read_ops\<close>: \<open>r_buf\<close> and \<open>r_oobpos\<close> are the offsets of \<open>buf\<close> and \<open>oob\<close> in the
  client's buffers \<open>r_dat\<close> and \<open>r_oob\<close>.
\<close>

record read_vars =
  r_ret :: s32
  r_chipnr :: s32
  r_realpage :: s32
  r_page :: s32
  r_col :: s32
  r_sndcmd :: bool
  r_readlen :: u32
  r_oobreadlen :: u32
  r_buf :: nat
  r_dat :: "u8 list"
  r_oobpos :: nat
  r_oob :: "u8 list option"

text \<open>\<open>nand_wait_ready\<close> after a read, for chips without \<open>NAND_NO_READRDY\<close>; without a ready line the code only delays.\<close>

definition read_ready :: "'d machine \<Rightarrow> ('d, 'z) chip_base_scheme \<Rightarrow> 'd nand \<Rightarrow> 'd nand option" where
  "read_ready k c n =
     (if has_option c NAND_NO_READRDY \<or> \<not> has_dev_ready c then Some n
      else do { s \<leftarrow> nand_wait_ready k (dev n); Some (n\<lparr>dev := s\<rparr>) })"

text \<open>The choice of the page function; \<open>bufpoi\<close> is what the destination holds.\<close>

definition fetch_page ::
  "('d, 'z) nand_chip_scheme \<Rightarrow> mtd_oob_ops \<Rightarrow> bool \<Rightarrow> u32 \<Rightarrow> u8 list \<Rightarrow> read_vars \<Rightarrow> 'd nand \<Rightarrow>
    (s32 \<times> u8 list \<times> 'd nand) option" where
  "fetch_page c ops aligned bytes bufpoi v n =
     (if o_mode ops = MTD_OOB_RAW then p_read_page_raw c bufpoi (r_page v) n
      else if \<not> aligned \<and> NAND_SUBPAGE_READ c \<and> r_oob v = None then p_read_subpage c (r_col v) bytes bufpoi n
      else p_read_page c bufpoi (r_page v) n)"

text \<open>The part of the loop for a page that comes from the chip, up to \<open>if (ret < 0) break;\<close>.\<close>

definition read_to_buffer ::
  "('d, 'z) nand_chip_scheme \<Rightarrow> mtd_oob_ops \<Rightarrow> bool \<Rightarrow> u32 \<Rightarrow> read_vars \<Rightarrow> 'd mtd \<Rightarrow> (read_vars \<times> 'd mtd) option" where
  "read_to_buffer c ops aligned bytes v m = do {
     m \<leftarrow> (if r_sndcmd v then on_nand (p_cmdfunc c NAND_CMD_READ0 0x00 (r_page v)) m else Some m);
     let v = v\<lparr>r_sndcmd := False\<rparr>;
     bufpoi \<leftarrow> (if aligned then get_bytes (r_dat v) (r_buf v) (writesize c) else Some (databuf m));
     ((ret, xs), m) \<leftarrow> ask_nand (\<lambda>n. do { (ret, xs, n) \<leftarrow> fetch_page c ops aligned bytes bufpoi v n; Some ((ret, xs), n) }) m;
     let v = v\<lparr>r_ret := ret\<rparr>;
     if aligned then do { ys \<leftarrow> put_bytes (r_dat v) (r_buf v) xs; Some (v\<lparr>r_dat := ys\<rparr>, m) }
     else Some (v, m\<lparr>databuf := xs\<rparr>) }"

text \<open>\<open>memcpy(buf, chip->buffers->databuf + col, bytes); buf += bytes;\<close>\<close>

definition copy_from_cache :: "u32 \<Rightarrow> read_vars \<Rightarrow> 'd mtd \<Rightarrow> read_vars option" where
  "copy_from_cache bytes v m = do {
     xs \<leftarrow> get_bytes (databuf m) (unat (r_col v)) (unat bytes);
     ys \<leftarrow> put_bytes (r_dat v) (r_buf v) xs;
     Some (v\<lparr>r_dat := ys, r_buf := r_buf v + unat bytes\<rparr>) }"

text \<open>The spare bytes of the page, if the client wants them.\<close>

definition read_spare ::
  "('d, 'z) chip_base_scheme \<Rightarrow> mtd_oob_ops \<Rightarrow> u32 \<Rightarrow> read_vars \<Rightarrow> 'd nand \<Rightarrow> read_vars option" where
  "read_spare c ops max_oobsize v n =
     (case r_oob v of
        None \<Rightarrow> Some v
      | Some oob \<Rightarrow>
          (let toread = min (r_oobreadlen v) max_oobsize
           in if toread = 0 then Some v
              else do {
                xs \<leftarrow> nand_transfer_oob c ops (unat toread) n;
                ys \<leftarrow> put_bytes oob (r_oobpos v) xs;
                Some (v\<lparr>r_oob := Some ys, r_oobpos := r_oobpos v + length xs, r_oobreadlen := r_oobreadlen v - toread\<rparr>) }))"

text \<open>One round of the loop, up to \<open>readlen -= bytes\<close>; \<open>failed\<close> is the error count at the start.\<close>

definition read_round ::
  "'d machine \<Rightarrow> ('d, 'z) nand_chip_scheme \<Rightarrow> mtd_oob_ops \<Rightarrow> u32 \<Rightarrow> u32 \<Rightarrow> read_vars \<Rightarrow> 'd mtd \<Rightarrow>
    (read_vars \<times> 'd mtd) option" where
  "read_round k c ops failed max_oobsize v m = do {
     let bytes = min (of_nat (writesize c) - r_col v) (r_readlen v);
     let aligned = (bytes = of_nat (writesize c));
     if r_realpage v \<noteq> pagebuf m \<or> r_oob v \<noteq> None then do {
       (v, m) \<leftarrow> read_to_buffer c ops aligned bytes v m;
       if sint (r_ret v) < 0 then Some (v, m)
       else do {
         let m = (if \<not> aligned \<and> \<not> NAND_SUBPAGE_READ c \<and> r_oob v = None \<and> ecc_failed (nand m) = failed
                  then m\<lparr>pagebuf := r_realpage v\<rparr> else m);
         v \<leftarrow> (if aligned then Some (v\<lparr>r_buf := r_buf v + unat bytes\<rparr>) else copy_from_cache bytes v m);
         v \<leftarrow> read_spare c ops max_oobsize v (nand m);
         m \<leftarrow> on_nand (read_ready k c) m;
         Some (v\<lparr>r_readlen := r_readlen v - bytes\<rparr>, m) } }
     else do {
       v \<leftarrow> copy_from_cache bytes v m;
       Some (v\<lparr>r_readlen := r_readlen v - bytes\<rparr>, m) } }"

text \<open>The next page, and the next chip when a chip boundary is crossed.\<close>

definition next_chip :: "('d, 'z) chip_base_scheme \<Rightarrow> s32 \<Rightarrow> 'd mtd \<Rightarrow> 'd mtd option" where
  "next_chip c chipnr m = do { m \<leftarrow> on_nand (p_select_chip c (- 1)) m; on_nand (p_select_chip c chipnr) m }"

definition next_read_page ::
  "('d, 'z) chip_base_scheme \<Rightarrow> read_vars \<Rightarrow> 'd mtd \<Rightarrow> (read_vars \<times> 'd mtd) option" where
  "next_read_page c v m = do {
     let v = v\<lparr>r_col := 0, r_realpage := r_realpage v + 1\<rparr>;
     let v = v\<lparr>r_page := r_realpage v AND pagemask c\<rparr>;
     (v, m) \<leftarrow>
       (if r_page v = 0 then do {
          let v = v\<lparr>r_chipnr := r_chipnr v + 1\<rparr>;
          m \<leftarrow> next_chip c (r_chipnr v) m;
          Some (v, m) }
        else Some (v, m));
     Some (if \<not> NAND_CANAUTOINCR c \<or> r_page v AND (block_pages c - 1) = 0 then v\<lparr>r_sndcmd := True\<rparr> else v, m) }"

partial_function (option) read_loop ::
  "'d machine \<Rightarrow> ('d, 'z) nand_chip_scheme \<Rightarrow> mtd_oob_ops \<Rightarrow> u32 \<Rightarrow> u32 \<Rightarrow> read_vars \<Rightarrow> 'd mtd \<Rightarrow>
    (read_vars \<times> 'd mtd) option" where
  "read_loop k c ops failed max_oobsize v m = do {
     (v, m) \<leftarrow> read_round k c ops failed max_oobsize v m;
     if sint (r_ret v) < 0 \<or> r_readlen v = 0 then Some (v, m)
     else do {
       (v, m) \<leftarrow> next_read_page c v m;
       read_loop k c ops failed max_oobsize v m } }"

definition nand_do_read_ops ::
  "'d machine \<Rightarrow> ('d, 'z) nand_chip_scheme \<Rightarrow> u64 \<Rightarrow> mtd_oob_ops \<Rightarrow> 'd mtd \<Rightarrow> (s32 \<times> mtd_oob_ops \<times> 'd mtd) option" where
  "nand_do_read_ops k c from ops m = do {
     let max_oobsize = oob_limit c ops;
     let failed = ecc_failed (nand m);
     let corrected = ecc_corrected (nand m);
     let chipnr = shift_int from (chip_shift c);
     m \<leftarrow> on_nand (p_select_chip c chipnr) m;
     let realpage = shift_int from (page_shift c);
     dat \<leftarrow> o_datbuf ops;
     let v = \<lparr>r_ret = 0, r_chipnr = chipnr, r_realpage = realpage, r_page = realpage AND pagemask c,
       r_col = ucast (from AND ucast (of_nat (writesize c) - 1 :: u32)), r_sndcmd = True, r_readlen = o_len ops,
       r_oobreadlen = o_ooblen ops, r_buf = 0, r_dat = dat, r_oobpos = 0, r_oob = o_oobbuf ops\<rparr>;
     (v, m) \<leftarrow> read_loop k c ops failed max_oobsize v m;
     let ops = ops\<lparr>o_retlen := o_len ops - r_readlen v, o_datbuf := Some (r_dat v), o_oobbuf := r_oob v\<rparr>;
     let ops = (if r_oob v \<noteq> None then ops\<lparr>o_oobretlen := o_ooblen ops - r_oobreadlen v\<rparr> else ops);
     Some (if r_ret v \<noteq> 0 then r_ret v
           else if ecc_failed (nand m) \<noteq> failed then - EBADMSG
           else if ecc_corrected (nand m) \<noteq> corrected then - EUCLEAN
           else 0, ops, m) }"

text \<open>The result, what is stored at \<open>retlen\<close> (\<^const>\<open>None\<close>: nothing), and the buffer.\<close>

definition nand_read ::
  "'d machine \<Rightarrow> ('d, 'z) nand_chip_scheme \<Rightarrow> u64 \<Rightarrow> u32 \<Rightarrow> u8 list \<Rightarrow> 'd mtd \<Rightarrow>
    (s32 \<times> u32 option \<times> u8 list \<times> 'd mtd) option" where
  "nand_read k c from len buf m =
     (if mtd_size c < from + ucast len then Some (- EINVAL, None, buf, m)
      else if len = 0 then Some (0, None, buf, m)
      else do {
        m \<leftarrow> nand_get_device FL_READING m;
        let ops = (chip_ops m)\<lparr>o_len := len, o_datbuf := Some buf, o_oobbuf := None\<rparr>;
        (ret, ops, m) \<leftarrow> nand_do_read_ops k c from ops m;
        let m = m\<lparr>chip_ops := ops\<rparr>;
        buf \<leftarrow> o_datbuf ops;
        m \<leftarrow> nand_release_device c m;
        Some (ret, Some (o_retlen ops), buf, m) })"

text \<open>
  \<open>min\<close> of two \<open>int\<close>s; a negative length that reaches \<open>memcpy\<close> is a huge unsigned one, which no buffer has.
\<close>

definition smin :: "s32 \<Rightarrow> s32 \<Rightarrow> s32" where
  "smin a b = (if sint a \<le> sint b then a else b)"

definition oob_buffer :: "mtd_oob_ops \<Rightarrow> u8 list" where
  "oob_buffer ops = (case o_oobbuf ops of Some xs \<Rightarrow> xs | None \<Rightarrow> [])"

text \<open>The spare bytes from the page of \<open>ofs\<close> to the end of the device, \<open>len\<close> for each page.\<close>

definition oob_room :: "('d, 'z) chip_base_scheme \<Rightarrow> u64 \<Rightarrow> u32 \<Rightarrow> u64" where
  "oob_room c ofs len = (drop_bit (page_shift c) (mtd_size c) - signed_drop_bit (page_shift c) ofs) * ucast len"

partial_function (option) read_oob_loop ::
  "'d machine \<Rightarrow> ('d, 'z) nand_chip_scheme \<Rightarrow> mtd_oob_ops \<Rightarrow> s32 \<Rightarrow> u8 list \<Rightarrow> read_vars \<Rightarrow> 'd mtd \<Rightarrow>
    (u8 list \<times> 'd mtd) option" where
  "read_oob_loop k c ops len oob v m = do {
     (sndcmd, m) \<leftarrow> ask_nand (p_read_oob c (r_page v) (r_sndcmd v)) m;
     let v = v\<lparr>r_sndcmd := sndcmd\<rparr>;
     let len = smin len (r_readlen v);
     xs \<leftarrow> nand_transfer_oob c ops (unat len) (nand m);
     oob \<leftarrow> put_bytes oob (r_oobpos v) xs;
     let v = v\<lparr>r_oobpos := r_oobpos v + length xs\<rparr>;
     m \<leftarrow> on_nand (read_ready k c) m;
     let v = v\<lparr>r_readlen := r_readlen v - len\<rparr>;
     if r_readlen v = 0 then Some (oob, m)
     else do {
       (v, m) \<leftarrow> next_read_page c v m;
       read_oob_loop k c ops len oob v m } }"

definition nand_do_read_oob ::
  "'d machine \<Rightarrow> ('d, 'z) nand_chip_scheme \<Rightarrow> u64 \<Rightarrow> mtd_oob_ops \<Rightarrow> 'd mtd \<Rightarrow> (s32 \<times> mtd_oob_ops \<times> 'd mtd) option" where
  "nand_do_read_oob k c from ops m =
     (let readlen = o_ooblen ops;
          len = oob_limit c ops
      in if len \<le> o_ooboffs ops then Some (- EINVAL, ops, m)
         else if mtd_size c \<le> from \<or> oob_room c from len < ucast (o_ooboffs ops + readlen) then Some (- EINVAL, ops, m)
         else do {
           let chipnr = shift_int from (chip_shift c);
           m \<leftarrow> on_nand (p_select_chip c chipnr) m;
           let realpage = shift_int from (page_shift c);
           let v = \<lparr>r_ret = 0, r_chipnr = chipnr, r_realpage = realpage, r_page = realpage AND pagemask c, r_col = 0,
             r_sndcmd = True, r_readlen = readlen, r_oobreadlen = 0, r_buf = 0, r_dat = [], r_oobpos = 0, r_oob = None\<rparr>;
           (oob, m) \<leftarrow> read_oob_loop k c ops len (oob_buffer ops) v m;
           Some (0, ops\<lparr>o_oobretlen := o_ooblen ops, o_oobbuf := map_option (\<lambda>_. oob) (o_oobbuf ops)\<rparr>, m) })"

definition known_mode :: "mtd_oob_ops \<Rightarrow> bool" where
  "known_mode ops \<longleftrightarrow> o_mode ops = MTD_OOB_PLACE \<or> o_mode ops = MTD_OOB_AUTO \<or> o_mode ops = MTD_OOB_RAW"

definition nand_read_oob ::
  "'d machine \<Rightarrow> ('d, 'z) nand_chip_scheme \<Rightarrow> u64 \<Rightarrow> mtd_oob_ops \<Rightarrow> 'd mtd \<Rightarrow> (s32 \<times> mtd_oob_ops \<times> 'd mtd) option" where
  "nand_read_oob k c from ops m =
     (let ops = ops\<lparr>o_retlen := 0\<rparr>
      in if o_datbuf ops \<noteq> None \<and> mtd_size c < from + ucast (o_len ops) then Some (- EINVAL, ops, m)
         else do {
           m \<leftarrow> nand_get_device FL_READING m;
           (ret, ops, m) \<leftarrow>
             (if \<not> known_mode ops then Some (- ENOTSUPP, ops, m)
              else if o_datbuf ops = None then nand_do_read_oob k c from ops m
              else nand_do_read_ops k c from ops m);
           m \<leftarrow> nand_release_device c m;
           Some (ret, ops, m) })"

section \<open>Writing\<close>

record write_vars =
  w_ret :: s32
  w_chipnr :: s32
  w_realpage :: s32
  w_page :: s32
  w_column :: s32
  w_writelen :: u32
  w_oobwritelen :: u32
  w_buf :: nat
  w_oobpos :: nat

definition NOTALIGNED :: "('d, 'z) chip_base_scheme \<Rightarrow> u64 \<Rightarrow> bool" where
  "NOTALIGNED c x \<longleftrightarrow> x AND scast (subpagesize c - 1) \<noteq> 0"

text \<open>
  The bytes of this round and what is written.  A part of a page is padded with 0xff in \<open>databuf\<close>, whose former
  content is lost.
\<close>

definition write_source ::
  "('d, 'z) chip_base_scheme \<Rightarrow> u8 list \<Rightarrow> write_vars \<Rightarrow> 'd mtd \<Rightarrow> (s32 \<times> u8 list \<times> 'd mtd) option" where
  "write_source c dat v m =
     (let bytes = of_nat (writesize c)
      in if w_column v \<noteq> 0 \<or> w_writelen v < of_nat (writesize c) - 1 then do {
           let bytes = smin (bytes - w_column v) (w_writelen v);
           xs \<leftarrow> get_bytes dat (w_buf v) (unat bytes);
           ys \<leftarrow> put_bytes (databuf m) 0 (replicate (writesize c) 0xff);
           ys \<leftarrow> put_bytes ys (unat (w_column v)) xs;
           Some (bytes, ys, m\<lparr>pagebuf := - 1, databuf := ys\<rparr>) }
         else do {
           xs \<leftarrow> get_bytes dat (w_buf v) (writesize c);
           Some (bytes, xs, m) })"

text \<open>The spare bytes of this page from the client's buffer; the pointer moves by what is transferred.\<close>

definition write_spare ::
  "('d, 'z) chip_base_scheme \<Rightarrow> mtd_oob_ops \<Rightarrow> u32 \<Rightarrow> write_vars \<Rightarrow> 'd mtd \<Rightarrow> (write_vars \<times> 'd mtd) option" where
  "write_spare c ops oobmaxlen v m =
     (case o_oobbuf ops of
        None \<Rightarrow> Some (v, m)
      | Some oob \<Rightarrow> do {
          let len = min (w_oobwritelen v) oobmaxlen;
          m \<leftarrow> on_nand (nand_fill_oob c (drop (w_oobpos v) oob) (unat len) ops) m;
          let moved = (if o_mode ops = MTD_OOB_AUTO
            then sum_list (map snd (oob_chunks (oobfree (ecc_layout c)) (unat (o_ooboffs ops)) (unat len))) else unat len);
          Some (v\<lparr>w_oobpos := w_oobpos v + moved, w_oobwritelen := w_oobwritelen v - len\<rparr>, m) })"

definition write_round ::
  "('d, 'z) nand_chip_scheme \<Rightarrow> mtd_oob_ops \<Rightarrow> u8 list \<Rightarrow> u32 \<Rightarrow> write_vars \<Rightarrow> 'd mtd \<Rightarrow> (write_vars \<times> 'd mtd) option" where
  "write_round c ops dat oobmaxlen v m = do {
     (bytes, wbuf, m) \<leftarrow> write_source c dat v m;
     (v, m) \<leftarrow> write_spare c ops oobmaxlen v m;
     (ret, m) \<leftarrow> ask_nand (p_write_page c wbuf (w_page v) (o_mode ops = MTD_OOB_RAW)) m;
     let v = v\<lparr>w_ret := ret\<rparr>;
     if ret \<noteq> 0 then Some (v, m)
     else Some (v\<lparr>w_writelen := w_writelen v - bytes, w_buf := w_buf v + unat bytes\<rparr>, m) }"

definition next_write_page ::
  "('d, 'z) chip_base_scheme \<Rightarrow> write_vars \<Rightarrow> 'd mtd \<Rightarrow> (write_vars \<times> 'd mtd) option" where
  "next_write_page c v m = do {
     let v = v\<lparr>w_column := 0, w_realpage := w_realpage v + 1\<rparr>;
     let v = v\<lparr>w_page := w_realpage v AND pagemask c\<rparr>;
     if w_page v = 0 then do {
       let v = v\<lparr>w_chipnr := w_chipnr v + 1\<rparr>;
       m \<leftarrow> next_chip c (w_chipnr v) m;
       Some (v, m) }
     else Some (v, m) }"

partial_function (option) write_loop ::
  "('d, 'z) nand_chip_scheme \<Rightarrow> mtd_oob_ops \<Rightarrow> u8 list \<Rightarrow> u32 \<Rightarrow> write_vars \<Rightarrow> 'd mtd \<Rightarrow> (write_vars \<times> 'd mtd) option" where
  "write_loop c ops dat oobmaxlen v m = do {
     (v, m) \<leftarrow> write_round c ops dat oobmaxlen v m;
     if w_ret v \<noteq> 0 \<or> w_writelen v = 0 then Some (v, m)
     else do {
       (v, m) \<leftarrow> next_write_page c v m;
       write_loop c ops dat oobmaxlen v m } }"

text \<open>\<open>chip->pagebuf << chip->page_shift\<close> is an \<open>int\<close>, also where it is compared with an \<open>loff_t\<close>.\<close>

definition drop_cached :: "('d, 'z) chip_base_scheme \<Rightarrow> u64 \<Rightarrow> u32 \<Rightarrow> 'd mtd \<Rightarrow> 'd mtd" where
  "drop_cached c to len m =
     (let start = sint (push_bit (page_shift c) (pagebuf m))
      in if sint to \<le> start \<and> start < sint (to + ucast len) then m\<lparr>pagebuf := - 1\<rparr> else m)"

definition nand_do_write_ops ::
  "('d, 'z) nand_chip_scheme \<Rightarrow> u64 \<Rightarrow> mtd_oob_ops \<Rightarrow> 'd mtd \<Rightarrow> (s32 \<times> mtd_oob_ops \<times> 'd mtd) option" where
  "nand_do_write_ops c to ops m =
     (let writelen = o_len ops;
          oobmaxlen = oob_limit c ops;
          ops = ops\<lparr>o_retlen := 0\<rparr>;
          column = ucast (to AND ucast (of_nat (writesize c) - 1 :: u32));
          subpage = (column \<noteq> 0 \<or> writelen AND (of_nat (writesize c) - 1) \<noteq> 0)
      in if writelen = 0 then Some (0, ops, m)
         else if NOTALIGNED c to \<or> NOTALIGNED c (ucast (o_len ops)) then Some (- EINVAL, ops, m)
         else if subpage \<and> o_oobbuf ops \<noteq> None then Some (- EINVAL, ops, m)
         else do {
           let chipnr = shift_int to (chip_shift c);
           m \<leftarrow> on_nand (p_select_chip c chipnr) m;
           (wp, m) \<leftarrow> ask_nand (nand_check_wp c) m;
           if wp then Some (- EIO, ops, m)
           else do {
             let realpage = shift_int to (page_shift c);
             let m = drop_cached c to (o_len ops) m;
             m \<leftarrow> (if o_oobbuf ops = None then on_nand (set_oob_ff c) m else Some m);
             if o_oobbuf ops \<noteq> None \<and> o_ooboffs ops \<noteq> 0 \<and> oobmaxlen < o_ooboffs ops + o_ooblen ops
             then Some (- EINVAL, ops, m)
             else do {
               dat \<leftarrow> o_datbuf ops;
               let v = \<lparr>w_ret = 0, w_chipnr = chipnr, w_realpage = realpage, w_page = realpage AND pagemask c,
                 w_column = column, w_writelen = writelen, w_oobwritelen = o_ooblen ops, w_buf = 0, w_oobpos = 0\<rparr>;
               (v, m) \<leftarrow> write_loop c ops dat oobmaxlen v m;
               let ops = ops\<lparr>o_retlen := o_len ops - w_writelen v\<rparr>;
               let ops = (if o_oobbuf ops \<noteq> None then ops\<lparr>o_oobretlen := o_ooblen ops\<rparr> else ops);
               Some (w_ret v, ops, m) } } })"

definition nand_write ::
  "('d, 'z) nand_chip_scheme \<Rightarrow> u64 \<Rightarrow> u32 \<Rightarrow> u8 list \<Rightarrow> 'd mtd \<Rightarrow> (s32 \<times> u32 option \<times> 'd mtd) option" where
  "nand_write c to len buf m =
     (if mtd_size c < to + ucast len then Some (- EINVAL, None, m)
      else if len = 0 then Some (0, None, m)
      else do {
        m \<leftarrow> nand_get_device FL_WRITING m;
        let ops = (chip_ops m)\<lparr>o_len := len, o_datbuf := Some buf, o_oobbuf := None\<rparr>;
        (ret, ops, m) \<leftarrow> nand_do_write_ops c to ops m;
        m \<leftarrow> nand_release_device c (m\<lparr>chip_ops := ops\<rparr>);
        Some (ret, Some (o_retlen ops), m) })"

definition panic_nand_wait :: "'d machine \<Rightarrow> ('d, 'z) chip_base_scheme \<Rightarrow> nat \<Rightarrow> 'd nand \<Rightarrow> 'd nand" where
  "panic_nand_wait k c timeo n =
     panic_loop timeo
       (\<lambda>n. if has_dev_ready c then (let (ok, s) = s3c_nand_device_ready k (dev n) in (ok, n\<lparr>dev := s\<rparr>))
            else (let (x, n) = p_read_byte c n in (x AND NAND_STATUS_READY \<noteq> 0, n))) n"

definition panic_nand_write ::
  "'d machine \<Rightarrow> ('d, 'z) nand_chip_scheme \<Rightarrow> u64 \<Rightarrow> u32 \<Rightarrow> u8 list \<Rightarrow> 'd mtd \<Rightarrow> (s32 \<times> u32 option \<times> 'd mtd) option" where
  "panic_nand_write k c to len buf m =
     (if mtd_size c < to + ucast len then Some (- EINVAL, None, m)
      else if len = 0 then Some (0, None, m)
      else do {
        let m = m\<lparr>nand := panic_nand_wait k c 400 (nand m)\<rparr>;
        let m = m\<lparr>control := panic_nand_get_device 0 FL_WRITING (control m)\<rparr>;
        let ops = (chip_ops m)\<lparr>o_len := len, o_datbuf := Some buf, o_oobbuf := None\<rparr>;
        (ret, ops, m) \<leftarrow> nand_do_write_ops c to ops m;
        Some (ret, Some (o_retlen ops), m\<lparr>chip_ops := ops\<rparr>) })"

definition nand_do_write_oob ::
  "('d, 'z) nand_chip_scheme \<Rightarrow> u64 \<Rightarrow> mtd_oob_ops \<Rightarrow> 'd mtd \<Rightarrow> (s32 \<times> mtd_oob_ops \<times> 'd mtd) option" where
  "nand_do_write_oob c to ops m =
     (let len = oob_limit c ops
      in if len < o_ooboffs ops + o_ooblen ops then Some (- EINVAL, ops, m)
         else if len \<le> o_ooboffs ops then Some (- EINVAL, ops, m)
         else if mtd_size c \<le> to \<or> oob_room c to len < ucast (o_ooboffs ops + o_ooblen ops) then Some (- EINVAL, ops, m)
         else do {
           m \<leftarrow> on_nand (p_select_chip c (shift_int to (chip_shift c))) m;
           let page = shift_int to (page_shift c);
           m \<leftarrow> on_nand (p_cmdfunc c NAND_CMD_RESET (- 1) (- 1)) m;
           (wp, m) \<leftarrow> ask_nand (nand_check_wp c) m;
           if wp then Some (- EROFS, ops, m)
           else do {
             let m = (if page = pagebuf m then m\<lparr>pagebuf := - 1\<rparr> else m);
             m \<leftarrow> on_nand (set_oob_ff c) m;
             m \<leftarrow> on_nand (nand_fill_oob c (oob_buffer ops) (unat (o_ooblen ops)) ops) m;
             (status, m) \<leftarrow> ask_nand (p_write_oob c (page AND pagemask c)) m;
             m \<leftarrow> on_nand (set_oob_ff c) m;
             if status \<noteq> 0 then Some (status, ops, m)
             else Some (0, ops\<lparr>o_oobretlen := o_ooblen ops\<rparr>, m) } })"

definition nand_write_oob ::
  "('d, 'z) nand_chip_scheme \<Rightarrow> u64 \<Rightarrow> mtd_oob_ops \<Rightarrow> 'd mtd \<Rightarrow> (s32 \<times> mtd_oob_ops \<times> 'd mtd) option" where
  "nand_write_oob c to ops m =
     (let ops = ops\<lparr>o_retlen := 0\<rparr>
      in if o_datbuf ops \<noteq> None \<and> mtd_size c < to + ucast (o_len ops) then Some (- EINVAL, ops, m)
         else do {
           m \<leftarrow> nand_get_device FL_WRITING m;
           (ret, ops, m) \<leftarrow>
             (if \<not> known_mode ops then Some (- ENOTSUPP, ops, m)
              else if o_datbuf ops = None then nand_do_write_oob c to ops m
              else nand_do_write_ops c to ops m);
           m \<leftarrow> nand_release_device c m;
           Some (ret, ops, m) })"

section \<open>Bad blocks\<close>

text \<open>\<open>nand_update_bbt\<close> without a table.\<close>

definition nand_update_bbt :: s32 where
  "nand_update_bbt = - EINVAL"

text \<open>One round of the loop of \<open>nand_default_block_markbad\<close>.\<close>

definition markbad_write :: "('d, 'z) nand_chip_scheme \<Rightarrow> s32 \<Rightarrow> u64 \<Rightarrow> 'd mtd \<Rightarrow> (s32 \<times> 'd mtd) option" where
  "markbad_write c pos ofs m = do {
     let ops = (chip_ops m)\<lparr>o_len := 2, o_ooblen := 2, o_datbuf := None, o_oobbuf := Some [0, 0],
       o_ooboffs := pos AND NOT 0x01\<rparr>;
     (ret, ops, m) \<leftarrow> nand_do_write_oob c ofs ops m;
     Some (ret, m\<lparr>chip_ops := ops\<rparr>) }"

definition markbad_round :: "('d, 'z) nand_chip_scheme \<Rightarrow> u64 \<Rightarrow> 'd mtd \<Rightarrow> (s32 \<times> 'd mtd) option" where
  "markbad_round c ofs m = do {
     (ret, m) \<leftarrow> markbad_write c (badblockpos c) ofs m;
     if ret = 0 \<and> has_option c NAND_BBT_SCANBYTE1AND6 then markbad_write c NAND_SMALL_BADBLOCK_POS ofs m
     else Some (ret, m) }"

definition nand_default_block_markbad :: "('d, 'z) nand_chip_scheme \<Rightarrow> u64 \<Rightarrow> 'd mtd \<Rightarrow> (s32 \<times> 'd mtd) option" where
  "nand_default_block_markbad c ofs m = do {
     let ofs = (if has_option c NAND_BBT_SCANLASTPAGE then ofs + ucast (erasesize c - of_nat (writesize c)) else ofs);
     (ret, m) \<leftarrow>
       (if has_option c NAND_USE_FLASH_BBT then Some (nand_update_bbt, m)
        else do {
          m \<leftarrow> nand_get_device FL_WRITING m;
          (ret, m) \<leftarrow> markbad_round c ofs m;
          (ret, m) \<leftarrow> (if ret = 0 \<and> has_option c NAND_BBT_SCAN2NDPAGE
                      then markbad_round c (ofs + of_nat (writesize c)) m else Some (ret, m));
          m \<leftarrow> nand_release_device c m;
          Some (ret, m) });
     Some (ret, if ret = 0 then m\<lparr>badblocks := badblocks m + 1\<rparr> else m) }"

definition nand_block_markbad :: "('d, 'z) nand_chip_scheme \<Rightarrow> u64 \<Rightarrow> 'd mtd \<Rightarrow> (s32 \<times> 'd mtd) option" where
  "nand_block_markbad c ofs m = do {
     (ret, m) \<leftarrow> nand_block_isbad c ofs m;
     if ret \<noteq> 0 then Some (if 0 < sint ret then 0 else ret, m)
     else nand_default_block_markbad c ofs m }"

section \<open>Erasing\<close>

definition MTD_ERASING :: u8 where "MTD_ERASING = 0x02"
definition MTD_ERASE_DONE :: u8 where "MTD_ERASE_DONE = 0x08"
definition MTD_ERASE_FAILED :: u8 where "MTD_ERASE_FAILED = 0x10"
definition MTD_FAIL_ADDR_UNKNOWN :: u64 where "MTD_FAIL_ADDR_UNKNOWN = - 1"

lemmas erase_state_defs = MTD_ERASING_def MTD_ERASE_DONE_def MTD_ERASE_FAILED_def MTD_FAIL_ADDR_UNKNOWN_def

text \<open>\<open>called\<close>: the client's callback has been called.\<close>

record erase_info =
  ei_addr :: u64
  ei_len :: u64
  ei_fail_addr :: u64
  ei_state :: u8
  ei_called :: bool

definition multi_erase_cmd :: "'d machine \<Rightarrow> chip \<Rightarrow> s32 \<Rightarrow> 'd nand \<Rightarrow> 'd nand option" where
  "multi_erase_cmd k c page n = do {
     n \<leftarrow> cmdfunc k c NAND_CMD_ERASE1 (- 1) page n;
     n \<leftarrow> cmdfunc k c NAND_CMD_ERASE1 (- 1) (page + 1) n;
     n \<leftarrow> cmdfunc k c NAND_CMD_ERASE1 (- 1) (page + 2) n;
     n \<leftarrow> cmdfunc k c NAND_CMD_ERASE1 (- 1) (page + 3) n;
     cmdfunc k c NAND_CMD_ERASE2 (- 1) (- 1) n }"

text \<open>One block: the bad block check, the page cache, the command and its result.  The driver has no \<open>errstat\<close>.\<close>

definition erase_one ::
  "('d, 'z) nand_chip_scheme \<Rightarrow> s32 \<Rightarrow> erase_info \<Rightarrow> 'd mtd \<Rightarrow> (erase_info \<times> 'd mtd) option" where
  "erase_one c page instr m = do {
     (bad, m) \<leftarrow> nand_block_checkbad c (push_bit (page_shift c) (scast page)) False m;
     if bad \<noteq> 0 then Some (instr\<lparr>ei_state := MTD_ERASE_FAILED\<rparr>, m)
     else do {
       let m = (if sint page \<le> sint (pagebuf m) \<and> sint (pagebuf m) < sint (page + block_pages c)
                then m\<lparr>pagebuf := - 1\<rparr> else m);
       m \<leftarrow> on_nand (p_erase_cmd c (page AND pagemask c)) m;
       (status, m) \<leftarrow> ask_nand (p_waitfunc c (chip_state (control m) 0)) m;
       Some (if status AND NAND_STATUS_FAIL \<noteq> 0
             then instr\<lparr>ei_state := MTD_ERASE_FAILED, ei_fail_addr := push_bit (page_shift c) (scast page)\<rparr>
             else instr, m) } }"

partial_function (option) erase_loop ::
  "('d, 'z) nand_chip_scheme \<Rightarrow> s32 \<Rightarrow> s32 \<Rightarrow> u64 \<Rightarrow> erase_info \<Rightarrow> 'd mtd \<Rightarrow> (erase_info \<times> 'd mtd) option" where
  "erase_loop c chipnr page len instr m =
     (if len = 0 then Some (instr\<lparr>ei_state := MTD_ERASE_DONE\<rparr>, m)
      else do {
        (instr, m) \<leftarrow> erase_one c page instr m;
        if ei_state instr = MTD_ERASE_FAILED then Some (instr, m)
        else do {
          let len = len - scast (push_bit (phys_erase_shift c) 1 :: s32);
          let page = page + block_pages c;
          if len \<noteq> 0 \<and> page AND pagemask c = 0 then do {
            m \<leftarrow> next_chip c (chipnr + 1) m;
            erase_loop c (chipnr + 1) page len instr m }
          else erase_loop c chipnr page len instr m } })"

text \<open>With \<open>chip->bbt_td\<close> null, so that a chip with \<open>BBT_AUTO_REFRESH\<close> runs into a null pointer.\<close>

definition nand_erase_nand ::
  "('d, 'z) nand_chip_scheme \<Rightarrow> erase_info \<Rightarrow> bool \<Rightarrow> 'd mtd \<Rightarrow> (s32 \<times> erase_info \<times> 'd mtd) option" where
  "nand_erase_nand c instr allowbbt m =
     (if check_offs_len c (ei_addr instr) (ei_len instr) \<noteq> 0 then Some (- EINVAL, instr, m)
      else do {
        let instr = instr\<lparr>ei_fail_addr := MTD_FAIL_ADDR_UNKNOWN\<rparr>;
        m \<leftarrow> nand_get_device FL_ERASING m;
        let page = shift_int (ei_addr instr) (page_shift c);
        let chipnr = shift_int (ei_addr instr) (chip_shift c);
        m \<leftarrow> on_nand (p_select_chip c chipnr) m;
        (wp, m) \<leftarrow> ask_nand (nand_check_wp c) m;
        (instr, m) \<leftarrow>
          (if wp then Some (instr\<lparr>ei_state := MTD_ERASE_FAILED\<rparr>, m)
           else if has_option c BBT_AUTO_REFRESH \<and> \<not> allowbbt then None
           else erase_loop c chipnr page (ei_len instr) (instr\<lparr>ei_state := MTD_ERASING\<rparr>) m);
        let ret = (if ei_state instr = MTD_ERASE_DONE then 0 else - EIO);
        m \<leftarrow> nand_release_device c m;
        Some (ret, if ret = 0 then instr\<lparr>ei_called := True\<rparr> else instr, m) })"

definition nand_erase :: "('d, 'z) nand_chip_scheme \<Rightarrow> erase_info \<Rightarrow> 'd mtd \<Rightarrow> (s32 \<times> erase_info \<times> 'd mtd) option" where
  "nand_erase c instr m = nand_erase_nand c instr False m"

section \<open>Locking of blocks\<close>

definition NAND_CMD_LOCK :: u32 where "NAND_CMD_LOCK = 0x2a"
definition NAND_CMD_UNLOCK1 :: u32 where "NAND_CMD_UNLOCK1 = 0x23"
definition NAND_CMD_UNLOCK2 :: u32 where "NAND_CMD_UNLOCK2 = 0x24"

definition nand_unlock_range ::
  "('d, 'z) nand_chip_scheme \<Rightarrow> u64 \<Rightarrow> u64 \<Rightarrow> s32 \<Rightarrow> 'd mtd \<Rightarrow> (s32 \<times> 'd mtd) option" where
  "nand_unlock_range c ofs len invert m = do {
     m \<leftarrow> on_nand (p_cmdfunc c NAND_CMD_UNLOCK1 (- 1) (shift_int ofs (page_shift c) AND pagemask c)) m;
     let page = ucast (drop_bit (page_shift c) (ofs + len));
     m \<leftarrow> on_nand (p_cmdfunc c NAND_CMD_UNLOCK2 (- 1) ((page OR invert) AND pagemask c)) m;
     (status, m) \<leftarrow> ask_nand (p_waitfunc c (chip_state (control m) 0)) m;
     Some (if status AND 0x01 \<noteq> 0 then - EIO else 0, m) }"

text \<open>The code of \<open>check_offs_len\<close> is stored in \<open>ret\<close>, which is then assigned again.\<close>

definition nand_unlock :: "('d, 'z) nand_chip_scheme \<Rightarrow> u64 \<Rightarrow> u64 \<Rightarrow> 'd mtd \<Rightarrow> (s32 \<times> 'd mtd) option" where
  "nand_unlock c ofs len m = do {
     let len = (if ofs + len = mtd_size c then len - ucast (erasesize c) else len);
     m \<leftarrow> nand_get_device FL_UNLOCKING m;
     m \<leftarrow> on_nand (p_select_chip c (shift_int ofs (chip_shift c))) m;
     (wp, m) \<leftarrow> ask_nand (nand_check_wp c) m;
     (ret, m) \<leftarrow> (if wp then Some (- EIO, m) else nand_unlock_range c ofs len 0 m);
     m \<leftarrow> on_nand (p_select_chip c (- 1)) m;
     m \<leftarrow> nand_release_device c m;
     Some (ret, m) }"

definition nand_lock :: "('d, 'z) nand_chip_scheme \<Rightarrow> u64 \<Rightarrow> u64 \<Rightarrow> 'd mtd \<Rightarrow> (s32 \<times> 'd mtd) option" where
  "nand_lock c ofs len m = do {
     m \<leftarrow> nand_get_device FL_LOCKING m;
     m \<leftarrow> on_nand (p_select_chip c (shift_int ofs (chip_shift c))) m;
     (wp, m) \<leftarrow> ask_nand (nand_check_wp c) m;
     (ret, m) \<leftarrow>
       (if wp then Some (- EIO, m)
        else do {
          m \<leftarrow> on_nand (p_cmdfunc c NAND_CMD_LOCK (- 1) (shift_int ofs (page_shift c) AND pagemask c)) m;
          (status, m) \<leftarrow> ask_nand (p_waitfunc c (chip_state (control m) 0)) m;
          if status AND 0x01 \<noteq> 0 then Some (- EIO, m) else nand_unlock_range c ofs len 1 m });
     m \<leftarrow> on_nand (p_select_chip c (- 1)) m;
     m \<leftarrow> nand_release_device c m;
     Some (ret, m) }"

section \<open>The functions of the driver\<close>

text \<open>
  What the pointers are for an SLC chip with large pages on the 8-bit bus: the functions of the driver
  (\<open>s3c_nand_probe\<close>), the defaults of \<open>nand_set_defaults\<close> and the raw functions of \<open>nand_scan_tail\<close>; \<open>HZ\<close> is the rate
  of the clock.  Subpages are read only with software ECC, so that pointer is null.
\<close>

definition s3c_chip_base :: "'d machine \<Rightarrow> nat \<Rightarrow> 'd chip_base \<Rightarrow> 'd chip_base" where
  "s3c_chip_base k HZ c = c\<lparr>
     p_select_chip := \<lambda>chipnr n. do { s \<leftarrow> nand_select_chip k chipnr (dev n); Some (n\<lparr>dev := s\<rparr>) },
     p_read_byte := \<lambda>n. let (x, s) = nand_read_byte k (dev n) in (x, n\<lparr>dev := s\<rparr>),
     p_cmdfunc := cmdfunc k (chip.truncate c),
     p_waitfunc := \<lambda>st. waitfunc k (chip.truncate c) HZ (st = FL_ERASING)\<rparr>"

definition s3c_slc_chip :: "'d machine \<Rightarrow> nat \<Rightarrow> 'd chip_base \<Rightarrow> 'd nand_chip" where
  "s3c_slc_chip k HZ c =
     (let b = s3c_chip_base k HZ c;
          g = chip.truncate c
      in chip_base.extend b \<lparr>
        p_block_bad = nand_block_bad b,
        p_erase_cmd = (if has_option c NAND_4PAGE_ARRAY then multi_erase_cmd k g else single_erase_cmd k g),
        p_read_page = \<lambda>buf page n. do { (xs, n) \<leftarrow> s3c_nand_read_page_1bit k g buf n; Some (0, xs, n) },
        p_read_page_raw = \<lambda>buf page n. do { (xs, n) \<leftarrow> nand_read_page_raw k g n; Some (0, xs, n) },
        p_read_subpage = \<lambda>_ _ _ _. None,
        p_write_page = \<lambda>buf page raw n. do {
          (ok, n) \<leftarrow> nand_write_page k g (if raw then nand_write_page_raw k g buf else s3c_nand_write_page_1bit k g buf)
            HZ page n;
          Some (if ok then 0 else - EIO, n) },
        p_read_oob = \<lambda>page sndcmd n. s3c_nand_read_oob_1bit k g page sndcmd n,
        p_write_oob = \<lambda>page n. do {
          (ok, n) \<leftarrow> s3c_nand_write_oob_1bit k g HZ page n;
          Some (if ok then 0 else - EIO, n) }\<rparr>)"

end
