(* ===== verification/MtdOps.thy ===== *)
theory MtdOps
  imports Mtd
begin

text \<open>
  Reading and writing through the MTD interface, for a chip whose page functions obey the laws of the locale
  \<open>page_store\<close>: \<open>nand_read\<close> delivers the bytes of the pages at any offset and length, whether they come from the chip
  or from the page cache; \<open>nand_write\<close> writes the pages it touches and no others; and the cache never holds anything
  but what a read of its page would deliver, on a device of up to 2 GiB.  Beyond that it can.
\<close>

section \<open>Offsets\<close>

lemma of_nat_drop_bit: "f < 2 ^ 63 \<Longrightarrow> signed_drop_bit s (of_nat f :: u64) = of_nat (f div 2 ^ s)"
proof (rule bit_word_eqI)
  fix i assume f: "f < 2 ^ 63" and i: "i < LENGTH(64)"
  have z: "\<not> bit f j" if "63 \<le> j" for j
    using f that by (metis bit_take_bit_iff not_le take_bit_nat_eq_self_iff)
  show "bit (signed_drop_bit s (of_nat f :: u64)) i = bit (of_nat (f div 2 ^ s) :: u64) i"
    using i z by (auto simp: bit_signed_drop_bit_iff bit_of_nat_iff drop_bit_eq_div [symmetric] bit_drop_bit_eq)
qed

lemma ucast_of_nat_u32 [simp]: "(ucast (of_nat x :: u64) :: u32) = of_nat x"
  by (rule bit_word_eqI) (simp add: bit_simps bit_of_nat_iff)

lemma shift_int_nat: "f < 2 ^ 63 \<Longrightarrow> shift_int (of_nat f) s = of_nat (f div 2 ^ s)"
  by (simp add: shift_int_def of_nat_drop_bit)

lemma of_nat_and_mask: "(of_nat f :: 'a::len word) AND (2 ^ n - 1) = of_nat (f mod 2 ^ n)"
proof -
  have "(2 ^ n - 1 :: 'a word) = mask n" by (simp add: mask_eq_exp_minus_1)
  moreover have "(of_nat f :: 'a word) AND mask n = of_nat (take_bit n f)"
    by (simp add: take_bit_eq_mask [symmetric] flip: of_nat_take_bit)
  ultimately show ?thesis by (simp add: take_bit_eq_mod)
qed

lemma of_nat_and_id: "p < 2 ^ n \<Longrightarrow> (of_nat p :: 'a::len word) AND (2 ^ n - 1) = of_nat p"
  by (simp add: of_nat_and_mask)

lemma column_nat:
  assumes "n < 32" "f < 2 ^ 64"
  shows "(ucast ((of_nat f :: u64) AND ucast (2 ^ n - 1 :: u32)) :: u32) = of_nat (f mod 2 ^ n)"
proof -
  have "(ucast (2 ^ n - 1 :: u32) :: u64) = 2 ^ n - 1"
  proof -
    have "(ucast (mask n :: u32) :: u64) = mask n" using assms(1) by (intro bit_word_eqI) (auto simp: bit_simps)
    then show ?thesis by (simp add: mask_eq_exp_minus_1)
  qed
  then show ?thesis by (simp add: of_nat_and_mask)
qed


section \<open>Pages and bytes\<close>

text \<open>The bytes from address \<open>a\<close> on, when page \<open>q\<close> holds \<open>D q\<close>.\<close>

definition bytes_at :: "nat \<Rightarrow> (nat \<Rightarrow> u8 list) \<Rightarrow> nat \<Rightarrow> nat \<Rightarrow> u8 list" where
  "bytes_at ws D a n = map (\<lambda>i. D (i div ws) ! (i mod ws)) [a..<a + n]"

lemma length_bytes_at [simp]: "length (bytes_at ws D a n) = n"
  by (simp add: bytes_at_def)

lemma bytes_at_0 [simp]: "bytes_at ws D a 0 = []"
  by (simp add: bytes_at_def)

lemma bytes_at_add: "bytes_at ws D a (m + n) = bytes_at ws D a m @ bytes_at ws D (a + m) n"
proof -
  have "[a..<a + (m + n)] = [a..<a + m] @ [a + m..<a + m + n]" using upt_add_eq_append [of a "a + m" n] by (simp add: add.assoc)
  then show ?thesis by (simp add: bytes_at_def)
qed

lemma bytes_at_page:
  assumes "length (D p) = ws" "o' + n \<le> ws"
  shows "bytes_at ws D (p * ws + o') n = take n (drop o' (D p))"
proof (rule nth_equalityI)
  fix i assume "i < length (bytes_at ws D (p * ws + o') n)"
  then have "i < n" by simp
  moreover from this assms have "(p * ws + o' + i) div ws = p" "(p * ws + o' + i) mod ws = o' + i"
    by (simp_all add: add.assoc)
  ultimately show "bytes_at ws D (p * ws + o') n ! i = take n (drop o' (D p)) ! i" using assms by (simp add: bytes_at_def)
qed (use assms in simp)

section \<open>A store of pages\<close>

text \<open>
  What the core needs of the functions behind its pointers to read and write pages.  \<open>raw\<close> is what a page of the chip
  holds, data and spare area; \<open>decodes\<close> relates it to the data that a read delivers; \<open>image\<close> is what a page holds after
  data has been written to it.  The chip has \<open>2 ^ bits\<close> pages.
\<close>

definition kept :: "('d nand \<Rightarrow> bool) \<Rightarrow> ('d nand \<Rightarrow> nat \<Rightarrow> u8 list) \<Rightarrow> 'd nand \<Rightarrow> 'd nand \<Rightarrow> bool" where
  "kept usable raw n n' \<longleftrightarrow> usable n' \<and> raw n' = raw n \<and> ecc_failed n' = ecc_failed n \<and> ecc_corrected n' = ecc_corrected n"

lemma kept_trans: "kept usable raw n n' \<Longrightarrow> kept usable raw n' n'' \<Longrightarrow> kept usable raw n n''"
  by (simp add: kept_def)

definition blank :: "('d, 'z) chip_base_scheme \<Rightarrow> u8 list" where
  "blank c = replicate (writesize c + oobsize c) 0xff"

locale page_store =
  fixes k :: "'d machine" and c :: "('d, 'z) nand_chip_scheme"
    and usable :: "'d nand \<Rightarrow> bool" and raw :: "'d nand \<Rightarrow> nat \<Rightarrow> u8 list"
    and decodes :: "u8 list \<Rightarrow> u8 list \<Rightarrow> bool" and image :: "u8 list \<Rightarrow> u8 list" and clean :: "u8 list \<Rightarrow> bool"
    and bits sub :: nat
  assumes geometry: "writesize c = 2 ^ page_shift c" "page_shift c < 31" "0 < bits" "bits < 31"
      "chip_shift c = page_shift c + bits" "mtd_size c = of_nat (2 ^ chip_shift c)" "pagemask c = 2 ^ bits - 1"
      "0 < sub" "sub \<le> page_shift c" "subpagesize c = 2 ^ sub"
    and chip_options: "has_option c NAND_NO_AUTOINCR" "has_option c NAND_NO_READRDY" "ecc_modus c \<noteq> NAND_ECC_SOFT"
    and usable_oob: "usable n \<Longrightarrow> length (oob_poi n) = oobsize c"
      "usable n \<Longrightarrow> length ys = oobsize c \<Longrightarrow> kept usable raw n (n\<lparr>oob_poi := ys\<rparr>)"
    and select_chip: "usable n \<Longrightarrow> x \<in> {0, - 1} \<Longrightarrow> \<exists>n'. p_select_chip c x n = Some n' \<and> kept usable raw n n' \<and> oob_poi n' = oob_poi n"
    and writable: "usable n \<Longrightarrow> \<exists>n'. nand_check_wp c n = Some (False, n') \<and> kept usable raw n n' \<and> oob_poi n' = oob_poi n"
    and decoded_length: "decodes pg d \<Longrightarrow> length d = writesize c"
    and read_page: "usable n \<Longrightarrow> p < 2 ^ bits \<Longrightarrow> decodes (raw n p) d \<Longrightarrow> length buf = writesize c \<Longrightarrow>
      \<exists>n1 n'. p_cmdfunc c NAND_CMD_READ0 0x00 (of_nat p) n = Some n1 \<and>
        p_read_page c buf (of_nat p) n1 = Some (0, d, n') \<and> kept usable raw n n'"
    and write_page: "usable n \<Longrightarrow> p < 2 ^ bits \<Longrightarrow> raw n p = blank c \<Longrightarrow> length buf = writesize c \<Longrightarrow>
      clean (oob_poi n) \<Longrightarrow>
      \<exists>n'. p_write_page c buf (of_nat p) False n = Some (0, n') \<and> kept usable (\<lambda>_ _. []) n n' \<and>
        raw n' = (raw n)(p := image buf) \<and> clean (oob_poi n')"
    and clean_ff: "clean (replicate (oobsize c) 0xff)"
    and image_decodes: "length buf = writesize c \<Longrightarrow> decodes (image buf) buf"
begin

lemma decodes_unique:
  assumes "usable n" "p < 2 ^ bits" "decodes (raw n p) d" "decodes (raw n p) d'"
  shows "d = d'"
  using read_page [OF assms(1-3), of "replicate (writesize c) 0"] read_page [OF assms(1,2,4), of "replicate (writesize c) 0"] by auto

end

section \<open>Reading\<close>

text \<open>The loop of \<open>nand_do_read_ops\<close> when \<open>r\<close> bytes from offset \<open>a\<close> of page \<open>p\<close> on are left to be read.\<close>

definition read_at :: "nat \<Rightarrow> nat \<Rightarrow> nat \<Rightarrow> nat \<Rightarrow> u8 list \<Rightarrow> u32 \<Rightarrow> read_vars" where
  "read_at p a r b dat x = \<lparr>r_ret = 0, r_chipnr = 0, r_realpage = of_nat p, r_page = of_nat p, r_col = of_nat a,
     r_sndcmd = True, r_readlen = of_nat r, r_oobreadlen = x, r_buf = b, r_dat = dat, r_oobpos = 0, r_oob = None\<rparr>"

lemma read_at_simps [simp]:
  "r_ret (read_at p a r b dat x) = 0" "r_chipnr (read_at p a r b dat x) = 0"
  "r_realpage (read_at p a r b dat x) = of_nat p" "r_page (read_at p a r b dat x) = of_nat p"
  "r_col (read_at p a r b dat x) = of_nat a" "r_sndcmd (read_at p a r b dat x) = True"
  "r_readlen (read_at p a r b dat x) = of_nat r" "r_oobreadlen (read_at p a r b dat x) = x"
  "r_buf (read_at p a r b dat x) = b" "r_dat (read_at p a r b dat x) = dat" "r_oob (read_at p a r b dat x) = None"
  "(read_at p a r b dat x)\<lparr>r_sndcmd := True\<rparr> = read_at p a r b dat x"
  by (simp_all add: read_at_def)

text \<open>What a round leaves: \<open>t\<close> more bytes \<open>xs\<close> are in the client's buffer.\<close>

definition read_more :: "nat \<Rightarrow> u8 list \<Rightarrow> read_vars \<Rightarrow> read_vars" where
  "read_more t xs v = v\<lparr>r_readlen := r_readlen v - of_nat t, r_buf := r_buf v + t,
     r_dat := take (r_buf v) (r_dat v) @ xs @ drop (r_buf v + t) (r_dat v)\<rparr>"

lemma min_of_nat_u32: "a < 2 ^ 32 \<Longrightarrow> b < 2 ^ 32 \<Longrightarrow> min (of_nat a) (of_nat b :: u32) = of_nat (min a b)"
  by (auto simp: min_def word_le_nat_alt unat_of_nat)

lemma of_nat_eq_u32: "a < 2 ^ 32 \<Longrightarrow> b < 2 ^ 32 \<Longrightarrow> (of_nat a :: u32) = of_nat b \<longleftrightarrow> a = b"
  by (auto simp: word_unat_eq_iff unat_of_nat)

lemma unat_of_nat_u32: "a < 2 ^ 32 \<Longrightarrow> unat (of_nat a :: u32) = a"
  by (simp add: unat_of_nat)

lemma copy_from_cache_ok:
  assumes "unat (r_col v) + unat bytes \<le> length (databuf m)" "r_buf v + unat bytes \<le> length (r_dat v)"
  shows "copy_from_cache bytes v m = Some (v\<lparr>r_dat := take (r_buf v) (r_dat v) @
    take (unat bytes) (drop (unat (r_col v)) (databuf m)) @ drop (r_buf v + unat bytes) (r_dat v), r_buf := r_buf v + unat bytes\<rparr>)"
  using assms by (simp add: copy_from_cache_def get_bytes_def put_bytes_def)

context page_store
begin

text \<open>The cache: what \<open>databuf\<close> holds for page \<open>pagebuf\<close> is what a read of that page delivers.\<close>

definition cached :: "'d mtd \<Rightarrow> bool" where
  "cached m \<longleftrightarrow> usable (nand m) \<and> length (databuf m) = writesize c \<and>
     (\<forall>q < 2 ^ bits. \<forall>d. pagebuf m = of_nat q \<and> decodes (raw (nand m) q) d \<longrightarrow> databuf m = d)"

lemma ws_pos: "0 < writesize c" "writesize c < 2 ^ 31" "writesize c < 2 ^ 32"
proof -
  show "0 < writesize c" by (simp add: geometry(1))
  have "writesize c < 2 ^ 31" using power_strict_increasing [OF geometry(2), of "2 :: nat"] by (simp add: geometry(1))
  then show "writesize c < 2 ^ 31" "writesize c < 2 ^ 32" by simp_all
qed

lemma first_byte [simp]: "of_nat p AND pagemask c = of_nat p" if "p < 2 ^ bits"
  using that by (simp add: geometry(7) of_nat_and_id)

lemma page_lt: "p < 2 ^ 31" "p < 2 ^ 32" if "p < (2 :: nat) ^ bits"
  using power_strict_increasing [OF geometry(4), of "2 :: nat"] that by simp_all

lemma of_nat_page_eq: "p < 2 ^ bits \<Longrightarrow> q < 2 ^ bits \<Longrightarrow> (of_nat p :: s32) = of_nat q \<longleftrightarrow> p = q"
  using page_lt [of p] page_lt [of q] by (simp add: of_nat_eq_u32)

lemma cached_like:
  "cached m \<Longrightarrow> usable (nand m') \<Longrightarrow> raw (nand m') = raw (nand m) \<Longrightarrow> pagebuf m' = pagebuf m \<Longrightarrow> databuf m' = databuf m \<Longrightarrow> cached m'"
  by (simp add: cached_def)

lemma kept_cached: "cached m \<Longrightarrow> kept usable raw (nand m) n \<Longrightarrow> cached (m\<lparr>nand := n\<rparr>)"
  by (auto simp: cached_def kept_def)

text \<open>One round: the rest of the page, or of the request.\<close>

lemma read_round_ok:
  assumes "cached m" "p < 2 ^ bits" "decodes (raw (nand m) p) d" "a < writesize c" "0 < r" "r < 2 ^ 32"
    and "t = min (writesize c - a) r" "b + t \<le> length dat" "o_mode ops \<noteq> MTD_OOB_RAW"
  shows "\<exists>sc m'. read_round k c ops (ecc_failed (nand m)) maxo (read_at p a r b dat x) m =
      Some (read_more t (take t (drop a d)) ((read_at p a r b dat x)\<lparr>r_sndcmd := sc\<rparr>), m') \<and>
    cached m' \<and> kept usable raw (nand m) (nand m') \<and> control m' = control m \<and> chip_ops m' = chip_ops m"
proof -
  have t: "t < 2 ^ 32" "a + t \<le> writesize c" "t \<le> r" using assms(4,6,7) by auto
  note ws = ws_pos(3)
  have a: "a < 2 ^ 32" using assms(4) ws by simp
  define v where "v = read_at p a r b dat x"
  have bytes: "min (of_nat (writesize c) - of_nat a) (of_nat r) = (of_nat t :: u32)"
    using assms(4,6,7) ws min_of_nat_u32 [of "writesize c - a" r] by (simp add: of_nat_diff)
  have al: "(of_nat t :: u32) = of_nat (writesize c) \<longleftrightarrow> t = writesize c" using of_nat_eq_u32 [OF t(1) ws] .
  have d: "length d = writesize c" using decoded_length [OF assms(3)] .
  have us: "usable (nand m)" "length (databuf m) = writesize c" using assms(1) by (simp_all add: cached_def)
  have sub: "\<not> NAND_SUBPAGE_READ c" using chip_options(3) by (simp add: NAND_SUBPAGE_READ_def)
  have rdy: "on_nand (read_ready k c) m = Some m" for m :: "'d mtd"
    using chip_options(2) by (simp add: read_ready_def on_nand_def)
  have copy: "copy_from_cache (of_nat t) (v\<lparr>r_sndcmd := sc\<rparr>) m1 =
      Some (v\<lparr>r_sndcmd := sc, r_buf := b + t, r_dat := take b dat @ take t (drop a d) @ drop (b + t) dat\<rparr>)"
    if "databuf m1 = d" for m1 :: "'d mtd" and sc
    using copy_from_cache_ok [of "v\<lparr>r_sndcmd := sc\<rparr>" "of_nat t" m1] that a t d assms(8) unat_of_nat_u32 [OF a] unat_of_nat_u32 [OF t(1)]
    by (simp add: v_def)
  have bv: "min (of_nat (writesize c) - r_col v) (r_readlen v) = of_nat t" by (simp add: v_def bytes)
  note round = read_round_def [of k c ops "ecc_failed (nand m)" maxo v m, unfolded Let_def bv al]
  show ?thesis
  proof (cases "of_nat p = pagebuf m")
    case True
    then have "databuf m = d" using assms(1-3) by (auto simp: cached_def)
    then have "read_round k c ops (ecc_failed (nand m)) maxo v m =
        Some (read_more t (take t (drop a d)) (v\<lparr>r_sndcmd := True\<rparr>), m)"
      using copy [of m True] True unfolding round by (simp add: v_def read_more_def)
    then show ?thesis using assms(1) us by (intro exI [of _ True] exI [of _ m]) (simp add: v_def kept_def)
  next
    case False
    define bufpoi where "bufpoi = (if t = writesize c then take (writesize c) (drop b dat) else databuf m)"
    have len: "length bufpoi = writesize c" using us assms(8) by (auto simp: bufpoi_def)
    obtain n1 n2 where n: "p_cmdfunc c NAND_CMD_READ0 0x00 (of_nat p) (nand m) = Some n1"
        "p_read_page c bufpoi (of_nat p) n1 = Some (0, d, n2)" and kept: "kept usable raw (nand m) n2"
      using read_page [OF us(1) assms(2,3) len] by blast
    have failed: "ecc_failed n2 = ecc_failed (nand m)" using kept by (simp add: kept_def)
    have fetch: "read_to_buffer c ops (t = writesize c) (of_nat t) v m =
        Some (if t = writesize c then (v\<lparr>r_sndcmd := False, r_dat := take b dat @ d @ drop (b + writesize c) dat\<rparr>, m\<lparr>nand := n2\<rparr>)
          else (v\<lparr>r_sndcmd := False\<rparr>, m\<lparr>nand := n2, databuf := d\<rparr>))"
      using n assms(8,9) d sub
      by (auto simp: read_to_buffer_def v_def on_nand_def ask_nand_def fetch_page_def get_bytes_def put_bytes_def bufpoi_def)
    show ?thesis
    proof (cases "t = writesize c")
      case True
      then have "a = 0" using assms(4) t by simp
      then have "read_round k c ops (ecc_failed (nand m)) maxo v m =
          Some (read_more t (take t (drop a d)) (v\<lparr>r_sndcmd := False\<rparr>), m\<lparr>nand := n2\<rparr>)"
        using fetch True d False unat_of_nat_u32 [OF t(1)] unfolding round
        by (simp add: rdy read_spare_def v_def read_more_def)
      then show ?thesis using kept_cached [OF assms(1) kept] kept by (auto simp: v_def)
    next
      case part: False
      define m2 where "m2 = m\<lparr>nand := n2, databuf := d, pagebuf := of_nat p\<rparr>"
      have "read_round k c ops (ecc_failed (nand m)) maxo v m =
          Some (read_more t (take t (drop a d)) (v\<lparr>r_sndcmd := False\<rparr>), m2)"
        using fetch part d False copy [of m2 False] failed sub unfolding round
        by (simp add: rdy read_spare_def read_more_def m2_def v_def)
      moreover have "cached m2"
        unfolding cached_def
      proof (intro conjI allI impI)
        fix q d' assume q: "q < 2 ^ bits" "pagebuf m2 = of_nat q \<and> decodes (raw (nand m2) q) d'"
        then have "q = p" using of_nat_page_eq [OF assms(2)] by (simp add: m2_def)
        then show "databuf m2 = d'" using q kept assms(2,3) decodes_unique [of n2 p d d'] by (simp add: m2_def kept_def)
      qed (use kept d in \<open>simp_all add: m2_def kept_def\<close>)
      ultimately show ?thesis using kept by (auto simp: v_def m2_def)
    qed
  qed
qed

lemma next_page_ok:
  assumes "p + 1 < 2 ^ bits" "t \<le> r"
  shows "next_read_page c (read_more t xs ((read_at p a r b dat x)\<lparr>r_sndcmd := sc\<rparr>)) m =
    Some (read_at (p + 1) 0 (r - t) (b + t) (take b dat @ xs @ drop (b + t) dat) x, m)"
proof -
  have "of_nat p + 1 = (of_nat (p + 1) :: s32)" by simp
  moreover have "(of_nat (p + 1) :: s32) \<noteq> 0" using page_lt [OF assms(1)] by (simp add: unat_of_nat_u32 flip: unat_eq_0 del: of_nat_add of_nat_Suc)
  ultimately show ?thesis
    using assms chip_options(1) first_byte [OF assms(1)]
    by (simp add: next_read_page_def read_more_def read_at_def NAND_CANAUTOINCR_def of_nat_diff del: of_nat_Suc)
qed

text \<open>The whole loop delivers the bytes of the pages.\<close>

lemma read_loop_ok:
  assumes "cached m" "a < writesize c" "0 < r" "r < 2 ^ 32" "p * writesize c + a + r \<le> 2 ^ bits * writesize c"
    and "\<And>q. p \<le> q \<Longrightarrow> q * writesize c < p * writesize c + a + r \<Longrightarrow> decodes (raw (nand m) q) (D q)"
    and "b + r \<le> length dat" "o_mode ops \<noteq> MTD_OOB_RAW" "failed = ecc_failed (nand m)"
  shows "\<exists>v' m'. read_loop k c ops failed maxo (read_at p a r b dat x) m = Some (v', m') \<and> r_ret v' = 0 \<and> r_readlen v' = 0 \<and>
    r_oob v' = None \<and> r_dat v' = take b dat @ bytes_at (writesize c) D (p * writesize c + a) r @ drop (b + r) dat \<and>
    cached m' \<and> kept usable raw (nand m) (nand m') \<and> control m' = control m \<and> chip_ops m' = chip_ops m"
  using assms
proof (induction r arbitrary: p a b dat m rule: less_induct)
  case (less r)
  define ws where "ws = writesize c"
  define t where "t = min (ws - a) r"
  have t: "0 < t" "t \<le> r" "a + t \<le> ws" using less.prems(2,3) by (auto simp: t_def ws_def)
  have "p * ws < 2 ^ bits * ws" using less.prems(3,5) unfolding ws_def by linarith
  then have p: "p < 2 ^ bits" by (simp only: mult_less_cancel2)
  have dec: "decodes (raw (nand m) p) (D p)" using less.prems(3) by (intro less.prems(6)) simp_all
  have bt: "b + t \<le> length dat" using less.prems(7) t(2) by linarith
  from read_round_ok [OF less.prems(1) p dec less.prems(2-4) t_def [unfolded ws_def] bt less.prems(8), folded less.prems(9)]
  obtain sc m1 where m1: "read_round k c ops failed maxo (read_at p a r b dat x) m =
      Some (read_more t (take t (drop a (D p))) ((read_at p a r b dat x)\<lparr>r_sndcmd := sc\<rparr>), m1)"
    "cached m1" "kept usable raw (nand m) (nand m1)" "control m1 = control m" "chip_ops m1 = chip_ops m"
    by blast
  have bytes: "take t (drop a (D p)) = bytes_at ws D (p * ws + a) t"
    using bytes_at_page [of D p ws a t] decoded_length [OF dec] t by (simp add: ws_def)
  define dat1 where "dat1 = take b dat @ take t (drop a (D p)) @ drop (b + t) dat"
  have len: "length dat1 = length dat" using less.prems(7) t decoded_length [OF dec] by (simp add: dat1_def ws_def)
  note unfold = read_loop.simps [of k c ops failed maxo "read_at p a r b dat x" m]
  show ?case
  proof (cases "r = t")
    case True
    then show ?thesis using m1 bytes unfolding unfold by (simp add: read_more_def ws_def)
  next
    case False
    then have full: "a + t = ws" "t < r" using t by (auto simp: t_def)
    have "(p + 1) * ws < 2 ^ bits * ws" using less.prems(5) full unfolding ws_def [symmetric] by (simp add: distrib_right)
    then have p1: "p + 1 < 2 ^ bits" by (simp only: mult_less_cancel2)
    have rest: "(of_nat r - of_nat t :: u32) \<noteq> 0"
      using full less.prems(4) of_nat_eq_u32 [of "r - t" 0] t(2) by (simp add: of_nat_diff)
    have step: "read_loop k c ops failed maxo (read_at p a r b dat x) m =
        read_loop k c ops failed maxo (read_at (p + 1) 0 (r - t) (b + t) dat1 x) m1"
      using m1(1) next_page_ok [OF p1 t(2)] rest unfolding unfold by (simp add: read_more_def dat1_def)
    have next': "(p + 1) * ws = p * ws + a + t" using full by simp
    have raw1: "raw (nand m1) = raw (nand m)" "ecc_failed (nand m1) = ecc_failed (nand m)" using m1(3) by (simp_all add: kept_def)
    have "\<exists>v' m'. read_loop k c ops failed maxo (read_at (p + 1) 0 (r - t) (b + t) dat1 x) m1 = Some (v', m') \<and> r_ret v' = 0 \<and>
        r_readlen v' = 0 \<and> r_oob v' = None \<and>
        r_dat v' = take (b + t) dat1 @ bytes_at ws D ((p + 1) * ws + 0) (r - t) @ drop (b + t + (r - t)) dat1 \<and>
        cached m' \<and> kept usable raw (nand m1) (nand m') \<and> control m' = control m1 \<and> chip_ops m' = chip_ops m1"
      unfolding ws_def
      by (rule less.IH) (use m1(2) t full less.prems raw1 len ws_pos next' in \<open>auto simp: ws_def\<close>)
    moreover have "take (b + t) dat1 = take b dat @ bytes_at ws D (p * ws + a) t" "drop (b + r) dat1 = drop (b + r) dat"
      using less.prems(7) full t decoded_length [OF dec] by (simp_all add: dat1_def bytes add.commute)
    moreover have "bytes_at ws D (p * ws + a) r = bytes_at ws D (p * ws + a) t @ bytes_at ws D ((p + 1) * ws) (r - t)"
      using bytes_at_add [of ws D "p * ws + a" t "r - t"] full unfolding next' by simp
    ultimately show ?thesis
      using m1 kept_trans [OF m1(3)] full unfolding step ws_def [symmetric] by auto
  qed
qed

text \<open>\<open>nand_read\<close> from an idle device.\<close>

lemma size_nat: "f \<le> 2 ^ bits * writesize c \<Longrightarrow> f < 2 ^ 63" "f \<le> 2 ^ bits * writesize c \<longleftrightarrow> f \<le> 2 ^ chip_shift c"
proof -
  show "f \<le> 2 ^ bits * writesize c \<longleftrightarrow> f \<le> 2 ^ chip_shift c" by (simp add: geometry power_add mult.commute)
  have "(2 :: nat) ^ chip_shift c < 2 ^ 63" using geometry(2,4) by (intro power_strict_increasing) (simp_all add: geometry(5))
  then show "f \<le> 2 ^ bits * writesize c \<Longrightarrow> f < 2 ^ 63" by (simp add: geometry power_add mult.commute)
qed

lemma in_range: "f + l \<le> 2 ^ bits * writesize c \<Longrightarrow> l < 2 ^ 32 \<Longrightarrow> \<not> mtd_size c < of_nat f + ucast (of_nat l :: u32)"
proof -
  assume r: "f + l \<le> 2 ^ bits * writesize c" "l < 2 ^ 32"
  have l: "(ucast (of_nat l :: u32) :: u64) = of_nat l" using r(2) by (simp add: unsigned_of_nat take_bit_nat_eq_self)
  have "unat (of_nat (f + l) :: u64) = f + l" using size_nat(1) [OF r(1)] unat_of_nat [of "f + l", where 'a = 64] by simp
  moreover have "unat (mtd_size c) = 2 ^ bits * writesize c"
    using size_nat [of "2 ^ bits * writesize c"] unat_of_nat [of "2 ^ chip_shift c", where 'a = 64]
    by (simp add: geometry(5,6) power_add mult.commute geometry(1))
  ultimately show ?thesis using r(1) by (simp add: l word_less_nat_alt flip: of_nat_add)
qed

lemma chip_zero: "f < 2 ^ bits * writesize c \<Longrightarrow> shift_int (of_nat f) (chip_shift c) = 0"
  using size_nat(1) [of f] by (simp add: shift_int_nat geometry power_add mult.commute)

end

definition idle :: "'d mtd \<Rightarrow> bool" where
  "idle m \<longleftrightarrow> active (control m) = None \<and> chip_state (control m) 0 = FL_READY"

lemma get_device_idle: "idle m \<Longrightarrow> nand_get_device st m =
  Some (m\<lparr>control := \<lparr>active = Some 0, chip_state = (chip_state (control m))(0 := st)\<rparr>\<rparr>)"
  by (cases "control m") (simp add: idle_def nand_get_device_def get_device_pass_def)

context page_store
begin

lemma release_ok:
  assumes "cached m"
  shows "\<exists>m'. nand_release_device c m = Some m' \<and> cached m' \<and> kept usable raw (nand m) (nand m') \<and>
    control m' = release_control 0 (control m) \<and> chip_ops m' = chip_ops m \<and> pagebuf m' = pagebuf m \<and> databuf m' = databuf m \<and>
    badblocks m' = badblocks m"
proof -
  obtain n where n: "p_select_chip c (- 1) (nand m) = Some n" "kept usable raw (nand m) n"
    using select_chip [of "nand m" "- 1"] assms by (auto simp: cached_def)
  then show ?thesis
    using kept_cached [OF assms n(2)] by (simp add: nand_release_device_def on_nand_def cached_def)
qed

lemma idle_release: "idle (m\<lparr>control := release_control 0 h\<rparr>)"
  by (simp add: idle_def release_control_def)

text \<open>What surrounds the loop: the device is taken, selected and released.\<close>

definition reading_ops :: "nat \<Rightarrow> u8 list \<Rightarrow> 'd mtd \<Rightarrow> mtd_oob_ops" where
  "reading_ops l buf m = (chip_ops m)\<lparr>o_len := of_nat l, o_datbuf := Some buf, o_oobbuf := None\<rparr>"

definition taken_for :: "flstate \<Rightarrow> 'd mtd \<Rightarrow> 'd mtd" where
  "taken_for st m = m\<lparr>control := \<lparr>active = Some 0, chip_state = (chip_state (control m))(0 := st)\<rparr>\<rparr>"

lemma nand_read_by_loop:
  assumes "usable (nand m)" "idle m" "0 < l" "l < 2 ^ 32" "f + l \<le> 2 ^ bits * writesize c" "ops = reading_ops l buf m"
  shows "\<exists>n2. kept usable raw (nand m) n2 \<and>
    (\<forall>v' m3. read_loop k c ops (ecc_failed (nand m)) (oob_limit c ops)
        (read_at (f div writesize c) (f mod writesize c) l 0 buf (o_ooblen ops)) ((taken_for FL_READING m)\<lparr>nand := n2\<rparr>) = Some (v', m3) \<and>
      r_ret v' = 0 \<and> r_readlen v' = 0 \<and> r_oob v' = None \<and> kept usable raw n2 (nand m3) \<longrightarrow>
      (\<exists>m4. nand_read k c (of_nat f) (of_nat l) buf m = Some (0, Some (of_nat l), r_dat v', m4) \<and>
        kept usable raw (nand m) (nand m4) \<and> idle m4 \<and> pagebuf m4 = pagebuf m3 \<and> databuf m4 = databuf m3 \<and>
        o_mode (chip_ops m4) = o_mode (chip_ops m)))"
proof -
  define ws where "ws = writesize c"
  have ws: "0 < ws" using ws_pos by (simp add: ws_def)
  have f: "f < 2 ^ bits * writesize c" "f < 2 ^ 64" using assms(3,5) size_nat(1) [of f] by simp_all
  define m1 where "m1 = taken_for FL_READING m"
  have m1: "nand m1 = nand m" "chip_ops m1 = chip_ops m" by (simp_all add: m1_def taken_for_def)
  obtain n2 where n2: "p_select_chip c 0 (nand m) = Some n2" "kept usable raw (nand m) n2"
    using select_chip [OF assms(1), of 0] by auto
  have page: "f div ws < 2 ^ bits" using f ws by (simp add: less_mult_imp_div_less ws_def)
  have mask: "of_nat (writesize c) - 1 = (2 ^ page_shift c - 1 :: u32)" by (simp add: geometry(1))
  have v: "\<lparr>r_ret = 0, r_chipnr = 0, r_realpage = shift_int (of_nat f) (page_shift c),
      r_page = shift_int (of_nat f) (page_shift c) AND pagemask c,
      r_col = ucast ((of_nat f :: u64) AND ucast (of_nat (writesize c) - 1 :: u32)), r_sndcmd = True, r_readlen = of_nat l,
      r_oobreadlen = o_ooblen ops, r_buf = 0, r_dat = buf, r_oobpos = 0, r_oob = None\<rparr> =
      read_at (f div ws) (f mod ws) l 0 buf (o_ooblen ops)"
    using size_nat(1) [of f] f column_nat [of "page_shift c" f] geometry(2) first_byte [OF page] unfolding mask
    by (simp add: read_at_def shift_int_nat ws_def geometry(1))
  have "\<exists>m4. nand_read k c (of_nat f) (of_nat l) buf m = Some (0, Some (of_nat l), r_dat v', m4) \<and>
      kept usable raw (nand m) (nand m4) \<and> idle m4 \<and> pagebuf m4 = pagebuf m3 \<and> databuf m4 = databuf m3 \<and>
      o_mode (chip_ops m4) = o_mode (chip_ops m)"
    if m3: "read_loop k c ops (ecc_failed (nand m)) (oob_limit c ops) (read_at (f div ws) (f mod ws) l 0 buf (o_ooblen ops))
        (m1\<lparr>nand := n2\<rparr>) = Some (v', m3)" "r_ret v' = 0" "r_readlen v' = 0" "r_oob v' = None" "kept usable raw n2 (nand m3)" for v' m3
  proof -
    define ops' where "ops' = ops\<lparr>o_retlen := of_nat l, o_datbuf := Some (r_dat v'), o_oobbuf := None\<rparr>"
    have do: "nand_do_read_ops k c (of_nat f) ops m1 = Some (0, ops', m3)"
      using m3 n2 chip_zero [OF f(1)] assms(6) v
      by (simp add: nand_do_read_ops_def on_nand_def reading_ops_def ops'_def m1 kept_def Let_def)
    obtain n4 where n4: "p_select_chip c (- 1) (nand m3) = Some n4" "kept usable raw (nand m3) n4"
      using select_chip [of "nand m3" "- 1"] m3(5) by (auto simp: kept_def)
    have "nand_read k c (of_nat f) (of_nat l) buf m = Some (0, Some (of_nat l), r_dat v',
        m3\<lparr>chip_ops := ops', nand := n4, control := release_control 0 (control m3)\<rparr>)"
      using assms(2-4) in_range [OF assms(5,4)] do n4(1) of_nat_eq_u32 [of l 0]
      by (simp add: nand_read_def get_device_idle taken_for_def [symmetric] m1_def [symmetric])
        (simp add: m1 assms(6) reading_ops_def [symmetric] nand_release_device_def on_nand_def ops'_def)
    then show ?thesis
      using kept_trans [OF n2(2) kept_trans [OF m3(5) n4(2)]] assms(6)
      by (auto simp: idle_def release_control_def ops'_def reading_ops_def)
  qed
  then show ?thesis using n2(2) unfolding ws_def m1_def by blast
qed

lemma nand_read_ok:
  assumes "cached m" "idle m" "o_mode (chip_ops m) = MTD_OOB_PLACE" "0 < l" "l < 2 ^ 32" "f + l \<le> 2 ^ bits * writesize c"
    and "\<And>q. f div writesize c \<le> q \<Longrightarrow> q * writesize c < f + l \<Longrightarrow> decodes (raw (nand m) q) (D q)" "l \<le> length buf"
  shows "\<exists>m'. nand_read k c (of_nat f) (of_nat l) buf m =
      Some (0, Some (of_nat l), bytes_at (writesize c) D f l @ drop l buf, m') \<and>
    cached m' \<and> idle m' \<and> kept usable raw (nand m) (nand m') \<and> o_mode (chip_ops m') = MTD_OOB_PLACE"
proof -
  define ws ops where "ws = writesize c" and "ops = reading_ops l buf m"
  have us: "usable (nand m)" using assms(1) by (simp add: cached_def)
  obtain n2 where n2: "kept usable raw (nand m) n2"
    and by_loop: "\<And>v' m3. read_loop k c ops (ecc_failed (nand m)) (oob_limit c ops) (read_at (f div ws) (f mod ws) l 0 buf (o_ooblen ops))
        ((taken_for FL_READING m)\<lparr>nand := n2\<rparr>) = Some (v', m3) \<Longrightarrow> r_ret v' = 0 \<Longrightarrow> r_readlen v' = 0 \<Longrightarrow> r_oob v' = None \<Longrightarrow>
      kept usable raw n2 (nand m3) \<Longrightarrow>
      \<exists>m4. nand_read k c (of_nat f) (of_nat l) buf m = Some (0, Some (of_nat l), r_dat v', m4) \<and>
        kept usable raw (nand m) (nand m4) \<and> idle m4 \<and> pagebuf m4 = pagebuf m3 \<and> databuf m4 = databuf m3 \<and>
        o_mode (chip_ops m4) = o_mode (chip_ops m)"
    using nand_read_by_loop [OF us assms(2,4,5,6) refl, of buf] unfolding ws_def ops_def by blast
  define m2 where "m2 = (taken_for FL_READING m)\<lparr>nand := n2\<rparr>"
  have m2: "cached m2" "nand m2 = n2" "raw (nand m2) = raw (nand m)" "ecc_failed (nand m) = ecc_failed (nand m2)"
    using kept_cached [OF assms(1) n2] n2 by (simp_all add: m2_def taken_for_def kept_def cached_def)
  have mode: "o_mode ops \<noteq> MTD_OOB_RAW" using assms(3) by (simp add: ops_def reading_ops_def oob_mode_defs)
  have pos: "f div ws * ws + f mod ws = f" and "f mod ws < ws" using ws_pos(1) by (simp_all add: ws_def)
  with read_loop_ok [OF m2(1), of "f mod ws" l "f div ws" D 0 buf ops "ecc_failed (nand m)" "oob_limit c ops" "o_ooblen ops"]
  obtain v' m3 where m3: "read_loop k c ops (ecc_failed (nand m)) (oob_limit c ops) (read_at (f div ws) (f mod ws) l 0 buf (o_ooblen ops)) m2 =
      Some (v', m3)" "r_ret v' = 0" "r_readlen v' = 0" "r_oob v' = None" "r_dat v' = bytes_at ws D f l @ drop l buf" "cached m3"
      "kept usable raw (nand m2) (nand m3)"
    using assms(4-8) m2 mode by (fastforce simp: ws_def)
  from by_loop [folded m2_def, OF m3(1-4)] m3(5,7) m2(2,3) assms(3) cached_like [OF m3(6)] show ?thesis
    by (auto simp: ws_def kept_def)
qed

end

section \<open>Writing\<close>

text \<open>What page \<open>q\<close> is to hold when \<open>buf\<close> is written at address \<open>to\<close>: the bytes around it are 0xff.\<close>

definition padded :: "nat \<Rightarrow> nat \<Rightarrow> u8 list \<Rightarrow> nat \<Rightarrow> u8 list" where
  "padded ws to buf q = map (\<lambda>i. if to \<le> i \<and> i < to + length buf then buf ! (i - to) else 0xff) [q * ws..<q * ws + ws]"

lemma length_padded [simp]: "length (padded ws to buf q) = ws"
  by (simp add: padded_def)

lemma padded_part:
  assumes "q * ws + a = to + b" "a + t \<le> ws" "b + t \<le> length buf" "a \<noteq> 0 \<longrightarrow> b = 0" "a + t = ws \<or> b + t = length buf"
  shows "padded ws to buf q = replicate a 0xff @ take t (drop b buf) @ replicate (ws - (a + t)) 0xff"
proof (rule nth_equalityI)
  fix i assume "i < length (padded ws to buf q)"
  then have i: "i < ws" by simp
  consider "i < a" | "a \<le> i" "i < a + t" | "a + t \<le> i" by linarith
  then show "padded ws to buf q ! i = (replicate a 0xff @ take t (drop b buf) @ replicate (ws - (a + t)) 0xff) ! i"
  proof cases
    case 1
    then show ?thesis using assms i by (simp add: padded_def nth_append)
  next
    case 2
    moreover from this have "q * ws + i - to = b + (i - a)" "i - a < t" using assms(1) by linarith+
    ultimately show ?thesis using assms i by (simp add: padded_def nth_append)
  next
    case 3
    then have "\<not> q * ws + i < to + length buf" using assms i by linarith
    moreover have "\<not> i < a" "\<not> i - a < length (take t (drop b buf))" using 3 by auto
    moreover have "i - a - length (take t (drop b buf)) < ws - (a + t)" using 3 assms i by auto
    ultimately show ?thesis using i by (simp only: nth_append length_replicate if_False nth_replicate) (simp add: padded_def)
  qed
qed (use assms in simp)

definition touched :: "nat \<Rightarrow> nat \<Rightarrow> nat \<Rightarrow> nat \<Rightarrow> bool" where
  "touched ws to l q \<longleftrightarrow> q * ws < to + l \<and> to < q * ws + ws"

lemma touched_one:
  assumes "a < ws" "0 < r" "a + r \<le> ws"
  shows "touched ws (p * ws + a) r q \<longleftrightarrow> q = p"
proof
  assume "touched ws (p * ws + a) r q"
  then have "q * ws < (p + 1) * ws" "p * ws < (q + 1) * ws" using assms by (auto simp: touched_def)
  then show "q = p" unfolding mult_less_cancel2 by simp
qed (use assms in \<open>simp add: touched_def\<close>)

lemma touched_step:
  assumes "a < ws" "a + t = ws" "t < r"
  shows "touched ws (p * ws + a) r q \<longleftrightarrow> q = p \<or> touched ws ((p + 1) * ws) (r - t) q" "\<not> touched ws ((p + 1) * ws) n p"
proof -
  have len: "(p + 1) * ws + (r - t) = p * ws + a + r" using assms by simp
  have "(p + 1) * ws < q * ws + ws \<longleftrightarrow> p * ws + a < q * ws + ws \<and> q \<noteq> p"
  proof
    assume "(p + 1) * ws < q * ws + ws"
    moreover from this have "q \<noteq> p" by auto
    moreover have "(p + 1) * ws = p * ws + ws" by simp
    ultimately show "p * ws + a < q * ws + ws \<and> q \<noteq> p" using assms(1) by linarith
  next
    assume q: "p * ws + a < q * ws + ws \<and> q \<noteq> p"
    then have "p * ws < (q + 1) * ws" by simp
    then have "p + 1 < q + 1" using q unfolding mult_less_cancel2 by simp
    then have "(p + 1) * ws < (q + 1) * ws" using assms unfolding mult_less_cancel2 by simp
    then show "(p + 1) * ws < q * ws + ws" by simp
  qed
  then show "touched ws (p * ws + a) r q \<longleftrightarrow> q = p \<or> touched ws ((p + 1) * ws) (r - t) q"
    using assms len unfolding touched_def by auto
qed (simp add: touched_def)

definition write_at :: "nat \<Rightarrow> nat \<Rightarrow> nat \<Rightarrow> nat \<Rightarrow> u32 \<Rightarrow> write_vars" where
  "write_at p a r b x = \<lparr>w_ret = 0, w_chipnr = 0, w_realpage = of_nat p, w_page = of_nat p, w_column = of_nat a,
     w_writelen = of_nat r, w_oobwritelen = x, w_buf = b, w_oobpos = 0\<rparr>"

lemma write_at_simps [simp]:
  "w_ret (write_at p a r b x) = 0" "w_page (write_at p a r b x) = of_nat p" "w_column (write_at p a r b x) = of_nat a"
  "w_writelen (write_at p a r b x) = of_nat r" "w_buf (write_at p a r b x) = b"
  "(write_at p a r b x)\<lparr>w_ret := 0\<rparr> = write_at p a r b x"
  by (simp_all add: write_at_def)

lemma sint_of_nat_u32: "a < 2 ^ 31 \<Longrightarrow> sint (of_nat a :: s32) = int a"
  by (simp add: signed_of_nat signed_take_bit_int_eq_self)

lemma smin_of_nat: "a < 2 ^ 31 \<Longrightarrow> b < 2 ^ 31 \<Longrightarrow> smin (of_nat a) (of_nat b) = of_nat (min a b)"
  by (simp add: smin_def sint_of_nat_u32 min_def)

context page_store
begin

definition unsaved :: "'d mtd \<Rightarrow> nat \<Rightarrow> nat \<Rightarrow> bool" where
  "unsaved m a r \<longleftrightarrow> (\<forall>q < 2 ^ bits. pagebuf m = of_nat q \<longrightarrow> \<not> (a \<le> q * writesize c \<and> q * writesize c < a + r))"

lemma write_source_ok:
  assumes "cached m" "a < writesize c" "0 < r" "r < 2 ^ 31" "t = min (writesize c - a) r" "b + t \<le> length dat"
    and "2 ^ sub dvd a" "2 ^ sub dvd r"
  shows "\<exists>m'. write_source c dat (write_at p a r b x) m = Some (of_nat t,
      replicate a 0xff @ take t (drop b dat) @ replicate (writesize c - (a + t)) 0xff, m') \<and>
    nand m' = nand m \<and> control m' = control m \<and> chip_ops m' = chip_ops m \<and> length (databuf m') = writesize c \<and>
    (pagebuf m' = - 1 \<or> a = 0 \<and> pagebuf m' = pagebuf m \<and> databuf m' = databuf m)"
proof -
  define v where "v = write_at p a r b x"
  have t: "t < 2 ^ 32" "t < 2 ^ 31" "a + t \<le> writesize c" using assms(2,4,5) by auto
  have a: "a < 2 ^ 32" using assms(2) ws_pos(3) by simp
  have col: "(of_nat a :: s32) = 0 \<longleftrightarrow> a = 0" using of_nat_eq_u32 [OF a, of 0] by simp
  have short: "(of_nat r :: u32) < of_nat (writesize c) - 1 \<longleftrightarrow> r < writesize c - 1"
  proof -
    have "(of_nat (writesize c) - 1 :: u32) = of_nat (writesize c - 1)" using ws_pos(1) by (simp add: of_nat_diff)
    then show ?thesis using assms(4) ws_pos(3) by (simp add: word_less_nat_alt unat_of_nat_u32)
  qed
  have "2 ^ sub dvd writesize c" by (simp add: geometry(1) le_imp_power_dvd geometry(9))
  have odd: "r \<noteq> writesize c - 1"
  proof
    assume "r = writesize c - 1"
    then have "writesize c = r + 1" using ws_pos(1) by simp
    then have "(2 :: nat) ^ sub dvd 1" using assms(8) \<open>2 ^ sub dvd writesize c\<close> by (metis dvd_add_right_iff)
    then show False using geometry(8) by simp
  qed
  show ?thesis
  proof (cases "a \<noteq> 0 \<or> r < writesize c")
    case True
    have bytes: "smin (of_nat (writesize c) - of_nat a) (of_nat r) = of_nat t"
      using smin_of_nat [of "writesize c - a" r] assms(2,4,5) ws_pos(2) by (simp add: of_nat_diff)
    have part: "w_column v \<noteq> 0 \<or> w_writelen v < of_nat (writesize c) - 1"
      using True odd col short by (auto simp: v_def)
    show ?thesis
      using part bytes assms(1,6) t a unfolding write_source_def v_def [symmetric] Let_def
      by (auto simp: v_def get_bytes_def put_bytes_def unat_of_nat_u32 cached_def)
  next
    case False
    then have "t = writesize c" "a = 0" using assms(5) by auto
    then show ?thesis
      using False assms(1,6) col short unfolding write_source_def Let_def by (auto simp: get_bytes_def cached_def)
  qed
qed

lemma page_not_none: "q < 2 ^ bits \<Longrightarrow> (of_nat q :: s32) \<noteq> - 1"
  using page_lt(1) [of q] sint_of_nat_u32 [of q] by force

lemma cached_none: "cached m \<Longrightarrow> cached (m\<lparr>pagebuf := - 1\<rparr>)"
  using page_not_none unfolding cached_def by (metis mtd.select_convs(1-3) mtd.update_convs(3) mtd.surjective)

lemma cached_write:
  assumes "cached m" "unsaved m (p * writesize c + a) r" "0 < r" "usable n" "raw n = (raw (nand m))(p := pg)"
    and "p < 2 ^ bits" "length db = writesize c" "pb = - 1 \<or> a = 0 \<and> pb = pagebuf m \<and> db = databuf m"
  shows "cached (m\<lparr>nand := n, pagebuf := pb, databuf := db\<rparr>)"
proof -
  have other: "pagebuf m \<noteq> of_nat p" if "a = 0" using assms(2,3,6) that by (auto simp: unsaved_def)
  have "db = d" if q: "q < 2 ^ bits" "pb = of_nat q" "decodes (raw n q) d" for q d
  proof -
    have "pb \<noteq> - 1" using page_not_none [OF q(1)] q(2) by simp
    then have "a = 0" "pb = pagebuf m" "db = databuf m" "q \<noteq> p" using assms(8) other q(2) by auto
    then show ?thesis using assms(1,5) q by (auto simp: cached_def)
  qed
  then show ?thesis using assms(4,7) by (simp add: cached_def)
qed

lemma write_round_ok:
  assumes "cached m" "unsaved m (p * writesize c + a) r" "clean (oob_poi (nand m))" "p < 2 ^ bits" "raw (nand m) p = blank c"
    and "a < writesize c" "0 < r" "r < 2 ^ 31" "t = min (writesize c - a) r" "b + t \<le> length dat" "2 ^ sub dvd a" "2 ^ sub dvd r"
    and "o_oobbuf ops = None" "o_mode ops \<noteq> MTD_OOB_RAW"
    and "pg = replicate a 0xff @ take t (drop b dat) @ replicate (writesize c - (a + t)) 0xff"
  shows "\<exists>m'. write_round c ops dat maxo (write_at p a r b x) m =
      Some ((write_at p a r b x)\<lparr>w_writelen := of_nat (r - t), w_buf := b + t\<rparr>, m') \<and>
    cached m' \<and> kept usable (\<lambda>_ _. []) (nand m) (nand m') \<and> raw (nand m') = (raw (nand m))(p := image pg) \<and>
    clean (oob_poi (nand m')) \<and> control m' = control m \<and> chip_ops m' = chip_ops m \<and> (pagebuf m' = - 1 \<or> pagebuf m' = pagebuf m)"
proof -
  have t: "t < 2 ^ 32" "a + t \<le> writesize c" "t \<le> r" using assms(6,8,9) by auto
  obtain m1 where m1: "write_source c dat (write_at p a r b x) m = Some (of_nat t, pg, m1)" "nand m1 = nand m"
      "control m1 = control m" "chip_ops m1 = chip_ops m" "length (databuf m1) = writesize c"
      "pagebuf m1 = - 1 \<or> a = 0 \<and> pagebuf m1 = pagebuf m \<and> databuf m1 = databuf m"
    using write_source_ok [OF assms(1,6-12)] assms(15) by metis
  have "length pg = writesize c" using assms(10,15) t by simp
  then obtain n where n: "p_write_page c pg (of_nat p) False (nand m) = Some (0, n)" "kept usable (\<lambda>_ _. []) (nand m) n"
      "raw n = (raw (nand m))(p := image pg)" "clean (oob_poi n)"
    using write_page [OF _ assms(4,5) _ assms(3), of pg] assms(1) unfolding cached_def by blast
  have "cached (m1\<lparr>nand := n\<rparr>)"
    using cached_write [OF assms(1,2,7) _ n(3) assms(4) m1(5,6)] n(2) by (simp add: cached_def kept_def)
  moreover have "(of_nat r - of_nat t :: u32) = of_nat (r - t)" using t by (simp add: of_nat_diff)
  ultimately show ?thesis
    using m1 n assms(13,14) t unat_of_nat_u32 [OF t(1)]
    by (auto simp: write_round_def write_spare_def ask_nand_def)
qed

lemma next_write_ok:
  assumes "p + 1 < 2 ^ bits"
  shows "next_write_page c ((write_at p a r b x)\<lparr>w_writelen := of_nat r', w_buf := b'\<rparr>) m = Some (write_at (p + 1) 0 r' b' x, m)"
proof -
  have "of_nat p + 1 = (of_nat (p + 1) :: s32)" by simp
  moreover have "(of_nat (p + 1) :: s32) \<noteq> 0" using page_lt [OF assms(1)] by (simp add: unat_of_nat_u32 flip: unat_eq_0 del: of_nat_add of_nat_Suc)
  ultimately show ?thesis
    using assms first_byte [OF assms(1)] by (simp add: next_write_page_def write_at_def del: of_nat_Suc)
qed

text \<open>The loop writes every page of the range, padded.  \<open>to\<close> is where the request starts; the pages must be erased.\<close>

lemma write_loop_ok:
  assumes "cached m" "unsaved m (p * writesize c + a) r" "clean (oob_poi (nand m))" "a < writesize c" "0 < r" "r < 2 ^ 31"
    and "p * writesize c + a + r \<le> 2 ^ bits * writesize c" "\<And>q. touched (writesize c) (p * writesize c + a) r q \<Longrightarrow> raw (nand m) q = blank c"
    and "b + r = length dat" "2 ^ sub dvd a" "2 ^ sub dvd r" "o_oobbuf ops = None" "o_mode ops \<noteq> MTD_OOB_RAW"
    and "p * writesize c + a = to + b" "a \<noteq> 0 \<longrightarrow> b = 0"
  shows "\<exists>v' m'. write_loop c ops dat maxo (write_at p a r b x) m = Some (v', m') \<and> w_ret v' = 0 \<and> w_writelen v' = 0 \<and>
    cached m' \<and> kept usable (\<lambda>_ _. []) (nand m) (nand m') \<and> control m' = control m \<and> chip_ops m' = chip_ops m \<and>
    raw (nand m') = (\<lambda>q. if touched (writesize c) (p * writesize c + a) r q then image (padded (writesize c) to dat q) else raw (nand m) q)"
  using assms
proof (induction r arbitrary: p a b m rule: less_induct)
  case (less r)
  define ws where "ws = writesize c"
  define t where "t = min (ws - a) r"
  have t: "0 < t" "t \<le> r" "a + t \<le> ws" using less.prems(4,5) by (auto simp: t_def ws_def)
  have "p * ws < 2 ^ bits * ws" using less.prems(5,7) unfolding ws_def by linarith
  then have p: "p < 2 ^ bits" by (simp only: mult_less_cancel2)
  have here: "touched ws (p * ws + a) r p" using less.prems(4,5) by (simp add: touched_def ws_def)
  define pg where "pg = replicate a 0xff @ take t (drop b dat) @ replicate (ws - (a + t)) 0xff"
  have pad: "padded ws to dat p = pg"
    unfolding pg_def using less.prems(9,14,15) t by (intro padded_part) (auto simp: ws_def t_def)
  have bt: "b + t \<le> length dat" using less.prems(9) t(2) by linarith
  from write_round_ok [OF less.prems(1-3) p less.prems(8) [OF here [unfolded ws_def]] less.prems(4-6) t_def [unfolded ws_def] bt
      less.prems(10-13) pg_def [unfolded ws_def], of maxo x]
  obtain m1 where m1: "write_round c ops dat maxo (write_at p a r b x) m =
      Some ((write_at p a r b x)\<lparr>w_writelen := of_nat (r - t), w_buf := b + t\<rparr>, m1)"
    "cached m1" "kept usable (\<lambda>_ _. []) (nand m) (nand m1)" "raw (nand m1) = (raw (nand m))(p := image pg)"
    "clean (oob_poi (nand m1))" "control m1 = control m" "chip_ops m1 = chip_ops m" "pagebuf m1 = - 1 \<or> pagebuf m1 = pagebuf m"
    by blast
  note unfold = write_loop.simps [of c ops dat maxo "write_at p a r b x" m]
  show ?case
  proof (cases "r = t")
    case True
    then have "touched ws (p * ws + a) r q \<longleftrightarrow> q = p" for q using touched_one less.prems(4) t by (simp add: ws_def)
    then have "raw (nand m1) = (\<lambda>q. if touched ws (p * ws + a) r q then image (padded ws to dat q) else raw (nand m) q)"
      using m1(4) pad by (auto simp: fun_eq_iff)
    moreover have "write_loop c ops dat maxo (write_at p a r b x) m = Some ((write_at p a r b x)\<lparr>w_writelen := 0, w_buf := b + t\<rparr>, m1)"
      using True m1(1) unfolding unfold by simp
    ultimately show ?thesis using m1 unfolding ws_def [symmetric] by simp
  next
    case False
    then have full: "a + t = ws" "t < r" using t by (auto simp: t_def)
    have "(p + 1) * ws < 2 ^ bits * ws" using less.prems(7) full unfolding ws_def [symmetric] by (simp add: distrib_right)
    then have p1: "p + 1 < 2 ^ bits" by (simp only: mult_less_cancel2)
    have rest: "(of_nat (r - t) :: u32) \<noteq> 0" using full less.prems(6) of_nat_eq_u32 [of "r - t" 0] by simp
    have step: "write_loop c ops dat maxo (write_at p a r b x) m = write_loop c ops dat maxo (write_at (p + 1) 0 (r - t) (b + t) x) m1"
      using m1(1) next_write_ok [OF p1] rest unfolding unfold by (simp add: write_at_def)
    have next': "(p + 1) * ws = p * ws + a + t" using full by simp
    have tch: "touched ws (p * ws + a) r q \<longleftrightarrow> q = p \<or> touched ws ((p + 1) * ws) (r - t) q" "\<not> touched ws ((p + 1) * ws) (r - t) p" for q
      using touched_step [of a ws t r p] less.prems(4) full by (simp_all add: ws_def)
    have uns: "unsaved m1 ((p + 1) * ws + 0) (r - t)"
      using less.prems(2) m1(8) page_not_none next' full unfolding unsaved_def ws_def [symmetric] by fastforce
    have div: "2 ^ sub dvd r - t"
    proof -
      have "(2 :: nat) ^ sub dvd ws" by (simp add: ws_def geometry(1) le_imp_power_dvd geometry(9))
      then have "2 ^ sub dvd t" using less.prems(10) full(1) by (metis dvd_add_right_iff)
      then show ?thesis using less.prems(11) by (simp add: dvd_diff_nat)
    qed
    have "\<exists>v' m'. write_loop c ops dat maxo (write_at (p + 1) 0 (r - t) (b + t) x) m1 = Some (v', m') \<and> w_ret v' = 0 \<and> w_writelen v' = 0 \<and>
        cached m' \<and> kept usable (\<lambda>_ _. []) (nand m1) (nand m') \<and> control m' = control m1 \<and> chip_ops m' = chip_ops m1 \<and>
        raw (nand m') = (\<lambda>q. if touched ws ((p + 1) * ws + 0) (r - t) q then image (padded ws to dat q) else raw (nand m1) q)"
      unfolding ws_def
    proof (rule less.IH)
      show "raw (nand m1) q = blank c" if "touched (writesize c) ((p + 1) * writesize c + 0) (r - t) q" for q
        using that tch(1) [of q] tch(2) less.prems(8) [of q] m1(4) by (auto simp: ws_def)
    qed (use m1 t full less.prems ws_pos uns div next' in \<open>auto simp: ws_def\<close>)
    then show ?thesis
      using m1(3,4,6,7) pad tch unfolding step ws_def [symmetric] by (auto simp: kept_def fun_eq_iff)
  qed
qed

lemma notaligned_iff:
  assumes "f < 2 ^ 63"
  shows "NOTALIGNED c (of_nat f) \<longleftrightarrow> \<not> 2 ^ sub dvd f"
proof -
  have sub: "sub < 31" using geometry(2,9) by linarith
  then have "(scast (mask sub :: s32) :: u64) = mask sub"
    by (intro bit_word_eqI) (auto simp: bit_simps bit_signed_iff min_def)
  then have "(scast (subpagesize c - 1) :: u64) = 2 ^ sub - 1" by (simp add: geometry(10) mask_eq_exp_minus_1)
  moreover have "(of_nat (f mod 2 ^ sub) :: u64) = 0 \<longleftrightarrow> f mod 2 ^ sub = 0"
  proof -
    have "f mod 2 ^ sub < 2 ^ 64" using assms le_less_trans [OF mod_less_eq_dividend [of f "2 ^ sub"], of "2 ^ 64"] by simp
    then show ?thesis by (simp add: word_unat_eq_iff unat_of_nat)
  qed
  ultimately show ?thesis by (simp add: NOTALIGNED_def of_nat_and_mask dvd_eq_mod_eq_0)
qed

lemma sint_of_nat_u64: "a < 2 ^ 63 \<Longrightarrow> sint (of_nat a :: u64) = int a"
  by (simp add: signed_of_nat signed_take_bit_int_eq_self)

lemma ucast_len: "l < 2 ^ 32 \<Longrightarrow> (ucast (of_nat l :: u32) :: u64) = of_nat l"
  by (simp add: unsigned_of_nat take_bit_nat_eq_self)

text \<open>The cache is dropped when the cached page starts within the range, on a device of at most 2 GiB.\<close>

lemma drop_cached_ok:
  assumes "cached m" "f + l \<le> 2 ^ bits * writesize c" "2 ^ bits * writesize c \<le> 2 ^ 31" "l < 2 ^ 32"
  shows "cached (drop_cached c (of_nat f) (of_nat l) m)" "unsaved (drop_cached c (of_nat f) (of_nat l) m) f l"
    "nand (drop_cached c (of_nat f) (of_nat l) m) = nand m" "control (drop_cached c (of_nat f) (of_nat l) m) = control m"
    "chip_ops (drop_cached c (of_nat f) (of_nat l) m) = chip_ops m"
proof -
  show "cached (drop_cached c (of_nat f) (of_nat l) m)" using assms(1) cached_none [OF assms(1)] by (simp add: drop_cached_def Let_def)
  have start: "sint (push_bit (page_shift c) (of_nat q :: s32)) = int (q * writesize c)" if "q < 2 ^ bits" for q
  proof -
    have "q * writesize c < 2 ^ bits * writesize c" using that ws_pos(1) by simp
    then have "q * writesize c < 2 ^ 31" using assms(3) by linarith
    moreover have "push_bit (page_shift c) (of_nat q :: s32) = of_nat (q * writesize c)"
      by (simp add: push_bit_eq_mult geometry(1))
    ultimately show ?thesis by (simp only: sint_of_nat_u32)
  qed
  have to: "sint (of_nat f :: u64) = int f" "sint (of_nat f + ucast (of_nat l :: u32) :: u64) = int (f + l)"
    using size_nat(1) [OF assms(2)] sint_of_nat_u64 [of f] sint_of_nat_u64 [of "f + l"] ucast_len [OF assms(4)] by simp_all
  show "unsaved (drop_cached c (of_nat f) (of_nat l) m) f l"
    unfolding unsaved_def
  proof (intro allI impI notI)
    fix q assume q: "q < 2 ^ bits" "pagebuf (drop_cached c (of_nat f) (of_nat l) m) = of_nat q"
      "f \<le> q * writesize c \<and> q * writesize c < f + l"
    then have "int f \<le> int (q * writesize c)" "int (q * writesize c) < int (f + l)" by presburger+
    then show False
      using q(2) start [OF q(1)] to page_not_none [OF q(1)] by (auto simp: drop_cached_def Let_def split: if_splits)
  qed
qed (simp_all add: drop_cached_def Let_def)

lemma set_oob_ff_ok:
  assumes "usable n"
  shows "set_oob_ff c n = Some (n\<lparr>oob_poi := replicate (oobsize c) 0xff\<rparr>)"
    "kept usable raw n (n\<lparr>oob_poi := replicate (oobsize c) 0xff\<rparr>)"
  using usable_oob [OF assms] by (simp_all add: set_oob_ff_def put_bytes_def)

lemma nand_write_by_loop:
  assumes "usable (nand m)" "idle m" "0 < l" "l < 2 ^ 32" "f + l \<le> 2 ^ bits * writesize c" "2 ^ sub dvd f" "2 ^ sub dvd l"
    and "ops = reading_ops l buf m"
  shows "\<exists>n5. kept usable raw (nand m) n5 \<and> clean (oob_poi n5) \<and>
    (\<forall>v' m6. write_loop c (ops\<lparr>o_retlen := 0\<rparr>) buf (oob_limit c ops) (write_at (f div writesize c) (f mod writesize c) l 0 (o_ooblen ops))
        ((drop_cached c (of_nat f) (of_nat l) (taken_for FL_WRITING m))\<lparr>nand := n5\<rparr>) = Some (v', m6) \<and>
      w_ret v' = 0 \<and> w_writelen v' = 0 \<and> usable (nand m6) \<longrightarrow>
      (\<exists>m7. nand_write c (of_nat f) (of_nat l) buf m = Some (0, Some (of_nat l), m7) \<and> kept usable raw (nand m6) (nand m7) \<and>
        idle m7 \<and> pagebuf m7 = pagebuf m6 \<and> databuf m7 = databuf m6 \<and> o_mode (chip_ops m7) = o_mode (chip_ops m)))"
proof -
  define ws where "ws = writesize c"
  have ws: "0 < ws" using ws_pos by (simp add: ws_def)
  have f: "f < 2 ^ bits * writesize c" "f < 2 ^ 63" "f < 2 ^ 64" using assms(3,5) size_nat(1) [of f] by simp_all
  define m1 where "m1 = taken_for FL_WRITING m"
  have m1: "nand m1 = nand m" "chip_ops m1 = chip_ops m" by (simp_all add: m1_def taken_for_def)
  obtain n2 where n2: "p_select_chip c 0 (nand m) = Some n2" "kept usable raw (nand m) n2"
    using select_chip [OF assms(1), of 0] by auto
  obtain n3 where n3: "nand_check_wp c n2 = Some (False, n3)" "kept usable raw n2 n3"
    using writable [of n2] n2(2) by (auto simp: kept_def)
  define n5 where "n5 = n3\<lparr>oob_poi := replicate (oobsize c) 0xff\<rparr>"
  have n5: "set_oob_ff c n3 = Some n5" "kept usable raw n3 n5" "clean (oob_poi n5)"
    using set_oob_ff_ok [of n3] n3(2) clean_ff by (simp_all add: n5_def kept_def)
  have drop: "drop_cached c t x (m\<lparr>nand := n\<rparr>) = (drop_cached c t x m)\<lparr>nand := n\<rparr>" for t x n and m :: "'d mtd"
    by (simp add: drop_cached_def Let_def)
  have page: "f div ws < 2 ^ bits" using f ws by (simp add: less_mult_imp_div_less ws_def)
  have mask: "of_nat (writesize c) - 1 = (2 ^ page_shift c - 1 :: u32)" by (simp add: geometry(1))
  have v: "\<lparr>w_ret = 0, w_chipnr = 0, w_realpage = shift_int (of_nat f) (page_shift c),
      w_page = shift_int (of_nat f) (page_shift c) AND pagemask c,
      w_column = ucast ((of_nat f :: u64) AND ucast (of_nat (writesize c) - 1 :: u32)), w_writelen = of_nat l,
      w_oobwritelen = o_ooblen ops, w_buf = 0, w_oobpos = 0\<rparr> = write_at (f div ws) (f mod ws) l 0 (o_ooblen ops)"
    using f column_nat [of "page_shift c" f] geometry(2) first_byte [OF page] unfolding mask
    by (simp add: write_at_def shift_int_nat ws_def geometry(1))
  have l: "\<not> NOTALIGNED c (of_nat f)" "\<not> NOTALIGNED c (ucast (of_nat l :: u32))" "(of_nat l :: u32) \<noteq> 0"
    using notaligned_iff [OF f(2)] notaligned_iff [of l] assms(3,4,6,7) ucast_len [OF assms(4)] of_nat_eq_u32 [OF assms(4), of 0]
    by simp_all
  have "\<exists>m7. nand_write c (of_nat f) (of_nat l) buf m = Some (0, Some (of_nat l), m7) \<and> kept usable raw (nand m6) (nand m7) \<and>
      idle m7 \<and> pagebuf m7 = pagebuf m6 \<and> databuf m7 = databuf m6 \<and> o_mode (chip_ops m7) = o_mode (chip_ops m)"
    if m6: "write_loop c (ops\<lparr>o_retlen := 0\<rparr>) buf (oob_limit c ops) (write_at (f div ws) (f mod ws) l 0 (o_ooblen ops))
      ((drop_cached c (of_nat f) (of_nat l) m1)\<lparr>nand := n5\<rparr>) = Some (v', m6)" "w_ret v' = 0" "w_writelen v' = 0" "usable (nand m6)" for v' m6
  proof -
    have do: "nand_do_write_ops c (of_nat f) ops m1 = Some (0, ops\<lparr>o_retlen := of_nat l\<rparr>, m6)"
      using m6(1-3) n2(1) n3(1) n5(1) chip_zero [OF f(1)] v l assms(8) unfolding nand_do_write_ops_def
      by (simp add: on_nand_def ask_nand_def Let_def reading_ops_def m1 drop)
    obtain n7 where n7: "p_select_chip c (- 1) (nand m6) = Some n7" "kept usable raw (nand m6) n7"
      using select_chip [OF m6(4), of "- 1"] by auto
    have "nand_write c (of_nat f) (of_nat l) buf m = Some (0, Some (of_nat l),
        m6\<lparr>chip_ops := ops\<lparr>o_retlen := of_nat l\<rparr>, nand := n7, control := release_control 0 (control m6)\<rparr>)"
      using assms(2) in_range [OF assms(5,4)] do n7(1) l(3)
      by (simp add: nand_write_def get_device_idle taken_for_def [symmetric] m1_def [symmetric])
        (simp add: m1 assms(8) reading_ops_def [symmetric] nand_release_device_def on_nand_def)
    then show ?thesis using n7(2) assms(8) by (auto simp: idle_def release_control_def reading_ops_def)
  qed
  then show ?thesis
    using kept_trans [OF n2(2) kept_trans [OF n3(2) n5(2)]] n5(3) unfolding ws_def m1_def by blast
qed

lemma nand_write_ok:
  assumes "cached m" "idle m" "o_mode (chip_ops m) = MTD_OOB_PLACE" "0 < length buf" "length buf < 2 ^ 31"
    and "f + length buf \<le> 2 ^ bits * writesize c" "2 ^ bits * writesize c \<le> 2 ^ 31" "2 ^ sub dvd f" "2 ^ sub dvd length buf"
    and "\<And>q. touched (writesize c) f (length buf) q \<Longrightarrow> raw (nand m) q = blank c"
  shows "\<exists>m'. nand_write c (of_nat f) (of_nat (length buf)) buf m = Some (0, Some (of_nat (length buf)), m') \<and>
    cached m' \<and> idle m' \<and> kept usable (\<lambda>_ _. []) (nand m) (nand m') \<and> o_mode (chip_ops m') = MTD_OOB_PLACE \<and>
    raw (nand m') = (\<lambda>q. if touched (writesize c) f (length buf) q then image (padded (writesize c) f buf q) else raw (nand m) q)"
proof -
  define l ws ops where "l = length buf" and "ws = writesize c" and "ops = reading_ops l buf m"
  have l: "0 < l" "l < 2 ^ 31" "l < 2 ^ 32" "f + l \<le> 2 ^ bits * writesize c" "2 ^ sub dvd l" using assms(4-6,9) by (simp_all add: l_def)
  have us: "usable (nand m)" using assms(1) by (simp add: cached_def)
  define m4 where "m4 = drop_cached c (of_nat f) (of_nat l) (taken_for FL_WRITING m)"
  obtain n5 where n5: "kept usable raw (nand m) n5" "clean (oob_poi n5)"
    and by_loop: "\<And>v' m6. write_loop c (ops\<lparr>o_retlen := 0\<rparr>) buf (oob_limit c ops) (write_at (f div ws) (f mod ws) l 0 (o_ooblen ops))
        (m4\<lparr>nand := n5\<rparr>) = Some (v', m6) \<Longrightarrow> w_ret v' = 0 \<Longrightarrow> w_writelen v' = 0 \<Longrightarrow> usable (nand m6) \<Longrightarrow>
      \<exists>m7. nand_write c (of_nat f) (of_nat l) buf m = Some (0, Some (of_nat l), m7) \<and> kept usable raw (nand m6) (nand m7) \<and>
        idle m7 \<and> pagebuf m7 = pagebuf m6 \<and> databuf m7 = databuf m6 \<and> o_mode (chip_ops m7) = o_mode (chip_ops m)"
    using nand_write_by_loop [OF us assms(2) l(1,3,4) assms(8) l(5) refl, of buf] unfolding ws_def ops_def m4_def by blast
  have "cached (taken_for FL_WRITING m)" using assms(1) by (simp add: cached_def taken_for_def)
  note m4 = drop_cached_ok [OF this l(4) assms(7) l(3), folded m4_def]
  define m5 where "m5 = m4\<lparr>nand := n5\<rparr>"
  have m5: "cached m5" "unsaved m5 f l" "clean (oob_poi (nand m5))" "raw (nand m5) = raw (nand m)"
    using kept_cached [OF m4(1), of n5] m4 n5 by (simp_all add: m5_def unsaved_def kept_def taken_for_def)
  have pos: "f div ws * ws + f mod ws = f" and col: "f mod ws < ws" using ws_pos(1) by (simp_all add: ws_def)
  have al: "2 ^ sub dvd f mod ws"
  proof -
    have "(2 :: nat) ^ sub dvd ws" by (simp add: ws_def geometry(1) le_imp_power_dvd geometry(9))
    then show ?thesis using assms(8) by (simp add: dvd_mod)
  qed
  have "\<exists>v' m'. write_loop c (ops\<lparr>o_retlen := 0\<rparr>) buf (oob_limit c ops) (write_at (f div ws) (f mod ws) l 0 (o_ooblen ops)) m5 = Some (v', m') \<and>
      w_ret v' = 0 \<and> w_writelen v' = 0 \<and> cached m' \<and> kept usable (\<lambda>_ _. []) (nand m5) (nand m') \<and> control m' = control m5 \<and>
      chip_ops m' = chip_ops m5 \<and> raw (nand m') =
        (\<lambda>q. if touched ws (f div ws * ws + f mod ws) l q then image (padded ws f buf q) else raw (nand m5) q)"
    unfolding ws_def
  proof (rule write_loop_ok [OF m5(1)])
    show "raw (nand m5) q = blank c" if "touched (writesize c) (f div writesize c * writesize c + f mod writesize c) l q" for q
      using that assms(10) [of q] m5(4) by (simp add: l_def)
  qed (use m5 l al col pos assms(3) in \<open>simp_all add: ws_def l_def ops_def reading_ops_def oob_mode_defs\<close>)
  then obtain v' m6 where m6: "write_loop c (ops\<lparr>o_retlen := 0\<rparr>) buf (oob_limit c ops)
        (write_at (f div ws) (f mod ws) l 0 (o_ooblen ops)) m5 = Some (v', m6)"
      "w_ret v' = 0" "w_writelen v' = 0" "cached m6" "kept usable (\<lambda>_ _. []) (nand m5) (nand m6)"
      "raw (nand m6) = (\<lambda>q. if touched ws f l q then image (padded ws f buf q) else raw (nand m5) q)"
    unfolding pos by blast
  from by_loop [folded m5_def, OF m6(1-3)] m6(4) obtain m7 where
    m7: "nand_write c (of_nat f) (of_nat l) buf m = Some (0, Some (of_nat l), m7)" "kept usable raw (nand m6) (nand m7)"
      "idle m7" "pagebuf m7 = pagebuf m6" "databuf m7 = databuf m6" "o_mode (chip_ops m7) = o_mode (chip_ops m)"
    by (auto simp: cached_def)
  have "raw (nand m7) = (\<lambda>q. if touched ws f l q then image (padded ws f buf q) else raw (nand m) q)"
    using m7(2) m6(6) m5(4) unfolding kept_def by auto
  moreover have "kept usable (\<lambda>_ _. []) (nand m) (nand m7)" using m7(2) m6(5) n5(1) by (simp add: kept_def m5_def)
  moreover have "cached m7" using cached_like [OF m6(4)] m7 by (simp add: kept_def)
  ultimately show ?thesis using m7 assms(3) unfolding l_def ws_def by (intro exI [of _ m7]) simp
qed

lemma bytes_of_padded:
  assumes "f \<le> a" "a + n \<le> f + length buf" "0 < ws"
  shows "bytes_at ws (padded ws f buf) a n = take n (drop (a - f) buf)"
proof (rule nth_equalityI)
  fix i assume "i < length (bytes_at ws (padded ws f buf) a n)"
  then have i: "i < n" by simp
  have "padded ws f buf ((a + i) div ws) ! ((a + i) mod ws) = buf ! (a + i - f)"
  proof -
    have "(a + i) mod ws < ws" using assms(3) by simp
    then have "[(a + i) div ws * ws..<(a + i) div ws * ws + ws] ! ((a + i) mod ws) = (a + i) div ws * ws + (a + i) mod ws"
      by (intro nth_upt) (simp only: add_less_cancel_left)
    then show ?thesis using assms i \<open>(a + i) mod ws < ws\<close> by (simp add: padded_def)
  qed
  then show "bytes_at ws (padded ws f buf) a n ! i = take n (drop (a - f) buf) ! i" using assms i by (simp add: bytes_at_def add.commute)
qed (use assms in simp)

text \<open>What was written is read back, in whatever pieces.\<close>

lemma nand_write_read:
  assumes "cached m" "idle m" "o_mode (chip_ops m) = MTD_OOB_PLACE" "0 < length buf" "length buf < 2 ^ 31"
    and "f + length buf \<le> 2 ^ bits * writesize c" "2 ^ bits * writesize c \<le> 2 ^ 31" "2 ^ sub dvd f" "2 ^ sub dvd length buf"
    and "\<And>q. touched (writesize c) f (length buf) q \<Longrightarrow> raw (nand m) q = blank c"
    and "f \<le> a" "0 < l" "a + l \<le> f + length buf" "length out = l"
  shows "\<exists>m1 m2. nand_write c (of_nat f) (of_nat (length buf)) buf m = Some (0, Some (of_nat (length buf)), m1) \<and>
    nand_read k c (of_nat a) (of_nat l) out m1 = Some (0, Some (of_nat l), take l (drop (a - f) buf), m2) \<and> cached m2 \<and> idle m2 \<and>
    o_mode (chip_ops m2) = MTD_OOB_PLACE"
proof -
  obtain m1 where m1: "nand_write c (of_nat f) (of_nat (length buf)) buf m = Some (0, Some (of_nat (length buf)), m1)" "cached m1"
      "idle m1" "o_mode (chip_ops m1) = MTD_OOB_PLACE" "raw (nand m1) =
        (\<lambda>q. if touched (writesize c) f (length buf) q then image (padded (writesize c) f buf q) else raw (nand m) q)"
    using nand_write_ok [OF assms(1-10)] by blast
  have dec: "decodes (raw (nand m1) q) (padded (writesize c) f buf q)"
    if q: "a div writesize c \<le> q" "q * writesize c < a + l" for q
  proof -
    have "a < Suc q * writesize c" using q(1) ws_pos(1) by (simp only: div_less_iff_less_mult [symmetric] less_Suc_eq_le)
    then have "a < q * writesize c + writesize c" by simp
    then have "touched (writesize c) f (length buf) q" using q assms(11,13) by (simp add: touched_def)
    then show ?thesis using m1(5) image_decodes by simp
  qed
  show ?thesis
    using nand_read_ok [OF m1(2-4) assms(12), of a "padded (writesize c) f buf" out] dec assms(5,6,11-14)
      bytes_of_padded [of f a l buf "writesize c"] ws_pos(1) m1(1) by auto
qed

text \<open>
  Beyond 2 GiB the offset of the cached page does not fit an \<open>int\<close>, so a write to that page does not drop it, and a
  read of a part of the page delivers what it held before.
\<close>

lemma stale_read:
  assumes "usable (nand m)" "idle m" "length (databuf m) = writesize c" "o_mode (chip_ops m) = MTD_OOB_PLACE" "q < 2 ^ bits"
    and "2 ^ 31 \<le> q * writesize c" "pagebuf m = of_nat q" "raw (nand m) q = blank c" "length buf = writesize c"
    and "0 < l" "l < writesize c" "length out = l"
  shows "\<exists>m1 m2. nand_write c (of_nat (q * writesize c)) (of_nat (writesize c)) buf m = Some (0, Some (of_nat (writesize c)), m1) \<and>
    raw (nand m1) q = image buf \<and>
    nand_read k c (of_nat (q * writesize c)) (of_nat l) out m1 = Some (0, Some (of_nat l), take l (databuf m), m2)"
proof -
  define ws f where "ws = writesize c" and "f = q * ws"
  define ops where "ops = reading_ops ws buf m"
  have ws: "0 < ws" "ws < 2 ^ 32" using ws_pos by (simp_all add: ws_def)
  have "(q + 1) * ws \<le> 2 ^ bits * ws" using assms(5) by (intro mult_le_mono1) simp
  then have room: "f + ws \<le> 2 ^ bits * writesize c" "f + l \<le> 2 ^ bits * writesize c" using assms(11) by (simp_all add: f_def ws_def)
  have sub: "2 ^ sub dvd ws" by (simp add: ws_def geometry(1) le_imp_power_dvd geometry(9))
  have parts: "f div ws = q" "f mod ws = 0" using ws(1) by (simp_all add: f_def)
  have "sint (push_bit (page_shift c) (pagebuf m)) < 2 ^ 31" using sint_lt [of "push_bit (page_shift c) (pagebuf m)"] by simp
  moreover have "sint (of_nat f :: u64) = int f" using sint_of_nat_u64 size_nat(1) [of f] room by simp
  moreover have "2 ^ 31 \<le> f" using assms(6) by (simp add: f_def ws_def)
  ultimately have "\<not> sint (of_nat f :: u64) \<le> sint (push_bit (page_shift c) (pagebuf m))" by simp
  then have drop: "drop_cached c (of_nat f) (of_nat ws) (taken_for FL_WRITING m) = taken_for FL_WRITING m"
    by (simp add: drop_cached_def taken_for_def Let_def)
  obtain n5 where n5: "kept usable raw (nand m) n5" "clean (oob_poi n5)"
    and by_loop: "\<And>v' m6. write_loop c (ops\<lparr>o_retlen := 0\<rparr>) buf (oob_limit c ops) (write_at q 0 ws 0 (o_ooblen ops))
        ((taken_for FL_WRITING m)\<lparr>nand := n5\<rparr>) = Some (v', m6) \<Longrightarrow> w_ret v' = 0 \<Longrightarrow> w_writelen v' = 0 \<Longrightarrow> usable (nand m6) \<Longrightarrow>
      \<exists>m7. nand_write c (of_nat f) (of_nat ws) buf m = Some (0, Some (of_nat ws), m7) \<and> kept usable raw (nand m6) (nand m7) \<and>
        idle m7 \<and> pagebuf m7 = pagebuf m6 \<and> databuf m7 = databuf m6 \<and> o_mode (chip_ops m7) = o_mode (chip_ops m)"
    using nand_write_by_loop [OF assms(1,2) ws room(1) _ sub refl, of buf] sub parts drop
    by (auto simp: ws_def [symmetric] ops_def f_def)
  have "raw n5 q = blank c" using n5(1) assms(8) by (simp add: kept_def)
  then obtain n6 where n6: "p_write_page c buf (of_nat q) False n5 = Some (0, n6)" "usable n6" "raw n6 = (raw n5)(q := image buf)"
    using write_page [of n5 q buf] n5 assms(5,9) by (auto simp: kept_def)
  have "(of_nat ws - 1 :: u32) = of_nat (ws - 1)" using ws(1) by (simp add: of_nat_diff)
  then have "\<not> (of_nat ws :: u32) < of_nat ws - 1" using ws(2) by (simp add: word_less_nat_alt unat_of_nat_u32)
  then have "write_round c (ops\<lparr>o_retlen := 0\<rparr>) buf (oob_limit c ops) (write_at q 0 ws 0 (o_ooblen ops)) ((taken_for FL_WRITING m)\<lparr>nand := n5\<rparr>) =
      Some ((write_at q 0 ws 0 (o_ooblen ops))\<lparr>w_writelen := 0, w_buf := ws\<rparr>, (taken_for FL_WRITING m)\<lparr>nand := n6\<rparr>)"
    using assms(4,9) n6(1) ws unat_of_nat_u32 [OF ws(2)]
    by (simp add: write_round_def write_source_def write_spare_def ask_nand_def ws_def [symmetric] ops_def reading_ops_def
      get_bytes_def oob_mode_defs)
  then have "write_loop c (ops\<lparr>o_retlen := 0\<rparr>) buf (oob_limit c ops) (write_at q 0 ws 0 (o_ooblen ops)) ((taken_for FL_WRITING m)\<lparr>nand := n5\<rparr>) =
      Some ((write_at q 0 ws 0 (o_ooblen ops))\<lparr>w_writelen := 0, w_buf := ws\<rparr>, (taken_for FL_WRITING m)\<lparr>nand := n6\<rparr>)"
    by (subst write_loop.simps) simp
  from by_loop [OF this] obtain m7 where
    m7: "nand_write c (of_nat f) (of_nat ws) buf m = Some (0, Some (of_nat ws), m7)" "kept usable raw n6 (nand m7)" "idle m7"
      "pagebuf m7 = of_nat q" "databuf m7 = databuf m" "o_mode (chip_ops m7) = MTD_OOB_PLACE"
    using n6(2) assms(4,7) by (auto simp: taken_for_def)
  define rops where "rops = reading_ops l out m7"
  have l: "l < 2 ^ 32" "0 < l" using assms(10,11) ws by (simp_all add: ws_def)
  have us: "usable (nand m7)" using m7(2) by (simp add: kept_def)
  obtain n8 where n8: "kept usable raw (nand m7) n8"
    and by_read: "\<And>v' m3. read_loop k c rops (ecc_failed (nand m7)) (oob_limit c rops) (read_at q 0 l 0 out (o_ooblen rops))
        ((taken_for FL_READING m7)\<lparr>nand := n8\<rparr>) = Some (v', m3) \<Longrightarrow> r_ret v' = 0 \<Longrightarrow> r_readlen v' = 0 \<Longrightarrow> r_oob v' = None \<Longrightarrow>
      kept usable raw n8 (nand m3) \<Longrightarrow> \<exists>m4. nand_read k c (of_nat f) (of_nat l) out m7 = Some (0, Some (of_nat l), r_dat v', m4)"
    using nand_read_by_loop [OF us m7(3) l(2,1) room(2) refl, of out] parts unfolding rops_def ws_def by metis
  define v where "v = read_at q 0 l 0 out (o_ooblen rops)"
  define m8 where "m8 = (taken_for FL_READING m7)\<lparr>nand := n8\<rparr>"
  have bytes: "min (of_nat (writesize c) - r_col v) (r_readlen v) = of_nat l"
    using min_of_nat_u32 [of ws l] ws l assms(11) by (simp add: v_def ws_def)
  have "copy_from_cache (of_nat l) v m8 = Some (v\<lparr>r_dat := take l (databuf m), r_buf := l\<rparr>)"
    using copy_from_cache_ok [of v "of_nat l" m8] unat_of_nat_u32 [OF l(1)] assms(3,11,12) m7(5)
    by (simp add: v_def m8_def taken_for_def)
  then have "read_round k c rops (ecc_failed (nand m7)) (oob_limit c rops) v m8 =
      Some (v\<lparr>r_dat := take l (databuf m), r_buf := l, r_readlen := 0\<rparr>, m8)"
    using m7(4) unfolding read_round_def Let_def bytes by (simp add: v_def m8_def taken_for_def)
  then have "read_loop k c rops (ecc_failed (nand m7)) (oob_limit c rops) v m8 =
      Some (v\<lparr>r_dat := take l (databuf m), r_buf := l, r_readlen := 0\<rparr>, m8)"
    by (subst read_loop.simps) (simp add: v_def)
  from by_read [folded v_def m8_def, OF this] n8 have "\<exists>m4. nand_read k c (of_nat f) (of_nat l) out m7 = Some (0, Some (of_nat l), take l (databuf m), m4)"
    by (simp add: v_def m8_def kept_def)
  then show ?thesis using m7(1,2) n6(3) by (auto simp: f_def ws_def kept_def)
qed

end

end
