(* ===== verification/MtdErase.thy ===== *)
theory MtdErase
  imports MtdOps
begin

text \<open>
  Erasing and bad blocks through the MTD interface, for a chip that obeys the laws of \<open>block_store\<close>, which extends
  \<open>page_store\<close>.  \<open>nand_erase\<close> refines \<open>erase_blocks\<close>: it erases the blocks of the range in order, up to the first
  one that is marked bad.  A block that has been marked is found to be bad from then on.
\<close>

section \<open>What erasing does\<close>

text \<open>The pages of block \<open>b\<close> become blank; a block is bad when the first spare byte of its first page is not 0xff.\<close>

definition wipe :: "nat \<Rightarrow> u8 list \<Rightarrow> nat \<Rightarrow> (nat \<Rightarrow> u8 list) \<Rightarrow> nat \<Rightarrow> u8 list" where
  "wipe bp bl b R = (\<lambda>q. if q div bp = b then bl else R q)"

fun erase_blocks :: "nat \<Rightarrow> nat \<Rightarrow> u8 list \<Rightarrow> nat \<Rightarrow> nat \<Rightarrow> (nat \<Rightarrow> u8 list) \<Rightarrow> bool \<times> (nat \<Rightarrow> u8 list)" where
  "erase_blocks ws bp bl b 0 R = (True, R)"
| "erase_blocks ws bp bl b (Suc n) R =
     (if R (b * bp) ! ws \<noteq> 0xff then (False, R) else erase_blocks ws bp bl (b + 1) n (wipe bp bl b R))"

text \<open>All blocks are good: all of them are erased.  A bad block: it and the blocks after it stay as they are.\<close>

lemma erase_blocks_good:
  assumes "0 < bp" "\<And>i. i < n \<Longrightarrow> R ((b + i) * bp) ! ws = 0xff"
  shows "erase_blocks ws bp bl b n R = (True, \<lambda>q. if b \<le> q div bp \<and> q div bp < b + n then bl else R q)"
  using assms(2)
proof (induction n arbitrary: b R)
  case (Suc n)
  have "wipe bp bl b R ((b + 1 + i) * bp) ! ws = 0xff" if "i < n" for i
    using Suc.prems [of "Suc i"] that assms(1) by (simp add: wipe_def)
  from Suc.IH [of "wipe bp bl b R" "b + 1"] this Suc.prems [of 0] show ?case by (auto simp: wipe_def fun_eq_iff)
qed (auto simp: fun_eq_iff)

lemma erase_blocks_bad:
  assumes "0 < bp" "j < n" "\<And>i. i < j \<Longrightarrow> R ((b + i) * bp) ! ws = 0xff" "R ((b + j) * bp) ! ws \<noteq> 0xff"
  shows "erase_blocks ws bp bl b n R = (False, \<lambda>q. if b \<le> q div bp \<and> q div bp < b + j then bl else R q)"
  using assms(2-)
proof (induction n arbitrary: b j R)
  case step: (Suc n)
  show ?case
  proof (cases j)
    case 0
    then show ?thesis using step.prems by (auto simp: fun_eq_iff)
  next
    case (Suc i)
    have good: "wipe bp bl b R ((b + 1 + l) * bp) ! ws = 0xff" if "l < i" for l
      using step.prems(2) [of "Suc l"] that assms(1) Suc by (simp add: wipe_def)
    have "wipe bp bl b R ((b + 1 + i) * bp) ! ws \<noteq> 0xff" using step.prems(3) assms(1) Suc by (simp add: wipe_def)
    with step.IH [of i "wipe bp bl b R" "b + 1"] good step.prems(1) step.prems(2) [of 0] Suc
    show ?thesis by (auto simp: wipe_def fun_eq_iff)
  qed
qed simp

section \<open>A store of blocks\<close>

text \<open>
  \<open>2 ^ bshift\<close> pages make a block.  The laws are those of a chip that keeps its bad block marker in the first byte of
  the spare area.
\<close>

locale block_store = page_store +
  fixes bshift :: nat
  assumes block_geometry: "phys_erase_shift c = page_shift c + bshift" "bshift \<le> bits" "phys_erase_shift c < 31"
      "badblockpos c = 0" "2 \<le> oobsize c" "oobsize c < 2 ^ 16"
    and block_options: "\<not> has_option c NAND_BBT_SCANLASTPAGE" "\<not> has_option c BBT_AUTO_REFRESH"
      "\<not> has_option c NAND_BBT_SCANBYTE1AND6" "\<not> has_option c NAND_USE_FLASH_BBT"
    and block_bad: "usable n \<Longrightarrow> p < 2 ^ bits \<Longrightarrow>
      \<exists>n'. p_block_bad c (of_nat (p * writesize c)) n = Some (if raw n p ! writesize c = 0xff then 0 else 1, n') \<and>
        kept usable raw n n'"
    and erase: "usable n \<Longrightarrow> p < 2 ^ bits \<Longrightarrow>
      \<exists>n1 st n'. p_erase_cmd c (of_nat p) n = Some n1 \<and> p_waitfunc c FL_ERASING n1 = Some (st, n') \<and>
        st AND NAND_STATUS_FAIL = 0 \<and> kept usable (\<lambda>_ _. []) n n' \<and>
        raw n' = wipe (2 ^ bshift) (blank c) (p div 2 ^ bshift) (raw n)"
    and reset: "usable n \<Longrightarrow> \<exists>n'. p_cmdfunc c NAND_CMD_RESET (- 1) (- 1) n = Some n' \<and> kept usable raw n n' \<and> oob_poi n' = oob_poi n"
    and mark: "usable n \<Longrightarrow> p < 2 ^ bits \<Longrightarrow> oob_poi n = [0, 0] @ replicate (oobsize c - 2) 0xff \<Longrightarrow>
      \<exists>n'. p_write_oob c (of_nat p) n = Some (0, n') \<and> kept usable (\<lambda>_ _. []) n n' \<and>
        (\<forall>q. q \<noteq> p \<longrightarrow> raw n' q = raw n q) \<and> raw n' p ! writesize c = 0"
begin

abbreviation bp :: nat where "bp \<equiv> 2 ^ bshift"

lemma block_pages_eq: "block_pages c = of_nat bp"
  by (simp add: block_pages_def block_geometry(1))

lemma scast_of_nat: "p < 2 ^ 31 \<Longrightarrow> (scast (of_nat p :: s32) :: u64) = of_nat p"
  by (simp add: scast_eq sint_of_nat_u32)

lemma page_address: "p < 2 ^ bits \<Longrightarrow> push_bit (page_shift c) (scast (of_nat p :: s32)) = (of_nat (p * writesize c) :: u64)"
  using page_lt(1) [of p] by (simp add: scast_of_nat push_bit_eq_mult geometry(1))

lemma cached_wipe:
  assumes "cached m" "usable n" "raw n = wipe bp bl b (raw (nand m))" "\<forall>q < 2 ^ bits. pb = of_nat q \<longrightarrow> q div bp \<noteq> b"
    and "pb = pagebuf m \<or> pb = - 1"
  shows "cached (m\<lparr>nand := n, pagebuf := pb\<rparr>)"
  using assms page_not_none unfolding cached_def wipe_def
  by (simp; metis)

lemma block_room:
  assumes "b * bp < 2 ^ bits"
  shows "(b + 1) * bp \<le> 2 ^ bits"
proof -
  have eq: "(2 :: nat) ^ bits = 2 ^ (bits - bshift) * bp" using block_geometry(2) by (simp flip: power_add)
  then have "b < 2 ^ (bits - bshift)" using assms by simp
  then have "(b + 1) * bp \<le> 2 ^ (bits - bshift) * bp" by (intro mult_le_mono1) simp
  then show ?thesis by (simp only: eq)
qed

text \<open>One block.\<close>

lemma erase_one_ok:
  assumes "cached m" "chip_state (control m) 0 = FL_ERASING" "b * bp < 2 ^ bits"
  shows "\<exists>m'. erase_one c (of_nat (b * bp)) instr m =
      Some (if raw (nand m) (b * bp) ! writesize c = 0xff then instr else instr\<lparr>ei_state := MTD_ERASE_FAILED\<rparr>, m') \<and>
    cached m' \<and> kept usable (\<lambda>_ _. []) (nand m) (nand m') \<and> control m' = control m \<and> chip_ops m' = chip_ops m \<and>
    raw (nand m') = (if raw (nand m) (b * bp) ! writesize c = 0xff then wipe bp (blank c) b (raw (nand m)) else raw (nand m))"
proof -
  define p where "p = b * bp"
  have p: "p < 2 ^ bits" "p div bp = b" using assms(3) by (simp_all add: p_def)
  have us: "usable (nand m)" using assms(1) by (simp add: cached_def)
  obtain n1 where n1: "p_block_bad c (of_nat (p * writesize c)) (nand m) =
      Some (if raw (nand m) p ! writesize c = 0xff then 0 else 1, n1)" "kept usable raw (nand m) n1"
    using block_bad [OF us p(1)] by blast
  have check: "nand_block_checkbad c (push_bit (page_shift c) (scast (of_nat p :: s32))) False m =
      Some (if raw (nand m) p ! writesize c = 0xff then 0 else 1, m\<lparr>nand := n1\<rparr>)"
    using n1(1) by (simp add: nand_block_checkbad_def ask_nand_def page_address [OF p(1)])
  have c1: "cached (m\<lparr>nand := n1\<rparr>)" using kept_cached [OF assms(1) n1(2)] .
  show ?thesis
  proof (cases "raw (nand m) p ! writesize c = 0xff")
    case False
    then show ?thesis
      using check c1 n1(2) unfolding p_def [symmetric] by (auto simp: erase_one_def kept_def)
  next
    case True
    define hit where "hit \<longleftrightarrow> sint (of_nat p :: s32) \<le> sint (pagebuf m) \<and> sint (pagebuf m) < sint (of_nat p + block_pages c)"
    define pb where "pb = (if hit then - 1 else pagebuf m)"
    have us1: "usable n1" "raw n1 = raw (nand m)" using n1(2) by (simp_all add: kept_def)
    obtain n2 st n3 where n3: "p_erase_cmd c (of_nat p) n1 = Some n2" "p_waitfunc c FL_ERASING n2 = Some (st, n3)"
        "st AND NAND_STATUS_FAIL = 0" "kept usable (\<lambda>_ _. []) n1 n3" "raw n3 = wipe bp (blank c) b (raw n1)"
      using erase [OF us1(1) p(1)] p(2) by auto
    have one: "erase_one c (of_nat p) instr m = Some (instr, m\<lparr>nand := n3, pagebuf := pb\<rparr>)"
      using check True n3 assms(2) first_byte [OF p(1)]
      by (simp add: erase_one_def on_nand_def ask_nand_def hit_def [symmetric] pb_def)
    have miss: "q div bp \<noteq> b" if q: "q < 2 ^ bits" "pb = of_nat q" for q
    proof
      assume "q div bp = b"
      then have "p \<le> q" "q < p + bp" using div_times_less_eq_dividend [of q bp] dividend_less_times_div [of bp q] by (auto simp: p_def mult.commute)
      moreover have "p + bp \<le> 2 ^ bits" using block_room [OF assms(3)] by (simp add: p_def)
      then have "p + bp < 2 ^ 31" using power_strict_increasing [OF geometry(4), of "2 :: nat"] by linarith
      then have "sint (of_nat p + block_pages c) = int (p + bp)" using sint_of_nat_u32 [of "p + bp"] by (simp add: block_pages_eq)
      moreover have "pb = pagebuf m" "\<not> hit" using page_not_none [OF q(1)] q(2) by (auto simp: pb_def split: if_splits)
      moreover from this have "sint (pagebuf m) = int q" "sint (of_nat p :: s32) = int p"
        using q(2) sint_of_nat_u32 [OF page_lt(1) [OF q(1)]] sint_of_nat_u32 [OF page_lt(1) [OF p(1)]] by simp_all
      ultimately show False using \<open>sint (of_nat p + block_pages c) = int (p + bp)\<close> unfolding hit_def by presburger
    qed
    have "cached (m\<lparr>nand := n3, pagebuf := pb\<rparr>)"
      using cached_wipe [OF assms(1), of n3 "blank c" b pb] n3(4,5) us1 miss by (simp add: kept_def pb_def)
    then show ?thesis using one True n3(4,5) n1(2) unfolding p_def [symmetric] by (auto simp: kept_def)
  qed
qed

text \<open>The loop.\<close>

lemma erase_size: "2 ^ phys_erase_shift c = bp * writesize c"
  by (simp add: block_geometry(1) geometry(1) power_add)

lemma erase_loop_ok:
  assumes "cached m" "chip_state (control m) 0 = FL_ERASING" "(b + n) * bp \<le> 2 ^ bits" "ei_state instr \<noteq> MTD_ERASE_FAILED"
    and "erase_blocks (writesize c) bp (blank c) b n (raw (nand m)) = (ok, R)"
  shows "\<exists>m'. erase_loop c 0 (of_nat (b * bp)) (of_nat (n * 2 ^ phys_erase_shift c)) instr m =
      Some (instr\<lparr>ei_state := if ok then MTD_ERASE_DONE else MTD_ERASE_FAILED\<rparr>, m') \<and>
    cached m' \<and> kept usable (\<lambda>_ _. []) (nand m) (nand m') \<and> control m' = control m \<and> chip_ops m' = chip_ops m \<and> raw (nand m') = R"
  using assms
proof (induction n arbitrary: b m)
  case 0
  then show ?case by (subst erase_loop.simps) (simp add: kept_def cached_def)
next
  case (Suc n)
  define es where "es = (2 :: nat) ^ phys_erase_shift c"
  have "b * bp < (b + Suc n) * bp" unfolding mult_less_cancel2 by simp
  then have first: "b * bp < 2 ^ bits" using Suc.prems(3) by linarith
  obtain m1 where m1: "erase_one c (of_nat (b * bp)) instr m =
      Some (if raw (nand m) (b * bp) ! writesize c = 0xff then instr else instr\<lparr>ei_state := MTD_ERASE_FAILED\<rparr>, m1)"
    "cached m1" "kept usable (\<lambda>_ _. []) (nand m) (nand m1)" "control m1 = control m" "chip_ops m1 = chip_ops m"
    "raw (nand m1) = (if raw (nand m) (b * bp) ! writesize c = 0xff then wipe bp (blank c) b (raw (nand m)) else raw (nand m))"
    using erase_one_ok [OF Suc.prems(1,2) first] by blast
  have "Suc n * es \<le> 2 ^ bits * writesize c"
  proof -
    have "Suc n * bp \<le> 2 ^ bits" using Suc.prems(3) by (simp add: distrib_right)
    then show ?thesis unfolding es_def erase_size mult.assoc [symmetric] by (rule mult_le_mono1)
  qed
  then have "Suc n * es < 2 ^ 63" using size_nat(1) by blast
  then have "unat (of_nat (Suc n * es) :: u64) = Suc n * es" using unat_of_nat [of "Suc n * es", where 'a = 64] by simp
  then have len: "(of_nat (Suc n * es) :: u64) \<noteq> 0" by (metis es_def mult_eq_0_iff nat.simps(3) power_not_zero unat_0 zero_neq_numeral)
  have dec: "(of_nat (Suc n * es) :: u64) - scast (push_bit (phys_erase_shift c) 1 :: s32) = of_nat (n * es)"
  proof -
    have "es < 2 ^ 31" using power_strict_increasing [OF block_geometry(3), of "2 :: nat"] by (simp add: es_def)
    then show ?thesis using scast_of_nat [of es] by (simp add: es_def push_bit_eq_mult)
  qed
  have page: "(of_nat (b * bp) :: s32) + block_pages c = of_nat ((b + 1) * bp)" by (simp add: block_pages_eq algebra_simps)
  have chip: "\<not> ((of_nat (n * es) :: u64) \<noteq> 0 \<and> of_nat ((b + 1) * bp) AND pagemask c = 0)"
  proof (cases n)
    case more: (Suc n')
    have "(b + 1) * bp < (b + Suc n) * bp" using more unfolding mult_less_cancel2 by simp
    then have "(b + 1) * bp < 2 ^ bits" using Suc.prems(3) by linarith
    then show ?thesis
      using first_byte [of "(b + 1) * bp"] page_lt(2) [of "(b + 1) * bp"] of_nat_eq_u32 [of "(b + 1) * bp" 0] by simp
  qed simp
  note unfold = erase_loop.simps [of c 0 "of_nat (b * bp)" "of_nat (Suc n * es)" instr m]
  show ?case
  proof (cases "raw (nand m) (b * bp) ! writesize c = 0xff")
    case False
    then have "ok = False" "R = raw (nand m)" using Suc.prems(5) by auto
    then show ?thesis using m1 False len unfolding es_def [symmetric] unfold by simp
  next
    case True
    have step: "erase_loop c 0 (of_nat (b * bp)) (of_nat (Suc n * es)) instr m = erase_loop c 0 (of_nat ((b + 1) * bp)) (of_nat (n * es)) instr m1"
      using m1(1) True len Suc.prems(4) chip unfolding unfold by (simp only: if_False Option.bind.simps prod.case dec page Let_def if_True refl bind.bind_lunit)
    show ?thesis
      using Suc.IH [of m1 "b + 1"] m1 True Suc.prems(2-5) unfolding es_def [symmetric] step by (auto simp: kept_def)
  qed
qed

lemma check_offs_len_iff:
  assumes "ofs < 2 ^ 63" "len < 2 ^ 63"
  shows "check_offs_len c (of_nat ofs) (of_nat len) = 0 \<longleftrightarrow>
    2 ^ phys_erase_shift c dvd ofs \<and> 2 ^ phys_erase_shift c dvd len \<and> ofs + len \<le> 2 ^ bits * writesize c"
proof -
  have "(scast (mask (phys_erase_shift c) :: s32) :: u64) = mask (phys_erase_shift c)"
    using block_geometry(3) by (intro bit_word_eqI) (auto simp: bit_simps bit_signed_iff min_def)
  then have mask: "(scast (2 ^ phys_erase_shift c - 1 :: s32) :: u64) = 2 ^ phys_erase_shift c - 1"
    by (simp add: mask_eq_exp_minus_1)
  have zero: "(of_nat (x mod 2 ^ phys_erase_shift c) :: u64) = 0 \<longleftrightarrow> 2 ^ phys_erase_shift c dvd x" if "x < 2 ^ 63" for x
  proof -
    have "x mod 2 ^ phys_erase_shift c < 2 ^ 64" using that le_less_trans [OF mod_less_eq_dividend, of x "2 ^ 64"] by simp
    then show ?thesis by (simp add: word_unat_eq_iff unat_of_nat dvd_eq_mod_eq_0)
  qed
  have "unat (of_nat (ofs + len) :: u64) = ofs + len" using assms unat_of_nat [of "ofs + len", where 'a = 64] by simp
  moreover have "unat (mtd_size c) = 2 ^ bits * writesize c"
    using size_nat [of "2 ^ bits * writesize c"] unat_of_nat [of "2 ^ chip_shift c", where 'a = 64]
    by (simp add: geometry(5,6) power_add mult.commute geometry(1))
  ultimately have "mtd_size c < of_nat ofs + of_nat len \<longleftrightarrow> \<not> ofs + len \<le> 2 ^ bits * writesize c"
    by (simp add: word_less_nat_alt not_le)
  then show ?thesis
    using zero assms by (simp add: check_offs_len_def mask of_nat_and_mask EINVAL_def Let_def)
qed

lemma nand_erase_ok:
  assumes "cached m" "idle m" "0 < n" "ei_addr instr = of_nat (b * 2 ^ phys_erase_shift c)" "ei_len instr = of_nat (n * 2 ^ phys_erase_shift c)"
    and "(b + n) * bp \<le> 2 ^ bits" "erase_blocks (writesize c) bp (blank c) b n (raw (nand m)) = (ok, R)"
  shows "\<exists>m' instr'. nand_erase c instr m = Some (if ok then 0 else - EIO, instr', m') \<and>
    ei_state instr' = (if ok then MTD_ERASE_DONE else MTD_ERASE_FAILED) \<and> ei_called instr' = (ok \<or> ei_called instr) \<and>
    ei_fail_addr instr' = MTD_FAIL_ADDR_UNKNOWN \<and>
    cached m' \<and> idle m' \<and> kept usable (\<lambda>_ _. []) (nand m) (nand m') \<and> raw (nand m') = R \<and> chip_ops m' = chip_ops m"
proof -
  define es where "es = (2 :: nat) ^ phys_erase_shift c"
  have "(b + n) * es \<le> 2 ^ bits * writesize c"
    unfolding es_def erase_size mult.assoc [symmetric] using assms(6) by (rule mult_le_mono1)
  then have size: "b * es + n * es \<le> 2 ^ bits * writesize c" by (simp add: distrib_right)
  have "0 < n * es" using assms(3) by (simp add: es_def)
  then have small: "b * es < 2 ^ 63" "n * es < 2 ^ 63" "b * es < 2 ^ bits * writesize c"
    using size size_nat(1) [of "b * es"] size_nat(1) [of "n * es"] by linarith+
  have chk: "check_offs_len c (of_nat (b * es)) (of_nat (n * es)) = 0"
    using check_offs_len_iff [OF small(1,2)] size by (simp add: es_def)
  have page: "shift_int (of_nat (b * es)) (page_shift c) = of_nat (b * bp)"
    using shift_int_nat [OF small(1)] by (simp add: es_def erase_size geometry(1) mult.assoc [symmetric])
  define m1 where "m1 = taken_for FL_ERASING m"
  have m1: "nand m1 = nand m" "chip_ops m1 = chip_ops m" "chip_state (control m1) 0 = FL_ERASING" "cached m1"
    using assms(1) by (simp_all add: m1_def taken_for_def cached_def)
  have us: "usable (nand m)" using assms(1) by (simp add: cached_def)
  obtain n2 where n2: "p_select_chip c 0 (nand m) = Some n2" "kept usable raw (nand m) n2"
    using select_chip [OF us, of 0] by auto
  obtain n3 where n3: "nand_check_wp c n2 = Some (False, n3)" "kept usable raw n2 n3"
    using writable [of n2] n2(2) by (auto simp: kept_def)
  have k3: "kept usable raw (nand m1) n3" using kept_trans [OF n2(2) n3(2)] by (simp add: m1)
  define i1 where "i1 = instr\<lparr>ei_fail_addr := MTD_FAIL_ADDR_UNKNOWN, ei_state := MTD_ERASING\<rparr>"
  have "erase_blocks (writesize c) bp (blank c) b n (raw (nand (m1\<lparr>nand := n3\<rparr>))) = (ok, R)" using k3 assms(7) by (simp add: kept_def m1)
  from erase_loop_ok [OF kept_cached [OF m1(4) k3] _ assms(6) _ this, of i1]
  obtain m4 where m4: "erase_loop c 0 (of_nat (b * bp)) (of_nat (n * es)) i1 (m1\<lparr>nand := n3\<rparr>) =
      Some (i1\<lparr>ei_state := if ok then MTD_ERASE_DONE else MTD_ERASE_FAILED\<rparr>, m4)" "cached m4"
      "kept usable (\<lambda>_ _. []) n3 (nand m4)" "control m4 = control m1" "chip_ops m4 = chip_ops m" "raw (nand m4) = R"
    using m1 by (auto simp: i1_def erase_state_defs es_def)
  obtain m5 where m5: "nand_release_device c m4 = Some m5" "cached m5" "kept usable raw (nand m4) (nand m5)"
      "control m5 = release_control 0 (control m4)" "chip_ops m5 = chip_ops m4"
    using release_ok [OF m4(2)] by blast
  define i2 where "i2 = i1\<lparr>ei_state := if ok then MTD_ERASE_DONE else MTD_ERASE_FAILED\<rparr>"
  have "nand_erase c instr m = Some (if ok then 0 else - EIO, if ok then i2\<lparr>ei_called := True\<rparr> else i2, m5)"
    using assms(2,4,5) chk n2(1) n3(1) m4(1) m5(1) page chip_zero [OF small(3)] block_options(2) m1(1)
    by (simp add: nand_erase_def nand_erase_nand_def es_def [symmetric] get_device_idle taken_for_def [symmetric] m1_def [symmetric]
      on_nand_def ask_nand_def i1_def [symmetric] i2_def [symmetric] Let_def) (auto simp: i2_def erase_state_defs EIO_def)
  then show ?thesis
    using m5 m4 k3 by (cases ok) (auto simp: i2_def i1_def kept_def idle_def release_control_def m1)
qed

text \<open>Bad blocks: the check reads the marker of the page, and marking writes it.\<close>

lemma page_room: "p < 2 ^ bits \<Longrightarrow> p * writesize c < 2 ^ bits * writesize c"
  using ws_pos(1) by simp

lemma size_u64: "f \<le> 2 ^ bits * writesize c \<Longrightarrow> mtd_size c < of_nat f \<longleftrightarrow> False"
  "f < 2 ^ bits * writesize c \<Longrightarrow> mtd_size c \<le> of_nat f \<longleftrightarrow> False"
proof -
  have "unat (mtd_size c) = 2 ^ bits * writesize c"
    using size_nat [of "2 ^ bits * writesize c"] unat_of_nat [of "2 ^ chip_shift c", where 'a = 64]
    by (simp add: geometry(5,6) power_add mult.commute geometry(1))
  moreover have "unat (of_nat f :: u64) = f" if "f \<le> 2 ^ bits * writesize c"
    using size_nat(1) [OF that] unat_of_nat [of f, where 'a = 64] by simp
  ultimately show "f \<le> 2 ^ bits * writesize c \<Longrightarrow> mtd_size c < of_nat f \<longleftrightarrow> False"
    "f < 2 ^ bits * writesize c \<Longrightarrow> mtd_size c \<le> of_nat f \<longleftrightarrow> False"
    by (simp_all add: word_less_nat_alt word_le_nat_alt)
qed

lemma nand_block_isbad_ok:
  assumes "cached m" "idle m" "p < 2 ^ bits"
  shows "\<exists>m'. nand_block_isbad c (of_nat (p * writesize c)) m = Some (if raw (nand m) p ! writesize c = 0xff then 0 else 1, m') \<and>
    cached m' \<and> idle m' \<and> kept usable raw (nand m) (nand m') \<and> chip_ops m' = chip_ops m \<and> badblocks m' = badblocks m"
proof -
  define m1 where "m1 = taken_for FL_READING m"
  have m1: "nand m1 = nand m" "chip_ops m1 = chip_ops m" "badblocks m1 = badblocks m" "cached m1"
    using assms(1) by (simp_all add: m1_def taken_for_def cached_def)
  have us: "usable (nand m)" using assms(1) by (simp add: cached_def)
  obtain n2 where n2: "p_select_chip c 0 (nand m) = Some n2" "kept usable raw (nand m) n2"
    using select_chip [OF us, of 0] by auto
  obtain n3 where n3: "p_block_bad c (of_nat (p * writesize c)) n2 = Some (if raw n2 p ! writesize c = 0xff then 0 else 1, n3)"
      "kept usable raw n2 n3"
    using block_bad [of n2 p] n2(2) assms(3) by (auto simp: kept_def)
  have k3: "kept usable raw (nand m1) n3" using kept_trans [OF n2(2) n3(2)] by (simp add: m1)
  have c3: "cached (m1\<lparr>nand := n3\<rparr>)" using kept_cached [OF m1(4) k3] .
  have "usable n3" using k3 by (simp add: kept_def)
  then obtain n4 where n4: "p_select_chip c (- 1) n3 = Some n4" "kept usable raw n3 n4"
    using select_chip [of n3 "- 1"] by auto
  note room = page_room [OF assms(3)]
  have "nand_block_isbad c (of_nat (p * writesize c)) m = Some (if raw (nand m) p ! writesize c = 0xff then 0 else 1,
      m1\<lparr>nand := n4, control := release_control 0 (control m1)\<rparr>)"
    using assms(2) n2(1) n3(1) n4(1) chip_zero [OF room] size_u64(1) [OF less_imp_le [OF room]] n2(2) unfolding nand_block_isbad_def nand_block_checkbad_def
    by (simp add: get_device_idle taken_for_def [symmetric] m1_def [symmetric] on_nand_def ask_nand_def nand_release_device_def m1 kept_def)
  moreover have "cached (m1\<lparr>nand := n4, control := release_control 0 (control m1)\<rparr>)"
    using cached_like [OF c3] n4(2) by (simp add: kept_def)
  ultimately show ?thesis using kept_trans [OF k3 n4(2)] idle_release m1 by auto
qed

lemma oob_room_ok:
  assumes "p < 2 ^ bits" "x \<le> oobsize c"
  shows "\<not> oob_room c (of_nat (p * writesize c)) (of_nat (oobsize c)) < of_nat x"
proof -
  define ob where "ob = oobsize c"
  have ob: "ob < 2 ^ 16" "ob < 2 ^ 32" using block_geometry(6) by (simp_all add: ob_def)
  have pg: "signed_drop_bit (page_shift c) (of_nat (p * writesize c) :: u64) = of_nat p"
    using of_nat_drop_bit [OF size_nat(1) [OF less_imp_le [OF page_room [OF assms(1)]]]] by (simp add: geometry(1))
  have "(of_nat (2 ^ chip_shift c) :: u64) = of_nat (2 ^ bits * 2 ^ page_shift c)" by (simp add: geometry(5) power_add)
  moreover have "drop_bit s (of_nat f :: u64) = of_nat (f div 2 ^ s)" if "f < 2 ^ 63" for f s
  proof -
    have "f div 2 ^ s < 2 ^ 64" using that le_less_trans [OF div_le_dividend [of f "2 ^ s"], of "2 ^ 64"] by simp
    then show ?thesis using that unfolding word_unat_eq_iff unat_drop_bit_eq by (simp add: drop_bit_eq_div unat_of_nat)
  qed
  moreover have "2 ^ bits * 2 ^ page_shift c < (2 :: nat) ^ 63" using size_nat(1) [of "2 ^ bits * writesize c"] by (simp add: geometry(1))
  ultimately have "drop_bit (page_shift c) (mtd_size c) = of_nat (2 ^ bits)"
    by (simp only: geometry(6)) simp
  then have room: "oob_room c (of_nat (p * writesize c)) (of_nat ob) = of_nat ((2 ^ bits - p) * ob)"
    using assms(1) pg ucast_len [OF ob(2)] by (simp add: oob_room_def of_nat_diff)
  have le: "1 * ob \<le> (2 ^ bits - p) * ob" using assms(1) by (intro mult_le_mono1) simp
  have "(2 ^ bits - p) * ob \<le> 2 ^ 31 * 2 ^ 16"
    using power_strict_increasing [OF geometry(4), of "2 :: nat"] ob(1) by (intro mult_le_mono) simp_all
  then have "unat (of_nat ((2 ^ bits - p) * ob) :: u64) = (2 ^ bits - p) * ob" using unat_of_nat [of "(2 ^ bits - p) * ob", where 'a = 64] by simp
  moreover have "unat (of_nat x :: u64) = x" using assms(2) ob(1) unat_of_nat [of x, where 'a = 64] by (simp add: ob_def)
  moreover have "\<not> (2 ^ bits - p) * ob < x" using le assms(2) by (simp only: ob_def not_less mult_1)
  ultimately show ?thesis unfolding ob_def [symmetric] room word_less_nat_alt by simp
qed

lemma markbad_round_ok:
  assumes "cached m" "o_mode (chip_ops m) = MTD_OOB_PLACE" "p < 2 ^ bits"
  shows "\<exists>m'. markbad_round c (of_nat (p * writesize c)) m = Some (0, m') \<and> cached m' \<and> kept usable (\<lambda>_ _. []) (nand m) (nand m') \<and>
    control m' = control m \<and> o_mode (chip_ops m') = MTD_OOB_PLACE \<and> badblocks m' = badblocks m \<and>
    (\<forall>q. q \<noteq> p \<longrightarrow> raw (nand m') q = raw (nand m) q) \<and> raw (nand m') p ! writesize c = 0"
proof -
  define ops where "ops = (chip_ops m)\<lparr>o_len := 2, o_ooblen := 2, o_datbuf := None, o_oobbuf := Some [0, 0], o_ooboffs := 0\<rparr>"
  define ob where "ob = oobsize c"
  have ob: "2 \<le> ob" "ob < 2 ^ 32" using block_geometry(5,6) by (simp_all add: ob_def)
  have us: "usable (nand m)" using assms(1) by (simp add: cached_def)
  obtain n1 where n1: "p_select_chip c 0 (nand m) = Some n1" "kept usable raw (nand m) n1" using select_chip [OF us, of 0] by auto
  obtain n2 where n2: "p_cmdfunc c NAND_CMD_RESET (- 1) (- 1) n1 = Some n2" "kept usable raw n1 n2"
    using reset [of n1] n1(2) by (auto simp: kept_def)
  obtain n3 where n3: "nand_check_wp c n2 = Some (False, n3)" "kept usable raw n2 n3" using writable [of n2] n2(2) by (auto simp: kept_def)
  have k3: "kept usable raw (nand m) n3" using n1(2) n2(2) n3(2) by (simp add: kept_def)
  have us3: "usable n3" "length (oob_poi n3) = ob" using k3 usable_oob(1) [of n3] by (simp_all add: kept_def ob_def)
  define n4 where "n4 = n3\<lparr>oob_poi := [0, 0] @ replicate (ob - 2) 0xff\<rparr>"
  have k4: "kept usable raw n3 n4" using usable_oob(2) [OF us3(1), of "[0, 0] @ replicate (ob - 2) 0xff"] ob by (simp add: n4_def ob_def)
  have fill: "nand_fill_oob c [0, 0] 2 ops (n3\<lparr>oob_poi := replicate (oobsize c) 0xff\<rparr>) = Some n4"
    using ob assms(2) by (simp add: nand_fill_oob_def ops_def get_bytes_def put_bytes_def n4_def ob_def)
  obtain n5 where n5: "p_write_oob c (of_nat p) n4 = Some (0, n5)" "kept usable (\<lambda>_ _. []) n4 n5"
      "\<forall>q. q \<noteq> p \<longrightarrow> raw n5 q = raw n4 q" "raw n5 p ! writesize c = 0"
    using mark [of n4 p] k4 assms(3) by (auto simp: kept_def n4_def ob_def)
  define n6 where "n6 = n5\<lparr>oob_poi := replicate (oobsize c) 0xff\<rparr>"
  have n6: "set_oob_ff c n5 = Some n6" "kept usable raw n5 n6" using set_oob_ff_ok [of n5] n5(2) by (simp_all add: n6_def kept_def)
  define pb where "pb = (if of_nat p = pagebuf m then - 1 else pagebuf m)"
  note room = page_room [OF assms(3)]
  have lim: "\<not> of_nat ob < (2 :: u32)" "\<not> of_nat ob \<le> (0 :: u32)"
    using ob by (simp_all add: word_less_nat_alt unat_of_nat_u32 of_nat_eq_u32 [of ob 0, simplified])
  have page: "shift_int (of_nat (p * writesize c)) (page_shift c) = of_nat p"
    using shift_int_nat [OF size_nat(1) [OF less_imp_le [OF room]]] by (simp add: geometry(1))
  have "p_write_oob c (pagebuf m) n4 = Some (0, n5)" if "of_nat p = pagebuf m" using n5(1) that by simp
  then have "nand_do_write_oob c (of_nat (p * writesize c)) ops m = Some (0, ops\<lparr>o_oobretlen := 2\<rparr>, m\<lparr>nand := n6, pagebuf := pb\<rparr>)"
    using n1(1) n2(1) n3(1) set_oob_ff_ok(1) [OF us3(1)] fill n5(1) n6(1) lim chip_zero [OF room] page assms(2,3) size_u64(2) [OF room]
      oob_room_ok [OF assms(3), of 2] ob unfolding nand_do_write_oob_def
    by (simp add: ops_def oob_limit_def oob_mode_defs ob_def Let_def on_nand_def ask_nand_def oob_buffer_def pb_def)
  then have round: "markbad_round c (of_nat (p * writesize c)) m = Some (0, m\<lparr>nand := n6, pagebuf := pb, chip_ops := ops\<lparr>o_oobretlen := 2\<rparr>\<rparr>)"
    using block_geometry(4) block_options(3) by (simp add: markbad_round_def markbad_write_def ops_def)
  have same: "raw n6 q = raw (nand m) q" if "q \<noteq> p" for q using that n6(2) n5(3) k4 k3 by (simp add: kept_def)
  have "cached (m\<lparr>nand := n6, pagebuf := pb, chip_ops := ops\<lparr>o_oobretlen := 2\<rparr>\<rparr>)"
    using assms(1) same n6(2) page_not_none unfolding cached_def pb_def by (simp add: kept_def) metis
  then show ?thesis using round same n6(2) n5 k4 k3 assms(2) by (auto simp: kept_def ops_def)
qed

lemma nand_block_markbad_ok:
  assumes "cached m" "idle m" "o_mode (chip_ops m) = MTD_OOB_PLACE" "b * bp < 2 ^ bits" "0 < bshift"
    and "raw (nand m) (b * bp) ! writesize c = 0xff"
  shows "\<exists>m'. nand_block_markbad c (of_nat (b * bp * writesize c)) m = Some (0, m') \<and> cached m' \<and> idle m' \<and>
    kept usable (\<lambda>_ _. []) (nand m) (nand m') \<and> o_mode (chip_ops m') = MTD_OOB_PLACE \<and> badblocks m' = badblocks m + 1 \<and>
    (\<forall>q. q div bp \<noteq> b \<longrightarrow> raw (nand m') q = raw (nand m) q) \<and> raw (nand m') (b * bp) ! writesize c = 0"
proof -
  define p where "p = b * bp"
  have "bp = 2 * 2 ^ (bshift - 1)" using assms(5) by (cases bshift) simp_all
  then have "2 \<le> bp" by simp
  then have p: "p < 2 ^ bits" "p + 1 < 2 ^ bits" "p div bp = b" "(p + 1) div bp = b"
    using assms(4) block_room [OF assms(4)] div_mult_self3 [of bp b 1] by (simp_all add: p_def)
  obtain m1 where m1: "nand_block_isbad c (of_nat (p * writesize c)) m = Some (0, m1)" "cached m1" "idle m1"
      "kept usable raw (nand m) (nand m1)" "chip_ops m1 = chip_ops m" "badblocks m1 = badblocks m"
    using nand_block_isbad_ok [OF assms(1,2) p(1)] assms(6) by (auto simp: p_def)
  define m2 where "m2 = taken_for FL_WRITING m1"
  have m2: "nand m2 = nand m1" "chip_ops m2 = chip_ops m" "badblocks m2 = badblocks m" "cached m2"
    using m1 by (simp_all add: m2_def taken_for_def cached_def)
  obtain m3 where m3: "markbad_round c (of_nat (p * writesize c)) m2 = Some (0, m3)" "cached m3" "kept usable (\<lambda>_ _. []) (nand m2) (nand m3)"
      "o_mode (chip_ops m3) = MTD_OOB_PLACE" "badblocks m3 = badblocks m"
      "\<forall>q. q \<noteq> p \<longrightarrow> raw (nand m3) q = raw (nand m2) q" "raw (nand m3) p ! writesize c = 0"
    using markbad_round_ok [OF m2(4) _ p(1)] m2 assms(3) by auto
  have "of_nat (p * writesize c) + of_nat (writesize c) = (of_nat ((p + 1) * writesize c) :: u64)" by (simp add: distrib_right)
  then obtain m4 where m4: "(if has_option c NAND_BBT_SCAN2NDPAGE then markbad_round c (of_nat (p * writesize c) + of_nat (writesize c)) m3
        else Some (0, m3)) = Some (0, m4)"
      "cached m4" "kept usable (\<lambda>_ _. []) (nand m2) (nand m4)" "o_mode (chip_ops m4) = MTD_OOB_PLACE" "badblocks m4 = badblocks m"
      "\<forall>q. q \<noteq> p \<and> q \<noteq> p + 1 \<longrightarrow> raw (nand m4) q = raw (nand m2) q" "raw (nand m4) p ! writesize c = 0"
    using markbad_round_ok [OF m3(2,4) p(2)] m3(2-) that [of m3]
    by (cases "has_option c NAND_BBT_SCAN2NDPAGE") (auto simp: kept_def add.commute)
  obtain m5 where m5: "nand_release_device c m4 = Some m5" "cached m5" "kept usable raw (nand m4) (nand m5)"
      "control m5 = release_control 0 (control m4)" "chip_ops m5 = chip_ops m4" "badblocks m5 = badblocks m4"
    using release_ok [OF m4(2)] by blast
  have run: "nand_block_markbad c (of_nat (p * writesize c)) m = Some (0, m5\<lparr>badblocks := badblocks m5 + 1\<rparr>)"
    using m1(1,3) m3(1) m4(1) m5(1) block_options(1,4) unfolding nand_block_markbad_def nand_default_block_markbad_def
    by (cases "has_option c NAND_BBT_SCAN2NDPAGE") (simp_all add: get_device_idle taken_for_def [symmetric] m2_def [symmetric] Let_def)
  have same: "raw (nand m5) q = raw (nand m) q" if "q div bp \<noteq> b" for q
    using that p(3,4) m5(3) m4(6) m2(1) m1(4) by (auto simp: kept_def)
  have "cached (m5\<lparr>badblocks := badblocks m5 + 1\<rparr>)" using m5(2) by (simp add: cached_def)
  then show ?thesis
    using run same m5 m4(3-5,7) m2(1) m1(4) unfolding p_def [symmetric] by (auto simp: kept_def idle_def release_control_def)
qed

text \<open>A block that has been marked is reported, and an erase that starts at it changes nothing.\<close>

lemma nand_marked_stays:
  assumes "cached m" "idle m" "o_mode (chip_ops m) = MTD_OOB_PLACE" "b * bp < 2 ^ bits" "0 < bshift"
    and "raw (nand m) (b * bp) ! writesize c = 0xff"
    and "ei_addr instr = of_nat (b * 2 ^ phys_erase_shift c)" "ei_len instr = of_nat (n * 2 ^ phys_erase_shift c)"
    and "0 < n" "(b + n) * bp \<le> 2 ^ bits"
  shows "\<exists>m1 m2 m3 instr'. nand_block_markbad c (of_nat (b * bp * writesize c)) m = Some (0, m1) \<and>
    nand_block_isbad c (of_nat (b * bp * writesize c)) m1 = Some (1, m2) \<and>
    nand_erase c instr m2 = Some (- EIO, instr', m3) \<and> ei_state instr' = MTD_ERASE_FAILED \<and>
    cached m3 \<and> idle m3 \<and> raw (nand m3) = raw (nand m1) \<and> (\<forall>q. q div bp \<noteq> b \<longrightarrow> raw (nand m1) q = raw (nand m) q)"
proof -
  obtain m1 where m1: "nand_block_markbad c (of_nat (b * bp * writesize c)) m = Some (0, m1)" "cached m1" "idle m1"
      "\<forall>q. q div bp \<noteq> b \<longrightarrow> raw (nand m1) q = raw (nand m) q" "raw (nand m1) (b * bp) ! writesize c = 0"
    using nand_block_markbad_ok [OF assms(1-6)] by blast
  obtain m2 where m2: "nand_block_isbad c (of_nat (b * bp * writesize c)) m1 = Some (1, m2)" "cached m2" "idle m2"
      "raw (nand m2) = raw (nand m1)"
    using nand_block_isbad_ok [OF m1(2,3) assms(4)] m1(5) by (auto simp: kept_def)
  have "erase_blocks (writesize c) bp (blank c) b n (raw (nand m2)) = (False, raw (nand m2))"
    using assms(9) m1(5) m2(4) by (cases n) simp_all
  from nand_erase_ok [OF m2(2,3) assms(9,7,8,10) this] show ?thesis using m1 m2 by auto
qed

end

end
