(* ===== verification/MtdSlc.thy ===== *)
theory MtdSlc
  imports NandPage MtdErase
begin

text \<open>
  The MTD interface on the S3C driver: the table of functions that \<open>s3c_nand_probe\<close> installs for an SLC chip obeys the
  laws of \<open>page_store\<close> and \<open>block_store\<close>, whatever the device behind the controller, as long as that is a
  \<open>nand_device\<close>.  So reads, writes, erases and bad blocks behave as proved there, on the driver's own functions down to
  the registers of the controller.
\<close>

section \<open>What the page functions keep\<close>

text \<open>No function of the driver changes the count of corrected errors or the size of a buffer.\<close>

definition frame :: "'d nand \<Rightarrow> 'd nand \<Rightarrow> bool" where
  "frame n n' \<longleftrightarrow> ecc_corrected n' = ecc_corrected n \<and> length (ecccalc n') = length (ecccalc n) \<and>
     length (oob_poi n') = length (oob_poi n)"

lemma frame_refl [simp]: "frame n n"
  by (simp add: frame_def)

lemma frame_trans: "frame n n1 \<Longrightarrow> frame n1 n2 \<Longrightarrow> frame n n2"
  by (simp add: frame_def)

lemma frame_dev [simp]: "frame (n\<lparr>dev := s\<rparr>) n' \<longleftrightarrow> frame n n'" "frame n (n'\<lparr>dev := s\<rparr>) \<longleftrightarrow> frame n n'"
  by (simp_all add: frame_def)

lemma put_bytes_length: "put_bytes xs i ys = Some zs \<Longrightarrow> length zs = length xs"
  by (auto simp: put_bytes_def split: if_splits)

lemma frame_put:
  "put_bytes (oob_poi n) i xs = Some ys \<Longrightarrow> frame n (n\<lparr>oob_poi := ys\<rparr>)"
  "put_bytes (ecccalc n) i xs = Some ys \<Longrightarrow> frame n (n\<lparr>ecccalc := ys\<rparr>)"
  by (simp_all add: frame_def put_bytes_length)

lemma cmdfunc_frame: "cmdfunc k c cmd col page n = Some n' \<Longrightarrow> frame n n'"
  by (auto simp: cmdfunc_def bind_eq_Some_conv)

lemma enable_frame: "frame n (s3c_nand_enable_hwecc k c mode n)"
  by (simp add: s3c_nand_enable_hwecc_def Let_def case_prod_beta frame_def)

lemma write_buf_frame: "frame n (write_buf k xs n)"
  by (simp add: write_buf_def)

lemma read_buf_frame: "frame n (snd (read_buf k len n))"
  by (simp add: read_buf_def case_prod_beta Let_def)

lemma read_oob_poi_frame: "read_oob_poi k i len n = Some n' \<Longrightarrow> frame n n'"
  by (auto simp: read_oob_poi_def bind_eq_Some_conv read_buf_def case_prod_beta Let_def frame_def put_bytes_length)

lemma calculate_frame: "s3c_nand_calculate_ecc k c n = Some (x, n') \<Longrightarrow> frame n n'"
  by (auto simp: s3c_nand_calculate_ecc_def bind_eq_Some_conv case_prod_beta Let_def split: if_splits)

lemma calculate_at_frame: "calculate_at k c i n = Some n' \<Longrightarrow> frame n n'"
  by (auto simp: calculate_at_def bind_eq_Some_conv intro: frame_trans [OF calculate_frame frame_put(2)])

lemma xor_byte_length: "xor_byte xs i v = Some ys \<Longrightarrow> length ys = length xs"
  by (auto simp: xor_byte_def split: if_splits)

lemma slc_correct_length: "slc_correct k xs code s = Some (r, ys, s') \<Longrightarrow> length ys = length xs"
  by (auto simp: slc_correct_def bind_eq_Some_conv case_prod_beta Let_def xor_byte_length split: if_splits)

lemma mlc_fix_length: "mlc_fix e s0 s1 b xs = Some ys \<Longrightarrow> length ys = length xs"
proof -
  have step: "length ys = length xs" if "(if t then xor_byte xs i v else Some xs) = Some ys" for t i v and xs ys :: "u8 list"
    using that by (auto simp: xor_byte_length split: if_splits)
  show "mlc_fix e s0 s1 b xs = Some ys \<Longrightarrow> length ys = length xs"
    unfolding mlc_fix_def bind_eq_Some_conv by (metis step xor_byte_length)
qed

lemma mlc_correct_length: "mlc_correct k xs s = Some (r, ys, s') \<Longrightarrow> length ys = length xs"
proof -
  assume "mlc_correct k xs s = Some (r, ys, s')"
  then obtain e s0 s1 b where "ys = xs \<or> mlc_fix e s0 s1 b xs = Some ys"
    unfolding mlc_correct_def bind_eq_Some_conv Let_def case_prod_beta
    by (elim exE conjE) (auto simp: bind_eq_Some_conv split: if_splits)
  then show ?thesis by (auto simp: mlc_fix_length)
qed

lemma correct_data_frame:
  "s3c_nand_correct_data k c dat code n = Some (r, dat', n') \<Longrightarrow> frame n n' \<and> map_option length dat' = map_option length dat"
  by (auto simp: s3c_nand_correct_data_def bind_eq_Some_conv slc_correct_length mlc_correct_length split: option.splits if_splits)

lemma correct_sector_frame: "correct_sector k c buf p code n = Some (buf', n') \<Longrightarrow> frame n n'"
  by (auto simp: correct_sector_def bind_eq_Some_conv Let_def frame_def split: if_splits dest!: correct_data_frame)

lemma write_spare_frame: "write_spare_1bit k c n = Some n' \<Longrightarrow> frame n n'"
proof -
  assume "write_spare_1bit k c n = Some n'"
  then obtain start xs n2 code ys where n2: "calculate_at k c (ecc_total c) (write_buf k xs (s3c_nand_enable_hwecc k c NAND_ECC_WRITE n)) = Some n2"
    "put_bytes (oob_poi n2) start code = Some ys" "frame (n2\<lparr>oob_poi := ys\<rparr>) n'"
    by (auto simp: write_spare_1bit_def bind_eq_Some_conv Let_def write_buf_frame)
  show ?thesis
    using frame_trans [OF enable_frame frame_trans [OF write_buf_frame frame_trans [OF calculate_at_frame [OF n2(1)]
      frame_trans [OF frame_put(1) [OF n2(2)] n2(3)]]]] .
qed

lemma read_spare_frame: "read_spare_1bit k c n = Some n' \<Longrightarrow> frame n n'"
proof -
  assume "read_spare_1bit k c n = Some n'"
  then obtain start n1 n2 n3 skip where n: "read_oob_poi k 0 start (s3c_nand_enable_hwecc k c NAND_ECC_READ n) = Some n1"
    "calculate_at k c (ecc_total c) n1 = Some n2" "read_oob_poi k start (ecc_bytes c) n2 = Some n3"
    "(if skip then Some n3 else do {
       (ret, dat, n) \<leftarrow> s3c_nand_correct_data k c (Some (oob_poi n3)) (drop start (oob_poi n3)) n3;
       Some (case dat of Some ys \<Rightarrow> n\<lparr>oob_poi := ys\<rparr> | None \<Rightarrow> n) }) = Some n'"
    by (auto simp: read_spare_1bit_def bind_eq_Some_conv Let_def)
  have "frame n3 n'"
    using n(4) by (auto simp: bind_eq_Some_conv frame_def split: if_splits option.splits dest!: correct_data_frame)
  then show ?thesis
    using frame_trans [OF enable_frame frame_trans [OF read_oob_poi_frame [OF n(1)] frame_trans [OF calculate_at_frame [OF n(2)]
      frame_trans [OF read_oob_poi_frame [OF n(3)]]]]] by blast
qed

lemma write_sectors_frame: "write_sectors k c buf steps i p n = Some n' \<Longrightarrow> frame n n'"
proof (induction steps arbitrary: i p n)
  case (Suc steps)
  then obtain xs n1 where n1: "calculate_at k c i (write_buf k xs (s3c_nand_enable_hwecc k c NAND_ECC_WRITE n)) = Some n1"
    "frame n1 n'"
    by (auto simp: bind_eq_Some_conv Let_def)
  show ?case using frame_trans [OF enable_frame frame_trans [OF write_buf_frame frame_trans [OF calculate_at_frame [OF n1(1)] n1(2)]]] .
qed simp

lemma read_sectors_frame: "read_sectors k c steps i p col buf n = Some (buf', n') \<Longrightarrow> frame n n'"
proof (induction steps arbitrary: i p col buf n)
  case (Suc steps)
  then obtain n1 n3 code buf1 buf2 n4 where n: "cmdfunc k c NAND_CMD_RNDOUT (of_nat col) (- 1) n = Some n1"
    "calculate_at k c i (snd (read_buf k (ecc_size c) (s3c_nand_enable_hwecc k c NAND_ECC_READ n1))) = Some n3"
    "correct_sector k c buf1 p code n3 = Some (buf2, n4)" "frame n4 n'"
    by (auto simp: bind_eq_Some_conv Let_def case_prod_beta)
  show ?case
    using frame_trans [OF cmdfunc_frame [OF n(1)] frame_trans [OF enable_frame frame_trans [OF read_buf_frame
      frame_trans [OF calculate_at_frame [OF n(2)] frame_trans [OF correct_sector_frame [OF n(3)] n(4)]]]]] .
qed simp

lemma place_ecc_length: "place_ecc pos calc is oob = Some ys \<Longrightarrow> length ys = length oob"
  by (induction pos calc "is" oob rule: place_ecc.induct) (auto simp: bind_eq_Some_conv put_bytes_length split: if_splits)

lemma place_codes_frame: "place_codes c n = Some n' \<Longrightarrow> frame n n'"
  by (auto simp: place_codes_def bind_eq_Some_conv frame_def place_ecc_length)

lemma waitfunc_frame: "waitfunc k c HZ e n = Some (x, n') \<Longrightarrow> frame n n'"
  by (auto simp: waitfunc_def bind_eq_Some_conv)

lemma read_page_frame: "s3c_nand_read_page_1bit k c buf n = Some (xs, n') \<Longrightarrow> frame n n'"
  by (auto simp: s3c_nand_read_page_1bit_def bind_eq_Some_conv intro: frame_trans [OF cmdfunc_frame
    frame_trans [OF read_spare_frame read_sectors_frame]])

lemma write_page_frame: "s3c_nand_write_page_1bit k c buf n = Some n' \<Longrightarrow> frame n n'"
  by (auto simp: s3c_nand_write_page_1bit_def bind_eq_Some_conv intro: frame_trans [OF write_sectors_frame
    frame_trans [OF place_codes_frame write_spare_frame]])

lemma nand_write_page_frame:
  "nand_write_page k c (s3c_nand_write_page_1bit k c buf) HZ page n = Some (ok, n') \<Longrightarrow> frame n n'"
  by (auto simp: nand_write_page_def bind_eq_Some_conv intro: frame_trans [OF cmdfunc_frame
    frame_trans [OF write_page_frame frame_trans [OF cmdfunc_frame waitfunc_frame]]])

lemma write_oob_frame: "s3c_nand_write_oob_1bit k c HZ page n = Some (ok, n') \<Longrightarrow> frame n n'"
  by (auto simp: s3c_nand_write_oob_1bit_def bind_eq_Some_conv intro: frame_trans [OF cmdfunc_frame
    frame_trans [OF write_spare_frame frame_trans [OF cmdfunc_frame waitfunc_frame]]])

section \<open>The commands of the MTD functions\<close>

lemma cycles_erase:
  "faddr f = [] \<Longrightarrow> fcmd f \<noteq> 0x80 \<Longrightarrow> cycles 3 page f = f\<lparr>faddr := [of_nat page, of_nat (page div 256), of_nat (page div 65536)]\<rparr>"
  by (simp add: cycles_def numeral_3_eq_3 flash_addr_def)

lemma erase_row_bytes: "page < 2 ^ 24 \<Longrightarrow> erase_row [of_nat page, of_nat (page div 256), of_nat (page div 65536)] = page"
  using addr_row_bytes [of page 0 0] by (simp add: erase_row_def addr_row_def)

context nand_device
begin

lemma lp_addr_page:
  assumes "page < 2 ^ 24" "2 ^ 27 < chipsize c" "ready_at s \<le> clock s" "s' = nand_lp_addr k c (- 1) (of_nat page) s"
  shows "fl s' = cycles 3 page (ce (fl s))" "ready_at s' \<le> clock s'"
proof -
  have p: "(of_nat page :: u32) \<noteq> - 1" "signed_drop_bit 8 (of_nat page :: u32) \<noteq> - 1"
    "signed_drop_bit 16 (of_nat page :: u32) \<noteq> - 1" "(ucast (of_nat page :: u32) :: u8) = of_nat page"
    "(ucast (signed_drop_bit 8 (of_nat page :: u32)) :: u8) = of_nat (page div 256)"
    "(ucast (signed_drop_bit 16 (of_nat page :: u32)) :: u8) = of_nat (page div 65536)"
    using assms(1) of_nat_not_none [of page] ucast_signed_drop [of page 8] ucast_signed_drop [of page 16]
      ucast_signed_drop [of page 0] by simp_all
  show "fl s' = cycles 3 page (ce (fl s))"
    using assms p by (simp add: nand_lp_addr_def hw_addr NAND_CMD_NONE_def Let_def cycles_def numeral_3_eq_3)
  show "ready_at s' \<le> clock s'"
    using assms p by (simp add: nand_lp_addr_def Let_def hw_addr_ready NAND_CMD_NONE_def)
qed

lemma cmd_erase1:
  assumes "page < 2 ^ 24" "2 ^ 27 < chipsize c" "ready_at s \<le> clock s"
  shows "\<exists>s'. nand_command_lp k c NAND_CMD_ERASE1 (- 1) (of_nat page) s = Some s' \<and> ready_at s' \<le> clock s' \<and>
    erase_row (faddr (fl s')) = page \<and> preg (fl s') = preg (fl s) \<and> cells (fl s') = cells (fl s)"
proof -
  define s1 where "s1 = s3c_nand_hwcontrol k 0x60 (NAND_NCE OR NAND_CLE OR NAND_CTRL_CHANGE) s"
  have s1: "fl s1 = flash_cmd 0x60 (ce (fl s))" "ready_at s1 \<le> clock s1"
    using hw_cmd [OF _ s1_def] assms(3) by (auto simp: busy_cmds_def NAND_CMD_NONE_def)
  define s2 where "s2 = nand_lp_addr k c (- 1) (of_nat page) s1"
  have "nand_command_lp k c NAND_CMD_ERASE1 (- 1) (of_nat page) s = Some s2"
    by (simp add: nand_command_lp_def Let_def nand_cmd_defs s1_def s2_def)
  moreover note lp_addr_page [OF assms(1,2) s1(2) s2_def]
  ultimately show ?thesis using assms by (simp add: s1 flash_cmd_def cycles_erase erase_row_bytes)
qed

lemma cmd_erase2:
  "\<exists>s'. nand_command_lp k c NAND_CMD_ERASE2 (- 1) (- 1) s = Some s' \<and> fl s' = flash_cmd 0xd0 (ce (fl s)) \<and>
    ready_at s' \<le> clock s' + 2"
proof -
  define s1 where "s1 = s3c_nand_hwcontrol k 0xd0 (NAND_NCE OR NAND_CLE OR NAND_CTRL_CHANGE) s"
  have s1: "fl s1 = flash_cmd 0xd0 (ce (fl s))" "ready_at s1 \<le> clock s1 + 2"
    using hw_cmd [OF _ s1_def] by (auto simp: busy_cmds_def NAND_CMD_NONE_def)
  have "nand_command_lp k c NAND_CMD_ERASE2 (- 1) (- 1) s = Some s1"
    by (simp add: nand_command_lp_def Let_def nand_cmd_defs s1_def)
  then show ?thesis using s1 by blast
qed

lemma cmd_reset:
  assumes "has_dev_ready c" "\<not> in_panic k"
  shows "\<exists>s'. nand_command_lp k c NAND_CMD_RESET (- 1) (- 1) s = Some s' \<and> fl s' = flash_cmd 0xff (ce (fl s)) \<and>
    ready_at s' \<le> clock s'"
proof -
  define s1 where "s1 = s3c_nand_hwcontrol k 0xff (NAND_NCE OR NAND_CLE OR NAND_CTRL_CHANGE) s"
  have s1: "fl s1 = flash_cmd 0xff (ce (fl s))" "ready_at s1 \<le> clock s1 + 2"
    using hw_cmd [OF _ s1_def] by (auto simp: busy_cmds_def NAND_CMD_NONE_def)
  have "nand_command_lp k c NAND_CMD_RESET (- 1) (- 1) s = nand_wait_ready k s1"
    using assms(1) by (simp add: nand_command_lp_def Let_def nand_cmd_defs s1_def image_iff)
  then show ?thesis using nand_wait_ready_ready [OF s1(2) assms(2)] s1(1) by auto
qed

lemma cmd_readoob:
  assumes "writesize c = 2048" "page < 2 ^ 24" "2 ^ 27 < chipsize c" "\<not> buswidth16 c" "has_dev_ready c" "\<not> in_panic k"
    and "ready_at s \<le> clock s"
  shows "\<exists>s'. nand_command_lp k c NAND_CMD_READOOB 0 (of_nat page) s = Some s' \<and> ready_at s' \<le> clock s' \<and>
    fcol (fl s') = 2048 \<and> preg (fl s') = cells (fl s) page \<and> cells (fl s') = cells (fl s) \<and> fcmd (fl s') = 0x30"
proof -
  have "nand_command_lp k c NAND_CMD_READOOB 0 (of_nat page) s = nand_command_lp k c NAND_CMD_READ0 (of_nat 2048) (of_nat page) s"
    using assms(1) by (simp add: nand_command_lp_def nand_cmd_defs)
  then show ?thesis using cmd_read0 [OF _ assms(2-7), of 2048] by simp
qed

lemma deselect_keeps:
  assumes "s' = s3c_nand_hwcontrol k NAND_CMD_NONE (0 OR NAND_CTRL_CHANGE) s"
  shows "cells (fl s') = cells (fl s)" "preg (fl s') = preg (fl s)" "ready_at s \<le> clock s \<Longrightarrow> ready_at s' \<le> clock s'"
  using assms rd_keeps [of S3C_NFCONT s]
    wr_time(1) [of S3C_NFCONT "fst (readl k S3C_NFCONT s) OR S3C_NFCONT_nFCE0" "snd (readl k S3C_NFCONT s)"]
  by (auto simp: s3c_nand_hwcontrol_def nand_ctrl_defs case_prod_beta Let_def wr_fl flash_cont_def)

text \<open>Programming the spare area alone.\<close>

lemma nand_write_oob_slc:
  assumes "slc_2k c" "page < 2 ^ 24" "100 \<le> HZ" "HZ < 2 ^ 31" "\<not> in_panic k" "ready_at (dev n) \<le> clock (dev n)"
    and "length (preg (fl (dev n))) = 2112" "length (oob_poi n) = 64" "20 \<le> length (ecccalc n)"
  shows "\<exists>n'. s3c_nand_write_oob_1bit k c HZ (of_nat page) n = Some (True, n') \<and>
    ready_at (dev n') \<le> clock (dev n') \<and> length (preg (fl (dev n'))) = 2112 \<and> ecc_failed n' = ecc_failed n \<and>
    oob_poi n' = take 60 (oob_poi n) @ ecc_code (ecc (take 60 (oob_poi n))) \<and>
    cells (fl (dev n')) = (cells (fl (dev n)))(page := map2 (AND) (cells (fl (dev n)) page) (replicate 2048 0xff @ oob_poi n'))"
proof -
  have geom: "2 ^ 27 < chipsize (nand_geom.truncate c)" "\<not> buswidth16 (nand_geom.truncate c)" "has_dev_ready (nand_geom.truncate c)"
    and ws: "writesize c = 2048"
    using assms(1) by (simp_all add: slc_2k_def nand_geom.truncate_def)
  obtain s1 where s1: "nand_command_lp k (nand_geom.truncate c) NAND_CMD_SEQIN (of_nat 2048) (of_nat page) (dev n) = Some s1"
    "ready_at s1 \<le> clock s1" "programming (fl s1) page (cells (fl (dev n))) 2112 (replicate 2048 0xff)"
    using cmd_seqin [OF _ assms(2) geom(1,2) assms(6), of 2048] assms(7) by (auto simp: programming_def simp flip: replicate_add)
  define n1 where "n1 = n\<lparr>dev := s1\<rparr>"
  obtain n2 where n2: "write_spare_1bit k c n1 = Some n2" "oob_poi n2 = take 60 (oob_poi n) @ ecc_code (ecc (take 60 (oob_poi n)))"
    "programming (fl (dev n2)) page (cells (fl (dev n))) 2112 (replicate 2048 0xff @ oob_poi n2)" "ecc_failed n2 = ecc_failed n"
    using write_spare_slc [OF assms(1), of n1 page "cells (fl (dev n))" 2112 "replicate 2048 0xff"] s1 assms(8,9) by (auto simp: n1_def)
  obtain s3 where s3: "nand_command_lp k (nand_geom.truncate c) NAND_CMD_PAGEPROG (- 1) (- 1) (dev n2) = Some s3"
    "fl s3 = flash_cmd 0x10 (ce (fl (dev n2)))" "ready_at s3 \<le> clock s3 + 2"
    using cmd_pageprog by blast
  obtain s4 where s4: "nand_wait k (nand_geom.truncate c) HZ False False s3 = Some (0xC0, s4)" "cells (fl s4) = cells (fl s3)"
    "preg (fl s4) = preg (fl s3)" "ready_at s4 \<le> clock s4"
    using nand_wait_status [OF _ s3(3) assms(3,4) geom(3) assms(5)] by blast
  have "s3c_nand_write_oob_1bit k c HZ (of_nat page) n = Some (True, n2\<lparr>dev := s4\<rparr>)"
    using s1(1) n2(1) s3(1) s4(1) ws
    by (simp add: s3c_nand_write_oob_1bit_def cmdfunc_def waitfunc_def n1_def [symmetric] NAND_STATUS_FAIL_def)
  moreover have "length (preg (fl (dev n2))) = 2112" using n2(2,3) assms(8) by (simp add: programming_def)
  ultimately show ?thesis using s4 n2(2-) assms(8) by (simp add: s3 flash_cmd_def programming_def)
qed

end

section \<open>The table of the driver\<close>

text \<open>
  The chip as \<open>nand_scan\<close> leaves it: an SLC chip with \<open>2 ^ bits\<close> pages of 2 KiB, blocks of 64 pages, subpages of 512
  bytes, the marker of a bad block in the first spare byte.
\<close>

definition slc_geom :: "nat \<Rightarrow> 'd chip_base \<Rightarrow> bool" where
  "slc_geom bits g \<longleftrightarrow> slc_2k (chip.truncate g) \<and> 6 \<le> bits \<and> bits \<le> 24 \<and> page_shift g = 11 \<and> phys_erase_shift g = 17 \<and>
     chip_shift g = 11 + bits \<and> mtd_size g = 2 ^ chip_shift g \<and> pagemask g = 2 ^ bits - 1 \<and> subpagesize g = 512 \<and>
     badblockpos g = 0 \<and> badblockbits g = 8 \<and> ecc_modus g = NAND_ECC_HW \<and> has_option g NAND_NO_AUTOINCR \<and> has_option g NAND_NO_READRDY \<and>
     \<not> has_option g NAND_BROKEN_XD \<and> \<not> has_option g NAND_BUSWIDTH_16 \<and> \<not> has_option g NAND_4PAGE_ARRAY \<and>
     \<not> has_option g BBT_AUTO_REFRESH \<and> \<not> has_option g NAND_BBT_SCANLASTPAGE \<and> \<not> has_option g NAND_BBT_SCANBYTE1AND6 \<and>
     \<not> has_option g NAND_USE_FLASH_BBT"

lemma s3c_slc_chip_base [simp]:
  "chip_base.truncate (s3c_slc_chip k HZ g) = s3c_chip_base k HZ g"
  by (simp add: s3c_slc_chip_def Let_def chip_base.defs)

lemma s3c_chip_fields [simp]:
  "writesize (s3c_slc_chip k HZ g) = writesize g" "oobsize (s3c_slc_chip k HZ g) = oobsize g"
  "page_shift (s3c_slc_chip k HZ g) = page_shift g" "phys_erase_shift (s3c_slc_chip k HZ g) = phys_erase_shift g"
  "chip_shift (s3c_slc_chip k HZ g) = chip_shift g" "mtd_size (s3c_slc_chip k HZ g) = mtd_size g"
  "pagemask (s3c_slc_chip k HZ g) = pagemask g" "subpagesize (s3c_slc_chip k HZ g) = subpagesize g"
  "badblockpos (s3c_slc_chip k HZ g) = badblockpos g" "options (s3c_slc_chip k HZ g) = options g"
  "ecc_modus (s3c_slc_chip k HZ g) = ecc_modus g" "ecc_layout (s3c_slc_chip k HZ g) = ecc_layout g"
  "oobavail (s3c_slc_chip k HZ g) = oobavail g"
  "has_option (s3c_slc_chip k HZ g) x = has_option g x"
  by (simp_all add: s3c_slc_chip_def s3c_chip_base_def Let_def chip_base.defs has_option_def)

lemma s3c_chip_pointers:
  "p_select_chip (s3c_slc_chip k HZ g) = (\<lambda>chipnr n. do { s \<leftarrow> nand_select_chip k chipnr (dev n); Some (n\<lparr>dev := s\<rparr>) })"
  "p_read_byte (s3c_slc_chip k HZ g) = (\<lambda>n. let (x, s) = nand_read_byte k (dev n) in (x, n\<lparr>dev := s\<rparr>))"
  "p_cmdfunc (s3c_slc_chip k HZ g) = cmdfunc k (chip.truncate g)"
  "p_waitfunc (s3c_slc_chip k HZ g) = (\<lambda>st. waitfunc k (chip.truncate g) HZ (st = FL_ERASING))"
  "p_block_bad (s3c_slc_chip k HZ g) = nand_block_bad (s3c_chip_base k HZ g)"
  "p_erase_cmd (s3c_slc_chip k HZ g) = (if has_option g NAND_4PAGE_ARRAY then multi_erase_cmd k (chip.truncate g) else single_erase_cmd k (chip.truncate g))"
  "p_read_page (s3c_slc_chip k HZ g) = (\<lambda>buf page n. do { (xs, n) \<leftarrow> s3c_nand_read_page_1bit k (chip.truncate g) buf n; Some (0, xs, n) })"
  "p_write_page (s3c_slc_chip k HZ g) buf page False n = do {
     (ok, n) \<leftarrow> nand_write_page k (chip.truncate g) (s3c_nand_write_page_1bit k (chip.truncate g) buf) HZ page n;
     Some (if ok then 0 else - EIO, n) }"
  "p_write_oob (s3c_slc_chip k HZ g) = (\<lambda>page n. do {
     (ok, n) \<leftarrow> s3c_nand_write_oob_1bit k (chip.truncate g) HZ page n; Some (if ok then 0 else - EIO, n) })"
  by (simp_all add: s3c_slc_chip_def s3c_chip_base_def Let_def chip_base.defs cong: option.case_cong)

lemma s3c_base_fields [simp]:
  "page_shift (s3c_chip_base k HZ g) = page_shift g" "pagemask (s3c_chip_base k HZ g) = pagemask g"
  "badblockpos (s3c_chip_base k HZ g) = badblockpos g" "badblockbits (s3c_chip_base k HZ g) = badblockbits g"
  "has_option (s3c_chip_base k HZ g) x = has_option g x" "p_cmdfunc (s3c_chip_base k HZ g) = cmdfunc k (chip.truncate g)"
  "p_read_byte (s3c_chip_base k HZ g) = (\<lambda>n. let (x, s) = nand_read_byte k (dev n) in (x, n\<lparr>dev := s\<rparr>))"
  by (simp_all add: s3c_chip_base_def has_option_def)

section \<open>The laws\<close>

text \<open>The device is ready and its registers and pages, and the buffers of the driver, have their sizes.\<close>

definition slc_usable :: "('d \<Rightarrow> flash) \<Rightarrow> ('d \<Rightarrow> nat) \<Rightarrow> ('d \<Rightarrow> nat) \<Rightarrow> 'd nand \<Rightarrow> bool" where
  "slc_usable fl clock ready_at n \<longleftrightarrow> ready_at (dev n) \<le> clock (dev n) \<and> length (preg (fl (dev n))) = 2112 \<and>
     length (oob_poi n) = 64 \<and> 20 \<le> length (ecccalc n) \<and> (\<forall>p. length (cells (fl (dev n)) p) = 2112)"

definition slc_pages :: "('d \<Rightarrow> flash) \<Rightarrow> 'd nand \<Rightarrow> nat \<Rightarrow> u8 list" where
  "slc_pages fl n = cells (fl (dev n))"

text \<open>What a page was written with, and what at most one changed bit for each sector leaves of it.\<close>

definition slc_decodes :: "(u8 list \<Rightarrow> u32) \<Rightarrow> u8 list \<Rightarrow> u8 list \<Rightarrow> bool" where
  "slc_decodes ecc pg d \<longleftrightarrow> length d = 2048 \<and> (\<exists>oob. length oob = 64 \<and> readable d (spare_image ecc d oob) pg)"

definition slc_image :: "(u8 list \<Rightarrow> u32) \<Rightarrow> u8 list \<Rightarrow> u8 list" where
  "slc_image ecc buf = buf @ spare_image ecc buf (replicate 64 0xff)"

text \<open>A spare buffer that holds nothing but the codes of an earlier page.\<close>

definition slc_clean :: "u8 list \<Rightarrow> bool" where
  "slc_clean oob \<longleftrightarrow> length oob = 64 \<and> take 40 oob = replicate 40 0xff \<and> take 4 (drop 56 oob) = replicate 4 0xff"

lemma spare_image_clean:
  assumes "slc_clean oob"
  shows "spare_image ecc buf oob = spare_image ecc buf (replicate 64 0xff)" "slc_clean (spare_image ecc buf oob)"
  using assms by (simp_all add: slc_clean_def spare_image_def Let_def)

lemma slc_image_decodes: "length buf = 2048 \<Longrightarrow> slc_decodes ecc (slc_image ecc buf) buf"
  using length_spare_image [of "replicate 64 0xff" ecc buf]
  by (auto simp: slc_decodes_def slc_image_def readable_def near_def sector_append intro!: exI [of _ "replicate 64 0xff"])

lemma map2_and_ff: "length xs = n \<Longrightarrow> map2 (AND) (replicate n 0xff) xs = (xs :: u8 list)"
  by (induction xs arbitrary: n) (auto simp: and_byte_mask)

lemma slc_usable_oob: "slc_usable fl clock ready_at n \<Longrightarrow> length ys = 64 \<Longrightarrow>
  kept (slc_usable fl clock ready_at) (slc_pages fl) n (n\<lparr>oob_poi := ys\<rparr>)"
  by (simp add: kept_def slc_usable_def slc_pages_def)

locale slc_device = nand_device +
  fixes g :: "'a chip_base" and HZ bits :: nat
  assumes chip_geom: "slc_geom bits g" and running: "100 \<le> HZ" "HZ < 2 ^ 31" "\<not> in_panic k"
begin

abbreviation usable :: "'a nand \<Rightarrow> bool" where "usable \<equiv> slc_usable fl clock ready_at"
abbreviation raw :: "'a nand \<Rightarrow> nat \<Rightarrow> u8 list" where "raw \<equiv> slc_pages fl"
abbreviation same :: "'a nand \<Rightarrow> 'a nand \<Rightarrow> bool" where "same \<equiv> kept usable raw"

lemma slc: "slc_2k (chip.truncate g)" "writesize g = 2048" "oobsize g = 64"
  "2 ^ 27 < chipsize (nand_geom.truncate (chip.truncate g))" "\<not> buswidth16 (nand_geom.truncate (chip.truncate g))"
  "has_dev_ready (nand_geom.truncate (chip.truncate g))" "writesize (nand_geom.truncate (chip.truncate g)) = 2048"
  using chip_geom by (simp_all add: slc_geom_def slc_2k_def chip.defs nand_geom.defs)

lemma page24: "p < 2 ^ bits \<Longrightarrow> p < (2 :: nat) ^ 24"
  using chip_geom power_increasing [of bits 24 "2 :: nat"] by (simp add: slc_geom_def)

lemma dev_same:
  assumes "usable n" "ready_at s \<le> clock s" "length (preg (fl s)) = 2112" "cells (fl s) = cells (fl (dev n))"
  shows "same n (n\<lparr>dev := s\<rparr>)"
  using assms by (simp add: kept_def slc_usable_def slc_pages_def)

lemma slc_select_chip:
  assumes "usable n" "x \<in> {0, - 1}"
  shows "\<exists>n'. p_select_chip (s3c_slc_chip k HZ g) x n = Some n' \<and> same n n' \<and> oob_poi n' = oob_poi n"
  using assms deselect_keeps [OF refl, of "dev n"] dev_same [OF assms(1)]
  by (auto simp: s3c_chip_pointers nand_select_chip_def slc_usable_def slc_pages_def kept_def)

lemma read_status:
  assumes "ready_at s \<le> clock s" "fl s = flash_cmd 0x70 f"
  shows "\<exists>s'. nand_read_byte k s = (0xC0, s') \<and> ready_at s' \<le> clock s' \<and> cells (fl s') = cells f \<and> preg (fl s') = preg f"
  using data_rd [OF assms(1)] assms
  by (cases "readb k S3C_NFDATA s") (auto simp: nand_read_byte_def flash_cmd_def flash_byte_def flash_get_def engine_def)

lemma slc_writable:
  assumes "usable n"
  shows "\<exists>n'. nand_check_wp (s3c_slc_chip k HZ g) n = Some (False, n') \<and> same n n' \<and> oob_poi n' = oob_poi n"
proof -
  obtain s1 where s1: "nand_command_lp k (nand_geom.truncate (chip.truncate g)) NAND_CMD_STATUS (- 1) (- 1) (dev n) = Some s1"
    "fl s1 = flash_cmd 0x70 (ce (fl (dev n)))" "ready_at s1 = ready_at (dev n)" "clock (dev n) \<le> clock s1"
    using cmd_status by blast
  then have "ready_at s1 \<le> clock s1" using assms by (simp add: slc_usable_def)
  from read_status [OF this s1(2)] obtain s2 where s2: "nand_read_byte k s1 = (0xC0, s2)" "ready_at s2 \<le> clock s2"
    "cells (fl s2) = cells (fl (dev n))" "preg (fl s2) = preg (fl (dev n))" by auto
  have "nand_check_wp (s3c_slc_chip k HZ g) n = Some (False, n\<lparr>dev := s2\<rparr>)"
    using s1(1) s2(1) chip_geom by (simp add: nand_check_wp_def s3c_chip_pointers cmdfunc_def slc_geom_def NAND_STATUS_WP_def)
  then show ?thesis using dev_same [OF assms s2(2) _ s2(3)] s2(4) assms by (simp add: slc_usable_def)
qed

lemma slc_read_page:
  assumes "usable n" "p < 2 ^ bits" "slc_decodes ecc (raw n p) d" "length buf = 2048"
  shows "\<exists>n1 n'. p_cmdfunc (s3c_slc_chip k HZ g) NAND_CMD_READ0 0x00 (of_nat p) n = Some n1 \<and>
    p_read_page (s3c_slc_chip k HZ g) buf (of_nat p) n1 = Some (0, d, n') \<and> same n n'"
proof -
  obtain oob where oob: "length oob = 64" "readable d (spare_image ecc d oob) (cells (fl (dev n)) p)" "length d = 2048"
    using assms(3) by (auto simp: slc_decodes_def slc_pages_def)
  have u: "ready_at (dev n) \<le> clock (dev n)" "length (oob_poi n) = 64" "20 \<le> length (ecccalc n)" "\<forall>p. length (cells (fl (dev n)) p) = 2112"
    using assms(1) by (simp_all add: slc_usable_def)
  obtain n1 n' where n: "cmdfunc k (chip.truncate g) NAND_CMD_READ0 0x00 (of_nat p) n = Some n1"
      "s3c_nand_read_page_1bit k (chip.truncate g) buf n1 = Some (d, n')"
      "ecc_failed n' = ecc_failed n" "reading n' (cells (fl (dev n)) p) (cells (fl (dev n)))"
    using nand_read_page_slc [OF slc(1) page24 [OF assms(2)] running(3) u(1) oob(3,1,2) assms(4) u(2,3)]
    by (auto simp: bind_eq_Some_conv)
  have "frame n n'" using frame_trans [OF cmdfunc_frame [OF n(1)] read_page_frame [OF n(2)]] .
  then have "same n n'" using n(3,4) u by (simp add: kept_def slc_usable_def slc_pages_def reading_def frame_def)
  then show ?thesis using n by (simp add: s3c_chip_pointers)
qed

lemma slc_write_page:
  assumes "usable n" "p < 2 ^ bits" "raw n p = replicate 2112 0xff" "length buf = 2048" "slc_clean (oob_poi n)"
  shows "\<exists>n'. p_write_page (s3c_slc_chip k HZ g) buf (of_nat p) False n = Some (0, n') \<and> kept usable (\<lambda>_ _. []) n n' \<and>
    raw n' = (raw n)(p := slc_image ecc buf) \<and> slc_clean (oob_poi n')"
proof -
  have u: "ready_at (dev n) \<le> clock (dev n)" "length (preg (fl (dev n))) = 2112" "length (oob_poi n) = 64" "20 \<le> length (ecccalc n)"
    "\<forall>p. length (cells (fl (dev n)) p) = 2112"
    using assms(1) by (simp_all add: slc_usable_def)
  obtain n' where n: "nand_write_page k (chip.truncate g) (s3c_nand_write_page_1bit k (chip.truncate g) buf) HZ (of_nat p) n = Some (True, n')"
    "ready_at (dev n') \<le> clock (dev n')" "length (preg (fl (dev n'))) = 2112" "oob_poi n' = spare_image ecc buf (oob_poi n)"
    "ecc_failed n' = ecc_failed n" "cells (fl (dev n')) = (cells (fl (dev n)))
      (p := map2 (AND) (cells (fl (dev n)) p) (buf @ spare_image ecc buf (oob_poi n)))"
    using nand_write_page_slc [OF slc(1) page24 [OF assms(2)] running u(1,2) assms(4) u(3,4)] by blast
  have len: "length (buf @ spare_image ecc buf (replicate 64 0xff)) = 2112"
    using assms(4) length_spare_image [of "replicate 64 0xff" ecc buf] by simp
  have img: "raw n' = (raw n)(p := slc_image ecc buf)"
    using n(6) map2_and_ff [OF len] assms(3) by (simp add: slc_pages_def slc_image_def spare_image_clean(1) [OF assms(5)])
  have "frame n n'" using nand_write_page_frame [OF n(1)] .
  then have "kept usable (\<lambda>_ _. []) n n'"
    using n(2-5) u img len by (auto simp: kept_def slc_usable_def frame_def slc_pages_def slc_image_def)
  then show ?thesis using n(1,4) img spare_image_clean(2) [OF assms(5)] by (simp add: s3c_chip_pointers)
qed

lemma slc_block_bad:
  assumes "usable n" "p < 2 ^ bits"
  shows "\<exists>n'. p_block_bad (s3c_slc_chip k HZ g) (of_nat (p * 2048)) n = Some (if raw n p ! 2048 = 0xff then 0 else 1, n') \<and> same n n'"
proof -
  have u: "ready_at (dev n) \<le> clock (dev n)" "\<forall>p. length (cells (fl (dev n)) p) = 2112" using assms(1) by (simp_all add: slc_usable_def)
  obtain s1 where s1: "nand_command_lp k (nand_geom.truncate (chip.truncate g)) NAND_CMD_READOOB 0 (of_nat p) (dev n) = Some s1"
    "ready_at s1 \<le> clock s1" "fcol (fl s1) = 2048" "preg (fl s1) = cells (fl (dev n)) p" "cells (fl s1) = cells (fl (dev n))" "fcmd (fl s1) = 0x30"
    using cmd_readoob [OF slc(7) page24 [OF assms(2)] slc(4-6) running(3) u(1)] by blast
  define s2 where "s2 = snd (readb k S3C_NFDATA s1)"
  have s2: "nand_read_byte k s1 = (cells (fl (dev n)) p ! 2048, s2)" "ready_at s2 \<le> clock s2" "cells (fl s2) = cells (fl (dev n))"
      "preg (fl s2) = cells (fl (dev n)) p"
    using data_rd [OF s1(2)] s1 by (auto simp: nand_read_byte_def s2_def prod_eq_iff flash_byte_def flash_get_def engine_def)
  have "p * 2048 < 2 ^ 63" using page24 [OF assms(2)] by simp
  then have page: "shift_int (of_nat (p * 2048)) (page_shift g) AND pagemask g = of_nat p"
    using shift_int_nat [of "p * 2048" 11] chip_geom of_nat_and_id [OF assms(2)] by (simp add: slc_geom_def del: of_nat_mult)
  have ff: "(ucast x :: u16) = 0xFF \<longleftrightarrow> x = 0xff" for x :: u8
  proof -
    have "unat x < 2 ^ LENGTH(8)" by (rule unsigned_less)
    then have "unat x < 2 ^ 16" by simp
    then show ?thesis by (simp add: word_unat_eq_iff unsigned_ucast_eq take_bit_nat_eq_self)
  qed
  have "p_block_bad (s3c_slc_chip k HZ g) (of_nat (p * 2048)) n = Some (if cells (fl (dev n)) p ! 2048 = 0xff then 0 else 1, n\<lparr>dev := s2\<rparr>)"
    using chip_geom s1(1) s2(1) page
    by (simp add: s3c_chip_pointers nand_block_bad_def slc_geom_def cmdfunc_def ff del: of_nat_mult)
  then show ?thesis using dev_same [OF assms(1) s2(2) _ s2(3)] s2(4) u(2) by (auto simp: slc_pages_def)
qed

lemma slc_erase:
  assumes "usable n" "p < 2 ^ bits"
  shows "\<exists>n1 st n'. p_erase_cmd (s3c_slc_chip k HZ g) (of_nat p) n = Some n1 \<and> p_waitfunc (s3c_slc_chip k HZ g) FL_ERASING n1 = Some (st, n') \<and>
    st AND NAND_STATUS_FAIL = 0 \<and> kept usable (\<lambda>_ _. []) n n' \<and> raw n' = wipe (2 ^ 6) (replicate 2112 0xff) (p div 2 ^ 6) (raw n)"
proof -
  have u: "ready_at (dev n) \<le> clock (dev n)" "\<forall>p. length (cells (fl (dev n)) p) = 2112" "length (preg (fl (dev n))) = 2112"
    using assms(1) by (simp_all add: slc_usable_def)
  define c where "c = nand_geom.truncate (chip.truncate g)"
  obtain s1 where s1: "nand_command_lp k c NAND_CMD_ERASE1 (- 1) (of_nat p) (dev n) = Some s1" "ready_at s1 \<le> clock s1"
    "erase_row (faddr (fl s1)) = p" "preg (fl s1) = preg (fl (dev n))" "cells (fl s1) = cells (fl (dev n))"
    using cmd_erase1 [OF page24 [OF assms(2)] slc(4) u(1)] by (auto simp: c_def)
  obtain s2 where s2: "nand_command_lp k c NAND_CMD_ERASE2 (- 1) (- 1) s1 = Some s2" "fl s2 = flash_cmd 0xd0 (ce (fl s1))"
    "ready_at s2 \<le> clock s2 + 2"
    using cmd_erase2 by blast
  obtain s3 where s3: "nand_wait k c HZ True False s2 = Some (0xC0, s3)" "cells (fl s3) = cells (fl s2)" "preg (fl s3) = preg (fl s2)"
    "ready_at s3 \<le> clock s3"
    using nand_wait_status [OF _ s2(3) running(1,2) slc(6) running(3), of True False] by (auto simp: c_def)
  have cells: "cells (fl s3) = wipe (2 ^ 6) (replicate 2112 0xff) (p div 2 ^ 6) (raw n)" "preg (fl s3) = preg (fl (dev n))"
    using s1 s2 s3 u(2) by (auto simp: flash_cmd_def erase_block_def wipe_def slc_pages_def fun_eq_iff)
  have "p_erase_cmd (s3c_slc_chip k HZ g) (of_nat p) n = Some (n\<lparr>dev := s2\<rparr>)"
    using s1(1) s2(1) chip_geom by (simp add: s3c_chip_pointers single_erase_cmd_def cmdfunc_def c_def slc_geom_def)
  moreover have "p_waitfunc (s3c_slc_chip k HZ g) FL_ERASING (n\<lparr>dev := s2\<rparr>) = Some (0xC0, n\<lparr>dev := s3\<rparr>)"
    using s3(1) by (simp add: s3c_chip_pointers waitfunc_def c_def)
  ultimately show ?thesis
    using s3(4) cells u assms(1) by (simp add: kept_def slc_usable_def slc_pages_def NAND_STATUS_FAIL_def wipe_def)
qed

lemma slc_reset:
  assumes "usable n"
  shows "\<exists>n'. p_cmdfunc (s3c_slc_chip k HZ g) NAND_CMD_RESET (- 1) (- 1) n = Some n' \<and> same n n' \<and> oob_poi n' = oob_poi n"
proof -
  obtain s1 where s1: "nand_command_lp k (nand_geom.truncate (chip.truncate g)) NAND_CMD_RESET (- 1) (- 1) (dev n) = Some s1"
    "fl s1 = flash_cmd 0xff (ce (fl (dev n)))" "ready_at s1 \<le> clock s1"
    using cmd_reset [OF slc(6) running(3)] by blast
  then show ?thesis
    using dev_same [OF assms s1(3)] assms by (simp add: s3c_chip_pointers cmdfunc_def flash_cmd_def slc_usable_def)
qed

lemma slc_mark:
  assumes "usable n" "p < 2 ^ bits" "oob_poi n = [0, 0] @ replicate 62 0xff"
  shows "\<exists>n'. p_write_oob (s3c_slc_chip k HZ g) (of_nat p) n = Some (0, n') \<and> kept usable (\<lambda>_ _. []) n n' \<and>
    (\<forall>q. q \<noteq> p \<longrightarrow> raw n' q = raw n q) \<and> raw n' p ! 2048 = 0"
proof -
  have u: "ready_at (dev n) \<le> clock (dev n)" "length (preg (fl (dev n))) = 2112" "length (oob_poi n) = 64" "20 \<le> length (ecccalc n)"
    "\<forall>p. length (cells (fl (dev n)) p) = 2112"
    using assms(1) by (simp_all add: slc_usable_def)
  obtain n' where n: "s3c_nand_write_oob_1bit k (chip.truncate g) HZ (of_nat p) n = Some (True, n')"
    "ready_at (dev n') \<le> clock (dev n')" "length (preg (fl (dev n'))) = 2112" "ecc_failed n' = ecc_failed n"
    "oob_poi n' = take 60 (oob_poi n) @ ecc_code (ecc (take 60 (oob_poi n)))"
    "cells (fl (dev n')) = (cells (fl (dev n)))(p := map2 (AND) (cells (fl (dev n)) p) (replicate 2048 0xff @ oob_poi n'))"
    using nand_write_oob_slc [OF slc(1) page24 [OF assms(2)] running u(1-4)] by blast
  have "length (oob_poi n') = 64" "oob_poi n' ! 0 = 0" using n(5) assms(3) by simp_all
  then have mark: "raw n' p ! 2048 = 0" "\<forall>p. length (cells (fl (dev n')) p) = 2112"
    using n(6) u(5) by (simp_all add: slc_pages_def nth_append)
  have "frame n n'" using write_oob_frame [OF n(1)] .
  then have "kept usable (\<lambda>_ _. []) n n'" using n(2-4) u mark(2) by (simp add: kept_def slc_usable_def frame_def)
  then show ?thesis using n(1,6) mark(1) by (simp add: s3c_chip_pointers slc_pages_def)
qed

end

sublocale slc_device \<subseteq> mtd: block_store k "s3c_slc_chip k HZ g" "slc_usable fl clock ready_at" "slc_pages fl" "slc_decodes ecc"
  "slc_image ecc" slc_clean bits 9 6
proof
  have blank: "blank (s3c_slc_chip k HZ g) = replicate 2112 0xff" by (simp add: blank_def slc)
  note geom = chip_geom [unfolded slc_geom_def]
  show "writesize (s3c_slc_chip k HZ g) = 2 ^ page_shift (s3c_slc_chip k HZ g)" using geom slc by simp
  show "mtd_size (s3c_slc_chip k HZ g) = of_nat (2 ^ chip_shift (s3c_slc_chip k HZ g))" using geom by simp
  show "\<exists>n'. p_block_bad (s3c_slc_chip k HZ g) (of_nat (p * writesize (s3c_slc_chip k HZ g))) n =
      Some (if raw n p ! writesize (s3c_slc_chip k HZ g) = 0xff then 0 else 1, n') \<and> same n n'"
    if "usable n" "p < 2 ^ bits" for n p using slc_block_bad [OF that] by (simp add: slc)
  show "\<exists>n1 st n'. p_erase_cmd (s3c_slc_chip k HZ g) (of_nat p) n = Some n1 \<and> p_waitfunc (s3c_slc_chip k HZ g) FL_ERASING n1 = Some (st, n') \<and>
      st AND NAND_STATUS_FAIL = 0 \<and> kept usable (\<lambda>_ _. []) n n' \<and>
      raw n' = wipe (2 ^ 6) (blank (s3c_slc_chip k HZ g)) (p div 2 ^ 6) (raw n)"
    if "usable n" "p < 2 ^ bits" for n p unfolding blank using slc_erase [OF that] .
  show "\<exists>n'. p_write_page (s3c_slc_chip k HZ g) buf (of_nat p) False n = Some (0, n') \<and> kept usable (\<lambda>_ _. []) n n' \<and>
        raw n' = (raw n)(p := slc_image ecc buf) \<and> slc_clean (oob_poi n')"
    if "usable n" "p < 2 ^ bits" "raw n p = blank (s3c_slc_chip k HZ g)" "length buf = writesize (s3c_slc_chip k HZ g)" "slc_clean (oob_poi n)" for n p buf
    using slc_write_page [OF that(1,2)] that(3-) by (simp add: blank slc)
  show "\<exists>n1 n'. p_cmdfunc (s3c_slc_chip k HZ g) NAND_CMD_READ0 0x00 (of_nat p) n = Some n1 \<and>
      p_read_page (s3c_slc_chip k HZ g) buf (of_nat p) n1 = Some (0, d, n') \<and> same n n'"
    if "usable n" "p < 2 ^ bits" "slc_decodes ecc (raw n p) d" "length buf = writesize (s3c_slc_chip k HZ g)" for n p d buf
    using slc_read_page [OF that(1-3)] that(4) by (simp add: slc)
qed (use chip_geom slc slc_usable_oob slc_image_decodes in \<open>simp_all add: slc_geom_def slc_usable_def slc_decodes_def slc_clean_def
    slc_select_chip slc_writable slc_read_page slc_reset slc_mark\<close>)

section \<open>Properties\<close>

text \<open>
  The state between two calls: the device is free and usable, the spare bytes are placed as they come, and the page
  cache holds what a read of its page delivers.
\<close>

definition slc_mtd :: "('d \<Rightarrow> flash) \<Rightarrow> ('d \<Rightarrow> nat) \<Rightarrow> ('d \<Rightarrow> nat) \<Rightarrow> (u8 list \<Rightarrow> u32) \<Rightarrow> nat \<Rightarrow> 'd mtd \<Rightarrow> bool" where
  "slc_mtd fl clock ready_at ecc bits m \<longleftrightarrow> slc_usable fl clock ready_at (nand m) \<and> idle m \<and>
     o_mode (chip_ops m) = MTD_OOB_PLACE \<and> length (databuf m) = 2048 \<and>
     (\<forall>q < 2 ^ bits. \<forall>d. pagebuf m = of_nat q \<and> slc_decodes ecc (slc_pages fl (nand m) q) d \<longrightarrow> databuf m = d)"

text \<open>
  A client that uses the device as flash demands: it reads pages that have been written, writes to erased pages, erases
  whole blocks, and asks for or marks bad blocks.
\<close>

inductive mtd_use :: "'d machine \<Rightarrow> ('d \<Rightarrow> flash) \<Rightarrow> (u8 list \<Rightarrow> u32) \<Rightarrow> nat \<Rightarrow> 'd nand_chip \<Rightarrow> 'd mtd \<Rightarrow> 'd mtd \<Rightarrow> bool"
  for k :: "'d machine" and fl :: "'d \<Rightarrow> flash" and ecc :: "u8 list \<Rightarrow> u32" and bits :: nat and c :: "'d nand_chip" where
  use_read: "0 < len \<Longrightarrow> len < 2 ^ 32 \<Longrightarrow> from + len \<le> 2 ^ bits * 2048 \<Longrightarrow> len \<le> length out \<Longrightarrow>
    (\<And>q. from div 2048 \<le> q \<Longrightarrow> q * 2048 < from + len \<Longrightarrow> \<exists>d. slc_decodes ecc (slc_pages fl (nand m) q) d) \<Longrightarrow>
    nand_read k c (of_nat from) (of_nat len) out m = Some (ret, retlen, buf, m') \<Longrightarrow> mtd_use k fl ecc bits c m m'"
| use_write: "0 < length buf \<Longrightarrow> to + length buf \<le> 2 ^ bits * 2048 \<Longrightarrow> 512 dvd to \<Longrightarrow> 512 dvd length buf \<Longrightarrow> length buf < 2 ^ 31 \<Longrightarrow>
    (\<And>q. touched 2048 to (length buf) q \<Longrightarrow> slc_pages fl (nand m) q = replicate 2112 0xff) \<Longrightarrow>
    nand_write c (of_nat to) (of_nat (length buf)) buf m = Some (ret, retlen, m') \<Longrightarrow> mtd_use k fl ecc bits c m m'"
| use_erase: "0 < n \<Longrightarrow> (b + n) * 64 \<le> 2 ^ bits \<Longrightarrow> ei_addr instr = of_nat (b * 2 ^ 17) \<Longrightarrow> ei_len instr = of_nat (n * 2 ^ 17) \<Longrightarrow>
    nand_erase c instr m = Some (ret, instr', m') \<Longrightarrow> mtd_use k fl ecc bits c m m'"
| use_isbad: "p < 2 ^ bits \<Longrightarrow> nand_block_isbad c (of_nat (p * 2048)) m = Some (ret, m') \<Longrightarrow> mtd_use k fl ecc bits c m m'"
| use_markbad: "b * 64 < 2 ^ bits \<Longrightarrow> nand_block_markbad c (of_nat (b * 2 ^ 17)) m = Some (ret, m') \<Longrightarrow> mtd_use k fl ecc bits c m m'"
| use_sync: "nand_sync c m = Some m' \<Longrightarrow> mtd_use k fl ecc bits c m m'"

context slc_device
begin

lemma slc_mtd_iff: "slc_mtd fl clock ready_at ecc bits m \<longleftrightarrow> mtd.cached m \<and> idle m \<and> o_mode (chip_ops m) = MTD_OOB_PLACE"
  by (auto simp: slc_mtd_def mtd.cached_def slc)

lemma size_le: "bits \<le> 20 \<Longrightarrow> 2 ^ bits * 2048 \<le> (2 :: nat) ^ 31"
  using power_increasing [of bits 20 "2 :: nat"] by simp

lemma blank_page: "blank (s3c_slc_chip k HZ g) = replicate 2112 0xff"
  by (simp add: blank_def slc)

lemma write_read:
  assumes "bits \<le> 20" "slc_mtd fl clock ready_at ecc bits m"
    and "0 < length buf" "to + length buf \<le> 2 ^ bits * 2048" "512 dvd to" "512 dvd length buf" "length buf < 2 ^ 31"
    and "\<And>q. touched 2048 to (length buf) q \<Longrightarrow> raw (nand m) q = replicate 2112 0xff"
    and "to \<le> from" "0 < len" "from + len \<le> to + length buf" "length out = len"
  shows "\<exists>m1 m2. nand_write (s3c_slc_chip k HZ g) (of_nat to) (of_nat (length buf)) buf m = Some (0, Some (of_nat (length buf)), m1) \<and>
    nand_read k (s3c_slc_chip k HZ g) (of_nat from) (of_nat len) out m1 =
      Some (0, Some (of_nat len), take len (drop (from - to) buf), m2) \<and> slc_mtd fl clock ready_at ecc bits m2"
  using mtd.nand_write_read [of m buf to "from" len out] assms size_le unfolding slc_mtd_iff by (simp add: slc blank_page)

lemma read_bytes:
  assumes "slc_mtd fl clock ready_at ecc bits m" "0 < len" "len < 2 ^ 32" "from + len \<le> 2 ^ bits * 2048" "len \<le> length out"
    and "\<And>q. from div 2048 \<le> q \<Longrightarrow> q * 2048 < from + len \<Longrightarrow> slc_decodes ecc (raw (nand m) q) (D q)"
  shows "\<exists>m'. nand_read k (s3c_slc_chip k HZ g) (of_nat from) (of_nat len) out m =
      Some (0, Some (of_nat len), bytes_at 2048 D from len @ drop len out, m') \<and>
    slc_mtd fl clock ready_at ecc bits m' \<and> raw (nand m') = raw (nand m)"
  using mtd.nand_read_ok [of m len "from" D out] assms unfolding slc_mtd_iff kept_def by (auto simp: slc)

lemma write_pages:
  assumes "bits \<le> 20" "slc_mtd fl clock ready_at ecc bits m"
    and "0 < length buf" "to + length buf \<le> 2 ^ bits * 2048" "512 dvd to" "512 dvd length buf" "length buf < 2 ^ 31"
    and "\<And>q. touched 2048 to (length buf) q \<Longrightarrow> raw (nand m) q = replicate 2112 0xff"
  shows "\<exists>m'. nand_write (s3c_slc_chip k HZ g) (of_nat to) (of_nat (length buf)) buf m = Some (0, Some (of_nat (length buf)), m') \<and>
    slc_mtd fl clock ready_at ecc bits m' \<and>
    raw (nand m') = (\<lambda>q. if touched 2048 to (length buf) q then slc_image ecc (padded 2048 to buf q) else raw (nand m) q)"
  using mtd.nand_write_ok [of m buf to] assms size_le unfolding slc_mtd_iff by (auto simp: slc blank_page cong: if_cong)

lemma stale:
  assumes "slc_usable fl clock ready_at (nand m)" "idle m" "length (databuf m) = 2048" "o_mode (chip_ops m) = MTD_OOB_PLACE"
    and "2 ^ 20 \<le> q" "q < 2 ^ bits" "pagebuf m = of_nat q" "raw (nand m) q = replicate 2112 0xff" "length buf = 2048"
    and "0 < len" "len < 2048" "length out = len"
  shows "\<exists>m1 m2. nand_write (s3c_slc_chip k HZ g) (of_nat (q * 2048)) 2048 buf m = Some (0, Some 2048, m1) \<and>
    raw (nand m1) q = slc_image ecc buf \<and>
    nand_read k (s3c_slc_chip k HZ g) (of_nat (q * 2048)) (of_nat len) out m1 = Some (0, Some (of_nat len), take len (databuf m), m2)"
  using mtd.stale_read [of m q buf len out] assms by (simp add: slc blank_page)

lemma erase_blocks_of:
  assumes "slc_mtd fl clock ready_at ecc bits m" "0 < n" "(b + n) * 64 \<le> 2 ^ bits"
    and "ei_addr instr = of_nat (b * 2 ^ 17)" "ei_len instr = of_nat (n * 2 ^ 17)"
  shows "\<exists>m' instr'. nand_erase (s3c_slc_chip k HZ g) instr m =
      Some (if fst (erase_blocks 2048 64 (replicate 2112 0xff) b n (raw (nand m))) then 0 else - EIO, instr', m') \<and>
    ei_state instr' = (if fst (erase_blocks 2048 64 (replicate 2112 0xff) b n (raw (nand m))) then MTD_ERASE_DONE else MTD_ERASE_FAILED) \<and>
    raw (nand m') = snd (erase_blocks 2048 64 (replicate 2112 0xff) b n (raw (nand m))) \<and> slc_mtd fl clock ready_at ecc bits m'"
proof -
  have e: "phys_erase_shift g = 17" using chip_geom by (simp add: slc_geom_def)
  obtain ok R where R: "erase_blocks 2048 64 (replicate 2112 0xff) b n (raw (nand m)) = (ok, R)" by fastforce
  then show ?thesis
    using mtd.nand_erase_ok [of m n instr b ok R] assms e unfolding slc_mtd_iff by (auto simp: slc blank_page)
qed

lemma marked_stays:
  assumes "slc_mtd fl clock ready_at ecc bits m" "b * 64 < 2 ^ bits" "raw (nand m) (b * 64) ! 2048 = 0xff"
    and "ei_addr instr = of_nat (b * 2 ^ 17)" "ei_len instr = of_nat (n * 2 ^ 17)" "0 < n" "(b + n) * 64 \<le> 2 ^ bits"
  shows "\<exists>m1 m2 m3 instr'. nand_block_markbad (s3c_slc_chip k HZ g) (of_nat (b * 2 ^ 17)) m = Some (0, m1) \<and>
    nand_block_isbad (s3c_slc_chip k HZ g) (of_nat (b * 2 ^ 17)) m1 = Some (1, m2) \<and>
    nand_erase (s3c_slc_chip k HZ g) instr m2 = Some (- EIO, instr', m3) \<and> ei_state instr' = MTD_ERASE_FAILED \<and>
    raw (nand m3) = raw (nand m1) \<and> (\<forall>q. q div 64 \<noteq> b \<longrightarrow> raw (nand m1) q = raw (nand m) q)"
proof -
  have e: "phys_erase_shift g = 17" using chip_geom by (simp add: slc_geom_def)
  have a: "b * 64 * 2048 = b * 2 ^ 17" by simp
  show ?thesis
    using mtd.nand_marked_stays [of m b instr n] assms e unfolding slc_mtd_iff by (simp add: slc a del: of_nat_mult) blast
qed

lemma isbad_keeps:
  assumes "slc_mtd fl clock ready_at ecc bits m" "p < 2 ^ bits"
  shows "\<exists>m'. nand_block_isbad (s3c_slc_chip k HZ g) (of_nat (p * 2048)) m = Some (if raw (nand m) p ! 2048 = 0xff then 0 else 1, m') \<and>
    slc_mtd fl clock ready_at ecc bits m' \<and> raw (nand m') = raw (nand m)"
  using mtd.nand_block_isbad_ok [of m p] assms unfolding slc_mtd_iff kept_def by (auto simp: slc)

lemma markbad_keeps:
  assumes "slc_mtd fl clock ready_at ecc bits m" "b * 64 < 2 ^ bits"
  shows "\<exists>m'. nand_block_markbad (s3c_slc_chip k HZ g) (of_nat (b * 2 ^ 17)) m = Some (0, m') \<and> slc_mtd fl clock ready_at ecc bits m'"
proof (cases "raw (nand m) (b * 64) ! 2048 = 0xff")
  case True
  have a: "b * 64 * 2048 = b * 2 ^ 17" by simp
  show ?thesis using mtd.nand_block_markbad_ok [of m b] assms True unfolding slc_mtd_iff by (auto simp: slc a simp del: of_nat_mult)
next
  case False
  have a: "b * 64 * 2048 = b * 2 ^ 17" by simp
  show ?thesis using isbad_keeps [OF assms] False unfolding a by (auto simp: nand_block_markbad_def simp del: of_nat_mult)
qed

lemma sync_keeps:
  assumes "slc_mtd fl clock ready_at ecc bits m"
  shows "\<exists>m'. nand_sync (s3c_slc_chip k HZ g) m = Some m' \<and> slc_mtd fl clock ready_at ecc bits m'"
proof -
  have m: "mtd.cached m" "idle m" "o_mode (chip_ops m) = MTD_OOB_PLACE" using assms by (simp_all add: slc_mtd_iff)
  have "mtd.cached (mtd.taken_for FL_SYNCING m)" using m(1) by (simp add: mtd.cached_def mtd.taken_for_def)
  from mtd.release_ok [OF this] m show ?thesis
    by (auto simp: nand_sync_def get_device_idle mtd.taken_for_def [symmetric] slc_mtd_iff idle_def release_control_def)
      (simp add: mtd.taken_for_def)
qed

lemma use_keeps:
  assumes "bits \<le> 20" "mtd_use k fl ecc bits (s3c_slc_chip k HZ g) m m'" "slc_mtd fl clock ready_at ecc bits m"
  shows "slc_mtd fl clock ready_at ecc bits m'"
  using assms(2)
proof cases
  case (use_read len "from" out ret retlen buf)
  then obtain D where "\<And>q. from div 2048 \<le> q \<Longrightarrow> q * 2048 < from + len \<Longrightarrow> slc_decodes ecc (raw (nand m) q) (D q)" by metis
  with read_bytes [OF assms(3) use_read(1-4)] use_read(6) show ?thesis by fastforce
next
  case (use_write buf to ret retlen)
  with write_pages [OF assms(1,3) use_write(1-6)] show ?thesis by auto
next
  case (use_erase n b instr ret instr')
  with erase_blocks_of [OF assms(3) use_erase(1-4)] show ?thesis by auto
next
  case (use_isbad p ret)
  with isbad_keeps [OF assms(3) use_isbad(1)] show ?thesis by auto
next
  case (use_markbad b ret)
  with markbad_keeps [OF assms(3) use_markbad(1)] show ?thesis by auto
next
  case use_sync
  with sync_keeps [OF assms(3)] show ?thesis by auto
qed

end

text \<open>A table and a state for the witnesses: the chip of the board, 256 MiB, and one of 4 GiB.\<close>

definition tiny_base :: "nat \<Rightarrow> sim chip_base" where
  "tiny_base bits = chip.extend (tiny_chip\<lparr>chipsize := 2 ^ (11 + bits)\<rparr>) \<lparr>mtd_size = 2 ^ (11 + bits), erasesize = 2 ^ 17, oobavail = 38,
     options = 0x411d, page_shift = 11, phys_erase_shift = 17, chip_shift = 11 + bits, pagemask = 2 ^ bits - 1, subpagesize = 512,
     badblockpos = 0, badblockbits = 8, ecc_modus = NAND_ECC_HW, p_select_chip = \<lambda>_ _. None, p_read_byte = \<lambda>n. (0, n),
     p_read_word = \<lambda>n. (0, n), p_cmdfunc = \<lambda>_ _ _ _. None, p_waitfunc = \<lambda>_ _. None\<rparr>"

definition tiny_mtd :: "s32 \<Rightarrow> (nat \<Rightarrow> u8 list) \<Rightarrow> sim mtd" where
  "tiny_mtd pb cs = \<lparr>nand = tiny_nand cs, databuf = replicate 2048 0, pagebuf = pb,
     control = \<lparr>active = None, chip_state = \<lambda>_. FL_READY\<rparr>, chip_ops = \<lparr>o_mode = MTD_OOB_PLACE, o_len = 0, o_retlen = 0, o_ooblen = 0,
       o_oobretlen = 0, o_ooboffs = 0, o_datbuf = None, o_oobbuf = None\<rparr>, badblocks = 0\<rparr>"

lemma tiny_base_geom: "17 \<le> bits \<Longrightarrow> bits \<le> 24 \<Longrightarrow> slc_geom bits (tiny_base bits)"
proof -
  assume b: "17 \<le> bits" "bits \<le> 24"
  have "(2 :: nat) ^ 28 \<le> 2 ^ (11 + bits)" using b by (intro power_increasing) simp_all
  then have "slc_2k (chip.truncate (tiny_base bits))"
    using tiny_chip_slc by (simp add: slc_2k_def tiny_base_def chip.defs)
  then show ?thesis using b by (simp add: slc_geom_def tiny_base_def chip.defs has_option_def nand_option_defs)
qed

interpretation tiny: slc_device sim_machine sim_flash sim_now sim_until "\<lambda>_. 0" "sim_code 0" sim_err "tiny_base 17" 200 17
  by unfold_locales (simp_all add: tiny_base_geom)

interpretation large: slc_device sim_machine sim_flash sim_now sim_until "\<lambda>_. 0" "sim_code 0" sim_err "tiny_base 21" 200 21
  by unfold_locales (simp_all add: tiny_base_geom)

lemma tiny_mtd_ok:
  assumes "\<And>p. length (cs p) = 2112" "pb = - 1" "bits \<le> 24"
  shows "slc_mtd sim_flash sim_now sim_until (sim_code 0) bits (tiny_mtd pb cs)"
proof -
  have "pb \<noteq> of_nat q" if "q < 2 ^ bits" for q
    using of_nat_not_none [of q] that assms(2) power_increasing [OF assms(3), of "2 :: nat"] by auto
  then show ?thesis using assms(1) by (simp add: slc_mtd_def tiny_mtd_def slc_usable_def idle_def)
qed

text \<open>C2: what \<open>nand_write\<close> of the kernel has written to erased pages of an SLC chip through the driver is what
  \<open>nand_read\<close> delivers, for any part of it: the write may start and end at any subpage and span any number of pages,
  the read may start and end at any byte.  Both report success and the full length and leave the device free.\<close>

theorem mtd_write_read:
  assumes "slc_device k fl clock ready_at spin ecc eccerr g HZ bits" "bits \<le> 20" "slc_mtd fl clock ready_at ecc bits m"
    and "0 < length buf" "to + length buf \<le> 2 ^ bits * 2048" "512 dvd to" "512 dvd length buf" "length buf < 2 ^ 31"
    and "\<And>q. touched 2048 to (length buf) q \<Longrightarrow> slc_pages fl (nand m) q = replicate 2112 0xff"
    and "to \<le> from" "0 < len" "from + len \<le> to + length buf" "length out = len"
  shows "\<exists>m1 m2. nand_write (s3c_slc_chip k HZ g) (of_nat to) (of_nat (length buf)) buf m = Some (0, Some (of_nat (length buf)), m1) \<and>
    nand_read k (s3c_slc_chip k HZ g) (of_nat from) (of_nat len) out m1 =
      Some (0, Some (of_nat len), take len (drop (from - to) buf), m2) \<and> slc_mtd fl clock ready_at ecc bits m2"
  using slc_device.write_read [OF assms(1)] assms(2-) by blast

text \<open>C12: \<open>nand_read\<close> delivers the bytes at the given offset, through the page cache or from the chip, whatever the offset and
  the length, when each page of the range is one that was written with its codes and has at most one changed bit in each
  sector since.  It reports success, and nothing on the chip changes.\<close>

theorem mtd_read_correct:
  assumes "slc_device k fl clock ready_at spin ecc eccerr g HZ bits" "slc_mtd fl clock ready_at ecc bits m"
    and "0 < len" "len < 2 ^ 32" "from + len \<le> 2 ^ bits * 2048" "len \<le> length out"
    and "\<And>q. from div 2048 \<le> q \<Longrightarrow> q * 2048 < from + len \<Longrightarrow> slc_decodes ecc (slc_pages fl (nand m) q) (D q)"
  shows "\<exists>m'. nand_read k (s3c_slc_chip k HZ g) (of_nat from) (of_nat len) out m =
      Some (0, Some (of_nat len), bytes_at 2048 D from len @ drop len out, m') \<and>
    slc_mtd fl clock ready_at ecc bits m' \<and> slc_pages fl (nand m') = slc_pages fl (nand m)"
  using slc_device.read_bytes [OF assms(1,2)] assms(3-) by blast


text \<open>C20: a block that \<open>nand_block_markbad\<close> has marked is reported by \<open>nand_block_isbad\<close>, and an erase that starts at it fails
  and changes nothing.  Marking a block touches no page of another block.\<close>

theorem mtd_marked_stays:
  assumes "slc_device k fl clock ready_at spin ecc eccerr g HZ bits" "slc_mtd fl clock ready_at ecc bits m"
    and "b * 64 < 2 ^ bits" "slc_pages fl (nand m) (b * 64) ! 2048 = 0xff"
    and "ei_addr instr = of_nat (b * 2 ^ 17)" "ei_len instr = of_nat (n * 2 ^ 17)" "0 < n" "(b + n) * 64 \<le> 2 ^ bits"
  shows "\<exists>m1 m2 m3 instr'. nand_block_markbad (s3c_slc_chip k HZ g) (of_nat (b * 2 ^ 17)) m = Some (0, m1) \<and>
    nand_block_isbad (s3c_slc_chip k HZ g) (of_nat (b * 2 ^ 17)) m1 = Some (1, m2) \<and>
    nand_erase (s3c_slc_chip k HZ g) instr m2 = Some (- EIO, instr', m3) \<and> ei_state instr' = MTD_ERASE_FAILED \<and>
    slc_pages fl (nand m3) = slc_pages fl (nand m1) \<and> (\<forall>q. q div 64 \<noteq> b \<longrightarrow> slc_pages fl (nand m1) q = slc_pages fl (nand m) q)"
  using slc_device.marked_stays [OF assms] .


text \<open>C37: beyond 2 GiB the cache goes stale: when it holds a page there, a write of that page succeeds and is stored, but does not
  drop the page from the cache, because its offset does not fit the \<open>int\<close> in which the code shifts it; a read of a part of the page
  then reports success and delivers what the page held before.\<close>

theorem mtd_stale_cache:
  assumes "slc_device k fl clock ready_at spin ecc eccerr g HZ bits"
    and "slc_usable fl clock ready_at (nand m)" "idle m" "length (databuf m) = 2048" "o_mode (chip_ops m) = MTD_OOB_PLACE"
    and "2 ^ 20 \<le> q" "q < 2 ^ bits" "pagebuf m = of_nat q" "slc_pages fl (nand m) q = replicate 2112 0xff" "length buf = 2048"
    and "0 < len" "len < 2048" "length out = len"
  shows "\<exists>m1 m2. nand_write (s3c_slc_chip k HZ g) (of_nat (q * 2048)) 2048 buf m = Some (0, Some 2048, m1) \<and>
    slc_pages fl (nand m1) q = slc_image ecc buf \<and>
    nand_read k (s3c_slc_chip k HZ g) (of_nat (q * 2048)) (of_nat len) out m1 = Some (0, Some (of_nat len), take len (databuf m), m2)"
  using slc_device.stale [OF assms] .

subsection \<open>Witnesses\<close>

theorem mtd_write_read_witness:
  "\<exists>m1 m2. nand_write (s3c_slc_chip sim_machine 200 (tiny_base 17)) 1536 3072 (map of_nat [0..<3072]) (tiny_mtd (- 1) (\<lambda>_. replicate 2112 0xff)) =
      Some (0, Some 3072, m1) \<and>
    nand_read sim_machine (s3c_slc_chip sim_machine 200 (tiny_base 17)) 2000 2500 (replicate 2500 0) m1 =
      Some (0, Some 2500, take 2500 (drop 464 (map of_nat [0..<3072])), m2)"
  using mtd_write_read [OF tiny.slc_device_axioms _ tiny_mtd_ok, of "\<lambda>_. replicate 2112 0xff" "- 1" "map of_nat [0..<3072]" 1536 2000 2500 "replicate 2500 0"]
  by (auto simp: tiny_mtd_def slc_pages_def)

lemma flipped_decodes:
  assumes "length data = 2048" "i < 512" "b < 8"
  shows "slc_decodes ecc (flip (slc_image ecc data) i b) data" "length (flip (slc_image ecc data) i b) = 2112"
proof -
  have len: "length (spare_image ecc data (replicate 64 0xff)) = 64" by (simp add: length_spare_image)
  show "slc_decodes ecc (flip (slc_image ecc data) i b) data"
    using readable_flip [OF assms(1) len assms(2,3)] assms(1)
    by (auto simp: slc_decodes_def slc_image_def intro!: exI [of _ "replicate 64 0xff"])
  show "length (flip (slc_image ecc data) i b) = 2112" using assms(1) len by (simp add: flip_def slc_image_def)
qed

theorem mtd_read_correct_witness:
  "\<exists>m'. nand_read sim_machine (s3c_slc_chip sim_machine 200 (tiny_base 17)) 4000 5000 (replicate 5000 0)
      (tiny_mtd (- 1) (\<lambda>_. flip (slc_image (sim_code 0) (replicate 2048 0x5a)) 100 7)) =
    Some (0, Some 5000, bytes_at 2048 (\<lambda>_. replicate 2048 0x5a) 4000 5000, m')"
  using mtd_read_correct [OF tiny.slc_device_axioms tiny_mtd_ok, of "\<lambda>_. flip (slc_image (sim_code 0) (replicate 2048 0x5a)) 100 7" "- 1" 5000 4000
      "replicate 5000 0" "\<lambda>_. replicate 2048 0x5a"] flipped_decodes [of "replicate 2048 0x5a" 100 7 "sim_code 0"]
  by (auto simp: tiny_mtd_def slc_pages_def)

definition tiny_instr :: "nat \<Rightarrow> nat \<Rightarrow> erase_info" where
  "tiny_instr b n = \<lparr>ei_addr = of_nat (b * 2 ^ 17), ei_len = of_nat (n * 2 ^ 17), ei_fail_addr = 0, ei_state = 0, ei_called = False\<rparr>"


theorem mtd_marked_stays_witness:
  "\<exists>m1 m2 m3 instr'. nand_block_markbad (s3c_slc_chip sim_machine 200 (tiny_base 17)) (7 * 2 ^ 17) (tiny_mtd (- 1) (\<lambda>_. replicate 2112 0xff)) = Some (0, m1) \<and>
    nand_block_isbad (s3c_slc_chip sim_machine 200 (tiny_base 17)) (7 * 2 ^ 17) m1 = Some (1, m2) \<and>
    nand_erase (s3c_slc_chip sim_machine 200 (tiny_base 17)) (tiny_instr 7 2) m2 = Some (- EIO, instr', m3) \<and>
    slc_pages sim_flash (nand m3) = slc_pages sim_flash (nand m1)"
  using mtd_marked_stays [OF tiny.slc_device_axioms tiny_mtd_ok, of "\<lambda>_. replicate 2112 0xff" "- 1" 7 "tiny_instr 7 2" 2]
  by (auto simp: tiny_instr_def) (auto simp: tiny_mtd_def slc_pages_def)


theorem mtd_stale_cache_witness:
  "\<exists>m1 m2. nand_write (s3c_slc_chip sim_machine 200 (tiny_base 21)) 0x80000000 2048 (replicate 2048 0x5a)
      (tiny_mtd 0x100000 (\<lambda>_. replicate 2112 0xff)) = Some (0, Some 2048, m1) \<and>
    slc_pages sim_flash (nand m1) 0x100000 = slc_image (sim_code 0) (replicate 2048 0x5a) \<and>
    nand_read sim_machine (s3c_slc_chip sim_machine 200 (tiny_base 21)) 0x80000000 3 [1, 2, 3] m1 = Some (0, Some 3, [0, 0, 0], m2)"
proof -
  have "slc_usable sim_flash sim_now sim_until (nand (tiny_mtd 0x100000 (\<lambda>_. replicate 2112 0xff)))"
    using tiny_mtd_ok [of "\<lambda>_. replicate 2112 0xff" "- 1" 21] by (simp add: slc_mtd_def tiny_mtd_def)
  moreover have "take 3 (replicate 2048 0) = [0, 0, 0 :: u8]" by (simp add: numeral_3_eq_3)
  ultimately show ?thesis
    using mtd_stale_cache [OF large.slc_device_axioms, of "tiny_mtd 0x100000 (\<lambda>_. replicate 2112 0xff)" "0x100000" "replicate 2048 0x5a" 3 "[1, 2, 3]"]
    by (simp add: tiny_mtd_def idle_def slc_pages_def)
qed

end
