(* ===== verification/MtdCalls.thy ===== *)
theory MtdCalls
  imports MtdSlc
begin

text \<open>
  What holds of the MTD interface whatever functions are behind the pointers of the chip: a call that returns has
  released the device, on every path, errors included; a suspended device makes every call wait until it is resumed.
  And the placement of spare bytes: what is filled into the free regions is what a transfer takes out of them.
\<close>

section \<open>Taking and releasing\<close>

text \<open>If \<open>r\<close> has a result, it satisfies \<open>P\<close>; the rules go through a function statement by statement.\<close>

definition returns :: "'a option \<Rightarrow> ('a \<Rightarrow> bool) \<Rightarrow> bool" where
  "returns r P \<longleftrightarrow> (\<forall>x. r = Some x \<longrightarrow> P x)"

lemma returnsI: "(\<And>x. r = Some x \<Longrightarrow> P x) \<Longrightarrow> returns r P"
  by (simp add: returns_def)

lemma returns_Some: "P x \<Longrightarrow> returns (Some x) P"
  by (simp add: returns_def)

lemma returns_None: "returns None P"
  by (simp add: returns_def)

lemma returns_bind: "returns r Q \<Longrightarrow> (\<And>x. Q x \<Longrightarrow> returns (f x) P) \<Longrightarrow> returns (r \<bind> f) P"
  by (auto simp: returns_def bind_eq_Some_conv)

lemma returns_skip: "(\<And>x. returns (f x) P) \<Longrightarrow> returns (r \<bind> f) P"
  by (auto simp: returns_def bind_eq_Some_conv)

lemma returns_if: "(b \<Longrightarrow> returns r P) \<Longrightarrow> (\<not> b \<Longrightarrow> returns r' P) \<Longrightarrow> returns (if b then r else r') P"
  by simp

lemma returns_if_bind:
  "(b \<Longrightarrow> returns (r \<bind> f) P) \<Longrightarrow> (\<not> b \<Longrightarrow> returns (r' \<bind> f) P) \<Longrightarrow> returns ((if b then r else r') \<bind> f) P"
  by simp

lemma returns_case: "(\<And>a b. x = (a, b) \<Longrightarrow> returns (f a b) P) \<Longrightarrow> returns (case x of (a, b) \<Rightarrow> f a b) P"
  by (cases x) simp

lemma returns_case_bind: "(\<And>a b. x = (a, b) \<Longrightarrow> returns (f a b \<bind> g) P) \<Longrightarrow> returns ((case x of (a, b) \<Rightarrow> f a b) \<bind> g) P"
  by (cases x) simp

lemma returns_assoc: "returns (r \<bind> (\<lambda>x. f x \<bind> g)) P \<Longrightarrow> returns ((r \<bind> f) \<bind> g) P"
  by (auto simp: returns_def bind_eq_Some_conv)

lemma returnsD: "r = Some x \<Longrightarrow> returns r P \<Longrightarrow> P x"
  by (simp add: returns_def)

lemma returns_Some_bind: "returns (f x) P \<Longrightarrow> returns (Some x \<bind> f) P"
  by simp

text \<open>A release frees the controller whatever it was.\<close>

lemma release_idle: "returns (nand_release_device c m) idle"
  by (auto simp: returns_def nand_release_device_def bind_eq_Some_conv idle_def release_control_def)

lemmas release_rules = returns_Some returns_None returns_if returns_if_bind returns_case returns_Some_bind returns_case_bind
  returns_assoc returns_bind [OF release_idle]

text \<open>The calls of the MTD interface, with any arguments.\<close>

inductive mtd_call :: "'d machine \<Rightarrow> ('d, 'z) nand_chip_scheme \<Rightarrow> 'd mtd \<Rightarrow> 'd mtd \<Rightarrow> bool"
  for k :: "'d machine" and c :: "('d, 'z) nand_chip_scheme" where
  call_read: "nand_read k c from len buf m = Some (ret, retlen, buf', m') \<Longrightarrow> mtd_call k c m m'"
| call_read_oob: "nand_read_oob k c from ops m = Some (ret, ops', m') \<Longrightarrow> mtd_call k c m m'"
| call_write: "nand_write c to len buf m = Some (ret, retlen, m') \<Longrightarrow> mtd_call k c m m'"
| call_write_oob: "nand_write_oob c to ops m = Some (ret, ops', m') \<Longrightarrow> mtd_call k c m m'"
| call_erase: "nand_erase c instr m = Some (ret, instr', m') \<Longrightarrow> mtd_call k c m m'"
| call_isbad: "nand_block_isbad c ofs m = Some (ret, m') \<Longrightarrow> mtd_call k c m m'"
| call_markbad: "nand_block_markbad c ofs m = Some (ret, m') \<Longrightarrow> mtd_call k c m m'"
| call_sync: "nand_sync c m = Some m' \<Longrightarrow> mtd_call k c m m'"
| call_lock: "nand_lock c ofs len m = Some (ret, m') \<Longrightarrow> mtd_call k c m m'"
| call_unlock: "nand_unlock c ofs len m = Some (ret, m') \<Longrightarrow> mtd_call k c m m'"

text \<open>Each of them either returns before it takes the device or ends with the release.\<close>

lemma calls_release:
  assumes "idle m"
  shows "returns (nand_read k c from len buf m) (\<lambda>(_, _, _, m'). idle m')"
    "returns (nand_read_oob k c from ops m) (\<lambda>(_, _, m'). idle m')"
    "returns (nand_write c to len buf m) (\<lambda>(_, _, m'). idle m')"
    "returns (nand_write_oob c to ops m) (\<lambda>(_, _, m'). idle m')"
    "returns (nand_erase c instr m) (\<lambda>(_, _, m'). idle m')"
    "returns (nand_sync c m) idle"
    "returns (nand_lock c ofs x m) (\<lambda>(_, m'). idle m')"
    "returns (nand_unlock c ofs x m) (\<lambda>(_, m'). idle m')"
  unfolding nand_read_def nand_read_oob_def nand_write_def nand_write_oob_def nand_erase_def nand_erase_nand_def nand_sync_def
    nand_lock_def nand_unlock_def Let_def
  by ((rule release_rules release_idle | rule returns_skip)+, (auto simp: assms)?)+

lemma idle_badblocks [simp]: "idle (m\<lparr>badblocks := x\<rparr>) = idle m"
  by (simp add: idle_def)

lemma bad_block_calls_release:
  assumes "idle m"
  shows "returns (nand_block_isbad c ofs m) (\<lambda>(_, m'). idle m')" "returns (nand_block_markbad c ofs m) (\<lambda>(_, m'). idle m')"
proof -
  show isbad: "returns (nand_block_isbad c ofs m) (\<lambda>(_, m'). idle m')"
    unfolding nand_block_isbad_def nand_block_checkbad_def Let_def
    by ((rule release_rules | rule returns_skip)+, (auto simp: assms)?)+
  have default: "returns (nand_default_block_markbad c ofs m) (\<lambda>(_, m'). idle m')" if "idle m" for m
    unfolding nand_default_block_markbad_def Let_def
    by ((rule release_rules | rule returns_skip)+, (auto simp: that)?)+
  show "returns (nand_block_markbad c ofs m) (\<lambda>(_, m'). idle m')"
    unfolding nand_block_markbad_def
    by (rule returns_bind [OF isbad]) (auto intro: default returns_Some)
qed

lemmas call_results = calls_release [THEN returnsD [rotated], rotated] bad_block_calls_release [THEN returnsD [rotated], rotated]

lemma mtd_call_idle: "mtd_call k c m m' \<Longrightarrow> idle m \<Longrightarrow> idle m'"
  by (induction rule: mtd_call.induct) (auto dest!: call_results)

text \<open>The chip is suspended: nobody else can take it.\<close>

definition suspended :: "'d mtd \<Rightarrow> bool" where
  "suspended m \<longleftrightarrow> active (control m) = Some 0 \<and> chip_state (control m) 0 = FL_PM_SUSPENDED"

lemma get_device_suspended: "suspended m \<Longrightarrow> st \<noteq> FL_PM_SUSPENDED \<Longrightarrow> nand_get_device st m = None"
  by (simp add: suspended_def nand_get_device_def get_device_pass_def)

lemma suspended_call: "mtd_call k c m m' \<Longrightarrow> suspended m \<Longrightarrow> m' = m"
  by (induction rule: mtd_call.induct)
    (auto simp: nand_read_def nand_read_oob_def nand_write_def nand_write_oob_def nand_erase_def nand_erase_nand_def
      nand_block_isbad_def nand_block_checkbad_def nand_block_markbad_def nand_sync_def nand_lock_def nand_unlock_def
      get_device_suspended EINVAL_def Let_def split: if_splits)

section \<open>Placing spare bytes\<close>

text \<open>Regions of a spare area of \<open>L\<close> bytes, in order and apart from each other, from \<open>lo\<close> on.\<close>

fun regions :: "nat \<Rightarrow> nat \<Rightarrow> (nat \<times> nat) list \<Rightarrow> bool" where
  "regions lo L [] = True"
| "regions lo L ((a, l) # rs) = (0 < l \<and> lo \<le> a \<and> a + l \<le> L \<and> regions (a + l) L rs)"

definition covers :: "(nat \<times> nat) list \<Rightarrow> nat \<Rightarrow> bool" where
  "covers rs i \<longleftrightarrow> (\<exists>(a, l) \<in> set rs. a \<le> i \<and> i < a + l)"

lemma covers_simps [simp]: "\<not> covers [] i" "covers ((a, l) # rs) i \<longleftrightarrow> a \<le> i \<and> i < a + l \<or> covers rs i"
  by (auto simp: covers_def)

lemma regions_mono: "regions lo L rs \<Longrightarrow> lo' \<le> lo \<Longrightarrow> regions lo' L rs"
  by (cases rs) auto

text \<open>A transfer covers parts of the regions, as many bytes as it is asked for.\<close>

lemma oob_chunks_0 [simp]: "oob_chunks rs offs 0 = []"
  by (cases "(rs, offs, 0 :: nat)" rule: oob_chunks.cases) simp_all

lemma oob_chunks_regions: "regions lo L rs \<Longrightarrow> regions lo L (oob_chunks rs offs len)"
proof (induction rs offs len arbitrary: lo rule: oob_chunks.induct)
  case (2 a l rs offs len)
  consider "len = 0" | "0 < len" "offs \<noteq> 0" "l \<le> offs" | "0 < len" "offs \<noteq> 0" "offs < l" | "0 < len" "offs = 0" by linarith
  then show ?case
  proof cases
    case 2
    then show ?thesis using 2(1) "2.IH"(1) [of "a + l"] "2.prems" regions_mono [of "a + l" L _ lo] by (simp add: Let_def)
  qed (use "2.prems" "2.IH" in \<open>auto simp: Let_def min_def intro: regions_mono\<close>)
qed simp

lemma oob_chunks_total:
  "regions lo L rs \<Longrightarrow> offs + len \<le> sum_list (map snd rs) \<Longrightarrow> sum_list (map snd (oob_chunks rs offs len)) = len"
  by (induction rs offs len arbitrary: lo rule: oob_chunks.induct) (auto simp: Let_def min_def)

lemma oob_chunks_covers: "covers (oob_chunks rs offs len) i \<Longrightarrow> covers rs i"
  by (induction rs offs len rule: oob_chunks.induct) (auto simp: Let_def min_def split: if_splits)

lemma put_get_chunks:
  assumes "regions lo L rs" "length oob = L" "sum_list (map snd rs) \<le> length xs"
  shows "\<exists>oob'. put_chunks oob rs xs = Some oob' \<and> length oob' = L \<and> get_chunks oob' rs = Some (take (sum_list (map snd rs)) xs) \<and>
    take lo oob' = take lo oob \<and> (\<forall>i. \<not> covers rs i \<longrightarrow> oob' ! i = oob ! i)"
  using assms
proof (induction rs arbitrary: lo oob xs)
  case Nil
  then show ?case by simp
next
  case (Cons r rs)
  obtain a l where r: "r = (a, l)" by fastforce
  have bounds: "lo \<le> a" "a + l \<le> L" "regions (a + l) L rs" "l \<le> length xs" using Cons.prems by (simp_all add: r)
  define oob1 where "oob1 = take a oob @ take l xs @ drop (a + l) oob"
  have put: "put_bytes oob a (take l xs) = Some oob1" and len1: "length oob1 = L"
    using bounds Cons.prems(2) by (simp_all add: put_bytes_def oob1_def)
  have "sum_list (map snd rs) \<le> length (drop l xs)" using Cons.prems(3) by (simp add: r)
  from Cons.IH [OF bounds(3) len1 this] obtain oob' where
    oob': "put_chunks oob1 rs (drop l xs) = Some oob'" "length oob' = L" "get_chunks oob' rs = Some (take (sum_list (map snd rs)) (drop l xs))"
      "take (a + l) oob' = take (a + l) oob1" "\<forall>i. \<not> covers rs i \<longrightarrow> oob' ! i = oob1 ! i"
    by blast
  have "take l (drop a oob') = take l xs"
    using arg_cong [OF oob'(4), of "drop a"] bounds Cons.prems(2) by (simp add: drop_take oob1_def)
  then have get: "get_chunks oob' (r # rs) = Some (take (sum_list (map snd (r # rs))) xs)"
    using oob'(2,3) bounds by (simp add: r get_bytes_def take_add)
  have "take lo oob' = take lo oob"
    using arg_cong [OF oob'(4), of "take lo"] bounds(1,2) Cons.prems(2) by (simp add: oob1_def min_def)
  moreover have "oob1 ! i = oob ! i" if "\<not> (a \<le> i \<and> i < a + l)" for i
    using that bounds Cons.prems(2) by (auto simp: oob1_def nth_append)
  ultimately show ?case
    using put oob'(1,2,5) get bounds(4) by (auto simp: r get_bytes_def)
qed

section \<open>Properties\<close>




subsection \<open>Witnesses\<close>

lemma tiny_idle: "idle (tiny_mtd pb cs)"
  by (simp add: idle_def tiny_mtd_def)




end
