(* ===== verification/NandIdent.thy ===== *)
theory NandIdent
  imports MtdCalls
begin

text \<open>
  How the kernel recognises the chip: \<open>s3c_nand_probe\<close> of \<open>linux/kernel/common/s3c_nand.c\<close>, \<open>nand_scan\<close> of
  \<open>linux/kernel/common/nand_base.c\<close> with its two phases, and the table of \<open>drivers/mtd/nand/nand_ids.c\<close>.  Function pointers are
  values of a type with a constructor for each function, as the code compares them; \<^const>\<open>None\<close> is a null pointer.  Numbers
  keep their widths.

  The two functions of the binary file \<open>s3c_nand_mlc.fo\<close>, the scan for a bad block table and the outcome of the kernel's
  allocations are parameters.  The result \<^const>\<open>None\<close> stands for a \<open>BUG()\<close>, a null pointer, a shift by a negative
  number, a division by zero, a wait that never ends or a call of a function of the binary file.
\<close>

section \<open>The table of chips\<close>

definition NAND_SAMSUNG_LP_OPTIONS :: u32 where "NAND_SAMSUNG_LP_OPTIONS = NAND_NO_PADDING OR NAND_CACHEPRG OR NAND_COPYBACK"
definition NAND_CHIPOPTIONS_MSK :: u32 where "NAND_CHIPOPTIONS_MSK = 0x0000ffff AND NOT NAND_NO_AUTOINCR"
definition NAND_ROM :: u32 where "NAND_ROM = 0x800"
definition NAND_SKIP_BBTSCAN :: u32 where "NAND_SKIP_BBTSCAN = 0x20000"
definition NAND_OWN_BUFFERS :: u32 where "NAND_OWN_BUFFERS = 0x40000"
definition NAND_CI_CELLTYPE_MSK :: u8 where "NAND_CI_CELLTYPE_MSK = 0x0C"
definition NAND_CMD_PARAM :: u32 where "NAND_CMD_PARAM = 0xec"
definition ONFI_CRC_BASE :: u16 where "ONFI_CRC_BASE = 0x4F4E"

definition NAND_MFR_TOSHIBA :: u8 where "NAND_MFR_TOSHIBA = 0x98"
definition NAND_MFR_SAMSUNG :: u8 where "NAND_MFR_SAMSUNG = 0xec"
definition NAND_MFR_STMICRO :: u8 where "NAND_MFR_STMICRO = 0x20"
definition NAND_MFR_HYNIX :: u8 where "NAND_MFR_HYNIX = 0xad"
definition NAND_MFR_MICRON :: u8 where "NAND_MFR_MICRON = 0x2c"
definition NAND_MFR_AMD :: u8 where "NAND_MFR_AMD = 0x01"

lemmas nand_mfr_defs = NAND_MFR_TOSHIBA_def NAND_MFR_SAMSUNG_def NAND_MFR_STMICRO_def NAND_MFR_HYNIX_def NAND_MFR_MICRON_def
  NAND_MFR_AMD_def

definition LP_OPTIONS :: u32 where "LP_OPTIONS = NAND_SAMSUNG_LP_OPTIONS OR NAND_NO_READRDY OR NAND_NO_AUTOINCR"
definition LP_OPTIONS16 :: u32 where "LP_OPTIONS16 = LP_OPTIONS OR NAND_BUSWIDTH_16"

lemmas ident_option_defs = nand_option_defs NAND_SAMSUNG_LP_OPTIONS_def NAND_CHIPOPTIONS_MSK_def NAND_ROM_def NAND_SKIP_BBTSCAN_def
  NAND_OWN_BUFFERS_def NAND_CI_CELLTYPE_MSK_def LP_OPTIONS_def LP_OPTIONS16_def

text \<open>Identification, page size (0: it is in the extended identification), size in MiB, block size, options.\<close>

record nand_flash_dev =
  fd_id :: u8
  fd_pagesize :: u32
  fd_chipsize :: u32
  fd_erasesize :: u32
  fd_options :: u32

definition flash_dev :: "u8 \<Rightarrow> u32 \<Rightarrow> u32 \<Rightarrow> u32 \<Rightarrow> u32 \<Rightarrow> nand_flash_dev" where
  "flash_dev i p c e opts = \<lparr>fd_id = i, fd_pagesize = p, fd_chipsize = c, fd_erasesize = e, fd_options = opts\<rparr>"

text \<open>Without \<open>CONFIG_MTD_NAND_MUSEUM_IDS\<close>.\<close>

definition nand_flash_ids :: "nand_flash_dev list" where
  "nand_flash_ids = [
     flash_dev 0x33 512 16 0x4000 0,
     flash_dev 0x73 512 16 0x4000 0,
     flash_dev 0x43 512 16 0x4000 NAND_BUSWIDTH_16,
     flash_dev 0x53 512 16 0x4000 NAND_BUSWIDTH_16,
     flash_dev 0x35 512 32 0x4000 0,
     flash_dev 0x75 512 32 0x4000 0,
     flash_dev 0x45 512 32 0x4000 NAND_BUSWIDTH_16,
     flash_dev 0x55 512 32 0x4000 NAND_BUSWIDTH_16,
     flash_dev 0x36 512 64 0x4000 0,
     flash_dev 0x76 512 64 0x4000 0,
     flash_dev 0x46 512 64 0x4000 NAND_BUSWIDTH_16,
     flash_dev 0x56 512 64 0x4000 NAND_BUSWIDTH_16,
     flash_dev 0x78 512 128 0x4000 0,
     flash_dev 0x39 512 128 0x4000 0,
     flash_dev 0x79 512 128 0x4000 0,
     flash_dev 0x72 512 128 0x4000 NAND_BUSWIDTH_16,
     flash_dev 0x49 512 128 0x4000 NAND_BUSWIDTH_16,
     flash_dev 0x74 512 128 0x4000 NAND_BUSWIDTH_16,
     flash_dev 0x59 512 128 0x4000 NAND_BUSWIDTH_16,
     flash_dev 0x71 512 256 0x4000 0,
     flash_dev 0xA2 0 64 0 LP_OPTIONS,
     flash_dev 0xA0 0 64 0 LP_OPTIONS,
     flash_dev 0xF2 0 64 0 LP_OPTIONS,
     flash_dev 0xD0 0 64 0 LP_OPTIONS,
     flash_dev 0xB2 0 64 0 LP_OPTIONS16,
     flash_dev 0xB0 0 64 0 LP_OPTIONS16,
     flash_dev 0xC2 0 64 0 LP_OPTIONS16,
     flash_dev 0xC0 0 64 0 LP_OPTIONS16,
     flash_dev 0xA1 0 128 0 LP_OPTIONS,
     flash_dev 0xF1 0 128 0 LP_OPTIONS,
     flash_dev 0xD1 0 128 0 LP_OPTIONS,
     flash_dev 0xB1 0 128 0 LP_OPTIONS16,
     flash_dev 0xC1 0 128 0 LP_OPTIONS16,
     flash_dev 0xAD 0 128 0 LP_OPTIONS16,
     flash_dev 0xAA 0 256 0 LP_OPTIONS,
     flash_dev 0xDA 0 256 0 LP_OPTIONS,
     flash_dev 0xBA 0 256 0 LP_OPTIONS16,
     flash_dev 0xCA 0 256 0 LP_OPTIONS16,
     flash_dev 0xAC 0 512 0 LP_OPTIONS,
     flash_dev 0xDC 0 512 0 LP_OPTIONS,
     flash_dev 0xBC 0 512 0 LP_OPTIONS16,
     flash_dev 0xCC 0 512 0 LP_OPTIONS16,
     flash_dev 0xA3 0 1024 0 LP_OPTIONS,
     flash_dev 0xD3 0 1024 0 LP_OPTIONS,
     flash_dev 0xB3 0 1024 0 LP_OPTIONS16,
     flash_dev 0xC3 0 1024 0 LP_OPTIONS16,
     flash_dev 0xA5 0 2048 0 LP_OPTIONS,
     flash_dev 0xD5 0 2048 0 LP_OPTIONS,
     flash_dev 0xB5 0 2048 0 LP_OPTIONS16,
     flash_dev 0xC5 0 2048 0 LP_OPTIONS16,
     flash_dev 0xA7 0 4096 0 LP_OPTIONS,
     flash_dev 0xD7 0 4096 0 LP_OPTIONS,
     flash_dev 0xB7 0 4096 0 LP_OPTIONS16,
     flash_dev 0xC7 0 4096 0 LP_OPTIONS16,
     flash_dev 0xAE 0 8192 0 LP_OPTIONS,
     flash_dev 0xDE 0 8192 0 LP_OPTIONS,
     flash_dev 0xBE 0 8192 0 LP_OPTIONS16,
     flash_dev 0xCE 0 8192 0 LP_OPTIONS16,
     flash_dev 0x1A 0 16384 0 LP_OPTIONS,
     flash_dev 0x3A 0 16384 0 LP_OPTIONS,
     flash_dev 0x2A 0 16384 0 LP_OPTIONS16,
     flash_dev 0x4A 0 16384 0 LP_OPTIONS16,
     flash_dev 0x1C 0 32768 0 LP_OPTIONS,
     flash_dev 0x3C 0 32768 0 LP_OPTIONS,
     flash_dev 0x2C 0 32768 0 LP_OPTIONS16,
     flash_dev 0x4C 0 32768 0 LP_OPTIONS16,
     flash_dev 0x1E 0 65536 0 LP_OPTIONS,
     flash_dev 0x3E 0 65536 0 LP_OPTIONS,
     flash_dev 0x2E 0 65536 0 LP_OPTIONS16,
     flash_dev 0x4E 0 65536 0 LP_OPTIONS16,
     flash_dev 0x01 2048 128 0x4000 (NAND_IS_AND OR NAND_NO_AUTOINCR OR NAND_NO_READRDY OR NAND_4PAGE_ARRAY OR BBT_AUTO_REFRESH)]"

text \<open>The loop over the table, which ends at an entry without a name.\<close>

definition find_flash_dev :: "u8 \<Rightarrow> nand_flash_dev option" where
  "find_flash_dev dev_id = find (\<lambda>t. dev_id = fd_id t) nand_flash_ids"

definition ffs :: "u32 \<Rightarrow> nat" where
  "ffs x = (case find (bit x) [0..<32] of Some i \<Rightarrow> i + 1 | None \<Rightarrow> 0)"

section \<open>The chip while it is scanned\<close>

datatype fn = Nand_command | Nand_command_lp | Nand_wait | Nand_select_chip | Nand_read_byte | Nand_read_byte16 | Nand_read_word
  | Nand_block_bad | Nand_default_block_markbad | Nand_write_buf | Nand_write_buf16 | Nand_read_buf | Nand_read_buf16
  | Nand_verify_buf | Nand_verify_buf16 | Nand_default_bbt | Nand_write_page | Single_erase_cmd | Multi_erase_cmd
  | S3c_nand_scan_bbt | S3c_nand_enable_hwecc | S3c_nand_calculate_ecc | S3c_nand_correct_data
  | S3c_nand_read_page_1bit | S3c_nand_write_page_1bit | S3c_nand_read_oob_1bit | S3c_nand_write_oob_1bit
  | S3c_nand_read_page_4bit | S3c_nand_write_page_4bit
  | Nand_calculate_ecc | Nand_correct_data | Nand_read_page_raw | Nand_write_page_raw | Nand_read_page_raw_syndrome
  | Nand_write_page_raw_syndrome | Nand_read_page_swecc | Nand_write_page_swecc | Nand_read_page_hwecc
  | Nand_read_page_hwecc_oob_first | Nand_write_page_hwecc | Nand_read_page_syndrome | Nand_write_page_syndrome
  | Nand_read_subpage | Nand_read_oob_std | Nand_write_oob_std | Nand_read_oob_syndrome | Nand_write_oob_syndrome | Other_fn nat

record nand_ecc_ctrl =
  ec_mode :: nand_ecc_modes
  ec_steps :: nat
  ec_size :: nat
  ec_bytes :: nat
  ec_total :: nat
  ec_layout :: "nand_ecclayout option"
  ec_hwctl :: "fn option"
  ec_calculate :: "fn option"
  ec_correct :: "fn option"
  ec_read_page :: "fn option"
  ec_write_page :: "fn option"
  ec_read_page_raw :: "fn option"
  ec_write_page_raw :: "fn option"
  ec_read_subpage :: "fn option"
  ec_read_oob :: "fn option"
  ec_write_oob :: "fn option"

record chip_fns =
  f_cmdfunc :: "fn option"
  f_waitfunc :: "fn option"
  f_select_chip :: "fn option"
  f_read_byte :: "fn option"
  f_read_word :: "fn option"
  f_block_bad :: "fn option"
  f_block_markbad :: "fn option"
  f_write_buf :: "fn option"
  f_read_buf :: "fn option"
  f_verify_buf :: "fn option"
  f_scan_bbt :: "fn option"
  f_write_page :: "fn option"
  f_erase_cmd :: "fn option"

text \<open>
  What \<open>nand_scan\<close> fills in of \<open>struct nand_chip\<close> and \<open>struct mtd_info\<close>; \<open>sc_init_size\<close> is the function of the board that
  takes page, spare and block size and the bus width from the identification, if there is one.
\<close>

record scan_chip =
  sc_fns :: chip_fns
  sc_ecc :: nand_ecc_ctrl
  sc_type :: nand_kind
  sc_cpu :: s3c_cpu_type
  sc_chip_delay :: s32
  sc_options :: u32
  sc_cellinfo :: u8
  sc_writesize :: u32
  sc_oobsize :: u32
  sc_erasesize :: u32
  sc_chipsize :: u64
  sc_page_shift :: int
  sc_phys_erase_shift :: int
  sc_chip_shift :: int
  sc_pagemask :: s32
  sc_badblockpos :: s32
  sc_badblockbits :: s32
  sc_onfi_version :: s32
  sc_numchips :: s32
  sc_mtd_size :: u64
  sc_oobavail :: u32
  sc_subpage_sft :: nat
  sc_subpagesize :: s32
  sc_init_size :: "(u8 list \<Rightarrow> u32 \<times> u32 \<times> u32 \<times> u32) option"

text \<open>\<open>memset(nand, 0, sizeof(struct nand_chip))\<close>\<close>

definition no_fns :: chip_fns where
  "no_fns = \<lparr>f_cmdfunc = None, f_waitfunc = None, f_select_chip = None, f_read_byte = None, f_read_word = None, f_block_bad = None,
     f_block_markbad = None, f_write_buf = None, f_read_buf = None, f_verify_buf = None, f_scan_bbt = None, f_write_page = None,
     f_erase_cmd = None\<rparr>"

definition no_ecc :: nand_ecc_ctrl where
  "no_ecc = \<lparr>ec_mode = NAND_ECC_NONE, ec_steps = 0, ec_size = 0, ec_bytes = 0, ec_total = 0, ec_layout = None, ec_hwctl = None,
     ec_calculate = None, ec_correct = None, ec_read_page = None, ec_write_page = None, ec_read_page_raw = None,
     ec_write_page_raw = None, ec_read_subpage = None, ec_read_oob = None, ec_write_oob = None\<rparr>"

definition zero_chip :: "s3c_cpu_type \<Rightarrow> scan_chip" where
  "zero_chip cpu = \<lparr>sc_fns = no_fns, sc_ecc = no_ecc, sc_type = S3C_NAND_TYPE_UNKNOWN, sc_cpu = cpu, sc_chip_delay = 0, sc_options = 0,
     sc_cellinfo = 0, sc_writesize = 0, sc_oobsize = 0, sc_erasesize = 0, sc_chipsize = 0, sc_page_shift = 0,
     sc_phys_erase_shift = 0, sc_chip_shift = 0, sc_pagemask = 0, sc_badblockpos = 0, sc_badblockbits = 0,
     sc_onfi_version = 0, sc_numchips = 0, sc_mtd_size = 0, sc_oobavail = 0, sc_subpage_sft = 0, sc_subpagesize = 0,
     sc_init_size = None\<rparr>"

text \<open>\<open>if (!p) p = f;\<close>\<close>

definition dflt :: "fn \<Rightarrow> fn option \<Rightarrow> fn option" where
  "dflt f p = (if p = None then Some f else p)"

definition nand_set_defaults :: "u32 \<Rightarrow> scan_chip \<Rightarrow> scan_chip" where
  "nand_set_defaults busw c =
     (let f = sc_fns c; w = (\<lambda>f16 f8. if busw \<noteq> 0 then f16 else f8)
      in c\<lparr>sc_chip_delay := (if sc_chip_delay c = 0 then 20 else sc_chip_delay c),
        sc_fns := f\<lparr>f_cmdfunc := dflt Nand_command (f_cmdfunc f), f_waitfunc := dflt Nand_wait (f_waitfunc f),
          f_select_chip := dflt Nand_select_chip (f_select_chip f),
          f_read_byte := dflt (w Nand_read_byte16 Nand_read_byte) (f_read_byte f),
          f_read_word := dflt Nand_read_word (f_read_word f), f_block_bad := dflt Nand_block_bad (f_block_bad f),
          f_block_markbad := dflt Nand_default_block_markbad (f_block_markbad f),
          f_write_buf := dflt (w Nand_write_buf16 Nand_write_buf) (f_write_buf f),
          f_read_buf := dflt (w Nand_read_buf16 Nand_read_buf) (f_read_buf f),
          f_verify_buf := dflt (w Nand_verify_buf16 Nand_verify_buf) (f_verify_buf f),
          f_scan_bbt := dflt Nand_default_bbt (f_scan_bbt f)\<rparr>\<rparr>)"

section \<open>Talking to the chip\<close>

text \<open>The functions behind the pointers, as far as a scan calls them; the driver has a ready line.\<close>

definition scan_geom :: "scan_chip \<Rightarrow> nand_geom" where
  "scan_geom c = \<lparr>writesize = unat (sc_writesize c), oobsize = unat (sc_oobsize c), chipsize = unat (sc_chipsize c),
     buswidth16 = (sc_options c AND NAND_BUSWIDTH_16 \<noteq> 0), has_dev_ready = True\<rparr>"

definition scan_cmdfunc :: "'d machine \<Rightarrow> scan_chip \<Rightarrow> u32 \<Rightarrow> s32 \<Rightarrow> s32 \<Rightarrow> 'd \<Rightarrow> 'd option" where
  "scan_cmdfunc k c command column page s =
     (if f_cmdfunc (sc_fns c) = Some Nand_command then nand_command k (scan_geom c) command column page s
      else if f_cmdfunc (sc_fns c) = Some Nand_command_lp then nand_command_lp k (scan_geom c) command column page s
      else None)"

definition scan_select :: "'d machine \<Rightarrow> scan_chip \<Rightarrow> s32 \<Rightarrow> 'd \<Rightarrow> 'd option" where
  "scan_select k c chipnr s = (if f_select_chip (sc_fns c) = Some Nand_select_chip then nand_select_chip k chipnr s else None)"

definition scan_read_byte :: "'d machine \<Rightarrow> scan_chip \<Rightarrow> 'd \<Rightarrow> (u8 \<times> 'd) option" where
  "scan_read_byte k c s =
     (if f_read_byte (sc_fns c) = Some Nand_read_byte then Some (nand_read_byte k s)
      else if f_read_byte (sc_fns c) = Some Nand_read_byte16 then Some (nand_read_byte16 k s)
      else None)"

definition scan_read_buf :: "'d machine \<Rightarrow> scan_chip \<Rightarrow> nat \<Rightarrow> 'd \<Rightarrow> (u8 list \<times> 'd) option" where
  "scan_read_buf k c len s =
     (if f_read_buf (sc_fns c) = Some Nand_read_buf then Some (nand_read_buf k len s)
      else if f_read_buf (sc_fns c) = Some Nand_read_buf16 then Some (nand_read_buf16 k len s)
      else None)"

fun scan_read_bytes :: "'d machine \<Rightarrow> scan_chip \<Rightarrow> nat \<Rightarrow> 'd \<Rightarrow> (u8 list \<times> 'd) option" where
  "scan_read_bytes k c 0 s = Some ([], s)"
| "scan_read_bytes k c (Suc n) s = do {
     (x, s) \<leftarrow> scan_read_byte k c s;
     (xs, s) \<leftarrow> scan_read_bytes k c n s;
     Some (x # xs, s) }"

text \<open>\<open>a || b || \<dots>\<close> reads no further than the first byte that differs.\<close>

fun scan_matches :: "'d machine \<Rightarrow> scan_chip \<Rightarrow> u8 list \<Rightarrow> 'd \<Rightarrow> (bool \<times> 'd) option" where
  "scan_matches k c [] s = Some (True, s)"
| "scan_matches k c (x # xs) s = do {
     (y, s) \<leftarrow> scan_read_byte k c s;
     if x \<noteq> y then Some (False, s) else scan_matches k c xs s }"

section \<open>ONFI\<close>

text \<open>One bit of the check sum, and its eight steps for a byte.\<close>

definition crc_step :: "u16 \<Rightarrow> u16" where
  "crc_step crc = push_bit 1 crc XOR (if crc AND 0x8000 \<noteq> 0 then 0x8005 else 0)"

fun onfi_crc16 :: "u16 \<Rightarrow> u8 list \<Rightarrow> u16" where
  "onfi_crc16 crc [] = crc"
| "onfi_crc16 crc (p # ps) = onfi_crc16 ((crc_step ^^ 8) (crc XOR push_bit 8 (ucast p))) ps"

text \<open>Numbers of the parameter page, the low byte first.\<close>

definition le16_at :: "u8 list \<Rightarrow> nat \<Rightarrow> u16" where
  "le16_at p i = ucast (p ! i) OR push_bit 8 (ucast (p ! (i + 1)))"

definition le32_at :: "u8 list \<Rightarrow> nat \<Rightarrow> u32" where
  "le32_at p i = ucast (p ! i) OR push_bit 8 (ucast (p ! (i + 1))) OR push_bit 16 (ucast (p ! (i + 2))) OR
     push_bit 24 (ucast (p ! (i + 3)))"

text \<open>The page is read up to three times.\<close>

fun onfi_read_params :: "'d machine \<Rightarrow> scan_chip \<Rightarrow> nat \<Rightarrow> 'd \<Rightarrow> (u8 list option \<times> 'd) option" where
  "onfi_read_params k c 0 s = Some (None, s)"
| "onfi_read_params k c (Suc n) s = do {
     (p, s) \<leftarrow> scan_read_buf k c 256 s;
     if onfi_crc16 ONFI_CRC_BASE (take 254 p) = le16_at p 254 then Some (Some p, s) else onfi_read_params k c n s }"

definition onfi_version_of :: "u16 \<Rightarrow> s32" where
  "onfi_version_of val = (if bit val 5 then 23 else if bit val 4 then 22 else if bit val 3 then 21 else if bit val 2 then 20
     else if bit val 1 then 10 else 0)"

text \<open>
  The bus width of the chip, bit 0 of the features, is stored in \<open>busw\<close>, which is a copy of the caller's, so it has no effect.
  The strings of the page are only cleaned for printing.
\<close>

definition nand_flash_detect_onfi :: "'d machine \<Rightarrow> scan_chip \<Rightarrow> 'd \<Rightarrow> (bool \<times> scan_chip \<times> 'd) option" where
  "nand_flash_detect_onfi k c s = do {
     s \<leftarrow> scan_cmdfunc k c NAND_CMD_READID 0x20 (- 1) s;
     (onfi, s) \<leftarrow> scan_matches k c [0x4F, 0x4E, 0x46, 0x49] s;
     if \<not> onfi then Some (False, c, s)
     else do {
       s \<leftarrow> scan_cmdfunc k c NAND_CMD_PARAM 0 (- 1) s;
       (params, s) \<leftarrow> onfi_read_params k c 3 s;
       (case params of
          None \<Rightarrow> Some (False, c, s)
        | Some p \<Rightarrow>
            (let c = c\<lparr>sc_onfi_version := onfi_version_of (le16_at p 4)\<rparr>
             in if sc_onfi_version c = 0 then Some (False, c, s)
                else
                  (let c = c\<lparr>sc_writesize := le32_at p 80\<rparr>;
                       c = c\<lparr>sc_erasesize := le32_at p 92 * sc_writesize c, sc_oobsize := ucast (le16_at p 84)\<rparr>;
                       c = c\<lparr>sc_chipsize := ucast (le32_at p 96) * ucast (sc_erasesize c),
                         sc_options := (sc_options c AND NOT NAND_CHIPOPTIONS_MSK) OR
                           ((NAND_NO_READRDY OR NAND_NO_AUTOINCR) AND NAND_CHIPOPTIONS_MSK)\<rparr>
                   in Some (True, c, s)))) } }"

section \<open>Identification\<close>

text \<open>
  Page, spare and block size and bus width from the bytes of the identification, in the format of Samsung's newer chips and in the
  common one, or from the table.
\<close>

definition samsung_new :: "u8 list \<Rightarrow> bool" where
  "samsung_new d \<longleftrightarrow> d ! 0 = d ! 6 \<and> d ! 1 = d ! 7 \<and> d ! 0 = NAND_MFR_SAMSUNG \<and> d ! 2 AND NAND_CI_CELLTYPE_MSK \<noteq> 0 \<and> d ! 5 \<noteq> 0"

definition decode_samsung :: "u32 \<Rightarrow> u32 \<times> u32 \<times> u32 \<times> u32" where
  "decode_samsung extid =
     (let ws = push_bit (unat (extid AND 0x03)) 2048;
          extid = drop_bit 2 extid;
          oob = (if extid AND 0x10 \<noteq> 0 then 436 else [0, 128, 218, 400] ! unat (extid AND 0x03));
          extid = drop_bit 2 extid
      in (ws, oob, push_bit (unat ((drop_bit 1 extid AND 0x04) OR (extid AND 0x03))) (128 * 1024), 0))"

definition decode_common :: "u32 \<Rightarrow> u32 \<times> u32 \<times> u32 \<times> u32" where
  "decode_common extid =
     (let ws = push_bit (unat (extid AND 0x03)) 1024;
          extid = drop_bit 2 extid;
          oob = push_bit (unat (extid AND 0x01)) 8 * drop_bit 9 ws;
          extid = drop_bit 2 extid;
          es = push_bit (unat (extid AND 0x03)) (64 * 1024);
          extid = drop_bit 2 extid
      in (ws, oob, es, if extid AND 0x01 \<noteq> 0 then NAND_BUSWIDTH_16 else 0))"

definition decode_table :: "u8 \<Rightarrow> u8 list \<Rightarrow> nand_flash_dev \<Rightarrow> u32 \<times> u32 \<times> u32 \<times> u32" where
  "decode_table maf_id d t =
     (let ws = fd_pagesize t;
          es = (if maf_id = NAND_MFR_AMD \<and> d ! 4 \<noteq> 0 \<and> d ! 5 = 0 \<and> d ! 6 = 0 \<and> d ! 7 = 0 \<and> ws = 512
                then push_bit (unat (push_bit 1 (d ! 3 AND 0x03))) (128 * 1024) else fd_erasesize t)
      in (ws, ws div 32, es, fd_options t AND NAND_BUSWIDTH_16))"

definition set_sizes :: "u32 \<times> u32 \<times> u32 \<times> u32 \<Rightarrow> scan_chip \<Rightarrow> scan_chip" where
  "set_sizes sz c = (case sz of (ws, oob, es, _) \<Rightarrow> c\<lparr>sc_writesize := ws, sc_oobsize := oob, sc_erasesize := es\<rparr>)"

text \<open>The bus width, and the chip.\<close>

definition decode_id :: "u8 \<Rightarrow> u8 list \<Rightarrow> nand_flash_dev \<Rightarrow> scan_chip \<Rightarrow> u32 \<times> scan_chip" where
  "decode_id maf_id d t c =
     (let c = c\<lparr>sc_chipsize := push_bit 20 (ucast (fd_chipsize t))\<rparr>;
          (sz, c) =
            (if fd_pagesize t = 0 then
               (case sc_init_size c of
                  Some f \<Rightarrow> (f d, c)
                | None \<Rightarrow>
                    (if samsung_new d then decode_samsung (ucast (d ! 3)) else decode_common (ucast (d ! 3)),
                     c\<lparr>sc_cellinfo := d ! 2\<rparr>))
             else (decode_table maf_id d t, c));
          c = set_sizes sz c;
          c = c\<lparr>sc_options := (sc_options c AND NOT NAND_CHIPOPTIONS_MSK) OR (fd_options t AND NAND_CHIPOPTIONS_MSK)\<rparr>;
          c = (if maf_id \<noteq> NAND_MFR_SAMSUNG \<and> fd_pagesize t = 0
               then c\<lparr>sc_options := sc_options c AND NOT NAND_SAMSUNG_LP_OPTIONS\<rparr> else c)
      in (snd (snd (snd sz)), c))"

text \<open>What depends on the manufacturer: where bad blocks are marked.\<close>

definition mark_options :: "u8 \<Rightarrow> u32 \<Rightarrow> scan_chip \<Rightarrow> scan_chip" where
  "mark_options maf_id busw c =
     (let c = c\<lparr>sc_badblockpos := (if 512 < sc_writesize c \<or> busw AND NAND_BUSWIDTH_16 \<noteq> 0
                then NAND_LARGE_BADBLOCK_POS else NAND_SMALL_BADBLOCK_POS)\<rparr>;
          mlc = (sc_cellinfo c AND NAND_CI_CELLTYPE_MSK \<noteq> 0);
          c = (if mlc \<and> (maf_id = NAND_MFR_SAMSUNG \<or> maf_id = NAND_MFR_HYNIX)
               then (if sc_writesize c < 4096 then c\<lparr>sc_options := sc_options c OR NAND_BBT_SCANLASTPAGE\<rparr> else c)
               else if \<not> mlc \<and> maf_id \<in> {NAND_MFR_SAMSUNG, NAND_MFR_HYNIX, NAND_MFR_TOSHIBA, NAND_MFR_AMD} \<or>
                 sc_writesize c = 2048 \<and> maf_id = NAND_MFR_MICRON
               then c\<lparr>sc_options := sc_options c OR NAND_BBT_SCAN2NDPAGE\<rparr>
               else c)
      in if busw AND NAND_BUSWIDTH_16 = 0 \<and> maf_id = NAND_MFR_STMICRO \<and> sc_writesize c = 2048
         then c\<lparr>sc_options := sc_options c OR NAND_BBT_SCANBYTE1AND6, sc_badblockpos := 0\<rparr> else c)"

text \<open>The shifts and masks of the sizes, where the driver has not set them, and the functions that depend on the page size.\<close>

definition chip_shift_of :: "u64 \<Rightarrow> int" where
  "chip_shift_of sz = (if sz AND 0xffffffff \<noteq> 0 then int (ffs (ucast sz)) - 1 else int (ffs (ucast (drop_bit 32 sz))) + 32 - 1)"

definition ident_shifts :: "scan_chip \<Rightarrow> scan_chip" where
  "ident_shifts c =
     (let shift = int (ffs (sc_writesize c)) - 1
      in c\<lparr>sc_page_shift := shift,
           sc_pagemask := (if sc_pagemask c = 0 then ucast (drop_bit (nat shift) (sc_chipsize c) - 1) else sc_pagemask c),
           sc_phys_erase_shift := int (ffs (sc_erasesize c)) - 1,
           sc_chip_shift := (if sc_chip_shift c = 0 then chip_shift_of (sc_chipsize c) else sc_chip_shift c)\<rparr>)"

definition ident_cmds :: "scan_chip \<Rightarrow> scan_chip" where
  "ident_cmds c =
     (let f = (sc_fns c)\<lparr>f_erase_cmd := Some (if sc_options c AND NAND_4PAGE_ARRAY \<noteq> 0 then Multi_erase_cmd else Single_erase_cmd)\<rparr>
      in c\<lparr>sc_fns := (if 512 < sc_writesize c \<and> f_cmdfunc f = Some Nand_command then f\<lparr>f_cmdfunc := Some Nand_command_lp\<rparr> else f)\<rparr>)"

text \<open>From \<open>ident_done\<close> on.\<close>

definition ident_done :: "u8 \<Rightarrow> u32 \<Rightarrow> scan_chip \<Rightarrow> (s32 + scan_chip) option" where
  "ident_done maf_id busw c =
     (let c = c\<lparr>sc_options := sc_options c OR NAND_NO_AUTOINCR\<rparr>
      in if busw \<noteq> sc_options c AND NAND_BUSWIDTH_16 then Some (Inl (- EINVAL))
         else if sc_writesize c = 0 then None
         else Some (Inr (ident_cmds (mark_options maf_id busw (ident_shifts c)))))"

text \<open>The two identification bytes, and the chip or an error.\<close>

definition nand_get_flash_type ::
  "'d machine \<Rightarrow> u32 \<Rightarrow> scan_chip \<Rightarrow> 'd \<Rightarrow> (u8 \<times> u8 \<times> (s32 + scan_chip) \<times> 'd) option" where
  "nand_get_flash_type k busw c s = do {
     s \<leftarrow> scan_select k c 0 s;
     s \<leftarrow> scan_cmdfunc k c NAND_CMD_RESET (- 1) (- 1) s;
     s \<leftarrow> scan_cmdfunc k c NAND_CMD_READID 0x00 (- 1) s;
     (maf_id, s) \<leftarrow> scan_read_byte k c s;
     (dev_id, s) \<leftarrow> scan_read_byte k c s;
     s \<leftarrow> scan_cmdfunc k c NAND_CMD_READID 0x00 (- 1) s;
     (id_data, s) \<leftarrow> scan_read_bytes k c 2 s;
     if id_data \<noteq> [maf_id, dev_id] then Some (maf_id, dev_id, Inl (- ENODEV), s)
     else do {
       let type = find_flash_dev dev_id;
       let c = c\<lparr>sc_onfi_version := 0\<rparr>;
       (onfi, c, s) \<leftarrow>
         (if type = None \<or> fd_pagesize (the type) = 0 then nand_flash_detect_onfi k c s else Some (False, c, s));
       if onfi then do { r \<leftarrow> ident_done maf_id busw c; Some (maf_id, dev_id, r, s) }
       else do {
         s \<leftarrow> scan_cmdfunc k c NAND_CMD_READID 0x00 (- 1) s;
         (id_data, s) \<leftarrow> scan_read_bytes k c 8 s;
         (case type of
            None \<Rightarrow> Some (maf_id, dev_id, Inl (- ENODEV), s)
          | Some t \<Rightarrow> do {
              let (busw, c) = decode_id maf_id id_data t c;
              r \<leftarrow> ident_done maf_id busw c;
              Some (maf_id, dev_id, r, s) }) } } }"

text \<open>The loop over further chips; the result is the number of chips found.\<close>

fun scan_array :: "'d machine \<Rightarrow> scan_chip \<Rightarrow> u8 \<Rightarrow> u8 \<Rightarrow> nat \<Rightarrow> nat \<Rightarrow> 'd \<Rightarrow> (nat \<times> 'd) option" where
  "scan_array k c maf_id dev_id i 0 s = Some (i, s)"
| "scan_array k c maf_id dev_id i (Suc n) s = do {
     s \<leftarrow> scan_select k c (of_nat i) s;
     s \<leftarrow> scan_cmdfunc k c NAND_CMD_RESET (- 1) (- 1) s;
     s \<leftarrow> scan_cmdfunc k c NAND_CMD_READID 0x00 (- 1) s;
     (same, s) \<leftarrow> scan_matches k c [maf_id, dev_id] s;
     if same then scan_array k c maf_id dev_id (i + 1) n s else Some (i, s) }"

definition nand_scan_ident :: "'d machine \<Rightarrow> nat \<Rightarrow> scan_chip \<Rightarrow> 'd \<Rightarrow> (s32 \<times> scan_chip \<times> 'd) option" where
  "nand_scan_ident k maxchips c s = do {
     let busw = sc_options c AND NAND_BUSWIDTH_16;
     let c = nand_set_defaults busw c;
     (maf_id, dev_id, r, s) \<leftarrow> nand_get_flash_type k busw c s;
     (case r of
        Inl e \<Rightarrow> do { s \<leftarrow> scan_select k c (- 1) s; Some (e, c, s) }
      | Inr c \<Rightarrow> do {
          (i, s) \<leftarrow> scan_array k c maf_id dev_id 1 (maxchips - 1) s;
          Some (0, c\<lparr>sc_numchips := of_nat i, sc_mtd_size := of_nat i * sc_chipsize c\<rparr>, s) }) }"

section \<open>The second phase\<close>

text \<open>The layouts of the spare area for drivers that bring none.\<close>

definition nand_oob_8 :: nand_ecclayout where
  "nand_oob_8 = \<lparr>eccbytes = 3, eccpos = [0, 1, 2], oobfree = [(3, 2), (6, 2)]\<rparr>"

definition nand_oob_16 :: nand_ecclayout where
  "nand_oob_16 = \<lparr>eccbytes = 6, eccpos = [0, 1, 2, 3, 6, 7], oobfree = [(8, 8)]\<rparr>"

definition nand_oob_64 :: nand_ecclayout where
  "nand_oob_64 = \<lparr>eccbytes = 24, eccpos = [40, 41, 42, 43, 44, 45, 46, 47, 48, 49, 50, 51, 52, 53, 54, 55, 56, 57, 58, 59, 60, 61, 62, 63],
     oobfree = [(2, 38)]\<rparr>"

definition nand_oob_128 :: nand_ecclayout where
  "nand_oob_128 = \<lparr>eccbytes = 48, eccpos = [80, 81, 82, 83, 84, 85, 86, 87, 88, 89, 90, 91, 92, 93, 94, 95, 96, 97, 98, 99, 100, 101, 102,
     103, 104, 105, 106, 107, 108, 109, 110, 111, 112, 113, 114, 115, 116, 117, 118, 119, 120, 121, 122, 123, 124, 125, 126, 127],
     oobfree = [(2, 78)]\<rparr>"

definition default_layout :: "u32 \<Rightarrow> nand_ecclayout option" where
  "default_layout oob = (if oob = 8 then Some nand_oob_8 else if oob = 16 then Some nand_oob_16 else if oob = 64 then Some nand_oob_64
     else if oob = 128 then Some nand_oob_128 else None)"

text \<open>The switch over the ECC mode; a case without a \<open>break\<close> goes on with the next.\<close>

definition no_ecc_fns :: "nand_ecc_ctrl \<Rightarrow> bool" where
  "no_ecc_fns e \<longleftrightarrow> ec_calculate e = None \<or> ec_correct e = None \<or> ec_hwctl e = None"

definition case_soft :: "nand_ecc_ctrl \<Rightarrow> nand_ecc_ctrl" where
  "case_soft e = e\<lparr>ec_calculate := Some Nand_calculate_ecc, ec_correct := Some Nand_correct_data, ec_read_page := Some Nand_read_page_swecc,
     ec_read_subpage := Some Nand_read_subpage, ec_write_page := Some Nand_write_page_swecc, ec_read_page_raw := Some Nand_read_page_raw,
     ec_write_page_raw := Some Nand_write_page_raw, ec_read_oob := Some Nand_read_oob_std, ec_write_oob := Some Nand_write_oob_std,
     ec_size := (if ec_size e = 0 then 256 else ec_size e), ec_bytes := 3\<rparr>"

definition case_syndrome :: "nat \<Rightarrow> nand_ecc_ctrl \<Rightarrow> nand_ecc_ctrl option" where
  "case_syndrome ws e =
     (if no_ecc_fns e \<and> (ec_read_page e \<in> {None, Some Nand_read_page_hwecc} \<or> ec_write_page e \<in> {None, Some Nand_write_page_hwecc})
      then None
      else
        (let e = e\<lparr>ec_read_page := dflt Nand_read_page_syndrome (ec_read_page e),
               ec_write_page := dflt Nand_write_page_syndrome (ec_write_page e),
               ec_read_page_raw := dflt Nand_read_page_raw_syndrome (ec_read_page_raw e),
               ec_write_page_raw := dflt Nand_write_page_raw_syndrome (ec_write_page_raw e),
               ec_read_oob := dflt Nand_read_oob_syndrome (ec_read_oob e), ec_write_oob := dflt Nand_write_oob_syndrome (ec_write_oob e)\<rparr>
         in Some (if ec_size e \<le> ws then e else case_soft (e\<lparr>ec_mode := NAND_ECC_SOFT\<rparr>))))"

definition case_hw :: "nat \<Rightarrow> nand_ecc_ctrl \<Rightarrow> nand_ecc_ctrl option" where
  "case_hw ws e = case_syndrome ws (e\<lparr>ec_read_page := dflt Nand_read_page_hwecc (ec_read_page e),
     ec_write_page := dflt Nand_write_page_hwecc (ec_write_page e), ec_read_page_raw := dflt Nand_read_page_raw (ec_read_page_raw e),
     ec_write_page_raw := dflt Nand_write_page_raw (ec_write_page_raw e), ec_read_oob := dflt Nand_read_oob_std (ec_read_oob e),
     ec_write_oob := dflt Nand_write_oob_std (ec_write_oob e)\<rparr>)"

definition case_oob_first :: "nat \<Rightarrow> nand_ecc_ctrl \<Rightarrow> nand_ecc_ctrl option" where
  "case_oob_first ws e = (if no_ecc_fns e then None
     else case_hw ws (e\<lparr>ec_read_page := dflt Nand_read_page_hwecc_oob_first (ec_read_page e)\<rparr>))"

definition case_none :: "nat \<Rightarrow> nand_ecc_ctrl \<Rightarrow> nand_ecc_ctrl" where
  "case_none ws e = e\<lparr>ec_read_page := Some Nand_read_page_raw, ec_write_page := Some Nand_write_page_raw,
     ec_read_oob := Some Nand_read_oob_std, ec_read_page_raw := Some Nand_read_page_raw, ec_write_page_raw := Some Nand_write_page_raw,
     ec_write_oob := Some Nand_write_oob_std, ec_size := ws, ec_bytes := 0\<rparr>"

definition ecc_functions :: "nat \<Rightarrow> nand_ecc_ctrl \<Rightarrow> nand_ecc_ctrl option" where
  "ecc_functions ws e =
     (case ec_mode e of
        NAND_ECC_HW_OOB_FIRST \<Rightarrow> case_oob_first ws e
      | NAND_ECC_HW \<Rightarrow> case_hw ws e
      | NAND_ECC_HW_SYNDROME \<Rightarrow> case_syndrome ws e
      | NAND_ECC_SOFT \<Rightarrow> Some (case_soft e)
      | NAND_ECC_NONE \<Rightarrow> Some (case_none ws e))"

text \<open>The free bytes of the layout, up to an entry of length 0; the steps for a page.\<close>

definition layout_oobavail :: "nand_ecclayout \<Rightarrow> nat" where
  "layout_oobavail l = sum_list (takeWhile (\<lambda>n. n \<noteq> 0) (map snd (oobfree l)))"

definition ecc_steps_of :: "nat \<Rightarrow> nand_ecc_ctrl \<Rightarrow> nand_ecc_ctrl option" where
  "ecc_steps_of ws e =
     (if ec_size e = 0 \<or> ws div ec_size e * ec_size e \<noteq> ws then None
      else Some (e\<lparr>ec_steps := ws div ec_size e, ec_total := ws div ec_size e * ec_bytes e\<rparr>))"

definition subpage_sft_of :: "scan_chip \<Rightarrow> nat \<Rightarrow> nat" where
  "subpage_sft_of c steps =
     (if sc_options c AND NAND_NO_SUBPAGE_WRITE = 0 \<and> sc_cellinfo c AND NAND_CI_CELLTYPE_MSK = 0
      then (if steps = 2 then 1 else if steps \<in> {4, 8, 16} then 2 else sc_subpage_sft c) else sc_subpage_sft c)"

text \<open>
  \<open>default_bbt\<close> is the scan of \<open>nand_bbt.c\<close>, for drivers that have none of their own; \<open>have_buffers\<close> tells whether there is memory
  for the buffers.  What remains of the function gives the fields of \<open>struct mtd_info\<close> their constant values.
\<close>

definition nand_scan_tail ::
  "'d machine \<Rightarrow> (scan_chip \<Rightarrow> 'd \<Rightarrow> s32 \<times> 'd) \<Rightarrow> bool \<Rightarrow> scan_chip \<Rightarrow> 'd \<Rightarrow> (s32 \<times> scan_chip \<times> 'd) option" where
  "nand_scan_tail k default_bbt have_buffers c s =
     (if \<not> have_buffers then Some (- ENOMEM, c, s)
      else do {
        let ws = unat (sc_writesize c);
        l \<leftarrow> (case ec_layout (sc_ecc c) of Some l \<Rightarrow> Some l | None \<Rightarrow> default_layout (sc_oobsize c));
        let f = (sc_fns c)\<lparr>f_write_page := dflt Nand_write_page (f_write_page (sc_fns c))\<rparr>;
        e \<leftarrow> ecc_functions ws ((sc_ecc c)\<lparr>ec_layout := Some l\<rparr>);
        e \<leftarrow> ecc_steps_of ws e;
        let c = c\<lparr>sc_fns := f, sc_ecc := e, sc_oobavail := of_nat (layout_oobavail l)\<rparr>;
        let c = c\<lparr>sc_subpage_sft := subpage_sft_of c (ec_steps e)\<rparr>;
        let c = c\<lparr>sc_subpagesize := drop_bit (sc_subpage_sft c) (sc_writesize c)\<rparr>;
        s \<leftarrow> scan_select k c (- 1) s;
        if sc_options c AND NAND_SKIP_BBTSCAN \<noteq> 0 then Some (0, c, s)
        else if f_scan_bbt (sc_fns c) = Some S3c_nand_scan_bbt then Some (0, c, s)
        else if f_scan_bbt (sc_fns c) = Some Nand_default_bbt then (let (r, s) = default_bbt c s in Some (r, c, s))
        else None })"

text \<open>A module has to enter itself as the owner of the device before it calls \<open>nand_scan\<close>.\<close>

definition nand_scan ::
  "'d machine \<Rightarrow> (scan_chip \<Rightarrow> 'd \<Rightarrow> s32 \<times> 'd) \<Rightarrow> bool \<Rightarrow> bool \<Rightarrow> bool \<Rightarrow> nat \<Rightarrow> scan_chip \<Rightarrow> 'd \<Rightarrow> (s32 \<times> scan_chip \<times> 'd) option" where
  "nand_scan k default_bbt have_buffers owner caller_is_module maxchips c s =
     (if \<not> owner \<and> caller_is_module then None
      else do {
        (ret, c, s) \<leftarrow> nand_scan_ident k maxchips c s;
        if ret = 0 then nand_scan_tail k default_bbt have_buffers c s else Some (ret, c, s) })"

end
