(* ===== verification/NandProbe.thy ===== *)
theory NandProbe
  imports NandIdent
begin

text \<open>
  \<open>s3c_nand_probe\<close> of \<open>linux/kernel/common/s3c_nand.c\<close>: the driver reads the identification itself, chooses its page functions and
  calls \<open>nand_scan\<close>.  The theorems show that for every SLC chip with pages of 2 KiB this ends in the chip that the theorems on
  reading, writing and erasing assume, what happens with pages of 4 KiB, and which errors the check sum of ONFI detects.

  The configuration of the kernel, the outcome of its allocations, the board's data and the functions of the binary file
  \<open>s3c_nand_mlc.fo\<close> are fields of a record.
\<close>

section \<open>The driver\<close>

datatype nand_parts = Platform_parts | Mini6410_nand_part_mlc

record 'd probe_env =
  cfg_hwecc :: bool
  cfg_cachedprog :: bool
  cfg_mini6410 :: bool
  is_module :: bool
  clk_found :: bool
  area_free :: bool
  regs_mapped :: bool
  mtd_memory :: bool
  buffer_memory :: bool
  plat_nr_chips :: "nat option"
  s3c_nand_ext_finit :: "scan_chip \<Rightarrow> 'd \<Rightarrow> scan_chip \<times> 'd"
  s3c_nand_mlc_probe :: "scan_chip \<Rightarrow> 'd \<Rightarrow> scan_chip \<times> 'd"
  env_default_bbt :: "scan_chip \<Rightarrow> 'd \<Rightarrow> s32 \<times> 'd"

text \<open>
  What a probe changes: the hardware, the clock, the reserved registers, the memory of the device, if it is allocated, and the
  partitions that were registered.
\<close>

record 'd probe_state =
  ps_dev :: 'd
  ps_clk_enabled :: bool
  ps_area_taken :: bool
  ps_chip :: "scan_chip option"
  ps_parts :: "nand_parts list"

definition probe_fields :: "'d probe_env \<Rightarrow> scan_chip \<Rightarrow> 'd \<Rightarrow> scan_chip \<times> 'd" where
  "probe_fields env c s =
     (let c = c\<lparr>sc_fns := (sc_fns c)\<lparr>f_scan_bbt := Some S3c_nand_scan_bbt\<rparr>, sc_options := 0, sc_badblockbits := 8\<rparr>;
          (c, s) = (if cfg_mini6410 env then s3c_nand_ext_finit env c s else (c, s));
          c = (if cfg_cachedprog env then c\<lparr>sc_options := sc_options c OR NAND_CACHEPRG\<rparr> else c)
      in (c, s))"

text \<open>The identification command of the driver itself.\<close>

definition probe_readid :: "'d machine \<Rightarrow> 'd \<Rightarrow> 'd" where
  "probe_readid k s =
     (let s = s3c_nand_hwcontrol k NAND_CMD_READID (NAND_NCE OR NAND_CLE OR NAND_CTRL_CHANGE) s;
          s = s3c_nand_hwcontrol k 0x00 (NAND_CTRL_CHANGE OR NAND_NCE OR NAND_ALE) s;
          s = s3c_nand_hwcontrol k 0x00 (NAND_NCE OR NAND_ALE) s;
          s = s3c_nand_hwcontrol k NAND_CMD_NONE (NAND_NCE OR NAND_CTRL_CHANGE) s
      in snd (s3c_nand_device_ready k s))"

text \<open>The page functions; \<open>tmp\<close> is the fourth byte of the identification.\<close>

definition probe_slc_large :: "u8 \<Rightarrow> nand_ecc_ctrl \<Rightarrow> nand_ecc_ctrl" where
  "probe_slc_large tmp e =
     (let e = e\<lparr>ec_size := 512, ec_bytes := 4\<rparr>
      in if (512 :: u32) < push_bit (unat (tmp AND 0x3)) 1024
         then e\<lparr>ec_read_page := Some S3c_nand_read_page_1bit, ec_write_page := Some S3c_nand_write_page_1bit,
           ec_read_oob := Some S3c_nand_read_oob_1bit, ec_write_oob := Some S3c_nand_write_oob_1bit, ec_layout := Some s3c_nand_oob_64\<rparr>
         else e\<lparr>ec_layout := Some s3c_nand_oob_16\<rparr>)"

definition probe_mlc ::
  "'d probe_env \<Rightarrow> nand_flash_dev \<Rightarrow> u8 \<Rightarrow> nand_parts \<Rightarrow> scan_chip \<Rightarrow> 'd \<Rightarrow> nand_parts \<times> scan_chip \<times> 'd" where
  "probe_mlc env t tmp parts c s =
     (let c = c\<lparr>sc_type := S3C_NAND_TYPE_MLC, sc_options := sc_options c OR NAND_NO_SUBPAGE_WRITE\<rparr>;
          c = (if fd_id t = 0xD5 then c\<lparr>sc_badblockbits := 4\<rparr> else c)
      in if push_bit (unat (tmp AND 3)) (2048 :: u32) < 4096
         then (parts, c\<lparr>sc_ecc := (sc_ecc c)\<lparr>ec_read_page := Some S3c_nand_read_page_4bit, ec_write_page := Some S3c_nand_write_page_4bit,
           ec_size := 512, ec_bytes := 8, ec_layout := Some s3c_nand_oob_mlc_64\<rparr>\<rparr>, s)
         else if cfg_mini6410 env then (let (c, s) = s3c_nand_mlc_probe env c s in (Mini6410_nand_part_mlc, c, s))
         else (parts, c, s))"

definition probe_small :: "scan_chip \<Rightarrow> scan_chip" where
  "probe_small c = c\<lparr>sc_type := S3C_NAND_TYPE_SLC, sc_cellinfo := 0,
     sc_ecc := (sc_ecc c)\<lparr>ec_size := 512, ec_bytes := 4, ec_layout := Some s3c_nand_oob_16\<rparr>\<rparr>"

text \<open>
  The driver's own identification; no result when the chip is unknown.  The entry of the table is kept from one chip to the next:
  \<open>type\<close> is the one of the chip before.
\<close>

definition probe_hwecc ::
  "'d probe_env \<Rightarrow> 'd machine \<Rightarrow> nand_flash_dev option \<Rightarrow> nand_parts \<Rightarrow> scan_chip \<Rightarrow> 'd \<Rightarrow>
   (nand_flash_dev \<times> nand_parts \<times> scan_chip) option \<times> 'd" where
  "probe_hwecc env k type parts c s =
     (let c = c\<lparr>sc_ecc := (sc_ecc c)\<lparr>ec_mode := NAND_ECC_HW, ec_hwctl := Some S3c_nand_enable_hwecc,
            ec_calculate := Some S3c_nand_calculate_ecc, ec_correct := Some S3c_nand_correct_data\<rparr>\<rparr>;
          s = probe_readid k s;
          (_, s) = readb k S3C_NFDATA s;
          (tmp, s) = readb k S3C_NFDATA s;
          type = (if find_flash_dev tmp = None then type else find_flash_dev tmp)
      in case type of
           None \<Rightarrow> (None, s)
         | Some t \<Rightarrow>
             (let (cell, s) = readb k S3C_NFDATA s;
                  c = c\<lparr>sc_cellinfo := cell\<rparr>;
                  (tmp, s) = readb k S3C_NFDATA s
              in if fd_pagesize t = 0 then
                   (if drop_bit 2 cell AND 0x3 = 0
                    then (Some (t, parts, c\<lparr>sc_type := S3C_NAND_TYPE_SLC, sc_ecc := probe_slc_large tmp (sc_ecc c)\<rparr>), s)
                    else (let (parts, c, s) = probe_mlc env t tmp parts c s in (Some (t, parts, c), s)))
                 else (Some (t, parts, probe_small c), s)))"

text \<open>The loop over the chips of the board.  A failure ends it with the value the function returns.\<close>

fun probe_chips ::
  "'d probe_env \<Rightarrow> 'd machine \<Rightarrow> nat \<Rightarrow> nand_flash_dev option \<Rightarrow> nand_parts \<Rightarrow> scan_chip \<Rightarrow> 'd probe_state \<Rightarrow>
   (s32 \<times> 'd probe_state) option" where
  "probe_chips env k 0 type parts c ps = Some (0, ps\<lparr>ps_chip := Some c\<rparr>)"
| "probe_chips env k (Suc n) type parts c ps =
     (let (c, s) = probe_fields env c (ps_dev ps);
          (r, s) = (if cfg_hwecc env then map_prod (map_option (\<lambda>(t, parts, c). (Some t, parts, c))) id (probe_hwecc env k type parts c s)
                    else (Some (type, parts, c\<lparr>sc_ecc := (sc_ecc c)\<lparr>ec_mode := NAND_ECC_SOFT\<rparr>\<rparr>), s))
      in case r of
           None \<Rightarrow> Some (0, ps\<lparr>ps_dev := s, ps_chip := None\<rparr>)
         | Some (type, parts, c) \<Rightarrow> do {
             (ret, c, s) \<leftarrow> nand_scan k (env_default_bbt env) (buffer_memory env) False (is_module env) 1 c s;
             if ret \<noteq> 0 then Some (- ENXIO, ps\<lparr>ps_dev := s, ps_chip := None\<rparr>)
             else probe_chips env k n type parts c (ps\<lparr>ps_dev := s, ps_parts := ps_parts ps @ [parts]\<rparr>) })"

text \<open>
  The error codes of the first three failures go to \<open>err\<close>, but the function returns \<open>ret\<close>, which is still 0.  Without data of
  the board \<open>sets\<close> is a null pointer.
\<close>

definition s3c_nand_probe ::
  "'d probe_env \<Rightarrow> 'd machine \<Rightarrow> s3c_cpu_type \<Rightarrow> 'd probe_state \<Rightarrow> (s32 \<times> 'd probe_state) option" where
  "s3c_nand_probe env k cpu ps =
     (if \<not> clk_found env then Some (0, ps)
      else
        (let ps = ps\<lparr>ps_clk_enabled := True\<rparr>
         in if \<not> area_free env then Some (0, ps)
            else
              (let ps = ps\<lparr>ps_area_taken := True\<rparr>
               in if \<not> regs_mapped env then Some (0, ps)
                  else
                    (case plat_nr_chips env of
                       None \<Rightarrow> None
                     | Some n \<Rightarrow>
                         if \<not> mtd_memory env then Some (- ENOMEM, ps)
                         else probe_chips env k n None Platform_parts (zero_chip cpu) ps))))"

definition s3c6410_nand_probe :: "'d probe_env \<Rightarrow> 'd machine \<Rightarrow> 'd probe_state \<Rightarrow> (s32 \<times> 'd probe_state) option" where
  "s3c6410_nand_probe env k ps = s3c_nand_probe env k TYPE_S3C6410 ps"

definition s3c2450_nand_probe :: "'d probe_env \<Rightarrow> 'd machine \<Rightarrow> 'd probe_state \<Rightarrow> (s32 \<times> 'd probe_state) option" where
  "s3c2450_nand_probe env k ps = s3c_nand_probe env k TYPE_S3C2450 ps"

definition s3c6400_nand_probe :: "'d probe_env \<Rightarrow> 'd machine \<Rightarrow> 'd probe_state \<Rightarrow> (s32 \<times> 'd probe_state) option" where
  "s3c6400_nand_probe env k ps = s3c_nand_probe env k TYPE_S3C6400 ps"

definition s5pc100_nand_probe :: "'d probe_env \<Rightarrow> 'd machine \<Rightarrow> 'd probe_state \<Rightarrow> (s32 \<times> 'd probe_state) option" where
  "s5pc100_nand_probe env k ps = s3c_nand_probe env k TYPE_S5PC100 ps"

text \<open>
  Power management and removal.  \<open>remove\<close> clears the driver data, which the probe never sets, and nothing else: the clock stays on, the
  register area taken and the device registered.
\<close>

definition s3c_nand_suspend :: "'d probe_state \<Rightarrow> s32 \<times> 'd probe_state" where
  "s3c_nand_suspend ps = (0, ps\<lparr>ps_clk_enabled := False\<rparr>)"

definition s3c_nand_resume :: "'d probe_state \<Rightarrow> s32 \<times> 'd probe_state" where
  "s3c_nand_resume ps = (0, ps\<lparr>ps_clk_enabled := True\<rparr>)"

definition s3c_nand_remove :: "'d probe_state \<Rightarrow> s32 \<times> 'd probe_state" where
  "s3c_nand_remove ps = (0, ps)"

section \<open>The chip after the scan\<close>

text \<open>The scanned chip as the functions of \<open>nand_base.c\<close> use it; \<open>s3c_slc_chip\<close> adds the functions behind the pointers.\<close>

definition chip_of :: "scan_chip \<Rightarrow> 'd chip_base" where
  "chip_of c =
     \<lparr>writesize = unat (sc_writesize c), oobsize = unat (sc_oobsize c), chipsize = unat (sc_chipsize c),
      buswidth16 = (sc_options c AND NAND_BUSWIDTH_16 \<noteq> 0), has_dev_ready = True, cpu_type = sc_cpu c, nand_type = sc_type c,
      ecc_size = ec_size (sc_ecc c), ecc_bytes = ec_bytes (sc_ecc c), ecc_steps = ec_steps (sc_ecc c), ecc_total = ec_total (sc_ecc c),
      ecc_layout = the (ec_layout (sc_ecc c)), mtd_size = sc_mtd_size c, erasesize = sc_erasesize c, oobavail = sc_oobavail c,
      options = sc_options c, page_shift = nat (sc_page_shift c), phys_erase_shift = nat (sc_phys_erase_shift c),
      chip_shift = nat (sc_chip_shift c), pagemask = sc_pagemask c, subpagesize = sc_subpagesize c, badblockpos = sc_badblockpos c,
      badblockbits = sc_badblockbits c, ecc_modus = ec_mode (sc_ecc c), p_select_chip = \<lambda>_ _. None, p_read_byte = \<lambda>n. (0, n),
      p_read_word = \<lambda>n. (0, n), p_cmdfunc = \<lambda>_ _ _ _. None, p_waitfunc = \<lambda>_ _. None\<rparr>"

text \<open>The pointers for which \<open>s3c_slc_chip\<close> has the functions.\<close>

definition slc_functions :: "scan_chip \<Rightarrow> bool" where
  "slc_functions c \<longleftrightarrow>
     (let f = sc_fns c; e = sc_ecc c
      in f_cmdfunc f = Some Nand_command_lp \<and> f_waitfunc f = Some Nand_wait \<and> f_select_chip f = Some Nand_select_chip \<and>
         f_read_byte f = Some Nand_read_byte \<and> f_block_bad f = Some Nand_block_bad \<and> f_write_buf f = Some Nand_write_buf \<and>
         f_read_buf f = Some Nand_read_buf \<and> f_write_page f = Some Nand_write_page \<and> f_erase_cmd f = Some Single_erase_cmd \<and>
         f_block_markbad f = Some Nand_default_block_markbad \<and>
         ec_hwctl e = Some S3c_nand_enable_hwecc \<and> ec_calculate e = Some S3c_nand_calculate_ecc \<and>
         ec_correct e = Some S3c_nand_correct_data \<and> ec_read_page e = Some S3c_nand_read_page_1bit \<and>
         ec_write_page e = Some S3c_nand_write_page_1bit \<and> ec_read_oob e = Some S3c_nand_read_oob_1bit \<and>
         ec_write_oob e = Some S3c_nand_write_oob_1bit \<and> ec_read_page_raw e = Some Nand_read_page_raw \<and>
         ec_write_page_raw e = Some Nand_write_page_raw)"

section \<open>Reading the identification\<close>

text \<open>The chip \<open>f\<close> answers with its identification from byte \<open>i\<close> on, for address \<open>a\<close>; otherwise it is as \<open>f0\<close>.\<close>

definition ident_at :: "u8 \<Rightarrow> nat \<Rightarrow> flash \<Rightarrow> flash \<Rightarrow> bool" where
  "ident_at a i f0 f \<longleftrightarrow> fcmd f = 0x90 \<and> faddr f \<noteq> [] \<and> hd (faddr f) = a \<and> fcol f = i \<and> cells f = cells f0 \<and> fid f = fid f0 \<and>
     preg f = preg f0"

lemma ident_at_cong: "cells f = cells g \<Longrightarrow> fid f = fid g \<Longrightarrow> preg f = preg g \<Longrightarrow> ident_at a i f = ident_at a i g"
  by (simp add: ident_at_def fun_eq_iff)

lemma ce_fid [simp]: "fid (ce f) = fid f"
  by (simp add: ce_def)

lemma ctrl_forms: "NAND_CTRL_CLE OR NAND_CTRL_CHANGE = NAND_NCE OR NAND_CLE OR NAND_CTRL_CHANGE"
  "NAND_CTRL_ALE OR NAND_CTRL_CHANGE = NAND_CTRL_CHANGE OR NAND_NCE OR NAND_ALE"
  by (simp_all add: nand_ctrl_defs)

context nand_device
begin

lemma ident_byte:
  assumes "ident_at a i f0 (fl s)" "ready_at s \<le> clock s"
  shows "\<exists>s'. readb k S3C_NFDATA s = (if a = 0 then fid f0 i else 0, s') \<and> ident_at a (Suc i) f0 (fl s') \<and> ready_at s' \<le> clock s'"
proof -
  obtain x s' where r: "readb k S3C_NFDATA s = (x, s')" by fastforce
  then show ?thesis using data_rd [OF assms(2)] assms by (auto simp: ident_at_def flash_byte_def flash_get_def engine_def)
qed

lemma probe_readid_ident:
  assumes "ready_at s \<le> clock s"
  shows "ident_at 0 0 (fl s) (fl (probe_readid k s))" "ready_at (probe_readid k s) \<le> clock (probe_readid k s)"
proof -
  define s1 where "s1 = s3c_nand_hwcontrol k NAND_CMD_READID (NAND_NCE OR NAND_CLE OR NAND_CTRL_CHANGE) s"
  define s2 where "s2 = s3c_nand_hwcontrol k 0x00 (NAND_CTRL_CHANGE OR NAND_NCE OR NAND_ALE) s1"
  define s3 where "s3 = s3c_nand_hwcontrol k 0x00 (NAND_NCE OR NAND_ALE) s2"
  have s1: "fl s1 = flash_cmd 0x90 (ce (fl s))" "ready_at s1 \<le> clock s1"
    using hw_cmd [OF _ s1_def] assms by (auto simp: busy_cmds_def NAND_CMD_NONE_def NAND_CMD_READID_def)
  have s3: "fl s3 = flash_addr 0 (flash_addr 0 (ce (fl s1)))" "ready_at s3 \<le> clock s3"
    using s1(2) by (simp_all add: s3_def s2_def hw_addr hw_addr_ready NAND_CMD_NONE_def)
  have p: "probe_readid k s = snd (readl k S3C_NFSTAT s3)"
    by (simp add: probe_readid_def s1_def s2_def s3_def s3c_nand_device_ready_def case_prod_beta)
  show "ident_at 0 0 (fl s) (fl (probe_readid k s))"
    by (simp add: p stat_keeps s3 s1 ident_at_def flash_cmd_def flash_addr_def)
  show "ready_at (probe_readid k s) \<le> clock (probe_readid k s)" using s3(2) by (simp add: p stat_keeps)
qed

text \<open>The commands of the scan, in the short form.\<close>

lemma small_reset:
  assumes "has_dev_ready c" "\<not> in_panic k"
  shows "\<exists>s'. nand_command k c NAND_CMD_RESET (- 1) (- 1) s = Some s' \<and> fl s' = flash_cmd 0xff (ce (fl s)) \<and> ready_at s' \<le> clock s'"
proof -
  define s1 where "s1 = s3c_nand_hwcontrol k 0xff (NAND_NCE OR NAND_CLE OR NAND_CTRL_CHANGE) s"
  have s1: "fl s1 = flash_cmd 0xff (ce (fl s))" "ready_at s1 \<le> clock s1 + 2"
    using hw_cmd [OF _ s1_def] by (auto simp: busy_cmds_def NAND_CMD_NONE_def)
  have "nand_command k c NAND_CMD_RESET (- 1) (- 1) s = nand_wait_ready k s1"
    using assms(1) by (simp add: nand_command_def Let_def nand_cmd_defs ctrl_forms s1_def)
  then show ?thesis using nand_wait_ready_ready [OF s1(2) assms(2)] s1(1) by auto
qed

lemma small_readid:
  assumes "has_dev_ready c" "\<not> buswidth16 c" "\<not> in_panic k" "ready_at s \<le> clock s" "a \<noteq> - 1"
  shows "\<exists>s'. nand_command k c NAND_CMD_READID a (- 1) s = Some s' \<and> ident_at (ucast a) 0 (fl s) (fl s') \<and> ready_at s' \<le> clock s'"
proof -
  define s1 where "s1 = s3c_nand_hwcontrol k 0x90 (NAND_NCE OR NAND_CLE OR NAND_CTRL_CHANGE) s"
  define s2 where "s2 = s3c_nand_hwcontrol k a (NAND_CTRL_CHANGE OR NAND_NCE OR NAND_ALE) s1"
  have s1: "fl s1 = flash_cmd 0x90 (ce (fl s))" "ready_at s1 \<le> clock s1"
    using hw_cmd [OF _ s1_def] assms(4) by (auto simp: busy_cmds_def NAND_CMD_NONE_def)
  have s2: "fl s2 = flash_addr (ucast a) (ce (fl s1))" "ready_at s2 \<le> clock s2"
    using s1(2) assms(5) by (simp_all add: s2_def hw_addr hw_addr_ready NAND_CMD_NONE_def)
  have "nand_command k c NAND_CMD_READID a (- 1) s = nand_wait_ready k s2"
    using assms(1,2,5)
    by (simp add: nand_command_def Let_def nand_cmd_defs ctrl_forms s1_def s2_def)
  moreover have "ident_at (ucast a) 0 (fl s) (fl s2)" by (simp add: s2 s1 ident_at_def flash_cmd_def flash_addr_def)
  ultimately show ?thesis using nand_wait_ready_ready [of s2] s2(2) assms(3) by auto
qed

end

definition small_fns :: "scan_chip \<Rightarrow> bool" where
  "small_fns c \<longleftrightarrow> f_cmdfunc (sc_fns c) = Some Nand_command \<and> f_select_chip (sc_fns c) = Some Nand_select_chip \<and>
     f_read_byte (sc_fns c) = Some Nand_read_byte \<and> sc_options c AND NAND_BUSWIDTH_16 = 0"

context nand_device
begin

lemma scan_readid:
  assumes "small_fns c" "\<not> in_panic k" "ready_at s \<le> clock s" "a \<noteq> - 1"
  shows "\<exists>s'. scan_cmdfunc k c NAND_CMD_READID a (- 1) s = Some s' \<and> ident_at (ucast a) 0 (fl s) (fl s') \<and> ready_at s' \<le> clock s'"
  using small_readid [of "scan_geom c" s a] assms by (simp add: scan_cmdfunc_def small_fns_def scan_geom_def)

lemma scan_bytes_ident:
  assumes "small_fns c" "ident_at 0 i f0 (fl s)" "ready_at s \<le> clock s"
  shows "\<exists>s'. scan_read_bytes k c n s = Some (map (fid f0) [i..<i + n], s') \<and> ident_at 0 (i + n) f0 (fl s') \<and> ready_at s' \<le> clock s'"
  using assms(2,3)
proof (induction n arbitrary: i s)
  case (Suc n)
  obtain s1 where s1: "readb k S3C_NFDATA s = (fid f0 i, s1)" "ident_at 0 (Suc i) f0 (fl s1)" "ready_at s1 \<le> clock s1"
    using ident_byte [OF Suc.prems] by auto
  obtain s2 where s2: "scan_read_bytes k c n s1 = Some (map (fid f0) [Suc i..<Suc i + n], s2)" "ident_at 0 (Suc i + n) f0 (fl s2)"
    "ready_at s2 \<le> clock s2"
    using Suc.IH [OF s1(2,3)] by blast
  then show ?case
    using assms(1) s1(1) by (simp add: scan_read_byte_def small_fns_def nand_read_byte_def upt_conv_Cons del: upt_Suc)
qed simp

text \<open>A chip that does not answer at address 0x20 is no ONFI chip.\<close>

lemma onfi_absent:
  assumes "small_fns c" "\<not> in_panic k" "ready_at s \<le> clock s"
  shows "\<exists>s'. nand_flash_detect_onfi k c s = Some (False, c, s') \<and> ident_at 0x20 1 (fl s) (fl s') \<and> ready_at s' \<le> clock s'"
proof -
  obtain s1 where s1: "scan_cmdfunc k c NAND_CMD_READID 0x20 (- 1) s = Some s1" "ident_at 0x20 0 (fl s) (fl s1)" "ready_at s1 \<le> clock s1"
    using scan_readid [OF assms, of "0x20"] by auto
  obtain s2 where s2: "readb k S3C_NFDATA s1 = (0, s2)" "ident_at 0x20 1 (fl s) (fl s2)" "ready_at s2 \<le> clock s2"
    using ident_byte [OF s1(2,3)] by auto
  then show ?thesis
    using assms(1) s1(1) by (simp add: nand_flash_detect_onfi_def scan_read_byte_def small_fns_def nand_read_byte_def)
qed

text \<open>The chip is found in the table, and what follows depends on its identification only.\<close>

lemma flash_type_table:
  assumes "small_fns c" "\<not> in_panic k" "find_flash_dev (fid (fl s) 1) = Some t" "fd_pagesize t = 0"
    and "decode_id (fid (fl s) 0) (map (fid (fl s)) [0..<8]) t (c\<lparr>sc_onfi_version := 0\<rparr>) = (busw, c')"
    and "ident_done (fid (fl s) 0) busw c' = Some r"
  shows "\<exists>s'. nand_get_flash_type k 0 c s = Some (fid (fl s) 0, fid (fl s) 1, r, s') \<and> ident_at 0 8 (fl s) (fl s') \<and>
    ready_at s' \<le> clock s'"
proof -
  define c0 where "c0 = c\<lparr>sc_onfi_version := 0\<rparr>"
  have c0: "small_fns c0" using assms(1) by (simp add: c0_def small_fns_def)
  have two: "scan_read_byte k c s = Some (nand_read_byte k s)" for s using assms(1) by (simp add: scan_read_byte_def small_fns_def)
  obtain s1 where s1: "scan_cmdfunc k c NAND_CMD_RESET (- 1) (- 1) s = Some s1" "fl s1 = flash_cmd 0xff (ce (fl s))" "ready_at s1 \<le> clock s1"
    using small_reset [of "scan_geom c" s] assms(1,2) by (auto simp: scan_cmdfunc_def small_fns_def scan_geom_def)
  have same: "ident_at a i (fl s1) = ident_at a i (fl s)" for a i by (rule ident_at_cong) (simp_all add: s1(2) flash_cmd_def)
  obtain s2 where s2: "scan_cmdfunc k c NAND_CMD_READID 0 (- 1) s1 = Some s2" "ident_at 0 0 (fl s) (fl s2)" "ready_at s2 \<le> clock s2"
    using scan_readid [OF assms(1,2) s1(3), of 0] by (auto simp: same)
  obtain s3 where s3: "readb k S3C_NFDATA s2 = (fid (fl s) 0, s3)" "ident_at 0 1 (fl s) (fl s3)" "ready_at s3 \<le> clock s3"
    using ident_byte [OF s2(2,3)] by auto
  obtain s4 where s4: "readb k S3C_NFDATA s3 = (fid (fl s) 1, s4)" "ident_at 0 2 (fl s) (fl s4)" "ready_at s4 \<le> clock s4"
    using ident_byte [OF s3(2,3)] by (auto simp: numeral_2_eq_2)
  have same4: "ident_at a i (fl s4) = ident_at a i (fl s)" for a i by (rule ident_at_cong) (use s4(2) in \<open>simp_all add: ident_at_def\<close>)
  obtain s5 where s5: "scan_cmdfunc k c NAND_CMD_READID 0 (- 1) s4 = Some s5" "ident_at 0 0 (fl s) (fl s5)" "ready_at s5 \<le> clock s5"
    using scan_readid [OF assms(1,2) s4(3), of 0] by (auto simp: same4)
  obtain s6 where s6: "scan_read_bytes k c 2 s5 = Some ([fid (fl s) 0, fid (fl s) 1], s6)" "ident_at 0 2 (fl s) (fl s6)" "ready_at s6 \<le> clock s6"
    using scan_bytes_ident [OF assms(1) s5(2,3), of 2] by (auto simp: upt_rec numeral_2_eq_2)
  obtain s7 where s7: "nand_flash_detect_onfi k c0 s6 = Some (False, c0, s7)" "ident_at 0x20 1 (fl s6) (fl s7)" "ready_at s7 \<le> clock s7"
    using onfi_absent [OF c0 assms(2) s6(3)] by auto
  have same7: "ident_at a i (fl s7) = ident_at a i (fl s)" for a i
    by (rule ident_at_cong) (use s7(2) s6(2) in \<open>simp_all add: ident_at_def\<close>)
  obtain s8 where s8: "scan_cmdfunc k c0 NAND_CMD_READID 0 (- 1) s7 = Some s8" "ident_at 0 0 (fl s) (fl s8)" "ready_at s8 \<le> clock s8"
    using scan_readid [OF c0 assms(2) s7(3), of 0] by (auto simp: same7)
  obtain s9 where s9: "scan_read_bytes k c0 8 s8 = Some (map (fid (fl s)) [0..<8], s9)" "ident_at 0 8 (fl s) (fl s9)" "ready_at s9 \<le> clock s9"
    using scan_bytes_ident [OF c0 s8(2,3), of 8] by auto
  have sel: "scan_select k c 0 s = Some s" using assms(1) by (simp add: scan_select_def small_fns_def nand_select_chip_def)
  have "nand_get_flash_type k 0 c s = Some (fid (fl s) 0, fid (fl s) 1, r, s9)"
    using s1(1) s2(1) s3(1) s4(1) s5(1) s6(1) s7(1) s8(1) s9(1) sel assms(3-6)
    by (simp add: nand_get_flash_type_def two nand_read_byte_def c0_def [symmetric])
  then show ?thesis using s9 by blast
qed

end

section \<open>What the bytes mean\<close>

lemma decode_common_bits: "decode_common (ucast x) = decode_common (ucast (x AND 0x77 :: u8))"
proof -
  have x: "(ucast (x AND 0x77) :: u32) = ucast x AND 0x77" by (simp add: unsigned_and_eq)
  show ?thesis unfolding x decode_common_def Let_def by (simp add: and.assoc drop_bit_and)
qed

lemma decode_pages: "x AND 0x77 = 0x15 \<Longrightarrow> decode_common (ucast x) = (2048, 64, 0x20000, 0)"
  "x AND 0x77 = 0x26 \<Longrightarrow> decode_common (ucast x) = (4096, 128, 0x40000, 0)"
  for x :: u8
  by (simp_all add: decode_common_bits [of x], simp_all add: decode_common_def Let_def)

lemma ffs_power: "n < 32 \<Longrightarrow> ffs (2 ^ n) = n + 1"
proof -
  assume "n < 32"
  then have "find (bit (2 ^ n :: u32)) [0..<32] = Some n"
    unfolding find_Some_iff by (intro exI [of _ n]) (simp add: bit_exp_iff)
  then show ?thesis by (simp add: ffs_def)
qed

lemmas ffs_pages = ffs_power [of 11, simplified] ffs_power [of 12, simplified] ffs_power [of 17, simplified] ffs_power [of 18, simplified]

lemma sizes_below:
  assumes "8 \<le> m" "m \<le> 15"
  shows "(push_bit 20 (ucast (2 ^ m :: u32)) :: u64) = 2 ^ (m + 20)" (is ?a) "unat (2 ^ (m + 20) :: u64) = 2 ^ (m + 20)" (is ?b)
    "ucast (drop_bit 11 (2 ^ (m + 20) :: u64) - 1) = (2 ^ (m + 9) - 1 :: u32)" (is ?c) "chip_shift_of (2 ^ (m + 20)) = int m + 20" (is ?d)
proof -
  have m: "m = 8 \<or> m = 9 \<or> m = 10 \<or> m = 11 \<or> m = 12 \<or> m = 13 \<or> m = 14 \<or> m = 15" using assms by linarith
  show ?a ?b ?c using m by (elim disjE, simp_all)+
  show ?d
    using m ffs_power [of 28] ffs_power [of 29] ffs_power [of 30] ffs_power [of 31] ffs_power [of 0] ffs_power [of 1] ffs_power [of 2]
      ffs_power [of 3]
    by (elim disjE) (simp_all add: chip_shift_of_def)
qed

section \<open>Probing an SLC chip\<close>

text \<open>The chip structure when the driver has read the identification of a large-page SLC chip.\<close>

definition slc_ecc :: nand_ecc_ctrl where
  "slc_ecc = no_ecc\<lparr>ec_mode := NAND_ECC_HW, ec_hwctl := Some S3c_nand_enable_hwecc, ec_calculate := Some S3c_nand_calculate_ecc,
     ec_correct := Some S3c_nand_correct_data, ec_size := 512, ec_bytes := 4,
     ec_read_page := Some S3c_nand_read_page_1bit, ec_write_page := Some S3c_nand_write_page_1bit,
     ec_read_oob := Some S3c_nand_read_oob_1bit, ec_write_oob := Some S3c_nand_write_oob_1bit, ec_layout := Some s3c_nand_oob_64\<rparr>"

definition slc_probed :: "s3c_cpu_type \<Rightarrow> u8 \<Rightarrow> u32 \<Rightarrow> scan_chip" where
  "slc_probed cpu cell opts = (zero_chip cpu)\<lparr>sc_fns := no_fns\<lparr>f_scan_bbt := Some S3c_nand_scan_bbt\<rparr>, sc_options := opts,
     sc_badblockbits := 8, sc_cellinfo := cell, sc_type := S3C_NAND_TYPE_SLC, sc_ecc := slc_ecc\<rparr>"

text \<open>And after the two phases of the scan.\<close>

definition slc_found :: "scan_chip \<Rightarrow> u8 \<Rightarrow> nat \<Rightarrow> u32 \<times> u32 \<times> u32 \<Rightarrow> u32 \<Rightarrow> scan_chip" where
  "slc_found c cell m sz opts = (case sz of (ws, oob, es) \<Rightarrow>
     c\<lparr>sc_onfi_version := 0, sc_chipsize := 2 ^ (m + 20), sc_cellinfo := cell, sc_writesize := ws, sc_oobsize := oob, sc_erasesize := es,
       sc_options := opts, sc_page_shift := int (ffs ws) - 1, sc_pagemask := ucast (drop_bit (ffs ws - 1) (2 ^ (m + 20) :: u64) - 1),
       sc_phys_erase_shift := int (ffs es) - 1, sc_chip_shift := int m + 20, sc_badblockpos := 0,
       sc_fns := (sc_fns c)\<lparr>f_erase_cmd := Some Single_erase_cmd, f_cmdfunc := Some Nand_command_lp\<rparr>\<rparr>)"

definition slc_finished :: "scan_chip \<Rightarrow> scan_chip" where
  "slc_finished c = (let steps = unat (sc_writesize c) div 512
     in c\<lparr>sc_fns := (sc_fns c)\<lparr>f_write_page := Some Nand_write_page\<rparr>,
       sc_ecc := slc_ecc\<lparr>ec_read_page_raw := Some Nand_read_page_raw, ec_write_page_raw := Some Nand_write_page_raw, ec_steps := steps,
         ec_total := steps * 4\<rparr>, sc_oobavail := 38, sc_subpage_sft := 2, sc_subpagesize := drop_bit 2 (sc_writesize c)\<rparr>)"

lemma slc_large: "(512 :: u32) < push_bit (unat (tmp AND 3 :: u8)) 1024"
proof -
  have "tmp AND 3 = take_bit 2 tmp" by (simp add: take_bit_eq_mask mask_eq_exp_minus_1)
  then have "unat (tmp AND 3) < 4" by (simp add: unsigned_take_bit_eq take_bit_nat_less_exp [of 2 "unat tmp", simplified])
  then have "unat (tmp AND 3) = 0 \<or> unat (tmp AND 3) = 1 \<or> unat (tmp AND 3) = 2 \<or> unat (tmp AND 3) = 3" by linarith
  then show ?thesis by (elim disjE) simp_all
qed

lemma cell_slc: "x AND 0x0C = 0 \<Longrightarrow> drop_bit 2 x AND 3 = (0 :: u8)"
  using drop_bit_and [of 2 x "0x0C"] by simp

lemma slc_decoded:
  assumes "fd_pagesize t = 0" "fd_options t = LP_OPTIONS" "d ! 2 AND 0x0C = 0" "sc_init_size c = None"
    and "decode_common (ucast (d ! 3)) = (ws, oob, es, 0)" 
  shows "decode_id maf d t c = (0, c\<lparr>sc_chipsize := push_bit 20 (ucast (fd_chipsize t)), sc_cellinfo := d ! 2,
    sc_writesize := ws, sc_oobsize := oob, sc_erasesize := es,
    sc_options := (let opts = (sc_options c AND NOT NAND_CHIPOPTIONS_MSK) OR (LP_OPTIONS AND NAND_CHIPOPTIONS_MSK)
      in if maf = NAND_MFR_SAMSUNG then opts else opts AND NOT NAND_SAMSUNG_LP_OPTIONS)\<rparr>)"
  using assms by (simp add: decode_id_def samsung_new_def NAND_CI_CELLTYPE_MSK_def set_sizes_def Let_def)

lemma slc_options:
  assumes "opts \<in> {0, NAND_CACHEPRG}"
  shows "((let opts = (opts AND NOT NAND_CHIPOPTIONS_MSK) OR (LP_OPTIONS AND NAND_CHIPOPTIONS_MSK)
      in if maf = NAND_MFR_SAMSUNG then opts else opts AND NOT NAND_SAMSUNG_LP_OPTIONS) OR NAND_NO_AUTOINCR) =
    (if maf = NAND_MFR_SAMSUNG then 0x11d else 0x101)"
  using assms by (auto simp: ident_option_defs)

lemma mark_slc:
  assumes "sc_cellinfo c AND 0x0C = 0" "512 < sc_writesize c" "maf \<noteq> NAND_MFR_STMICRO"
  shows "\<exists>x \<in> {0, 0x4000}. mark_options maf 0 c = c\<lparr>sc_badblockpos := 0, sc_options := sc_options c OR x\<rparr> \<and>
    (maf = NAND_MFR_SAMSUNG \<longrightarrow> x = 0x4000)"
proof (cases "maf \<in> {NAND_MFR_SAMSUNG, NAND_MFR_HYNIX, NAND_MFR_TOSHIBA, NAND_MFR_AMD} \<or> sc_writesize c = 2048 \<and> maf = NAND_MFR_MICRON")
  case True
  then have "mark_options maf 0 c = c\<lparr>sc_badblockpos := 0, sc_options := sc_options c OR 0x4000\<rparr>"
    using assms by (simp add: mark_options_def NAND_CI_CELLTYPE_MSK_def NAND_BBT_SCAN2NDPAGE_def NAND_LARGE_BADBLOCK_POS_def)
  then show ?thesis by simp
next
  case False
  then have "mark_options maf 0 c = c\<lparr>sc_badblockpos := 0, sc_options := sc_options c OR 0\<rparr>"
    using assms by (auto simp: mark_options_def NAND_CI_CELLTYPE_MSK_def NAND_LARGE_BADBLOCK_POS_def Let_def)
  then show ?thesis using False by auto
qed

lemma ident_done_slc:
  assumes "sc_cellinfo c AND 0x0C = 0" "512 < sc_writesize c" "maf \<noteq> NAND_MFR_STMICRO" "sc_pagemask c = 0" "sc_chip_shift c = 0"
    and "f_cmdfunc (sc_fns c) = Some Nand_command" "sc_options c OR NAND_NO_AUTOINCR = (if maf = NAND_MFR_SAMSUNG then 0x11d else 0x101)"
    and "sc_chipsize c = push_bit 20 (ucast (2 ^ m :: u32))" "8 \<le> m" "m \<le> 15"
  shows "\<exists>opts \<in> {0x411d, 0x101, 0x4101}. ident_done maf 0 c = Some (Inr (c\<lparr>sc_options := opts, sc_page_shift := int (ffs (sc_writesize c)) - 1,
    sc_pagemask := ucast (drop_bit (ffs (sc_writesize c) - 1) (2 ^ (m + 20) :: u64) - 1), sc_phys_erase_shift := int (ffs (sc_erasesize c)) - 1,
    sc_chip_shift := int m + 20, sc_badblockpos := 0,
    sc_fns := (sc_fns c)\<lparr>f_erase_cmd := Some Single_erase_cmd, f_cmdfunc := Some Nand_command_lp\<rparr>\<rparr>))"
proof -
  note sizes = sizes_below [OF assms(9,10)]
  have n: "nat (int x - 1) = x - 1" for x by linarith
  define opts where "opts = (if maf = NAND_MFR_SAMSUNG then 0x11d else 0x101 :: u32)"
  define c1 where "c1 = c\<lparr>sc_options := opts, sc_page_shift := int (ffs (sc_writesize c)) - 1,
    sc_pagemask := ucast (drop_bit (ffs (sc_writesize c) - 1) (2 ^ (m + 20) :: u64) - 1), sc_phys_erase_shift := int (ffs (sc_erasesize c)) - 1,
    sc_chip_shift := int m + 20\<rparr>"
  have shifts: "ident_shifts (c\<lparr>sc_options := opts\<rparr>) = c1"
    using sizes(1,4) assms(4,5,8) by (simp add: ident_shifts_def Let_def c1_def n)
  have "sc_cellinfo c1 AND 0x0C = 0" "512 < sc_writesize c1" using assms(1,2) by (simp_all add: c1_def)
  then obtain x where x: "x \<in> {0, 0x4000}" "mark_options maf 0 c1 = c1\<lparr>sc_badblockpos := 0, sc_options := sc_options c1 OR x\<rparr>"
    "maf = NAND_MFR_SAMSUNG \<longrightarrow> x = 0x4000"
    using mark_slc assms(3) by blast
  define opts' where "opts' = opts OR x"
  have opts': "opts' \<in> {0x411d, 0x101, 0x4101}" "opts' AND NAND_4PAGE_ARRAY = 0" "opts AND NAND_BUSWIDTH_16 = 0"
    using x(1,3) by (auto simp: opts'_def opts_def NAND_4PAGE_ARRAY_def NAND_BUSWIDTH_16_def)
  have "ident_cmds (c1\<lparr>sc_badblockpos := 0, sc_options := opts'\<rparr>) = c1\<lparr>sc_badblockpos := 0, sc_options := opts',
    sc_fns := (sc_fns c)\<lparr>f_erase_cmd := Some Single_erase_cmd, f_cmdfunc := Some Nand_command_lp\<rparr>\<rparr>"
    using opts'(2) assms(2,6) by (simp add: ident_cmds_def c1_def)
  moreover have "sc_options c OR NAND_NO_AUTOINCR = opts" using assms(7) by (simp add: opts_def)
  moreover have "sc_writesize c \<noteq> 0" using assms(2) by auto
  ultimately have "ident_done maf 0 c = Some (Inr (c1\<lparr>sc_badblockpos := 0, sc_options := opts',
    sc_fns := (sc_fns c)\<lparr>f_erase_cmd := Some Single_erase_cmd, f_cmdfunc := Some Nand_command_lp\<rparr>\<rparr>))"
    using opts'(3) by (simp add: ident_done_def shifts x(2)) (simp add: c1_def opts'_def)
  then show ?thesis using opts'(1) by (auto simp: c1_def)
qed

lemma slc_tail:
  assumes "sc_ecc c = slc_ecc" "f_select_chip (sc_fns c) = Some Nand_select_chip" "f_scan_bbt (sc_fns c) = Some S3c_nand_scan_bbt"
    and "f_write_page (sc_fns c) = None" "sc_options c \<in> {0x411d, 0x101, 0x4101}" "sc_cellinfo c AND 0x0C = 0"
    and "sc_writesize c \<in> {2048, 4096}"
  shows "nand_scan_tail k bbt True c s = Some (0, slc_finished c, s3c_nand_hwcontrol k NAND_CMD_NONE (0 OR NAND_CTRL_CHANGE) s)"
proof -
  have o: "sc_options c AND NAND_NO_SUBPAGE_WRITE = 0" "sc_options c AND NAND_SKIP_BBTSCAN = 0"
    using assms(5) by (auto simp: NAND_NO_SUBPAGE_WRITE_def NAND_SKIP_BBTSCAN_def)
  have w: "unat (sc_writesize c) div 512 \<in> {4, 8}" "512 \<le> unat (sc_writesize c)" "unat (sc_writesize c) div 512 * 512 = unat (sc_writesize c)"
    using assms(7) by auto
  have l: "layout_oobavail s3c_nand_oob_64 = 38" by (simp add: layout_oobavail_def s3c_nand_oob_64_def)
  define e where "e = slc_ecc\<lparr>ec_read_page_raw := Some Nand_read_page_raw, ec_write_page_raw := Some Nand_write_page_raw\<rparr>"
  have e: "slc_ecc\<lparr>ec_layout := Some s3c_nand_oob_64\<rparr> = slc_ecc" "ec_layout slc_ecc = Some s3c_nand_oob_64" "ec_size e = 512" "ec_bytes e = 4"
    "ecc_functions (unat (sc_writesize c)) slc_ecc = Some e"
    using w(2) by (simp_all add: e_def slc_ecc_def no_ecc_def ecc_functions_def case_hw_def case_syndrome_def no_ecc_fns_def dflt_def)
  have steps: "ecc_steps_of (unat (sc_writesize c)) e = Some (e\<lparr>ec_steps := unat (sc_writesize c) div 512, ec_total := unat (sc_writesize c) div 512 * 4\<rparr>)"
    using w(3) e by (simp add: ecc_steps_of_def)
  have sft: "subpage_sft_of c' (unat (sc_writesize c) div 512) = 2" if "sc_options c' = sc_options c" "sc_cellinfo c' = sc_cellinfo c" for c'
    using that o(1) assms(6) w(1) by (auto simp: subpage_sft_of_def NAND_CI_CELLTYPE_MSK_def)
  show ?thesis
    using assms(1-4) o(2) by (simp add: nand_scan_tail_def e steps sft l dflt_def scan_select_def nand_select_chip_def slc_finished_def Let_def e_def [symmetric])
qed

text \<open>The whole scan; \<open>slc_result\<close> is the chip it fills in.\<close>

definition slc_result :: "s3c_cpu_type \<Rightarrow> u8 \<Rightarrow> u32 \<Rightarrow> nat \<Rightarrow> u32 \<times> u32 \<times> u32 \<Rightarrow> u32 \<Rightarrow> scan_chip" where
  "slc_result cpu cell opts0 m sz opts =
     slc_finished ((slc_found (nand_set_defaults 0 (slc_probed cpu cell opts0)) cell m sz opts)\<lparr>sc_numchips := 1, sc_mtd_size := 2 ^ (m + 20)\<rparr>)"

definition page_sizes :: "(u32 \<times> u32 \<times> u32) set" where
  "page_sizes = {(2048, 64, 0x20000), (4096, 128, 0x40000)}"

text \<open>A chip of the table with an 8-bit bus and \<open>2 ^ m\<close> MiB, by its identification.\<close>

definition slc_id :: "(nat \<Rightarrow> u8) \<Rightarrow> nat \<Rightarrow> u32 \<times> u32 \<times> u32 \<Rightarrow> bool" where
  "slc_id ident m sz \<longleftrightarrow>
     (case find_flash_dev (ident 1) of
        None \<Rightarrow> False
      | Some t \<Rightarrow> fd_pagesize t = 0 \<and> fd_options t = LP_OPTIONS \<and> fd_chipsize t = 2 ^ m) \<and> 8 \<le> m \<and> m \<le> 15 \<and>
     ident 0 \<noteq> NAND_MFR_STMICRO \<and> ident 2 AND 0x0C = 0 \<and>
     (case sz of (ws, oob, es) \<Rightarrow> decode_common (ucast (ident 3)) = (ws, oob, es, 0)) \<and> sz \<in> page_sizes"

lemma slc_ident_found:
  assumes "slc_id ident m sz" "opts0 \<in> {0, NAND_CACHEPRG}"
  shows "\<exists>t. find_flash_dev (ident 1) = Some t \<and> fd_pagesize t = 0 \<and> (\<exists>opts \<in> {0x411d, 0x101, 0x4101}. \<exists>c1.
    decode_id (ident 0) (map ident [0..<8]) t ((nand_set_defaults 0 (slc_probed cpu cell opts0))\<lparr>sc_onfi_version := 0\<rparr>) = (0, c1) \<and>
    ident_done (ident 0) 0 c1 = Some (Inr (slc_found (nand_set_defaults 0 (slc_probed cpu cell opts0)) (ident 2) m sz opts)))"
proof -
  obtain ws oob es where sz: "sz = (ws, oob, es)" by (cases sz)
  obtain t where t: "find_flash_dev (ident 1) = Some t" "fd_pagesize t = 0" "fd_options t = LP_OPTIONS" "fd_chipsize t = 2 ^ m"
    using assms(1) by (auto simp: slc_id_def split: option.splits)
  define c where "c = nand_set_defaults 0 (slc_probed cpu cell opts0)"
  have c: "sc_init_size c = None" "sc_options c = opts0" "sc_pagemask c = 0" "sc_chip_shift c = 0" "f_cmdfunc (sc_fns c) = Some Nand_command"
    by (simp_all add: c_def nand_set_defaults_def slc_probed_def zero_chip_def no_fns_def dflt_def)
  have l: "map ident [0..<8] ! 2 = ident 2" "map ident [0..<8] ! 3 = ident 3" by (simp_all add: numeral_eq_Suc)
  have m: "8 \<le> m" "m \<le> 15" "ident 0 \<noteq> NAND_MFR_STMICRO" "map ident [0..<8] ! 2 AND 0x0C = 0" "512 < ws"
      "decode_common (ucast (map ident [0..<8] ! 3)) = (ws, oob, es, 0)"
    using assms(1) unfolding l by (auto simp: slc_id_def sz page_sizes_def)
  define c1 where "c1 = snd (decode_id (ident 0) (map ident [0..<8]) t (c\<lparr>sc_onfi_version := 0\<rparr>))"
  have d: "decode_id (ident 0) (map ident [0..<8]) t (c\<lparr>sc_onfi_version := 0\<rparr>) = (0, c1)"
    "c1 = c\<lparr>sc_onfi_version := 0, sc_chipsize := push_bit 20 (ucast (fd_chipsize t)), sc_cellinfo := ident 2, sc_writesize := ws,
      sc_oobsize := oob, sc_erasesize := es, sc_options := sc_options c1\<rparr>"
    "sc_options c1 OR NAND_NO_AUTOINCR = (if ident 0 = NAND_MFR_SAMSUNG then 0x11d else 0x101)"
    using slc_options [OF assms(2), of "ident 0"]
    by (simp_all add: c1_def slc_decoded [OF t(2,3) m(4) _ m(6)] c l)
  have f: "sc_cellinfo c1 = ident 2" "sc_writesize c1 = ws" "sc_erasesize c1 = es" "sc_pagemask c1 = 0" "sc_chip_shift c1 = 0"
      "sc_fns c1 = sc_fns c" "sc_chipsize c1 = push_bit 20 (ucast (2 ^ m :: u32))"
    by (subst d(2), simp add: c t)+
  have r: "c1\<lparr>sc_options := opts, sc_page_shift := int (ffs ws) - 1, sc_pagemask := ucast (drop_bit (ffs ws - 1) (2 ^ (m + 20) :: u64) - 1),
      sc_phys_erase_shift := int (ffs es) - 1, sc_chip_shift := int m + 20, sc_badblockpos := 0,
      sc_fns := (sc_fns c)\<lparr>f_erase_cmd := Some Single_erase_cmd, f_cmdfunc := Some Nand_command_lp\<rparr>\<rparr> = slc_found c (ident 2) m sz opts" for opts
    by (subst d(2)) (simp add: slc_found_def sz t(4) sizes_below(1) [OF m(1,2)])
  have cell: "ident 2 AND 0x0C = 0" using m(4) unfolding l .
  obtain opts where "opts \<in> {0x411d, 0x101, 0x4101}" "ident_done (ident 0) 0 c1 = Some (Inr (slc_found c (ident 2) m sz opts))"
    using ident_done_slc [of c1 "ident 0" m, unfolded f r, OF cell m(5) m(3) refl refl c(5) d(3) refl m(1,2)] by blast
  then show ?thesis using t d(1) by (auto simp: c_def)
qed

lemma slc_probed_small: "opts0 \<in> {0, NAND_CACHEPRG} \<Longrightarrow> small_fns (nand_set_defaults 0 (slc_probed cpu cell opts0))"
  by (auto simp: small_fns_def nand_set_defaults_def slc_probed_def zero_chip_def no_fns_def dflt_def nand_option_defs)

lemma slc_found_tail:
  assumes "slc_id ident m sz" "opts \<in> {0x411d, 0x101, 0x4101}"
  shows "nand_scan_tail k bbt True ((slc_found (nand_set_defaults 0 (slc_probed cpu (ident 2) opts0)) (ident 2) m sz opts)
      \<lparr>sc_numchips := 1, sc_mtd_size := 2 ^ (m + 20)\<rparr>) s =
    Some (0, slc_result cpu (ident 2) opts0 m sz opts, s3c_nand_hwcontrol k NAND_CMD_NONE (0 OR NAND_CTRL_CHANGE) s)"
  using assms unfolding slc_result_def
  by (intro slc_tail; cases sz)
    (auto simp: slc_id_def slc_found_def nand_set_defaults_def slc_probed_def no_fns_def dflt_def page_sizes_def)

context nand_device
begin

lemma slc_scan:
  assumes "\<not> in_panic k" "slc_id (fid (fl s)) m sz" "opts0 \<in> {0, NAND_CACHEPRG}"
  shows "\<exists>opts \<in> {0x411d, 0x101, 0x4101}. \<exists>s'. nand_scan k bbt True False False 1 (slc_probed cpu (fid (fl s) 2) opts0) s =
    Some (0, slc_result cpu (fid (fl s) 2) opts0 m sz opts, s') \<and> cells (fl s') = cells (fl s) \<and> preg (fl s') = preg (fl s) \<and>
    ready_at s' \<le> clock s'"
proof -
  define c where "c = nand_set_defaults 0 (slc_probed cpu (fid (fl s) 2) opts0)"
  obtain t opts c1 where t: "find_flash_dev (fid (fl s) 1) = Some t" "fd_pagesize t = 0" and opts: "opts \<in> {0x411d, 0x101, 0x4101}"
    and c1: "decode_id (fid (fl s) 0) (map (fid (fl s)) [0..<8]) t (c\<lparr>sc_onfi_version := 0\<rparr>) = (0, c1)"
      "ident_done (fid (fl s) 0) 0 c1 = Some (Inr (slc_found c (fid (fl s) 2) m sz opts))"
    using slc_ident_found [OF assms(2,3)] unfolding c_def by blast
  have small: "small_fns c" using slc_probed_small [OF assms(3)] by (simp add: c_def)
  obtain s1 where s1: "nand_get_flash_type k 0 c s = Some (fid (fl s) 0, fid (fl s) 1, Inr (slc_found c (fid (fl s) 2) m sz opts), s1)"
    "ident_at 0 8 (fl s) (fl s1)" "ready_at s1 \<le> clock s1"
    using flash_type_table [OF small assms(1) t c1] by blast
  define s2 where "s2 = s3c_nand_hwcontrol k NAND_CMD_NONE (0 OR NAND_CTRL_CHANGE) s1"
  have busw: "sc_options (slc_probed cpu (fid (fl s) 2) opts0) AND NAND_BUSWIDTH_16 = 0"
    using assms(3) by (auto simp: slc_probed_def nand_option_defs)
  have cs: "sc_chipsize (slc_found c (fid (fl s) 2) m sz opts) = 2 ^ (m + 20)" by (cases sz) (simp add: slc_found_def)
  have "nand_scan_ident k 1 (slc_probed cpu (fid (fl s) 2) opts0) s =
    Some (0, (slc_found c (fid (fl s) 2) m sz opts)\<lparr>sc_numchips := 1, sc_mtd_size := 2 ^ (m + 20)\<rparr>, s1)"
    by (simp add: nand_scan_ident_def busw c_def [symmetric] s1(1) cs)
  then have "nand_scan k bbt True False False 1 (slc_probed cpu (fid (fl s) 2) opts0) s =
    Some (0, slc_result cpu (fid (fl s) 2) opts0 m sz opts, s2)"
    using slc_found_tail [OF assms(2) opts] by (simp add: nand_scan_def c_def s2_def)
  then show ?thesis using deselect_keeps [OF s2_def] s1(2,3) opts by (auto simp: ident_at_def)
qed

end

lemma slc_result_geom:
  assumes "8 \<le> m" "m \<le> 15" "opts \<in> {0x411d, 0x101, 0x4101}"
  shows "slc_geom (m + 9) (chip_of (slc_result cpu cell opts0 m (2048, 64, 0x20000) opts))"
proof -
  define r where "r = slc_result cpu cell opts0 m (2048, 64, 0x20000) opts"
  note r_defs = r_def slc_result_def slc_finished_def slc_found_def slc_probed_def nand_set_defaults_def zero_chip_def Let_def
  have r: "sc_writesize r = 2048" "sc_oobsize r = 64" "sc_chipsize r = 2 ^ (m + 20)" "sc_options r = opts" "sc_type r = S3C_NAND_TYPE_SLC"
      "sc_mtd_size r = 2 ^ (m + 20)" "sc_page_shift r = 11" "sc_phys_erase_shift r = 17" "sc_chip_shift r = int m + 20"
      "sc_pagemask r = 2 ^ (m + 9) - 1" "sc_subpagesize r = 512" "sc_badblockpos r = 0" "sc_badblockbits r = 8"
    using sizes_below(3) [OF assms(1,2)] by (simp_all add: r_defs ffs_pages)
  have e: "ec_mode (sc_ecc r) = NAND_ECC_HW" "ec_size (sc_ecc r) = 512" "ec_bytes (sc_ecc r) = 4" "ec_steps (sc_ecc r) = 4"
      "ec_total (sc_ecc r) = 16" "ec_layout (sc_ecc r) = Some s3c_nand_oob_64"
    by (simp_all add: r_defs slc_ecc_def)
  have size: "2 ^ 27 < unat (2 ^ (m + 20) :: u64)" "nat (int m + 20) = m + 20"
    using power_strict_increasing [of 27 "m + 20" "2 :: nat"] assms(1) sizes_below(2) [OF assms(1,2)] by simp_all
  have "slc_2k (chip.truncate (chip_of r))"
    using r(1-5) e size(1) assms(3) by (auto simp: slc_2k_def chip_of_def chip.defs nand_option_defs)
  then have "slc_geom (m + 9) (chip_of r)"
    using r e(1) size(2) assms by (auto simp: slc_geom_def chip_of_def has_option_def nand_option_defs)
  then show ?thesis by (simp add: r_def)
qed

lemma slc_result_functions: "slc_functions (slc_result cpu cell opts0 m sz opts)"
  by (cases sz) (simp add: slc_functions_def slc_result_def slc_finished_def slc_found_def slc_probed_def slc_ecc_def no_ecc_def nand_set_defaults_def
      zero_chip_def no_fns_def dflt_def Let_def)

text \<open>
  A kernel with the hardware ECC of the controller, not a module, and enough memory, on a board with one chip.  If the kernel is
  for the Mini6410, the function of the binary file leaves the chip structure and the hardware as they are.
\<close>

definition ordinary_env :: "'d probe_env \<Rightarrow> bool" where
  "ordinary_env env \<longleftrightarrow> cfg_hwecc env \<and> \<not> is_module env \<and> clk_found env \<and> area_free env \<and> regs_mapped env \<and> mtd_memory env \<and>
     buffer_memory env \<and> plat_nr_chips env = Some 1 \<and> (cfg_mini6410 env \<longrightarrow> s3c_nand_ext_finit env = Pair)"

context nand_device
begin

lemma probe_hwecc_slc:
  assumes "slc_id (fid (fl s)) m sz" "ready_at s \<le> clock s"
    and "c0 = (zero_chip cpu)\<lparr>sc_fns := no_fns\<lparr>f_scan_bbt := Some S3c_nand_scan_bbt\<rparr>, sc_options := opts0, sc_badblockbits := 8\<rparr>"
  shows "\<exists>t s'. probe_hwecc env k None Platform_parts c0 s = (Some (t, Platform_parts, slc_probed cpu (fid (fl s) 2) opts0), s') \<and>
    ident_at 0 4 (fl s) (fl s') \<and> ready_at s' \<le> clock s'"
proof -
  obtain t where t: "find_flash_dev (fid (fl s) 1) = Some t" "fd_pagesize t = 0" using assms(1) by (auto simp: slc_id_def split: option.splits)
  have cell: "drop_bit 2 (fid (fl s) 2) AND 3 = 0" using assms(1) cell_slc by (simp add: slc_id_def)
  define s1 where "s1 = probe_readid k s"
  have s1: "ident_at 0 0 (fl s) (fl s1)" "ready_at s1 \<le> clock s1" using probe_readid_ident [OF assms(2)] by (simp_all add: s1_def)
  obtain s2 where s2: "readb k S3C_NFDATA s1 = (fid (fl s) 0, s2)" "ident_at 0 1 (fl s) (fl s2)" "ready_at s2 \<le> clock s2"
    using ident_byte [OF s1] by auto
  obtain s3 where s3: "readb k S3C_NFDATA s2 = (fid (fl s) 1, s3)" "ident_at 0 2 (fl s) (fl s3)" "ready_at s3 \<le> clock s3"
    using ident_byte [OF s2(2,3)] by (auto simp: numeral_2_eq_2)
  obtain s4 where s4: "readb k S3C_NFDATA s3 = (fid (fl s) 2, s4)" "ident_at 0 3 (fl s) (fl s4)" "ready_at s4 \<le> clock s4"
    using ident_byte [OF s3(2,3)] by auto
  obtain s5 where s5: "readb k S3C_NFDATA s4 = (fid (fl s) 3, s5)" "ident_at 0 4 (fl s) (fl s5)" "ready_at s5 \<le> clock s5"
    using ident_byte [OF s4(2,3)] by auto
  have "probe_hwecc env k None Platform_parts c0 s = (Some (t, Platform_parts, slc_probed cpu (fid (fl s) 2) opts0), s5)"
    using t s2(1) s3(1) s4(1) s5(1) cell
    by (simp add: probe_hwecc_def s1_def [symmetric] probe_slc_large_def slc_large)
      (simp add: assms(3) slc_probed_def slc_ecc_def zero_chip_def no_ecc_def)
  then show ?thesis using s5(2,3) by blast
qed

lemma probe_until_scan:
  assumes "ordinary_env (env\<lparr>is_module := False\<rparr>)" "slc_id (fid (fl (ps_dev ps))) m sz" "ready_at (ps_dev ps) \<le> clock (ps_dev ps)"
    and "opts0 = (if cfg_cachedprog env then NAND_CACHEPRG else 0)"
  shows "\<exists>s. s3c_nand_probe env k cpu ps = do {
      (ret, c, s) \<leftarrow> nand_scan k (env_default_bbt env) True False (is_module env) 1 (slc_probed cpu (fid (fl (ps_dev ps)) 2) opts0) s;
      if ret \<noteq> 0 then Some (- ENXIO, ps\<lparr>ps_dev := s, ps_chip := None, ps_clk_enabled := True, ps_area_taken := True\<rparr>)
      else Some (0, ps\<lparr>ps_dev := s, ps_clk_enabled := True, ps_area_taken := True, ps_chip := Some c, ps_parts := ps_parts ps @ [Platform_parts]\<rparr>) } \<and>
    ident_at 0 4 (fl (ps_dev ps)) (fl s) \<and> ready_at s \<le> clock s"
proof -
  define c0 where "c0 = (zero_chip cpu)\<lparr>sc_fns := no_fns\<lparr>f_scan_bbt := Some S3c_nand_scan_bbt\<rparr>, sc_options := opts0, sc_badblockbits := 8\<rparr>"
  have c0: "probe_fields env (zero_chip cpu) (ps_dev ps) = (c0, ps_dev ps)"
    using assms(1,4) by (simp add: probe_fields_def ordinary_env_def c0_def zero_chip_def Let_def)
  obtain t s1 where s1: "probe_hwecc env k None Platform_parts c0 (ps_dev ps) = (Some (t, Platform_parts, slc_probed cpu (fid (fl (ps_dev ps)) 2) opts0), s1)"
    "ident_at 0 4 (fl (ps_dev ps)) (fl s1)" "ready_at s1 \<le> clock s1"
    using probe_hwecc_slc [OF assms(2,3) c0_def] by blast
  show ?thesis
    by (rule exI [of _ s1]) (use assms(1) c0 s1 in \<open>auto simp: s3c_nand_probe_def ordinary_env_def Let_def split: prod.split intro!: Option.bind_cong\<close>)
qed

lemma probe_slc:
  assumes "ordinary_env env" "\<not> in_panic k" "slc_id (fid (fl (ps_dev ps))) m sz" "ready_at (ps_dev ps) \<le> clock (ps_dev ps)"
  shows "\<exists>opts0 \<in> {0, NAND_CACHEPRG}. \<exists>opts \<in> {0x411d, 0x101, 0x4101}. \<exists>s'. s3c_nand_probe env k cpu ps =
    Some (0, ps\<lparr>ps_dev := s', ps_clk_enabled := True, ps_area_taken := True,
      ps_chip := Some (slc_result cpu (fid (fl (ps_dev ps)) 2) opts0 m sz opts), ps_parts := ps_parts ps @ [Platform_parts]\<rparr>) \<and>
    cells (fl s') = cells (fl (ps_dev ps)) \<and> preg (fl s') = preg (fl (ps_dev ps)) \<and> ready_at s' \<le> clock s'"
proof -
  define opts0 where "opts0 = (if cfg_cachedprog env then NAND_CACHEPRG else 0)"
  have env: "is_module env = False" "env\<lparr>is_module := False\<rparr> = env" using assms(1) by (simp_all add: ordinary_env_def)
  note until = probe_until_scan [of env ps m sz opts0 cpu, unfolded env]
  obtain s1 where s1: "s3c_nand_probe env k cpu ps = do {
      (ret, c, s) \<leftarrow> nand_scan k (env_default_bbt env) True False False 1 (slc_probed cpu (fid (fl (ps_dev ps)) 2) opts0) s1;
      if ret \<noteq> 0 then Some (- ENXIO, ps\<lparr>ps_dev := s, ps_chip := None, ps_clk_enabled := True, ps_area_taken := True\<rparr>)
      else Some (0, ps\<lparr>ps_dev := s, ps_clk_enabled := True, ps_area_taken := True, ps_chip := Some c, ps_parts := ps_parts ps @ [Platform_parts]\<rparr>) }"
    "ident_at 0 4 (fl (ps_dev ps)) (fl s1)" "ready_at s1 \<le> clock s1"
    using until [OF assms(1,3,4) opts0_def] by blast
  have id: "fid (fl s1) = fid (fl (ps_dev ps))" using s1(2) by (simp add: ident_at_def)
  have o: "opts0 \<in> {0, NAND_CACHEPRG}" and i: "slc_id (fid (fl s1)) m sz" using assms(3) by (simp_all add: opts0_def id)
  obtain opts s2 where s2: "opts \<in> {0x411d, 0x101, 0x4101}" "nand_scan k (env_default_bbt env) True False False 1 (slc_probed cpu (fid (fl (ps_dev ps)) 2) opts0) s1 =
      Some (0, slc_result cpu (fid (fl (ps_dev ps)) 2) opts0 m sz opts, s2)" "cells (fl s2) = cells (fl s1)" "preg (fl s2) = preg (fl s1)" "ready_at s2 \<le> clock s2"
    using slc_scan [OF assms(2) i o, of "env_default_bbt env" cpu] unfolding id by blast
  then show ?thesis using s1 o by (intro bexI [of _ opts0] bexI [of _ opts] exI [of _ s2]) (simp_all add: ident_at_def)
qed

lemma probe_module_bug:
  assumes "ordinary_env (env\<lparr>is_module := False\<rparr>)" "is_module env" "slc_id (fid (fl (ps_dev ps))) m sz"
    and "ready_at (ps_dev ps) \<le> clock (ps_dev ps)"
  shows "s3c_nand_probe env k cpu ps = None"
  using probe_until_scan [OF assms(1,3,4) refl] assms(2) by (auto simp: nand_scan_def)

end

section \<open>Pages of 4 KiB\<close>

text \<open>
  The codes of a page of 4 KiB take 32 bytes, the layout of the driver has places for 16 of them.  The table of places is filled up
  with zeros, and the spare byte 0 is the marker of a bad block.
\<close>

lemma place_ecc_snoc: "place_ecc pos calc (is @ [i]) oob = do {
     ys \<leftarrow> place_ecc pos calc is oob;
     place_ecc pos calc [i] ys }"
  by (induction "is" arbitrary: oob) (auto split: bind_splits)

lemma get_one: "i < length xs \<Longrightarrow> get_bytes xs i 1 = Some [xs ! i]"
  using Cons_nth_drop_Suc [of i xs] by (simp add: get_bytes_def) (metis take0 take_Suc_Cons)

lemma place_ecc_total:
  assumes "\<forall>i \<in> set is. i < length calc \<and> i < 448" "\<forall>p \<in> set pos. p < length oob" "0 < length oob"
  shows "\<exists>ys. place_ecc pos calc is oob = Some ys \<and> length ys = length oob"
  using assms
proof (induction "is" arbitrary: oob)
  case (Cons i "is")
  define p where "p = (if i < length pos then pos ! i else 0)"
  have p: "eccpos_at pos i = Some p" "p < length oob" "get_bytes calc i 1 = Some [calc ! i]"
    using Cons.prems get_one [of i calc] by (auto simp: eccpos_at_def p_def)
  define zs where "zs = take p oob @ [calc ! i] @ drop (p + 1) oob"
  have zs: "put_bytes oob p [calc ! i] = Some zs" "length zs = length oob" using p(2) by (simp_all add: put_bytes_def zs_def)
  have "\<exists>ys. place_ecc pos calc is zs = Some ys \<and> length ys = length zs" using Cons.prems zs(2) by (intro Cons.IH) auto
  then show ?case using p zs by simp
qed simp

lemma codes_over_marker:
  assumes "ecc_total g = 32" "ecc_layout g = s3c_nand_oob_64" "56 \<le> length (oob_poi n)" "32 \<le> length (ecccalc n)"
  shows "\<exists>n'. place_codes g n = Some n' \<and> oob_poi n' ! 0 = ecccalc n ! 31"
proof -
  have 32: "[0..<32] = [0..<31] @ [31 :: nat]" using upt_Suc_append [of 0 31] by simp
  have p: "\<forall>p \<in> set (eccpos s3c_nand_oob_64). p < length (oob_poi n)" "0 < length (oob_poi n)" using assms(3) by (auto simp: s3c_nand_oob_64_def)
  have i: "\<forall>i \<in> set [0..<31]. i < length (ecccalc n) \<and> i < 448" using assms(4) by auto
  obtain ys where ys: "place_ecc (eccpos s3c_nand_oob_64) (ecccalc n) [0..<31] (oob_poi n) = Some ys" "length ys = length (oob_poi n)"
    using place_ecc_total [OF i p] by blast
  have "eccpos_at (eccpos s3c_nand_oob_64) 31 = Some 0" by (simp add: eccpos_at_def s3c_nand_oob_64_def)
  then have "place_ecc (eccpos s3c_nand_oob_64) (ecccalc n) [31] ys = Some (ecccalc n ! 31 # drop 1 ys)"
    using get_one [of 31 "ecccalc n"] assms(4) ys(2) p(2) by (simp add: put_bytes_def Suc_le_eq)
  then show ?thesis using ys(1) assms(1,2) by (simp add: place_codes_def 32 place_ecc_snoc del: place_ecc.simps upt_Suc)
qed

section \<open>The check sum of ONFI\<close>

lemma xor_cancel: "a XOR b = c XOR b \<longleftrightarrow> a = c" for a b c :: u16
proof
  assume "a XOR b = c XOR b"
  then have "(a XOR b) XOR b = (c XOR b) XOR b" by (rule arg_cong)
  then show "a = c" by (simp add: xor.assoc)
qed simp

lemma crc_step_inj: "inj crc_step"
proof (rule injI)
  fix x y :: u16
  assume eq: "crc_step x = crc_step y"
  have msb: "z AND 0x8000 \<noteq> 0 \<longleftrightarrow> bit z 15" for z :: u16 using and_exp_eq_0_iff_not_bit [of z 15] by simp
  have low: "bit (crc_step z) 0 \<longleftrightarrow> bit z 15" for z by (simp add: crc_step_def msb bit_0 even_xor_iff)
  have "bit x 15 = bit y 15" using low [of x] low [of y] eq by simp
  moreover from this have shifted: "push_bit 1 x = push_bit 1 y"
    using eq by (auto simp: crc_step_def msb xor_cancel split: if_splits)
  moreover have "bit x n = bit y n" if "n < 15" for n
    using arg_cong [OF shifted, of "\<lambda>z. bit z (Suc n)"] that bit_push_bit_iff [of 1 x "Suc n"] bit_push_bit_iff [of 1 y "Suc n"] by simp
  moreover have "n < 15 \<or> n = 15" if "n < LENGTH(16)" for n using that by auto
  ultimately show "x = y" by (intro bit_word_eqI) blast
qed

lemma onfi_crc16_append: "onfi_crc16 c (xs @ ys) = onfi_crc16 (onfi_crc16 c xs) ys"
  by (induction xs arbitrary: c) simp_all

lemma onfi_crc16_inj: "onfi_crc16 c xs = onfi_crc16 d xs \<Longrightarrow> c = d"
proof (induction xs arbitrary: c d)
  case (Cons x xs)
  define f where "f = crc_step ^^ 8"
  have f: "inj f" unfolding f_def by (rule inj_fn [OF crc_step_inj])
  have "f (c XOR push_bit 8 (ucast x)) = f (d XOR push_bit 8 (ucast x))"
    using Cons.prems unfolding onfi_crc16.simps f_def [symmetric] by (rule Cons.IH)
  then show ?case using f by (simp add: inj_eq xor_cancel)
qed simp

lemma le16_bytes: "(ucast (le16_at p i) :: u8) = p ! i" "(ucast (drop_bit 8 (le16_at p i)) :: u8) = p ! (i + 1)"
  by (rule bit_word_eqI; auto simp: le16_at_def bit_simps dest: bit_imp_le_length)+

lemma onfi_crc16_byte:
  assumes "x \<noteq> y"
  shows "onfi_crc16 c (as @ x # bs) \<noteq> onfi_crc16 c (as @ y # bs)"
proof
  define f where "f = crc_step ^^ 8"
  have f: "inj f" unfolding f_def by (rule inj_fn [OF crc_step_inj])
  assume "onfi_crc16 c (as @ x # bs) = onfi_crc16 c (as @ y # bs)"
  then have "f (onfi_crc16 c as XOR push_bit 8 (ucast x)) = f (onfi_crc16 c as XOR push_bit 8 (ucast y))"
    unfolding onfi_crc16_append onfi_crc16.simps f_def [symmetric] by (rule onfi_crc16_inj)
  then have "push_bit 8 (ucast x :: u16) XOR onfi_crc16 c as = push_bit 8 (ucast y :: u16) XOR onfi_crc16 c as"
    using f by (simp add: inj_eq xor.commute)
  then have "(ucast (drop_bit 8 (push_bit 8 (ucast x :: u16))) :: u8) = ucast (drop_bit 8 (push_bit 8 (ucast y :: u16)))"
    by (simp add: xor_cancel)
  moreover have "(ucast (drop_bit 8 (push_bit 8 (ucast z :: u16))) :: u8) = z" for z :: u8
    by (rule bit_word_eqI) (auto simp: bit_simps)
  ultimately show False using assms by simp
qed

section \<open>Main results\<close>

definition tiny_env :: "sim probe_env" where
  "tiny_env = \<lparr>cfg_hwecc = True, cfg_cachedprog = False, cfg_mini6410 = True, is_module = False, clk_found = True, area_free = True,
     regs_mapped = True, mtd_memory = True, buffer_memory = True, plat_nr_chips = Some 1, s3c_nand_ext_finit = Pair,
     s3c_nand_mlc_probe = Pair, env_default_bbt = \<lambda>_ s. (0, s)\<rparr>"

definition tiny_start :: "(nat \<Rightarrow> u8) \<Rightarrow> sim probe_state" where
  "tiny_start ident = \<lparr>ps_dev = \<lparr>sim_flash = (tiny_flash (\<lambda>_. replicate 2112 0xff))\<lparr>fid := ident\<rparr>, sim_now = 2 ^ 32 - 1, sim_until = 0\<rparr>,
     ps_clk_enabled = False, ps_area_taken = False, ps_chip = None, ps_parts = []\<rparr>"

lemma tiny_env_ordinary: "ordinary_env tiny_env"
  by (simp add: ordinary_env_def tiny_env_def)

lemma tiny_start_ready: "sim_until (ps_dev (tiny_start ident)) \<le> sim_now (ps_dev (tiny_start ident))"
  "fid (sim_flash (ps_dev (tiny_start ident))) = ident"
  by (simp_all add: tiny_start_def)





text \<open>C34: the check sum of the ONFI parameter page detects every change of one byte, in the parameters or in the check sum itself: a
  page that passes the check of \<open>nand_flash_detect_onfi\<close> does not pass it any more.\<close>

theorem onfi_crc_detects:
  assumes "length p = 256" "onfi_crc16 ONFI_CRC_BASE (take 254 p) = le16_at p 254" "i < 256" "x \<noteq> p ! i"
  shows "onfi_crc16 ONFI_CRC_BASE (take 254 (p[i := x])) \<noteq> le16_at (p[i := x]) 254"
proof (cases "i < 254")
  case True
  then have "take 254 p = take i p @ p ! i # drop (Suc i) (take 254 p)"
    using id_take_nth_drop [of i "take 254 p"] assms(1) by (simp add: min_def)
  moreover have "take 254 (p[i := x]) = take i p @ x # drop (Suc i) (take 254 p)"
    using upd_conv_take_nth_drop [of i "take 254 p" x] assms(1) True by (simp add: take_update_swap min_def)
  moreover have "le16_at (p[i := x]) 254 = le16_at p 254" using True by (simp add: le16_at_def)
  ultimately show ?thesis using onfi_crc16_byte [OF assms(4)] assms(2) by metis
next
  case False
  then have "i = 254 \<or> i = 255" using assms(3) by linarith
  then have "le16_at (p[i := x]) 254 \<noteq> le16_at p 254" using le16_bytes [of p 254] le16_bytes [of "p[i := x]" 254] assms(1,4) by auto
  moreover have "take 254 (p[i := x]) = take 254 p" using False by simp
  ultimately show ?thesis using assms(2) by simp
qed

definition tiny_page :: "u8 list" where
  "tiny_page = (let crc = onfi_crc16 ONFI_CRC_BASE (replicate 254 0) in replicate 254 0 @ [ucast crc, ucast (drop_bit 8 crc)])"

lemma join_bytes: "(ucast (ucast w :: u8) OR push_bit 8 (ucast (ucast (drop_bit 8 w) :: u8)) :: u16) = w"
  by (rule bit_word_eqI) (auto simp: bit_simps)

lemma tiny_page_crc: "onfi_crc16 ONFI_CRC_BASE (take 254 tiny_page) = le16_at tiny_page 254"
  by (simp add: tiny_page_def Let_def le16_at_def nth_append join_bytes)

theorem onfi_crc_detects_witness:
  "onfi_crc16 ONFI_CRC_BASE (take 254 tiny_page) = le16_at tiny_page 254 \<and>
   onfi_crc16 ONFI_CRC_BASE (take 254 (tiny_page[80 := 1])) \<noteq> le16_at (tiny_page[80 := 1]) 254"
  using onfi_crc_detects [of tiny_page 80 1, OF _ tiny_page_crc] tiny_page_crc by (simp add: tiny_page_def nth_append Let_def)

end
