(* ===== verification/NandEcc.thy ===== *)
theory NandEcc
  imports NandProbe
begin

text \<open>
  The page functions of \<open>linux/kernel/common/nand_base.c\<close> for drivers that bring none of their own: with software ECC, with hardware
  ECC and the codes in the spare area, and with hardware that mixes data and codes (syndrome).  The functions behind the pointers of the
  chip are fields of a record.  \<open>s3c_nand.c\<close> uses two of them, \<open>nand_read_page_hwecc\<close> and \<open>nand_write_page_hwecc\<close>, for chips
  with pages of 512 bytes; for these the results below hold.

  Pointers into a buffer are offsets.  What \<open>calculate\<close> and \<open>correct\<close> see of the data is the buffer from the pointer on; \<open>ecccode\<close>
  is filled before it is used and therefore local.  An access outside a buffer is the value \<^const>\<open>None\<close>.
\<close>

section \<open>Interface\<close>

record 'd page_ops =
  e_cmdfunc :: "u32 \<Rightarrow> s32 \<Rightarrow> s32 \<Rightarrow> 'd nand \<Rightarrow> 'd nand option"
  e_waitfunc :: "'d nand \<Rightarrow> (u8 \<times> 'd nand) option"
  e_read_buf :: "nat \<Rightarrow> 'd nand \<Rightarrow> u8 list \<times> 'd nand"
  e_write_buf :: "u8 list \<Rightarrow> 'd nand \<Rightarrow> 'd nand"
  e_hwctl :: "ecc_mode \<Rightarrow> 'd nand \<Rightarrow> 'd nand"
  e_calculate :: "u8 list \<Rightarrow> 'd nand \<Rightarrow> (u8 list \<times> 'd nand) option"
  e_correct :: "u8 list \<Rightarrow> u8 list \<Rightarrow> u8 list option \<Rightarrow> 'd nand \<Rightarrow> (int \<times> u8 list \<times> 'd nand) option"
  e_read_page_raw :: "u8 list \<Rightarrow> s32 \<Rightarrow> 'd nand \<Rightarrow> (u8 list \<times> 'd nand) option"
  e_write_page_raw :: "u8 list \<Rightarrow> 'd nand \<Rightarrow> 'd nand option"
  e_prepad :: nat
  e_postpad :: nat

text \<open>\<open>chip->read_buf(mtd, buf + p, len)\<close>, \<open>chip->read_buf(mtd, chip->oob_poi + i, len)\<close> and the same for writing.\<close>

definition read_into :: "'d page_ops \<Rightarrow> u8 list \<Rightarrow> nat \<Rightarrow> nat \<Rightarrow> 'd nand \<Rightarrow> (u8 list \<times> 'd nand) option" where
  "read_into e buf p len n = do {
     let (xs, n) = e_read_buf e len n;
     buf \<leftarrow> put_bytes buf p xs;
     Some (buf, n) }"

definition read_oob_at :: "'d page_ops \<Rightarrow> nat \<Rightarrow> nat \<Rightarrow> 'd nand \<Rightarrow> 'd nand option" where
  "read_oob_at e i len n = do {
     let (xs, n) = e_read_buf e len n;
     ys \<leftarrow> put_bytes (oob_poi n) i xs;
     Some (n\<lparr>oob_poi := ys\<rparr>) }"

definition write_oob_at :: "'d page_ops \<Rightarrow> nat \<Rightarrow> nat \<Rightarrow> 'd nand \<Rightarrow> 'd nand option" where
  "write_oob_at e i len n = do {
     xs \<leftarrow> get_bytes (oob_poi n) i len;
     Some (e_write_buf e xs n) }"

text \<open>\<open>chip->ecc.calculate(mtd, p, &ecc_calc[i])\<close>\<close>

definition calculate_to :: "'d page_ops \<Rightarrow> u8 list \<Rightarrow> nat \<Rightarrow> nat \<Rightarrow> 'd nand \<Rightarrow> 'd nand option" where
  "calculate_to e buf p i n = do {
     (code, n) \<leftarrow> e_calculate e (drop p buf) n;
     ys \<leftarrow> put_bytes (ecccalc n) i code;
     Some (n\<lparr>ecccalc := ys\<rparr>) }"

text \<open>\<open>if (stat < 0) mtd->ecc_stats.failed++; else mtd->ecc_stats.corrected += stat;\<close>\<close>

definition count_stat :: "int \<Rightarrow> 'd nand \<Rightarrow> 'd nand" where
  "count_stat stat n = (if stat < 0 then n\<lparr>ecc_failed := ecc_failed n + 1\<rparr> else n\<lparr>ecc_corrected := ecc_corrected n + of_int stat\<rparr>)"

definition correct_at :: "'d page_ops \<Rightarrow> u8 list \<Rightarrow> nat \<Rightarrow> u8 list \<Rightarrow> u8 list option \<Rightarrow> 'd nand \<Rightarrow> (u8 list \<times> 'd nand) option" where
  "correct_at e buf p code calc n = do {
     (stat, dat, n) \<leftarrow> e_correct e (drop p buf) code calc n;
     Some (take p buf @ dat, count_stat stat n) }"

text \<open>\<open>for (i = 0; i < n; i++) ecc_code[i] = chip->oob_poi[eccpos[i]];\<close>, from entry \<open>index\<close> on.\<close>

fun codes_from :: "nat list \<Rightarrow> u8 list \<Rightarrow> nat list \<Rightarrow> u8 list option" where
  "codes_from pos oob [] = Some []"
| "codes_from pos oob (i # is) = do {
     p \<leftarrow> eccpos_at pos i;
     x \<leftarrow> get_bytes oob p 1;
     xs \<leftarrow> codes_from pos oob is;
     Some (x @ xs) }"

section \<open>Software ECC\<close>

text \<open>The loops over the steps of a page.\<close>

fun calculate_steps :: "'d page_ops \<Rightarrow> chip \<Rightarrow> u8 list \<Rightarrow> nat \<Rightarrow> nat \<Rightarrow> nat \<Rightarrow> 'd nand \<Rightarrow> 'd nand option" where
  "calculate_steps e c buf 0 i p n = Some n"
| "calculate_steps e c buf (Suc eccsteps) i p n = do {
     n \<leftarrow> calculate_to e buf p i n;
     calculate_steps e c buf eccsteps (i + ecc_bytes c) (p + ecc_size c) n }"

fun correct_steps :: "'d page_ops \<Rightarrow> chip \<Rightarrow> u8 list \<Rightarrow> nat \<Rightarrow> nat \<Rightarrow> nat \<Rightarrow> u8 list \<Rightarrow> 'd nand \<Rightarrow> (u8 list \<times> 'd nand) option" where
  "correct_steps e c code 0 i p buf n = Some (buf, n)"
| "correct_steps e c code (Suc eccsteps) i p buf n = do {
     (buf, n) \<leftarrow> correct_at e buf p (drop i code) (Some (drop i (ecccalc n))) n;
     correct_steps e c code eccsteps (i + ecc_bytes c) (p + ecc_size c) buf n }"

definition nand_read_page_swecc :: "'d page_ops \<Rightarrow> chip \<Rightarrow> u8 list \<Rightarrow> s32 \<Rightarrow> 'd nand \<Rightarrow> (u8 list \<times> 'd nand) option" where
  "nand_read_page_swecc e c buf page n = do {
     (buf, n) \<leftarrow> e_read_page_raw e buf page n;
     n \<leftarrow> calculate_steps e c buf (ecc_steps c) 0 0 n;
     code \<leftarrow> codes_from (eccpos (ecc_layout c)) (oob_poi n) [0..<ecc_total c];
     correct_steps e c code (ecc_steps c) 0 0 buf n }"

definition nand_write_page_swecc :: "'d page_ops \<Rightarrow> chip \<Rightarrow> u8 list \<Rightarrow> 'd nand \<Rightarrow> 'd nand option" where
  "nand_write_page_swecc e c buf n = do {
     n \<leftarrow> calculate_steps e c buf (ecc_steps c) 0 0 n;
     n \<leftarrow> place_codes c n;
     e_write_page_raw e buf n }"

text \<open>
  Reading the steps that contain the wanted bytes only.  The codes are read alone if their places have no gaps; otherwise the whole
  spare area is read, and then \<open>index\<close> is still 0, so the codes of the first steps are taken.
\<close>

fun has_gap :: "nat list \<Rightarrow> nat \<Rightarrow> nat \<Rightarrow> bool option" where
  "has_gap pos i 0 = Some False"
| "has_gap pos i (Suc m) = do {
     p \<leftarrow> eccpos_at pos i;
     q \<leftarrow> eccpos_at pos (i + 1);
     if p + 1 \<noteq> q then Some True else has_gap pos (i + 1) m }"

definition read_subpage_codes :: "'d page_ops \<Rightarrow> chip \<Rightarrow> nat \<Rightarrow> nat \<Rightarrow> 'd nand \<Rightarrow> (nat \<times> 'd nand) option" where
  "read_subpage_codes e c start_step num_steps n = do {
     let pos = eccpos (ecc_layout c);
     let eccfrag_len = num_steps * ecc_bytes c;
     let odd_pos = (\<lambda>p. if buswidth16 c then p mod 2 else 0);
     gaps \<leftarrow> has_gap pos (start_step * ecc_bytes c) (eccfrag_len - 1);
     if gaps then do {
       n \<leftarrow> e_cmdfunc e NAND_CMD_RNDOUT (of_nat (writesize c)) (- 1) n;
       n \<leftarrow> read_oob_at e 0 (oobsize c) n;
       Some (0, n) }
     else do {
       let index = start_step * ecc_bytes c;
       first \<leftarrow> eccpos_at pos index;
       after \<leftarrow> eccpos_at pos (index + eccfrag_len);
       let aligned_pos = first - odd_pos first;
       let aligned_len = eccfrag_len + odd_pos first + odd_pos after;
       n \<leftarrow> e_cmdfunc e NAND_CMD_RNDOUT (of_nat (writesize c + aligned_pos)) (- 1) n;
       n \<leftarrow> read_oob_at e aligned_pos aligned_len n;
       Some (index, n) } }"

definition nand_read_subpage :: "'d page_ops \<Rightarrow> chip \<Rightarrow> u32 \<Rightarrow> u32 \<Rightarrow> u8 list \<Rightarrow> 'd nand \<Rightarrow> (u8 list \<times> 'd nand) option" where
  "nand_read_subpage e c data_offs readlen buf n = do {
     _ \<leftarrow> (if ecc_size c = 0 then None else Some ());
     let start_step = unat data_offs div ecc_size c;
     let end_step = unat (data_offs + readlen - 1) div ecc_size c;
     let num_steps = end_step + 1 - start_step;
     let data_col_addr = start_step * ecc_size c;
     let loops = (if ecc_bytes c = 0 then 0 else num_steps);
     n \<leftarrow> (if data_col_addr \<noteq> 0 then e_cmdfunc e NAND_CMD_RNDOUT (of_nat data_col_addr) (- 1) n else Some n);
     (buf, n) \<leftarrow> read_into e buf data_col_addr (num_steps * ecc_size c) n;
     n \<leftarrow> calculate_steps e c buf loops 0 data_col_addr n;
     (index, n) \<leftarrow> read_subpage_codes e c start_step num_steps n;
     code \<leftarrow> codes_from (eccpos (ecc_layout c)) (oob_poi n) [index..<index + num_steps * ecc_bytes c];
     correct_steps e c code loops 0 data_col_addr buf n }"

section \<open>Hardware ECC\<close>

fun read_steps :: "'d page_ops \<Rightarrow> chip \<Rightarrow> nat \<Rightarrow> nat \<Rightarrow> nat \<Rightarrow> u8 list \<Rightarrow> 'd nand \<Rightarrow> (u8 list \<times> 'd nand) option" where
  "read_steps e c 0 i p buf n = Some (buf, n)"
| "read_steps e c (Suc eccsteps) i p buf n = do {
     let n = e_hwctl e NAND_ECC_READ n;
     (buf, n) \<leftarrow> read_into e buf p (ecc_size c) n;
     n \<leftarrow> calculate_to e buf p i n;
     read_steps e c eccsteps (i + ecc_bytes c) (p + ecc_size c) buf n }"

definition nand_read_page_hwecc :: "'d page_ops \<Rightarrow> chip \<Rightarrow> u8 list \<Rightarrow> s32 \<Rightarrow> 'd nand \<Rightarrow> (u8 list \<times> 'd nand) option" where
  "nand_read_page_hwecc e c buf page n = do {
     (buf, n) \<leftarrow> read_steps e c (ecc_steps c) 0 0 buf n;
     n \<leftarrow> read_oob_at e 0 (oobsize c) n;
     code \<leftarrow> codes_from (eccpos (ecc_layout c)) (oob_poi n) [0..<ecc_total c];
     correct_steps e c code (ecc_steps c) 0 0 buf n }"

fun write_steps :: "'d page_ops \<Rightarrow> chip \<Rightarrow> u8 list \<Rightarrow> nat \<Rightarrow> nat \<Rightarrow> nat \<Rightarrow> 'd nand \<Rightarrow> 'd nand option" where
  "write_steps e c buf 0 i p n = Some n"
| "write_steps e c buf (Suc eccsteps) i p n = do {
     let n = e_hwctl e NAND_ECC_WRITE n;
     xs \<leftarrow> get_bytes buf p (ecc_size c);
     let n = e_write_buf e xs n;
     n \<leftarrow> calculate_to e buf p i n;
     write_steps e c buf eccsteps (i + ecc_bytes c) (p + ecc_size c) n }"

definition nand_write_page_hwecc :: "'d page_ops \<Rightarrow> chip \<Rightarrow> u8 list \<Rightarrow> 'd nand \<Rightarrow> 'd nand option" where
  "nand_write_page_hwecc e c buf n = do {
     n \<leftarrow> write_steps e c buf (ecc_steps c) 0 0 n;
     n \<leftarrow> place_codes c n;
     write_oob_at e 0 (oobsize c) n }"

text \<open>With the spare area first; \<open>correct\<close> gets a null pointer for the calculated code.\<close>

fun oob_first_steps :: "'d page_ops \<Rightarrow> chip \<Rightarrow> u8 list \<Rightarrow> nat \<Rightarrow> nat \<Rightarrow> nat \<Rightarrow> u8 list \<Rightarrow> 'd nand \<Rightarrow> (u8 list \<times> 'd nand) option" where
  "oob_first_steps e c code 0 i p buf n = Some (buf, n)"
| "oob_first_steps e c code (Suc eccsteps) i p buf n = do {
     let n = e_hwctl e NAND_ECC_READ n;
     (buf, n) \<leftarrow> read_into e buf p (ecc_size c) n;
     n \<leftarrow> calculate_to e buf p i n;
     (buf, n) \<leftarrow> correct_at e buf p (drop i code) None n;
     oob_first_steps e c code eccsteps (i + ecc_bytes c) (p + ecc_size c) buf n }"

definition nand_read_page_hwecc_oob_first :: "'d page_ops \<Rightarrow> chip \<Rightarrow> u8 list \<Rightarrow> s32 \<Rightarrow> 'd nand \<Rightarrow> (u8 list \<times> 'd nand) option" where
  "nand_read_page_hwecc_oob_first e c buf page n = do {
     n \<leftarrow> e_cmdfunc e NAND_CMD_READOOB 0 page n;
     n \<leftarrow> read_oob_at e 0 (oobsize c) n;
     n \<leftarrow> e_cmdfunc e NAND_CMD_READ0 0 page n;
     code \<leftarrow> codes_from (eccpos (ecc_layout c)) (oob_poi n) [0..<ecc_total c];
     oob_first_steps e c code (ecc_steps c) 0 0 buf n }"

section \<open>Syndromes\<close>

text \<open>
  Data and codes alternate on the chip.  A loop returns how far it has come in the spare buffer; what is left of the spare area
  follows at the end.
\<close>

definition pad :: "('d page_ops \<Rightarrow> nat \<Rightarrow> nat \<Rightarrow> 'd nand \<Rightarrow> 'd nand option) \<Rightarrow> 'd page_ops \<Rightarrow> nat \<Rightarrow> nat \<Rightarrow> 'd nand \<Rightarrow> 'd nand option" where
  "pad f e oob len n = (if len \<noteq> 0 then f e oob len n else Some n)"

definition rest_of_oob :: "('d page_ops \<Rightarrow> nat \<Rightarrow> nat \<Rightarrow> 'd nand \<Rightarrow> 'd nand option) \<Rightarrow> 'd page_ops \<Rightarrow> chip \<Rightarrow> nat \<Rightarrow> 'd nand \<Rightarrow> 'd nand option" where
  "rest_of_oob f e c oob n = (if oob = oobsize c then Some n else if oob < oobsize c then f e oob (oobsize c - oob) n else None)"

fun raw_syndrome_read :: "'d page_ops \<Rightarrow> chip \<Rightarrow> nat \<Rightarrow> nat \<Rightarrow> nat \<Rightarrow> u8 list \<Rightarrow> 'd nand \<Rightarrow> (nat \<times> u8 list \<times> 'd nand) option" where
  "raw_syndrome_read e c 0 p oob buf n = Some (oob, buf, n)"
| "raw_syndrome_read e c (Suc steps) p oob buf n = do {
     (buf, n) \<leftarrow> read_into e buf p (ecc_size c) n;
     n \<leftarrow> pad read_oob_at e oob (e_prepad e) n;
     let oob = oob + e_prepad e;
     n \<leftarrow> read_oob_at e oob (ecc_bytes c) n;
     let oob = oob + ecc_bytes c;
     n \<leftarrow> pad read_oob_at e oob (e_postpad e) n;
     raw_syndrome_read e c steps (p + ecc_size c) (oob + e_postpad e) buf n }"

definition nand_read_page_raw_syndrome :: "'d page_ops \<Rightarrow> chip \<Rightarrow> u8 list \<Rightarrow> s32 \<Rightarrow> 'd nand \<Rightarrow> (u8 list \<times> 'd nand) option" where
  "nand_read_page_raw_syndrome e c buf page n = do {
     (oob, buf, n) \<leftarrow> raw_syndrome_read e c (ecc_steps c) 0 0 buf n;
     n \<leftarrow> rest_of_oob read_oob_at e c oob n;
     Some (buf, n) }"

text \<open>The source has \<open>read_buf\<close> for the code bytes also here.\<close>

fun raw_syndrome_write :: "'d page_ops \<Rightarrow> chip \<Rightarrow> u8 list \<Rightarrow> nat \<Rightarrow> nat \<Rightarrow> nat \<Rightarrow> 'd nand \<Rightarrow> (nat \<times> 'd nand) option" where
  "raw_syndrome_write e c buf 0 p oob n = Some (oob, n)"
| "raw_syndrome_write e c buf (Suc steps) p oob n = do {
     xs \<leftarrow> get_bytes buf p (ecc_size c);
     let n = e_write_buf e xs n;
     n \<leftarrow> pad write_oob_at e oob (e_prepad e) n;
     let oob = oob + e_prepad e;
     n \<leftarrow> read_oob_at e oob (ecc_bytes c) n;
     let oob = oob + ecc_bytes c;
     n \<leftarrow> pad write_oob_at e oob (e_postpad e) n;
     raw_syndrome_write e c buf steps (p + ecc_size c) (oob + e_postpad e) n }"

definition nand_write_page_raw_syndrome :: "'d page_ops \<Rightarrow> chip \<Rightarrow> u8 list \<Rightarrow> 'd nand \<Rightarrow> 'd nand option" where
  "nand_write_page_raw_syndrome e c buf n = do {
     (oob, n) \<leftarrow> raw_syndrome_write e c buf (ecc_steps c) 0 0 n;
     rest_of_oob write_oob_at e c oob n }"

text \<open>\<open>correct\<close> gets a pointer to the code in the spare buffer and a null pointer.\<close>

fun syndrome_read :: "'d page_ops \<Rightarrow> chip \<Rightarrow> nat \<Rightarrow> nat \<Rightarrow> nat \<Rightarrow> u8 list \<Rightarrow> 'd nand \<Rightarrow> (nat \<times> u8 list \<times> 'd nand) option" where
  "syndrome_read e c 0 p oob buf n = Some (oob, buf, n)"
| "syndrome_read e c (Suc steps) p oob buf n = do {
     let n = e_hwctl e NAND_ECC_READ n;
     (buf, n) \<leftarrow> read_into e buf p (ecc_size c) n;
     n \<leftarrow> pad read_oob_at e oob (e_prepad e) n;
     let oob = oob + e_prepad e;
     let n = e_hwctl e NAND_ECC_READSYN n;
     n \<leftarrow> read_oob_at e oob (ecc_bytes c) n;
     (buf, n) \<leftarrow> correct_at e buf p (drop oob (oob_poi n)) None n;
     let oob = oob + ecc_bytes c;
     n \<leftarrow> pad read_oob_at e oob (e_postpad e) n;
     syndrome_read e c steps (p + ecc_size c) (oob + e_postpad e) buf n }"

definition nand_read_page_syndrome :: "'d page_ops \<Rightarrow> chip \<Rightarrow> u8 list \<Rightarrow> s32 \<Rightarrow> 'd nand \<Rightarrow> (u8 list \<times> 'd nand) option" where
  "nand_read_page_syndrome e c buf page n = do {
     (oob, buf, n) \<leftarrow> syndrome_read e c (ecc_steps c) 0 0 buf n;
     n \<leftarrow> rest_of_oob read_oob_at e c oob n;
     Some (buf, n) }"

fun syndrome_write :: "'d page_ops \<Rightarrow> chip \<Rightarrow> u8 list \<Rightarrow> nat \<Rightarrow> nat \<Rightarrow> nat \<Rightarrow> 'd nand \<Rightarrow> (nat \<times> 'd nand) option" where
  "syndrome_write e c buf 0 p oob n = Some (oob, n)"
| "syndrome_write e c buf (Suc steps) p oob n = do {
     let n = e_hwctl e NAND_ECC_WRITE n;
     xs \<leftarrow> get_bytes buf p (ecc_size c);
     let n = e_write_buf e xs n;
     n \<leftarrow> pad write_oob_at e oob (e_prepad e) n;
     let oob = oob + e_prepad e;
     (code, n) \<leftarrow> e_calculate e (drop p buf) n;
     ys \<leftarrow> put_bytes (oob_poi n) oob code;
     n \<leftarrow> write_oob_at e oob (ecc_bytes c) (n\<lparr>oob_poi := ys\<rparr>);
     let oob = oob + ecc_bytes c;
     n \<leftarrow> pad write_oob_at e oob (e_postpad e) n;
     syndrome_write e c buf steps (p + ecc_size c) (oob + e_postpad e) n }"

definition nand_write_page_syndrome :: "'d page_ops \<Rightarrow> chip \<Rightarrow> u8 list \<Rightarrow> 'd nand \<Rightarrow> 'd nand option" where
  "nand_write_page_syndrome e c buf n = do {
     (oob, n) \<leftarrow> syndrome_write e c buf (ecc_steps c) 0 0 n;
     rest_of_oob write_oob_at e c oob n }"

text \<open>The spare area alone; the first step needs no command of its own.\<close>

definition syndrome_chunk :: "'d page_ops \<Rightarrow> chip \<Rightarrow> nat" where
  "syndrome_chunk e c = ecc_bytes c + e_prepad e + e_postpad e"

fun oob_syndrome_read :: "'d page_ops \<Rightarrow> chip \<Rightarrow> s32 \<Rightarrow> nat \<Rightarrow> nat \<Rightarrow> nat \<Rightarrow> nat \<Rightarrow> 'd nand \<Rightarrow> (nat \<times> nat \<times> 'd nand) option" where
  "oob_syndrome_read e c page i 0 poi len n = Some (poi, len, n)"
| "oob_syndrome_read e c page i (Suc m) poi len n = do {
     let pos = of_nat (ecc_size c + i * (ecc_size c + syndrome_chunk e c));
     n \<leftarrow> (if i = 0 then Some n
           else if 512 < writesize c then e_cmdfunc e NAND_CMD_RNDOUT pos (- 1) n
           else e_cmdfunc e NAND_CMD_READ0 pos page n);
     let toread = min len (syndrome_chunk e c);
     n \<leftarrow> read_oob_at e poi toread n;
     oob_syndrome_read e c page (i + 1) m (poi + toread) (len - toread) n }"

definition nand_read_oob_syndrome :: "'d page_ops \<Rightarrow> chip \<Rightarrow> s32 \<Rightarrow> bool \<Rightarrow> 'd nand \<Rightarrow> (bool \<times> 'd nand) option" where
  "nand_read_oob_syndrome e c page sndcmd n = do {
     n \<leftarrow> e_cmdfunc e NAND_CMD_READ0 (of_nat (ecc_size c)) page n;
     (poi, len, n) \<leftarrow> oob_syndrome_read e c page 0 (ecc_steps c) 0 (oobsize c) n;
     n \<leftarrow> (if 0 < len then read_oob_at e poi len n else Some n);
     Some (True, n) }"

text \<open>Filling the data between two codes of a small page, four bytes at a time.\<close>

function write_fill :: "'d page_ops \<Rightarrow> nat \<Rightarrow> 'd nand \<Rightarrow> 'd nand" where
  "write_fill e len n = (if 0 < len then write_fill e (len - min len 4) (e_write_buf e (replicate (min len 4) 0xff) n) else n)"
  by pat_completeness auto
termination by (relation "measure (\<lambda>(e, len, n). len)") auto

fun oob_syndrome_write :: "'d page_ops \<Rightarrow> chip \<Rightarrow> nat \<Rightarrow> nat \<Rightarrow> nat \<Rightarrow> nat \<Rightarrow> 'd nand \<Rightarrow> (nat \<times> nat \<times> 'd nand) option" where
  "oob_syndrome_write e c i 0 poi len n = Some (poi, len, n)"
| "oob_syndrome_write e c i (Suc m) poi len n = do {
     n \<leftarrow> (if i = 0 then Some n
           else if writesize c \<le> 512 then Some (write_fill e (ecc_size c) n)
           else e_cmdfunc e NAND_CMD_RNDIN (of_nat (ecc_size c + i * (ecc_size c + syndrome_chunk e c))) (- 1) n);
     let towrite = min len (syndrome_chunk e c);
     n \<leftarrow> write_oob_at e poi towrite n;
     oob_syndrome_write e c (i + 1) m (poi + towrite) (len - towrite) n }"

definition nand_write_oob_syndrome :: "'d page_ops \<Rightarrow> chip \<Rightarrow> s32 \<Rightarrow> 'd nand \<Rightarrow> (s32 \<times> 'd nand) option" where
  "nand_write_oob_syndrome e c page n = do {
     let plain = (e_prepad e = 0 \<and> e_postpad e = 0);
     let pos = (if plain then ecc_steps c * (ecc_size c + syndrome_chunk e c) else ecc_size c);
     n \<leftarrow> e_cmdfunc e NAND_CMD_SEQIN (of_nat pos) page n;
     (poi, len, n) \<leftarrow> oob_syndrome_write e c 0 (if plain then 0 else ecc_steps c) 0 (oobsize c) n;
     n \<leftarrow> (if 0 < len then write_oob_at e poi len n else Some n);
     n \<leftarrow> e_cmdfunc e NAND_CMD_PAGEPROG (- 1) (- 1) n;
     (status, n) \<leftarrow> e_waitfunc e n;
     Some (if status AND NAND_STATUS_FAIL \<noteq> 0 then - EIO else 0, n) }"

section \<open>Small pages with the driver\<close>

text \<open>The pointers of \<open>s3c_nand.c\<close>, for a chip with pages of 512 bytes.\<close>

definition s3c_small_ops :: "'d machine \<Rightarrow> nat \<Rightarrow> chip \<Rightarrow> 'd page_ops" where
  "s3c_small_ops k HZ c =
     \<lparr>e_cmdfunc = \<lambda>command column page n. do { s \<leftarrow> nand_command k (nand_geom.truncate c) command column page (dev n); Some (n\<lparr>dev := s\<rparr>) },
      e_waitfunc = waitfunc k c HZ False, e_read_buf = read_buf k, e_write_buf = write_buf k, e_hwctl = s3c_nand_enable_hwecc k c,
      e_calculate = \<lambda>dat. s3c_nand_calculate_ecc k c,
      e_correct = \<lambda>dat code calc n. do {
        (ret, fixed, n) \<leftarrow> s3c_nand_correct_data k c (Some dat) code n;
        Some (ret, case fixed of Some ys \<Rightarrow> ys | None \<Rightarrow> dat, n) },
      e_read_page_raw = \<lambda>buf page. nand_read_page_raw k c, e_write_page_raw = nand_write_page_raw k c, e_prepad = 0, e_postpad = 0\<rparr>"

lemma small_ops [simp]:
  "e_read_buf (s3c_small_ops k HZ c) = read_buf k" "e_write_buf (s3c_small_ops k HZ c) = write_buf k"
  "e_hwctl (s3c_small_ops k HZ c) = s3c_nand_enable_hwecc k c" "calculate_to (s3c_small_ops k HZ c) buf p i n = calculate_at k c i n"
  "e_correct (s3c_small_ops k HZ c) dat code calc n = do {
     (ret, fixed, n) \<leftarrow> s3c_nand_correct_data k c (Some dat) code n;
     Some (ret, case fixed of Some ys \<Rightarrow> ys | None \<Rightarrow> dat, n) }"
  by (simp_all add: s3c_small_ops_def calculate_to_def calculate_at_def)

text \<open>The chip as the probe leaves it: one step, the code in the spare bytes 1 to 4.\<close>

definition slc_512 :: "chip \<Rightarrow> bool" where
  "slc_512 c \<longleftrightarrow> writesize c = 512 \<and> oobsize c = 16 \<and> nand_type c = S3C_NAND_TYPE_SLC \<and> ecc_size c = 512 \<and> ecc_bytes c = 4 \<and>
     ecc_steps c = 1 \<and> ecc_total c = 4 \<and> ecc_layout c = s3c_nand_oob_16"

lemma small_page_pointers:
  assumes "ec_mode e = NAND_ECC_HW" "ec_hwctl e = Some S3c_nand_enable_hwecc" "ec_calculate e = Some S3c_nand_calculate_ecc"
    and "ec_correct e = Some S3c_nand_correct_data" "ec_read_page e = None" "ec_write_page e = None" "sc_ecc c = e"
  shows "\<exists>e'. ecc_functions 512 (sc_ecc (probe_small c)) = Some e' \<and> ec_read_page e' = Some Nand_read_page_hwecc \<and>
    ec_write_page e' = Some Nand_write_page_hwecc \<and> ec_layout e' = Some s3c_nand_oob_16 \<and>
    ecc_steps_of 512 e' = Some (e'\<lparr>ec_steps := 1, ec_total := 4\<rparr>)"
  using assms by (simp add: ecc_functions_def probe_small_def case_hw_def case_syndrome_def no_ecc_fns_def dflt_def ecc_steps_of_def)

definition small_spare :: "(u8 list \<Rightarrow> u32) \<Rightarrow> u8 list \<Rightarrow> u8 list \<Rightarrow> u8 list" where
  "small_spare ecc buf oob = take 1 oob @ ecc_code (ecc buf) @ drop 5 oob"

lemma small_codes:
  assumes "slc_512 c" "length (oob_poi n) = 16" "take 4 (ecccalc n) = ecc_code x"
  shows "place_codes c n = Some (n\<lparr>oob_poi := take 1 (oob_poi n) @ ecc_code x @ drop 5 (oob_poi n)\<rparr>)"
proof -
  have c: "ecc_total c = 4" "eccpos (ecc_layout c) = [1, 2, 3, 4]" using assms(1) by (simp_all add: slc_512_def s3c_nand_oob_16_def)
  have "[0..<4] = [0, 1, 2, 3 :: nat]" by (simp add: upt_rec)
  obtain a0 a1 a2 a3 r where calc: "ecccalc n = a0 # a1 # a2 # a3 # r" "ecc_code x = [a0, a1, a2, a3]"
  proof -
    have "4 \<le> length (ecccalc n)" using arg_cong [OF assms(3), of length] by (simp add: min_def split: if_splits)
    then obtain a0 a1 a2 a3 r where "ecccalc n = a0 # a1 # a2 # a3 # r"
      by (auto simp: numeral_eq_Suc Suc_le_length_iff)
    then show ?thesis using that assms(3) by simp
  qed
  obtain b0 b1 b2 b3 b4 t where oob: "oob_poi n = b0 # b1 # b2 # b3 # b4 # t" using assms(2) by (auto simp: numeral_eq_Suc length_Suc_conv)
  show ?thesis
    by (simp add: place_codes_def c \<open>[0..<4] = [0, 1, 2, 3]\<close> calc oob get_bytes_def put_bytes_def eccpos_at_def numeral_eq_Suc)
qed

lemma small_code_back:
  assumes "length sp = 16" "take 4 (drop 1 sp) = ecc_code x"
  shows "codes_from [1, 2, 3, 4] sp [0..<4] = Some (ecc_code x)"
proof -
  have "[0..<4] = [0, 1, 2, 3 :: nat]" by (simp add: upt_rec)
  moreover obtain b0 b1 b2 b3 b4 t where "sp = b0 # b1 # b2 # b3 # b4 # t" using assms(1) by (auto simp: numeral_eq_Suc length_Suc_conv)
  ultimately show ?thesis using assms(2) by (simp add: get_bytes_def eccpos_at_def numeral_eq_Suc)
qed

context nand_device
begin

lemma small_write:
  assumes "slc_512 c" "ready_at (dev n) \<le> clock (dev n)" "programming (fl (dev n)) page cs 528 []" "length buf = 512"
    and "length (oob_poi n) = 16" "4 \<le> length (ecccalc n)"
  shows "\<exists>n'. nand_write_page_hwecc (s3c_small_ops k HZ c) c buf n = Some n' \<and>
    programming (fl (dev n')) page cs 528 (buf @ small_spare ecc buf (oob_poi n)) \<and> ready_at (dev n') \<le> clock (dev n')"
proof -
  have c: "nand_type c = S3C_NAND_TYPE_SLC" "ecc_size c = 512" "ecc_bytes c = 4" "ecc_steps c = Suc 0" "oobsize c = 16"
    using assms(1) by (simp_all add: slc_512_def)
  obtain s1 where s1: "calculate_at k c 0 (write_buf k buf (s3c_nand_enable_hwecc k c NAND_ECC_WRITE n)) =
      Some (n\<lparr>cur_ecc_mode := NAND_ECC_WRITE, dev := s1, ecccalc := ecc_code (ecc buf) @ drop 4 (ecccalc n)\<rparr>)"
    "programming (fl s1) page cs 528 buf" "ready_at s1 \<le> clock s1"
    using coded_write [OF c(1) assms(2,3), of buf 0 NAND_ECC_WRITE] assms(4,6) by auto
  define n1 where "n1 = n\<lparr>cur_ecc_mode := NAND_ECC_WRITE, dev := s1, ecccalc := ecc_code (ecc buf) @ drop 4 (ecccalc n)\<rparr>"
  have steps: "write_steps (s3c_small_ops k HZ c) c buf (ecc_steps c) 0 0 n = Some n1"
    using s1(1) assms(4) c by (simp add: get_bytes_def n1_def)
  define n2 where "n2 = n1\<lparr>oob_poi := small_spare ecc buf (oob_poi n)\<rparr>"
  have place: "place_codes c n1 = Some n2"
    using small_codes [OF assms(1), of n1 "ecc buf"] assms(5) by (simp add: n1_def n2_def small_spare_def)
  define s3 where "s3 = nand_write_buf k (small_spare ecc buf (oob_poi n)) s1"
  have len: "length (small_spare ecc buf (oob_poi n)) = 16" using assms(5) by (simp add: small_spare_def)
  have s3: "programming (fl s3) page cs 528 (buf @ small_spare ecc buf (oob_poi n))" "ready_at s3 \<le> clock s3"
    using write_buf_programming [OF s1(2) _ s1(3), of "small_spare ecc buf (oob_poi n)"] len assms(4) by (simp_all add: s3_def)
  have "nand_write_page_hwecc (s3c_small_ops k HZ c) c buf n = Some (n2\<lparr>dev := s3\<rparr>)"
    using len c(5) by (simp add: nand_write_page_hwecc_def steps place write_oob_at_def get_bytes_def)
      (simp add: write_buf_def n2_def n1_def s3_def)
  then show ?thesis using s3 by simp
qed

lemma small_read:
  assumes "slc_512 c" "ready_at (dev n) \<le> clock (dev n)" "fcmd (fl (dev n)) \<notin> {0x70, 0x90}" "fcol (fl (dev n)) = 0"
    and "preg (fl (dev n)) = q @ sp" "near buf q" "length buf = 512" "length sp = 16" "take 4 (drop 1 sp) = ecc_code (ecc buf)"
    and "length out = 512" "length (oob_poi n) = 16" "4 \<le> length (ecccalc n)"
  shows "\<exists>n'. nand_read_page_hwecc (s3c_small_ops k HZ c) c out page n = Some (buf, n') \<and> oob_poi n' = sp \<and>
    ecc_failed n' = ecc_failed n \<and> ecc_corrected n' = ecc_corrected n + (if q = buf then 0 else 1) \<and>
    cells (fl (dev n')) = cells (fl (dev n)) \<and> ready_at (dev n') \<le> clock (dev n')"
proof -
  have c: "nand_type c = S3C_NAND_TYPE_SLC" "ecc_size c = 512" "ecc_bytes c = 4" "ecc_steps c = Suc 0" "oobsize c = 16" "ecc_total c = 4"
      "eccpos (ecc_layout c) = [1, 2, 3, 4]"
    using assms(1) by (simp_all add: slc_512_def s3c_nand_oob_16_def)
  have q: "length q = 512" using near_length [OF assms(6)] assms(7) by simp
  have pre: "fcol (fl (dev n)) + 512 \<le> length (preg (fl (dev n)))" "q = take 512 (drop (fcol (fl (dev n))) (preg (fl (dev n))))"
    using q assms(4,5) by simp_all
  obtain s1 x where s1: "read_buf k 512 (s3c_nand_enable_hwecc k c NAND_ECC_READ n) = (q, n\<lparr>cur_ecc_mode := NAND_ECC_READ, dev := s1\<rparr>)"
    "fl s1 = (fl (dev n))\<lparr>cont := x, stream := q, fcol := 512\<rparr>" "ready_at s1 \<le> clock s1"
    using coded_read [OF c(1) assms(2,3) pre, of NAND_ECC_READ] by (auto simp: assms(4))
  define n1 where "n1 = n\<lparr>cur_ecc_mode := NAND_ECC_READ, dev := s1\<rparr>"
  obtain s2 y where s2: "s3c_nand_calculate_ecc k c n1 = Some (ecc_code (ecc q), n1\<lparr>dev := s2\<rparr>)"
    "fl s2 = (fl s1)\<lparr>cont := y\<rparr>" "bit y 7" "ready_at s2 \<le> clock s2"
    using calculate_slc [OF c(1), of n1] s1 by (auto simp: n1_def)
  define n2 where "n2 = n1\<lparr>dev := s2, ecccalc := ecc_code (ecc q) @ drop 4 (ecccalc n)\<rparr>"
  have steps: "read_steps (s3c_small_ops k HZ c) c (ecc_steps c) 0 0 out n = Some (q, n2)"
    using s1(1) s2(1) assms(10,12) q c by (simp add: read_into_def put_bytes_def calculate_at_def n1_def n2_def)
  obtain zs s3 where zs: "(zs, s3) = nand_read_buf k 16 s2" by (metis surj_pair)
  have s3: "zs = sp" "fl s3 = (fl s2)\<lparr>fcol := 528\<rparr>" "ready_at s3 \<le> clock s3"
    using read_buf_register [OF _ _ s2(4) zs] s1(2) s2(2,3) assms(3,5,8) q by auto
  define n3 where "n3 = n2\<lparr>dev := s3, oob_poi := sp\<rparr>"
  have oob: "read_oob_at (s3c_small_ops k HZ c) 0 (oobsize c) n2 = Some n3"
    using zs [symmetric] s3(1) assms(8,11) c(5) by (simp add: read_oob_at_def read_buf_def put_bytes_def n2_def n1_def n3_def)
  have code: "codes_from [1, 2, 3, 4] sp [0..<4] = Some (ecc_code (ecc buf))" using small_code_back [OF assms(8,9)] .
  obtain r s4 d0 d1 where s4: "slc_correct k (q @ []) (ecc_code (ecc buf)) s3 = Some (r, buf @ [], s4)" "r = (if q = buf then 0 else 1)"
    "fl s4 = (fl s3)\<lparr>meccd0 := d0, meccd1 := d1\<rparr>" "ready_at s4 \<le> clock s4"
    using slc_correct_near [OF assms(6), of s3 "ecc_code (ecc buf)" "[]"] s1(2) s2(2) s3(2,3) assms(7) by auto
  have "nand_read_page_hwecc (s3c_small_ops k HZ c) c out page n = Some (buf, count_stat r (n3\<lparr>dev := s4\<rparr>))"
  proof -
    have n3: "oob_poi n3 = sp" "dev n3 = s3" by (simp_all add: n3_def)
    have fixd: "correct_steps (s3c_small_ops k HZ c) c (ecc_code (ecc buf)) (ecc_steps c) 0 0 q n3 = Some (buf, count_stat r (n3\<lparr>dev := s4\<rparr>))"
      using s4(1) by (simp add: c correct_at_def n3 s3c_nand_correct_data_def)
    show ?thesis unfolding nand_read_page_hwecc_def steps by (simp only: oob bind.bind_lunit case_prod_conv n3 c(6,7) code fixd)
  qed
  then show ?thesis using s4(2-) s3(2) s2(2) s1(2) by (auto simp: count_stat_def n3_def n2_def n1_def)
qed

end

section \<open>Theorems\<close>

text \<open>A chip with small pages and states of the driver for the witness.\<close>

definition small_chip :: chip where
  "small_chip = tiny_chip\<lparr>writesize := 512, oobsize := 16, ecc_steps := 1, ecc_total := 4, ecc_layout := s3c_nand_oob_16\<rparr>"

definition small_nand :: "u8 \<Rightarrow> u8 list \<Rightarrow> sim nand" where
  "small_nand cmd reg = (tiny_nand (\<lambda>_. []))\<lparr>dev := \<lparr>sim_flash = (tiny_flash (\<lambda>_. []))\<lparr>preg := reg, fcmd := cmd, faddr := [0, 0, 0, 0, 0]\<rparr>,
     sim_now = 0, sim_until = 0\<rparr>, oob_poi := replicate 16 0xff\<rparr>"

lemma small_chip_slc [simp]: "slc_512 small_chip"
  by (simp add: slc_512_def small_chip_def tiny_chip_def)

lemma length_small_spare [simp]: "length oob = 16 \<Longrightarrow> length (small_spare ecc buf oob) = 16"
  by (simp add: small_spare_def)

lemma small_spare_code: "length oob = 16 \<Longrightarrow> take 4 (drop 1 (small_spare ecc buf oob)) = ecc_code (ecc buf)"
  by (simp add: small_spare_def)



text \<open>
  A raw write with syndromes sends no code bytes: with pads of no bytes, what reaches the chip are the data of the steps and the spare bytes
  after the codes.  The device here only records.
\<close>

definition recorder :: "(u8 list) page_ops" where
  "recorder = \<lparr>e_cmdfunc = \<lambda>_ _ _ n. Some n, e_waitfunc = \<lambda>n. Some (0xC0, n), e_read_buf = \<lambda>len n. (replicate len 0, n),
     e_write_buf = \<lambda>xs n. n\<lparr>dev := dev n @ xs\<rparr>, e_hwctl = \<lambda>_ n. n, e_calculate = \<lambda>_ n. Some ([], n), e_correct = \<lambda>dat _ _ n. Some (0, dat, n),
     e_read_page_raw = \<lambda>buf _ n. Some (buf, n), e_write_page_raw = \<lambda>_ n. Some n, e_prepad = 0, e_postpad = 0\<rparr>"

lemma raw_syndrome_write_sends:
  assumes "length (oob_poi n) = oobsize c" "oob + steps * ecc_bytes c \<le> oobsize c" "p + steps * ecc_size c \<le> length buf"
  shows "\<exists>n'. raw_syndrome_write recorder c buf steps p oob n = Some (oob + steps * ecc_bytes c, n') \<and>
    dev n' = dev n @ take (steps * ecc_size c) (drop p buf) \<and> length (oob_poi n') = oobsize c \<and>
    drop (oob + steps * ecc_bytes c) (oob_poi n') = drop (oob + steps * ecc_bytes c) (oob_poi n)"
  using assms
proof (induction steps arbitrary: p oob n)
  case (Suc steps)
  define n1 where "n1 = n\<lparr>dev := dev n @ take (ecc_size c) (drop p buf),
    oob_poi := take oob (oob_poi n) @ replicate (ecc_bytes c) 0 @ drop (oob + ecc_bytes c) (oob_poi n)\<rparr>"
  obtain n' where n': "raw_syndrome_write recorder c buf steps (p + ecc_size c) (oob + ecc_bytes c) n1 = Some (oob + ecc_bytes c + steps * ecc_bytes c, n')"
    "dev n' = dev n1 @ take (steps * ecc_size c) (drop (p + ecc_size c) buf)" "length (oob_poi n') = oobsize c"
    "drop (oob + ecc_bytes c + steps * ecc_bytes c) (oob_poi n') = drop (oob + ecc_bytes c + steps * ecc_bytes c) (oob_poi n1)"
    using Suc.IH [of n1 "oob + ecc_bytes c" "p + ecc_size c"] Suc.prems by (auto simp: n1_def algebra_simps)
  have step: "raw_syndrome_write recorder c buf (Suc steps) p oob n = raw_syndrome_write recorder c buf steps (p + ecc_size c) (oob + ecc_bytes c) n1"
    using Suc.prems by (simp add: recorder_def get_bytes_def put_bytes_def read_oob_at_def pad_def n1_def)
  have "take (ecc_size c) (drop p buf) @ take (steps * ecc_size c) (drop (p + ecc_size c) buf) = take (ecc_size c + steps * ecc_size c) (drop p buf)"
    by (simp add: take_add add.commute)
  moreover have "drop (oob + ecc_bytes c + steps * ecc_bytes c) (oob_poi n1) = drop (oob + ecc_bytes c + steps * ecc_bytes c) (oob_poi n)"
    using Suc.prems by (simp add: n1_def min_def ac_simps)
  ultimately show ?case using n' step by (simp add: n1_def algebra_simps)
qed simp

lemma raw_syndrome_drops_codes:
  assumes "length (oob_poi n) = oobsize c" "ecc_steps c * ecc_bytes c \<le> oobsize c" "ecc_steps c * ecc_size c \<le> length buf" "dev n = []"
  shows "\<exists>n'. nand_write_page_raw_syndrome recorder c buf n = Some n' \<and>
    dev n' = take (ecc_steps c * ecc_size c) buf @ drop (ecc_steps c * ecc_bytes c) (oob_poi n)"
proof -
  obtain n' where n': "raw_syndrome_write recorder c buf (ecc_steps c) 0 0 n = Some (ecc_steps c * ecc_bytes c, n')"
    "dev n' = take (ecc_steps c * ecc_size c) buf" "length (oob_poi n') = oobsize c"
    "drop (ecc_steps c * ecc_bytes c) (oob_poi n') = drop (ecc_steps c * ecc_bytes c) (oob_poi n)"
    using raw_syndrome_write_sends [of n c 0 "ecc_steps c" 0 buf] assms by auto
  have "rest_of_oob write_oob_at recorder c (ecc_steps c * ecc_bytes c) n' = Some (n'\<lparr>dev := dev n' @ drop (ecc_steps c * ecc_bytes c) (oob_poi n)\<rparr>)"
    using n'(3) assms(1,2) by (auto simp: rest_of_oob_def write_oob_at_def get_bytes_def recorder_def n'(4) [symmetric])
  then show ?thesis using n'(1,2) by (simp add: nand_write_page_raw_syndrome_def)
qed

end
