(* ===== verification/SoftEcc.thy ===== *)
theory SoftEcc
  imports NandPage
begin

text \<open>
  The software error correction of \<open>linux-2.6.38/drivers/mtd/nand/nand_ecc.c\<close>, which \<open>nand_base.c\<close> uses when the driver is built
  without hardware ECC: three bytes of code for 256 or 512 bytes of data.  The code is computed by an unrolled loop over words and a table of
  parities; the theorems show that it is the Hamming code of its reference definition, that every single error is corrected, and that
  every double error in the data is detected.

  Configuration \<open>CONFIG_MTD_NAND_ECC_SMC\<close>, which swaps two code bytes, is an argument.  The processor is little endian.
\<close>

section \<open>Tables\<close>

definition invparity :: "u8 list" where
  "invparity = [
     1, 0, 0, 1, 0, 1, 1, 0, 0, 1, 1, 0, 1, 0, 0, 1, 0, 1, 1, 0, 1, 0, 0, 1, 1, 0, 0, 1, 0, 1, 1, 0,
     0, 1, 1, 0, 1, 0, 0, 1, 1, 0, 0, 1, 0, 1, 1, 0, 1, 0, 0, 1, 0, 1, 1, 0, 0, 1, 1, 0, 1, 0, 0, 1,
     0, 1, 1, 0, 1, 0, 0, 1, 1, 0, 0, 1, 0, 1, 1, 0, 1, 0, 0, 1, 0, 1, 1, 0, 0, 1, 1, 0, 1, 0, 0, 1,
     1, 0, 0, 1, 0, 1, 1, 0, 0, 1, 1, 0, 1, 0, 0, 1, 0, 1, 1, 0, 1, 0, 0, 1, 1, 0, 0, 1, 0, 1, 1, 0,
     0, 1, 1, 0, 1, 0, 0, 1, 1, 0, 0, 1, 0, 1, 1, 0, 1, 0, 0, 1, 0, 1, 1, 0, 0, 1, 1, 0, 1, 0, 0, 1,
     1, 0, 0, 1, 0, 1, 1, 0, 0, 1, 1, 0, 1, 0, 0, 1, 0, 1, 1, 0, 1, 0, 0, 1, 1, 0, 0, 1, 0, 1, 1, 0,
     1, 0, 0, 1, 0, 1, 1, 0, 0, 1, 1, 0, 1, 0, 0, 1, 0, 1, 1, 0, 1, 0, 0, 1, 1, 0, 0, 1, 0, 1, 1, 0,
     0, 1, 1, 0, 1, 0, 0, 1, 1, 0, 0, 1, 0, 1, 1, 0, 1, 0, 0, 1, 0, 1, 1, 0, 0, 1, 1, 0, 1, 0, 0, 1]"

definition bitsperbyte :: "u8 list" where
  "bitsperbyte = [
     0, 1, 1, 2, 1, 2, 2, 3, 1, 2, 2, 3, 2, 3, 3, 4, 1, 2, 2, 3, 2, 3, 3, 4, 2, 3, 3, 4, 3, 4, 4, 5,
     1, 2, 2, 3, 2, 3, 3, 4, 2, 3, 3, 4, 3, 4, 4, 5, 2, 3, 3, 4, 3, 4, 4, 5, 3, 4, 4, 5, 4, 5, 5, 6,
     1, 2, 2, 3, 2, 3, 3, 4, 2, 3, 3, 4, 3, 4, 4, 5, 2, 3, 3, 4, 3, 4, 4, 5, 3, 4, 4, 5, 4, 5, 5, 6,
     2, 3, 3, 4, 3, 4, 4, 5, 3, 4, 4, 5, 4, 5, 5, 6, 3, 4, 4, 5, 4, 5, 5, 6, 4, 5, 5, 6, 5, 6, 6, 7,
     1, 2, 2, 3, 2, 3, 3, 4, 2, 3, 3, 4, 3, 4, 4, 5, 2, 3, 3, 4, 3, 4, 4, 5, 3, 4, 4, 5, 4, 5, 5, 6,
     2, 3, 3, 4, 3, 4, 4, 5, 3, 4, 4, 5, 4, 5, 5, 6, 3, 4, 4, 5, 4, 5, 5, 6, 4, 5, 5, 6, 5, 6, 6, 7,
     2, 3, 3, 4, 3, 4, 4, 5, 3, 4, 4, 5, 4, 5, 5, 6, 3, 4, 4, 5, 4, 5, 5, 6, 4, 5, 5, 6, 5, 6, 6, 7,
     3, 4, 4, 5, 4, 5, 5, 6, 4, 5, 5, 6, 5, 6, 6, 7, 4, 5, 5, 6, 5, 6, 6, 7, 5, 6, 6, 7, 6, 7, 7, 8]"

definition addressbits :: "u8 list" where
  "addressbits = [
     0, 0, 1, 1, 0, 0, 1, 1, 2, 2, 3, 3, 2, 2, 3, 3, 0, 0, 1, 1, 0, 0, 1, 1, 2, 2, 3, 3, 2, 2, 3, 3,
     4, 4, 5, 5, 4, 4, 5, 5, 6, 6, 7, 7, 6, 6, 7, 7, 4, 4, 5, 5, 4, 4, 5, 5, 6, 6, 7, 7, 6, 6, 7, 7,
     0, 0, 1, 1, 0, 0, 1, 1, 2, 2, 3, 3, 2, 2, 3, 3, 0, 0, 1, 1, 0, 0, 1, 1, 2, 2, 3, 3, 2, 2, 3, 3,
     4, 4, 5, 5, 4, 4, 5, 5, 6, 6, 7, 7, 6, 6, 7, 7, 4, 4, 5, 5, 4, 4, 5, 5, 6, 6, 7, 7, 6, 6, 7, 7,
     8, 8, 9, 9, 8, 8, 9, 9, 10, 10, 11, 11, 10, 10, 11, 11, 8, 8, 9, 9, 8, 8, 9, 9, 10, 10, 11, 11, 10, 10, 11, 11,
     12, 12, 13, 13, 12, 12, 13, 13, 14, 14, 15, 15, 14, 14, 15, 15, 12, 12, 13, 13, 12, 12, 13, 13, 14, 14, 15, 15, 14, 14, 15, 15,
     8, 8, 9, 9, 8, 8, 9, 9, 10, 10, 11, 11, 10, 10, 11, 11, 8, 8, 9, 9, 8, 8, 9, 9, 10, 10, 11, 11, 10, 10, 11, 11,
     12, 12, 13, 13, 12, 12, 13, 13, 14, 14, 15, 15, 14, 14, 15, 15, 12, 12, 13, 13, 12, 12, 13, 13, 14, 14, 15, 15, 14, 14, 15, 15]"

section \<open>The code\<close>

text \<open>The accumulated parities, and one pass of the unrolled loop over the sixteen words at \<open>bp\<close>.\<close>

record ecc_vars =
  rp4 :: u32
  rp6 :: u32
  rp8 :: u32
  rp10 :: u32
  rp12 :: u32
  rp14 :: u32
  rp16 :: u32
  par :: u32

definition ecc_round :: "nat \<Rightarrow> nat \<Rightarrow> (nat \<Rightarrow> u32) \<Rightarrow> ecc_vars \<Rightarrow> ecc_vars" where
  "ecc_round eccsize_mult i w v =
     (let r4 = rp4 v; r6 = rp6 v; r8 = rp8 v; r10 = rp10 v; r12 = rp12 v; r14 = rp14 v; r16 = rp16 v; r = par v;
          cur = w 0; tmppar = cur; r4 = r4 XOR cur;
          cur = w 1; tmppar = tmppar XOR cur; r6 = r6 XOR tmppar;
          cur = w 2; tmppar = tmppar XOR cur; r4 = r4 XOR cur;
          cur = w 3; tmppar = tmppar XOR cur; r8 = r8 XOR tmppar;
          cur = w 4; tmppar = tmppar XOR cur; r4 = r4 XOR cur; r6 = r6 XOR cur;
          cur = w 5; tmppar = tmppar XOR cur; r6 = r6 XOR cur;
          cur = w 6; tmppar = tmppar XOR cur; r4 = r4 XOR cur;
          cur = w 7; tmppar = tmppar XOR cur; r10 = r10 XOR tmppar;
          cur = w 8; tmppar = tmppar XOR cur; r4 = r4 XOR cur; r6 = r6 XOR cur; r8 = r8 XOR cur;
          cur = w 9; tmppar = tmppar XOR cur; r6 = r6 XOR cur; r8 = r8 XOR cur;
          cur = w 10; tmppar = tmppar XOR cur; r4 = r4 XOR cur; r8 = r8 XOR cur;
          cur = w 11; tmppar = tmppar XOR cur; r8 = r8 XOR cur;
          cur = w 12; tmppar = tmppar XOR cur; r4 = r4 XOR cur; r6 = r6 XOR cur;
          cur = w 13; tmppar = tmppar XOR cur; r6 = r6 XOR cur;
          cur = w 14; tmppar = tmppar XOR cur; r4 = r4 XOR cur;
          cur = w 15; tmppar = tmppar XOR cur;
          r = r XOR tmppar;
          r12 = (if of_nat i AND (0x1 :: u32) = 0 then r12 XOR tmppar else r12);
          r14 = (if of_nat i AND (0x2 :: u32) = 0 then r14 XOR tmppar else r14);
          r16 = (if eccsize_mult = 2 \<and> of_nat i AND (0x4 :: u32) = 0 then r16 XOR tmppar else r16)
      in \<lparr>rp4 = r4, rp6 = r6, rp8 = r8, rp10 = r10, rp12 = r12, rp14 = r14, rp16 = r16, par = r\<rparr>)"

definition word_at :: "u8 list \<Rightarrow> nat \<Rightarrow> u32" where
  "word_at buf k = ucast (buf ! (4 * k)) OR push_bit 8 (ucast (buf ! (4 * k + 1))) OR push_bit 16 (ucast (buf ! (4 * k + 2))) OR
     push_bit 24 (ucast (buf ! (4 * k + 3)))"

definition ecc_loop :: "nat \<Rightarrow> u8 list \<Rightarrow> nat \<Rightarrow> ecc_vars" where
  "ecc_loop eccsize_mult buf n =
     fold (\<lambda>i. ecc_round eccsize_mult i (\<lambda>k. word_at buf (16 * i + k))) [0..<n]
       \<lparr>rp4 = 0, rp6 = 0, rp8 = 0, rp10 = 0, rp12 = 0, rp14 = 0, rp16 = 0, par = 0\<rparr>"

text \<open>\<open>rp ^= rp >> 16; rp ^= rp >> 8; rp &= 0xff;\<close>\<close>

definition to_byte :: "u32 \<Rightarrow> u32" where
  "to_byte r = (let r = r XOR drop_bit 16 r; r = r XOR drop_bit 8 r in r AND 0xff)"

definition invp :: "u32 \<Rightarrow> u8" where
  "invp r = invparity ! unat r"

definition code_byte :: "u32 \<Rightarrow> u32 \<Rightarrow> u32 \<Rightarrow> u32 \<Rightarrow> u32 \<Rightarrow> u32 \<Rightarrow> u32 \<Rightarrow> u32 \<Rightarrow> u8" where
  "code_byte r7 r6 r5 r4 r3 r2 r1 r0 =
     push_bit 7 (invp r7) OR push_bit 6 (invp r6) OR push_bit 5 (invp r5) OR push_bit 4 (invp r4) OR
     push_bit 3 (invp r3) OR push_bit 2 (invp r2) OR push_bit 1 (invp r1) OR invp r0"

text \<open>
  With another size than 256 or 512 the code would be made of \<open>rp17\<close>, which is not initialised then: no value.
\<close>

definition calculate_ecc :: "bool \<Rightarrow> u8 list \<Rightarrow> u32 \<Rightarrow> u8 list option" where
  "calculate_ecc smc buf eccsize =
     (let eccsize_mult = unat (drop_bit 8 eccsize)
      in if eccsize_mult \<noteq> 1 \<and> eccsize_mult \<noteq> 2 \<or> length buf < 256 * eccsize_mult then None
         else
           (let v = ecc_loop eccsize_mult buf (eccsize_mult * 4);
                rp4 = to_byte (rp4 v); rp6 = to_byte (rp6 v); rp8 = to_byte (rp8 v); rp10 = to_byte (rp10 v);
                rp12 = to_byte (rp12 v); rp14 = to_byte (rp14 v);
                rp16 = (if eccsize_mult = 2 then to_byte (rp16 v) else rp16 v);
                par = par v;
                rp3 = drop_bit 16 par; rp3 = rp3 XOR drop_bit 8 rp3; rp3 = rp3 AND 0xff;
                rp2 = par AND 0xffff; rp2 = rp2 XOR drop_bit 8 rp2; rp2 = rp2 AND 0xff;
                par = par XOR drop_bit 16 par;
                rp1 = drop_bit 8 par AND 0xff; rp0 = par AND 0xff;
                par = par XOR drop_bit 8 par; par = par AND 0xff;
                rp5 = (par XOR rp4) AND 0xff; rp7 = (par XOR rp6) AND 0xff; rp9 = (par XOR rp8) AND 0xff;
                rp11 = (par XOR rp10) AND 0xff; rp13 = (par XOR rp12) AND 0xff; rp15 = (par XOR rp14) AND 0xff;
                rp17 = (par XOR rp16) AND 0xff;
                low = code_byte rp7 rp6 rp5 rp4 rp3 rp2 rp1 rp0;
                high = code_byte rp15 rp14 rp13 rp12 rp11 rp10 rp9 rp8;
                columns = push_bit 7 (invp (par AND 0xf0)) OR push_bit 6 (invp (par AND 0x0f)) OR push_bit 5 (invp (par AND 0xcc)) OR
                  push_bit 4 (invp (par AND 0x33)) OR push_bit 3 (invp (par AND 0xaa)) OR push_bit 2 (invp (par AND 0x55));
                last = (if eccsize_mult = 1 then columns OR 3 else columns OR push_bit 1 (invp rp17) OR invp rp16)
            in Some (if smc then [low, high, last] else [high, low, last])))"

definition nand_calculate_ecc :: "bool \<Rightarrow> chip \<Rightarrow> u8 list \<Rightarrow> u8 list option" where
  "nand_calculate_ecc smc c buf = calculate_ecc smc buf (of_nat (ecc_size c))"

section \<open>Correction\<close>

definition is_single :: "u8 \<Rightarrow> u8 \<Rightarrow> bool" where
  "is_single m b \<longleftrightarrow> (b XOR drop_bit 1 b) AND m = m"

definition correct_data :: "bool \<Rightarrow> u8 list \<Rightarrow> u8 list \<Rightarrow> u8 list \<Rightarrow> u32 \<Rightarrow> (int \<times> u8 list) option" where
  "correct_data smc buf read_ecc calc_ecc eccsize =
     (let eccsize_mult = drop_bit 8 eccsize
      in if length read_ecc < 3 \<or> length calc_ecc < 3 then None
         else
           (let x = (\<lambda>i. read_ecc ! i XOR calc_ecc ! i);
                b0 = (if smc then x 0 else x 1); b1 = (if smc then x 1 else x 0); b2 = x 2
            in if b0 OR b1 OR b2 = 0 then Some (0, buf)
               else if is_single 0x55 b0 \<and> is_single 0x55 b1 \<and>
                 (eccsize_mult = 1 \<and> is_single 0x54 b2 \<or> eccsize_mult = 2 \<and> is_single 0x55 b2) then
                 (let a = (\<lambda>b. unat (addressbits ! unat b));
                      byte_addr = (if eccsize_mult = 1 then a b1 * 16 + a b0 else a (b2 AND 0x3) * 256 + a b1 * 16 + a b0);
                      bit_addr = a (drop_bit 2 b2)
                  in case xor_byte buf byte_addr (push_bit bit_addr 1) of
                       None \<Rightarrow> None
                     | Some buf \<Rightarrow> Some (1, buf))
               else if unat (bitsperbyte ! unat b0) + unat (bitsperbyte ! unat b1) + unat (bitsperbyte ! unat b2) = 1 then Some (1, buf)
               else Some (- 1, buf)))"

definition nand_correct_data :: "bool \<Rightarrow> chip \<Rightarrow> u8 list \<Rightarrow> u8 list \<Rightarrow> u8 list \<Rightarrow> (int \<times> u8 list) option" where
  "nand_correct_data smc c buf read_ecc calc_ecc = correct_data smc buf read_ecc calc_ecc (of_nat (ecc_size c))"

section \<open>Parities\<close>

text \<open>Whether an odd number of the elements of a set have a property.\<close>

definition oddly :: "'a set \<Rightarrow> ('a \<Rightarrow> bool) \<Rightarrow> bool" where
  "oddly A p \<longleftrightarrow> odd (\<Sum>x\<in>A. of_bool (p x) :: nat)"

lemma oddly_empty [simp]: "\<not> oddly {} p" and oddly_infinite [simp]: "infinite A \<Longrightarrow> \<not> oddly A p"
  and oddly_insert [simp]: "finite A \<Longrightarrow> x \<notin> A \<Longrightarrow> oddly (insert x A) p \<longleftrightarrow> p x \<noteq> oddly A p"
  by (simp_all add: oddly_def del: sum_of_bool_eq)

lemma oddly_xor: "oddly A (\<lambda>x. p x \<noteq> q x) \<longleftrightarrow> oddly A p \<noteq> oddly A q"
  by (induction A rule: infinite_finite_induct) auto

lemma oddly_False [simp]: "\<not> oddly A (\<lambda>_. False)"
  by (simp add: oddly_def)

lemma oddly_conj: "oddly A (\<lambda>x. c \<and> p x) \<longleftrightarrow> c \<and> oddly A p"
  by (cases c) simp_all

lemma oddly_Times:
  assumes "finite A" "finite B"
  shows "oddly A (\<lambda>x. oddly B (p x)) \<longleftrightarrow> oddly (A \<times> B) (\<lambda>(x, y). p x y)"
proof -
  have "oddly A (\<lambda>x. odd (f x)) = odd (sum f A)" for f :: "'a \<Rightarrow> nat"
    using assms(1) by (induction A rule: finite_induct) auto
  then show ?thesis by (simp add: oddly_def [of B] oddly_def [of "A \<times> B"] sum.cartesian_product case_prod_beta del: sum_of_bool_eq)
qed

lemma oddly_bij: "bij_betw h A B \<Longrightarrow> oddly B p \<longleftrightarrow> oddly A (\<lambda>x. p (h x))"
  unfolding oddly_def using sum.reindex_bij_betw [of h A B "\<lambda>x. of_bool (p x) :: nat"] by metis

lemma oddly_cong: "A = B \<Longrightarrow> (\<And>x. x \<in> B \<Longrightarrow> p x = q x) \<Longrightarrow> oddly A p = oddly B q"
  unfolding oddly_def by (intro arg_cong [of _ _ odd] sum.cong) simp_all

lemma oddly_single: "finite A \<Longrightarrow> x \<in> A \<Longrightarrow> oddly A (\<lambda>y. y = x \<and> p y) \<longleftrightarrow> p x"
proof -
  assume "finite A" "x \<in> A"
  moreover have "oddly (A - {x}) (\<lambda>y. y = x \<and> p y) = oddly (A - {x}) (\<lambda>_. False)" by (intro oddly_cong) auto
  ultimately show ?thesis using oddly_insert [of "A - {x}" x "\<lambda>y. y = x \<and> p y"] by (simp add: insert_absorb)
qed

lemma oddly_lessThan_Suc: "oddly {..<Suc n} p \<longleftrightarrow> oddly {..<n} p \<noteq> p n"
  by (auto simp: lessThan_Suc)

lemma oddly_split: "oddly {..<n + m} p \<longleftrightarrow> oddly {..<n} p \<noteq> oddly {..<m} (\<lambda>j. p (n + j))" for n m :: nat
  by (induction m) (auto simp: oddly_lessThan_Suc)

lemma fold_half:
  fixes r :: u32
  assumes "n \<le> 16"
  shows "oddly {..<n} (bit (r XOR drop_bit n r)) \<longleftrightarrow> oddly {..<n + n} (bit r)"
  unfolding oddly_split oddly_xor [symmetric] using assms by (intro oddly_cong) (auto simp: bit_simps)

lemma mask_byte: "oddly {..<8} (bit (r AND 0xff :: u32)) = oddly {..<8} (bit r)"
proof -
  have ff: "(0xff :: u32) = mask 8" by (simp add: mask_eq_exp_minus_1)
  show ?thesis unfolding ff by (intro oddly_cong) (auto simp: bit_simps)
qed

lemma to_byte_parity: "oddly {..<8} (bit (to_byte r)) = oddly {..<32} (bit r)"
  using fold_half [of 8 "r XOR drop_bit 16 r"] fold_half [of 16 r] by (simp add: to_byte_def mask_byte Let_def)

lemma unat_and_ff: "unat (r AND 0xff :: u32) < 256"
  using word_and_le1 [of r "0xff"] by (simp add: word_le_nat_alt)

text \<open>The tables are built by doubling: the second half repeats the first with the effect of one more bit.\<close>

primrec doubled :: "(nat \<Rightarrow> u8 \<Rightarrow> u8) \<Rightarrow> nat \<Rightarrow> u8 list" where
  "doubled f 0 = [0]"
| "doubled f (Suc k) = doubled f k @ map (f k) (doubled f k)"

lemma length_doubled [simp]: "length (doubled f k) = 2 ^ k"
  by (induction k) simp_all

lemma nth_doubled: "n < 2 ^ k \<Longrightarrow> doubled f k ! n = fold (\<lambda>j y. if bit n j then f j y else y) [0..<k] 0"
proof (induction k arbitrary: n)
  case (Suc k)
  have low: "fold (\<lambda>j y. if bit (take_bit k n) j then f j y else y) [0..<k] 0 = fold (\<lambda>j y. if bit n j then f j y else y) [0..<k] 0"
    by (intro fold_cong) (auto simp: bit_simps)
  show ?case
  proof (cases "n < 2 ^ k")
    case True
    then have "\<not> bit n k" by (simp add: bit_iff_odd)
    then show ?thesis using Suc.IH [OF True] True by (simp add: nth_append)
  next
    case False
    then have n: "take_bit k n = n - 2 ^ k" using Suc.prems by (simp add: take_bit_eq_mod mod_if)
    have "n div 2 ^ k = 1" using False Suc.prems by (intro div_nat_eqI) auto
    then have "bit n k" by (simp add: bit_iff_odd)
    moreover have "n - 2 ^ k < 2 ^ k" using Suc.prems by simp
    ultimately show ?thesis using Suc.IH [of "n - 2 ^ k"] False low n by (simp add: nth_append)
  qed
qed simp

lemma invparity_table: "invparity = map (\<lambda>y. 1 - y) (doubled (\<lambda>_ y. 1 - y) 8)"
  by code_simp

lemma bitsperbyte_table: "bitsperbyte = doubled (\<lambda>j y. y + of_nat ([1, 1, 1, 1, 1, 1, 1, 1] ! j)) 8"
  by code_simp

lemma addressbits_table: "addressbits = doubled (\<lambda>j y. y + of_nat ([0, 1, 0, 2, 0, 4, 0, 8] ! j)) 8"
  by code_simp

lemma doubled_sum:
  assumes "n < 2 ^ k" "(\<Sum>j<k. g j) < 256"
  shows "unat (doubled (\<lambda>j y. y + of_nat (g j)) k ! n) = (\<Sum>j<k. of_bool (bit n j) * g j)"
proof -
  have "fold (\<lambda>j y. if bit n j then y + of_nat (g j) else y) [0..<k] 0 = (of_nat (\<Sum>j<k. of_bool (bit n j) * g j) :: u8)" for k
    by (induction k) simp_all
  moreover have "(\<Sum>j<k. of_bool (bit n j) * g j) \<le> (\<Sum>j<k. g j)" by (intro sum_mono) simp
  ultimately show ?thesis using assms by (simp add: nth_doubled unat_of_nat del: of_nat_sum of_nat_mult)
qed

lemma invp_parity:
  assumes "unat r < 256"
  shows "invp r = of_bool (\<not> oddly {..<8} (bit r))"
proof -
  have "fold (\<lambda>j y. if p j then 1 - y else y) [0..<k] 0 = (of_bool (oddly {..<k} p) :: u8)" for p and k :: nat
    by (induction k) (auto simp: oddly_lessThan_Suc)
  moreover have "bit (unat r) = bit r" by (simp add: fun_eq_iff bit_unsigned_iff bit_imp_le_length)
  ultimately show ?thesis using assms nth_doubled [of "unat r" 8 "\<lambda>_ y. 1 - y"] by (simp add: invp_def invparity_table)
qed

section \<open>The reference code\<close>

text \<open>
  A bit of the data has an address: the number of its bit in the lowest three bits, the number of its byte above.  For each bit of the address the
  code has the inverted parities of the two halves of the data that it separates.
\<close>

definition half :: "nat \<Rightarrow> u8 list \<Rightarrow> nat \<Rightarrow> bool \<Rightarrow> bool" where
  "half m xs a v = oddly ({..<256 * m} \<times> {..<8}) (\<lambda>(i, j). bit (8 * i + j) a = v \<and> bit (xs ! i) j)"

definition halves :: "nat \<Rightarrow> u8 list \<Rightarrow> nat list \<Rightarrow> u8" where
  "halves m xs as = horner_sum of_bool 2 (concat (map (\<lambda>a. [\<not> half m xs a False, \<not> half m xs a True]) as))"

definition hamming :: "bool \<Rightarrow> nat \<Rightarrow> u8 list \<Rightarrow> u8 list" where
  "hamming smc m xs =
     (let low = halves m xs [3, 4, 5, 6]; high = halves m xs [7, 8, 9, 10];
          last = (if m = 1 then push_bit 2 (halves m xs [0, 1, 2]) OR 3 else halves m xs [11, 0, 1, 2])
      in if smc then [low, high, last] else [high, low, last])"

section \<open>The loop\<close>

text \<open>The sum of the words whose number has a property.\<close>

primrec xor_words :: "(nat \<Rightarrow> bool) \<Rightarrow> (nat \<Rightarrow> u32) \<Rightarrow> nat \<Rightarrow> u32" where
  "xor_words q w 0 = 0"
| "xor_words q w (Suc n) = xor_words q w n XOR (if q n then w n else 0)"

lemma xor_words_numeral:
  "xor_words q w (numeral k) = xor_words q w (pred_numeral k) XOR (if q (pred_numeral k) then w (pred_numeral k) else 0)"
  by (simp add: numeral_eq_Suc)

lemma bit_xor_words: "bit (xor_words q w n) m \<longleftrightarrow> oddly {..<n} (\<lambda>k. q k \<and> bit (w k) m)"
  by (induction n) (auto simp: oddly_lessThan_Suc bit_simps)

lemma bit_group:
  fixes i c :: nat
  assumes "c < 16"
  shows "bit (16 * i + c) a = (if a < 4 then bit c a else bit i (a - 4))"
proof (cases "a < 4")
  case True
  define d where "d = 2 ^ (3 - a) * i"
  have i: "16 * i = (2 * d) * 2 ^ a"
  proof -
    have "(2 :: nat) ^ (3 - a) * 2 ^ a = 8" using True by (simp add: power_add [symmetric])
    then have "2 * d * 2 ^ a = 2 * i * 8" unfolding d_def by (metis mult.assoc mult.commute)
    then show ?thesis by simp
  qed
  have "(16 * i + c) div 2 ^ a = 2 * d + c div 2 ^ a" unfolding i by (rule div_mult_self3) simp
  then show ?thesis using True by (simp add: bit_iff_odd)
next
  case False
  then have "(2 :: nat) ^ a = 16 * 2 ^ (a - 4)" using power_add [of "2 :: nat" 4 "a - 4"] by simp
  then show ?thesis using False assms by (simp add: bit_iff_odd div_mult2_eq)
qed

lemma xor_words_16:
  assumes "\<And>c. c < 16 \<Longrightarrow> q (16 * i + c) = q' c"
  shows "xor_words q w (16 * Suc i) = xor_words q w (16 * i) XOR xor_words q' (\<lambda>c. w (16 * i + c)) 16"
proof -
  have "n \<le> 16 \<Longrightarrow> xor_words q w (16 * i + n) = xor_words q w (16 * i) XOR xor_words q' (\<lambda>c. w (16 * i + c)) n" for n
    using assms by (induction n) (auto simp: xor.assoc)
  from this [of 16] show ?thesis by (simp add: add.commute)
qed

lemma round_sums:
  "rp4 (ecc_round m i w v) = rp4 v XOR xor_words (\<lambda>c. \<not> bit c 0) w 16"
  "rp6 (ecc_round m i w v) = rp6 v XOR xor_words (\<lambda>c. \<not> bit c 1) w 16"
  "rp8 (ecc_round m i w v) = rp8 v XOR xor_words (\<lambda>c. \<not> bit c 2) w 16"
  "rp10 (ecc_round m i w v) = rp10 v XOR xor_words (\<lambda>c. \<not> bit c 3) w 16"
  "rp12 (ecc_round m i w v) = rp12 v XOR xor_words (\<lambda>c. \<not> bit i 0) w 16"
  "rp14 (ecc_round m i w v) = rp14 v XOR xor_words (\<lambda>c. \<not> bit i 1) w 16"
  "m = 2 \<Longrightarrow> rp16 (ecc_round m i w v) = rp16 v XOR xor_words (\<lambda>c. \<not> bit i 2) w 16"
  "par (ecc_round m i w v) = par v XOR xor_words (\<lambda>c. True) w 16"
proof -
  have a: "of_nat i AND (1 :: u32) = 0 \<longleftrightarrow> \<not> bit i 0" "of_nat i AND (2 :: u32) = 0 \<longleftrightarrow> \<not> bit i 1" "of_nat i AND (4 :: u32) = 0 \<longleftrightarrow> \<not> bit i 2"
    using and_exp_eq_0_iff_not_bit [of "of_nat i :: u32" 0] and_exp_eq_0_iff_not_bit [of "of_nat i :: u32" 1]
      and_exp_eq_0_iff_not_bit [of "of_nat i :: u32" 2] by (simp_all add: bit_of_nat_iff)
  note s = ecc_round_def Let_def a xor_words_numeral bit_iff_odd
  note x = xor.assoc xor.commute xor.left_commute
  show "rp4 (ecc_round m i w v) = rp4 v XOR xor_words (\<lambda>c. \<not> bit c 0) w 16" by (simp add: s) (simp add: x)
  show "rp6 (ecc_round m i w v) = rp6 v XOR xor_words (\<lambda>c. \<not> bit c 1) w 16" by (simp add: s) (simp add: x)
  show "rp8 (ecc_round m i w v) = rp8 v XOR xor_words (\<lambda>c. \<not> bit c 2) w 16" by (simp add: s) (simp add: x)
  show "rp10 (ecc_round m i w v) = rp10 v XOR xor_words (\<lambda>c. \<not> bit c 3) w 16" by (simp add: s)
  show "rp12 (ecc_round m i w v) = rp12 v XOR xor_words (\<lambda>c. \<not> bit i 0) w 16" by (simp add: s)
  show "rp14 (ecc_round m i w v) = rp14 v XOR xor_words (\<lambda>c. \<not> bit i 1) w 16" by (simp add: s)
  show "m = 2 \<Longrightarrow> rp16 (ecc_round m i w v) = rp16 v XOR xor_words (\<lambda>c. \<not> bit i 2) w 16" by (simp add: s)
  show "par (ecc_round m i w v) = par v XOR xor_words (\<lambda>c. True) w 16" by (simp add: s)
qed

lemma loop_sum:
  assumes "f \<lparr>rp4 = 0, rp6 = 0, rp8 = 0, rp10 = 0, rp12 = 0, rp14 = 0, rp16 = 0, par = 0\<rparr> = 0"
    and "\<And>i w v. f (ecc_round m i w v) = f v XOR xor_words (q' i) w 16" "\<And>i c. c < 16 \<Longrightarrow> q (16 * i + c) = q' i c"
  shows "f (ecc_loop m buf n) = xor_words q (word_at buf) (16 * n)"
proof (induction n)
  case (Suc n)
  then show ?case using assms(2) xor_words_16 [of q n "q' n", OF assms(3)] by (simp add: ecc_loop_def)
qed (simp add: ecc_loop_def assms(1))

lemma loop_sums:
  "rp4 (ecc_loop m buf n) = xor_words (\<lambda>k. \<not> bit k 0) (word_at buf) (16 * n)"
  "rp6 (ecc_loop m buf n) = xor_words (\<lambda>k. \<not> bit k 1) (word_at buf) (16 * n)"
  "rp8 (ecc_loop m buf n) = xor_words (\<lambda>k. \<not> bit k 2) (word_at buf) (16 * n)"
  "rp10 (ecc_loop m buf n) = xor_words (\<lambda>k. \<not> bit k 3) (word_at buf) (16 * n)"
  "rp12 (ecc_loop m buf n) = xor_words (\<lambda>k. \<not> bit k 4) (word_at buf) (16 * n)"
  "rp14 (ecc_loop m buf n) = xor_words (\<lambda>k. \<not> bit k 5) (word_at buf) (16 * n)"
  "m = 2 \<Longrightarrow> rp16 (ecc_loop m buf n) = xor_words (\<lambda>k. \<not> bit k 6) (word_at buf) (16 * n)"
  "par (ecc_loop m buf n) = xor_words (\<lambda>k. True) (word_at buf) (16 * n)"
  by (rule loop_sum, simp, rule round_sums, simp_all add: bit_group)+

text \<open>The bits of the words are the bits of the bytes, so the parity of a word that was summed up is a parity over bytes and bits.\<close>

lemma bit_word_at:
  assumes "b < 4" "j < 8"
  shows "bit (word_at buf k) (8 * b + j) = bit (buf ! (4 * k + b)) j"
proof -
  have "bit (x :: u8) i \<Longrightarrow> i < 8" for x i using bit_imp_le_length [of x i] by simp
  then have "\<not> bit (x :: u8) i" if "8 \<le> i" for x i using that by fastforce
  moreover have "b = 0 \<or> b = 1 \<or> b = 2 \<or> b = 3" using assms(1) by auto
  ultimately show ?thesis using assms(2) by (elim disjE) (auto simp: word_at_def bit_simps)
qed

lemma summed_parity:
  "oddly {..<32} (\<lambda>l. r l \<and> bit (xor_words q (word_at buf) (64 * m)) l) \<longleftrightarrow>
   oddly ({..<256 * m} \<times> {..<8}) (\<lambda>(i, j). r (8 * (i mod 4) + j) \<and> q (i div 4) \<and> bit (buf ! i) j)"
proof -
  let ?h = "\<lambda>(i, j). (8 * (i mod 4) + j, i div 4 :: nat)"
  have b: "bij_betw ?h ({..<256 * m} \<times> {..<8}) ({..<32} \<times> {..<64 * m})"
    by (rule bij_betw_byWitness [where f' = "\<lambda>(l, k). (4 * k + l div 8, l mod 8)"]) (auto simp: less_mult_imp_div_less)
  have "oddly {..<32} (\<lambda>l. r l \<and> bit (xor_words q (word_at buf) (64 * m)) l) \<longleftrightarrow>
      oddly ({..<32} \<times> {..<64 * m}) (\<lambda>(l, k). r l \<and> q k \<and> bit (word_at buf k) l)"
    by (simp add: bit_xor_words oddly_conj [symmetric] oddly_Times)
  also have "\<dots> \<longleftrightarrow> oddly ({..<256 * m} \<times> {..<8}) (\<lambda>(i, j). r (8 * (i mod 4) + j) \<and> q (i div 4) \<and> bit (buf ! i) j)"
    unfolding oddly_bij [OF b] by (intro oddly_cong) (auto simp: bit_word_at)
  finally show ?thesis .
qed

lemma half_True: "half m xs a True \<longleftrightarrow> half m xs a False \<noteq> oddly ({..<256 * m} \<times> {..<8}) (\<lambda>(i, j). bit (xs ! i) j)"
  unfolding half_def oddly_xor [symmetric] by (intro oddly_cong) auto

lemma bit_address: "j < 8 \<Longrightarrow> bit (8 * i + j) a = (if a < 3 then bit j a else bit i (a - 3))" for i j :: nat
proof -
  assume "j < 8"
  moreover have "bit (2 * n) (Suc a) = bit n a" for n :: nat by (simp add: bit_double_iff)
  from this [of "8 * i + j"] this [of j] have "bit (16 * i + 2 * j) (Suc a) = bit (8 * i + j) a" "bit (2 * j) (Suc a) = bit j a" by simp_all
  ultimately show ?thesis using bit_group [of "2 * j" i "Suc a"] by (cases "a < 3") simp_all
qed

text \<open>The parities of the rows and columns, with every bit of the folded words traced back to the words.\<close>

lemma oddly_halves_sum:
  fixes n :: nat
  shows "oddly {..<n} (\<lambda>j. r j \<and> bit (x XOR drop_bit n x) j) \<longleftrightarrow> oddly {..<n + n} (\<lambda>l. r (l mod n) \<and> bit (x :: u32) l)"
  unfolding oddly_split oddly_xor [symmetric] by (intro oddly_cong) (auto simp: bit_simps)

lemma oddly_low: "oddly {..<n} p \<longleftrightarrow> oddly {..<n + m} (\<lambda>l. l < n \<and> p l)" for n m :: nat
proof -
  have "oddly {..<n} (\<lambda>l. l < n \<and> p l) = oddly {..<n} p" by (intro oddly_cong) auto
  then show ?thesis by (simp add: oddly_split)
qed

lemma oddly_high: "oddly {..<m} (\<lambda>l. p (n + l)) \<longleftrightarrow> oddly {..<n + m} (\<lambda>l. n \<le> l \<and> p l)" for n m :: nat
proof -
  have "oddly {..<n} (\<lambda>l. n \<le> l \<and> p l) = oddly {..<n} (\<lambda>_. False)" by (intro oddly_cong) auto
  then show ?thesis by (simp add: oddly_split)
qed

lemma byte_mask: "(0xff :: u32) = mask 8" "(0xffff :: u32) = mask 16"
  by (simp_all add: mask_eq_exp_minus_1)

lemma par_columns: "oddly {..<8} (\<lambda>j. r j \<and> bit (to_byte p) j) \<longleftrightarrow> oddly {..<32} (\<lambda>l. r (l mod 8) \<and> bit p l)"
proof -
  have "oddly {..<8} (\<lambda>j. r j \<and> bit (to_byte p) j) = oddly {..<8} (\<lambda>j. r j \<and> bit ((p XOR drop_bit 16 p) XOR drop_bit 8 (p XOR drop_bit 16 p)) j)"
    unfolding to_byte_def Let_def byte_mask by (intro oddly_cong) (auto simp: bit_and_iff bit_mask_iff)
  also have "\<dots> = oddly {..<16} (\<lambda>l. r (l mod 8) \<and> bit (p XOR drop_bit 16 p) l)" using oddly_halves_sum [of 8 r "p XOR drop_bit 16 p"] by simp
  also have "\<dots> = oddly {..<32} (\<lambda>l. r (l mod 16 mod 8) \<and> bit p l)" using oddly_halves_sum [of 16 "\<lambda>l. r (l mod 8)" p] by simp
  finally show ?thesis by (simp add: mod_mod_cancel)
qed

lemma par_rows:
  fixes p :: u32
  defines "y \<equiv> p XOR drop_bit 16 p"
  shows "oddly {..<8} (bit ((drop_bit 16 p XOR drop_bit 8 (drop_bit 16 p)) AND 0xff)) \<longleftrightarrow> oddly {..<32} (\<lambda>l. 16 \<le> l \<and> bit p l)"
    and "oddly {..<8} (bit ((p AND 0xffff XOR drop_bit 8 (p AND 0xffff)) AND 0xff)) \<longleftrightarrow> oddly {..<32} (\<lambda>l. l < 16 \<and> bit p l)"
    and "oddly {..<8} (bit (drop_bit 8 y AND 0xff)) \<longleftrightarrow> oddly {..<32} (\<lambda>l. 8 \<le> l mod 16 \<and> bit p l)"
    and "oddly {..<8} (bit (y AND 0xff)) \<longleftrightarrow> oddly {..<32} (\<lambda>l. l mod 16 < 8 \<and> bit p l)"
proof -
  have f: "oddly {..<8} (bit (x XOR drop_bit 8 x)) = oddly {..<16} (bit x)" for x :: u32 using fold_half [of 8 x] by simp
  have "oddly {..<16} (bit (drop_bit 16 p)) = oddly {..<16} (\<lambda>l. bit p (16 + l))" by (intro oddly_cong) (auto simp: bit_simps)
  then show "oddly {..<8} (bit ((drop_bit 16 p XOR drop_bit 8 (drop_bit 16 p)) AND 0xff)) \<longleftrightarrow> oddly {..<32} (\<lambda>l. 16 \<le> l \<and> bit p l)"
    using oddly_high [of 16 "bit p" 16] f [of "drop_bit 16 p"] by (simp add: mask_byte)
  have "oddly {..<16} (bit (p AND 0xffff)) = oddly {..<16} (bit p)"
    unfolding byte_mask by (intro oddly_cong) (auto simp: bit_and_iff bit_mask_iff)
  then show "oddly {..<8} (bit ((p AND 0xffff XOR drop_bit 8 (p AND 0xffff)) AND 0xff)) \<longleftrightarrow> oddly {..<32} (\<lambda>l. l < 16 \<and> bit p l)"
    unfolding mask_byte f using oddly_low [of 16 "bit p" 16] by simp
  have "oddly {..<8} (bit (drop_bit 8 y)) = oddly {..<8} (\<lambda>l. bit y (8 + l))" by (intro oddly_cong) (auto simp: bit_simps)
  then show "oddly {..<8} (bit (drop_bit 8 y AND 0xff)) \<longleftrightarrow> oddly {..<32} (\<lambda>l. 8 \<le> l mod 16 \<and> bit p l)"
    using oddly_high [of 8 "bit y" 8] oddly_halves_sum [of 16 "\<lambda>l. 8 \<le> l" p] by (simp add: mask_byte y_def)
  show "oddly {..<8} (bit (y AND 0xff)) \<longleftrightarrow> oddly {..<32} (\<lambda>l. l mod 16 < 8 \<and> bit p l)"
    using oddly_low [of 8 "bit y" 8] oddly_halves_sum [of 16 "\<lambda>l. l < 8" p] by (simp add: mask_byte y_def)
qed

lemma bit_words: "bit (i div 4) b = bit i (b + 2)" for i :: nat
  by (simp add: bit_iff_odd div_mult2_eq [symmetric] power_add mult.commute)

lemma word_row_even:
  "oddly {..<8} (bit (to_byte (xor_words (\<lambda>k. \<not> bit k b) (word_at buf) (64 * m)))) \<longleftrightarrow> half m buf (b + 5) False"
  using summed_parity [of "\<lambda>_. True" "\<lambda>k. \<not> bit k b" buf m]
  by (simp add: to_byte_parity half_def bit_words) (intro oddly_cong, auto simp: bit_address)

lemma all_rows:
  "oddly {..<8} (bit (to_byte (xor_words (\<lambda>k. True) (word_at buf) (64 * m)))) \<longleftrightarrow> oddly ({..<256 * m} \<times> {..<8}) (\<lambda>(i, j). bit (buf ! i) j)"
  using summed_parity [of "\<lambda>_. True" "\<lambda>k. True" buf m] by (simp add: to_byte_parity)

lemma word_row_odd:
  "oddly {..<8} (bit ((to_byte (xor_words (\<lambda>k. True) (word_at buf) (64 * m)) XOR
     to_byte (xor_words (\<lambda>k. \<not> bit k b) (word_at buf) (64 * m))) AND 0xff)) \<longleftrightarrow> half m buf (b + 5) True"
proof -
  have "oddly {..<8} (bit (x XOR y)) \<longleftrightarrow> oddly {..<8} (bit x) \<noteq> oddly {..<8} (bit y)" for x y :: u32
    unfolding oddly_xor [symmetric] by (intro oddly_cong) (auto simp: bit_simps)
  then show ?thesis unfolding mask_byte half_True by (auto simp: all_rows word_row_even)
qed

lemma part_of_par:
  assumes "\<And>i j. j < 8 \<Longrightarrow> r (8 * (i mod 4) + j) = (bit (8 * i + j) a = v)"
  shows "oddly {..<32} (\<lambda>l. r l \<and> bit (xor_words (\<lambda>k. True) (word_at buf) (64 * m)) l) \<longleftrightarrow> half m buf a v"
  unfolding summed_parity half_def using assms by (intro oddly_cong) auto

lemma byte_places:
  fixes i j :: nat
  assumes "j < 8"
  shows "16 \<le> 8 * (i mod 4) + j \<longleftrightarrow> bit (8 * i + j) 4 = True" "8 * (i mod 4) + j < 16 \<longleftrightarrow> bit (8 * i + j) 4 = False"
    "8 \<le> (8 * (i mod 4) + j) mod 16 \<longleftrightarrow> bit (8 * i + j) 3 = True" "(8 * (i mod 4) + j) mod 16 < 8 \<longleftrightarrow> bit (8 * i + j) 3 = False"
proof -
  have b: "bit i 1 \<longleftrightarrow> 2 \<le> i mod 4" "bit i 0 \<longleftrightarrow> i mod 2 = 1" by (simp_all add: bit_iff_odd) presburger+
  have "i mod 2 = i mod 4 mod 2" by (simp add: mod_mod_cancel)
  moreover have "i mod 4 < 4" by simp
  then have "i mod 4 = 0 \<or> i mod 4 = 1 \<or> i mod 4 = 2 \<or> i mod 4 = 3" by linarith
  ultimately have c: "16 \<le> 8 * (i mod 4) + j \<longleftrightarrow> 2 \<le> i mod 4" "8 \<le> (8 * (i mod 4) + j) mod 16 \<longleftrightarrow> i mod 2 = 1"
    using assms by (elim disjE; simp add: mod_if)+
  show "16 \<le> 8 * (i mod 4) + j \<longleftrightarrow> bit (8 * i + j) 4 = True" "8 \<le> (8 * (i mod 4) + j) mod 16 \<longleftrightarrow> bit (8 * i + j) 3 = True"
    using assms b c by (simp_all add: bit_address)
  then show "8 * (i mod 4) + j < 16 \<longleftrightarrow> bit (8 * i + j) 4 = False" "(8 * (i mod 4) + j) mod 16 < 8 \<longleftrightarrow> bit (8 * i + j) 3 = False"
    by (simp_all add: not_le [symmetric])
qed

lemma byte_rows:
  fixes buf :: "u8 list" and m :: nat
  defines "p \<equiv> xor_words (\<lambda>k. True) (word_at buf) (64 * m)"
  shows "oddly {..<8} (bit ((drop_bit 16 p XOR drop_bit 8 (drop_bit 16 p)) AND 0xff)) \<longleftrightarrow> half m buf 4 True"
    and "oddly {..<8} (bit ((p AND 0xffff XOR drop_bit 8 (p AND 0xffff)) AND 0xff)) \<longleftrightarrow> half m buf 4 False"
    and "oddly {..<8} (bit (drop_bit 8 (p XOR drop_bit 16 p) AND 0xff)) \<longleftrightarrow> half m buf 3 True"
    and "oddly {..<8} (bit ((p XOR drop_bit 16 p) AND 0xff)) \<longleftrightarrow> half m buf 3 False"
  unfolding par_rows p_def by (rule part_of_par, rule byte_places, assumption)+

lemma columns:
  assumes "\<And>j. j < 8 \<Longrightarrow> bit (x :: u32) j = (bit j a = v)" "a < 3"
  shows "oddly {..<8} (bit (to_byte (xor_words (\<lambda>k. True) (word_at buf) (64 * m)) AND x)) \<longleftrightarrow> half m buf a v"
proof -
  have "oddly {..<8} (bit (to_byte y AND x)) = oddly {..<8} (\<lambda>j. (bit j a = v) \<and> bit (to_byte y) j)" for y
    using assms(1) by (intro oddly_cong) (auto simp: bit_and_iff)
  then show ?thesis unfolding par_columns using assms(2) by (simp, intro part_of_par) (auto simp: bit_address)
qed

lemma column_masks:
  assumes "j < 8"
  shows "bit (0xf0 :: u32) j = (bit j 2 = True)" "bit (0x0f :: u32) j = (bit j 2 = False)" "bit (0xcc :: u32) j = (bit j 1 = True)"
    "bit (0x33 :: u32) j = (bit j 1 = False)" "bit (0xaa :: u32) j = (bit j 0 = True)" "bit (0x55 :: u32) j = (bit j 0 = False)"
proof -
  have "j \<in> {0, 1, 2, 3, 4, 5, 6, 7}" using assms by auto
  then show "bit (0xf0 :: u32) j = (bit j 2 = True)" "bit (0x0f :: u32) j = (bit j 2 = False)" "bit (0xcc :: u32) j = (bit j 1 = True)"
    "bit (0x33 :: u32) j = (bit j 1 = False)" "bit (0xaa :: u32) j = (bit j 0 = True)" "bit (0x55 :: u32) j = (bit j 0 = False)"
    by (auto simp: bit_iff_odd)
qed

section \<open>The code is the reference code\<close>

lemma byte_of_bits:
  "push_bit 7 (of_bool b7) OR push_bit 6 (of_bool b6) OR push_bit 5 (of_bool b5) OR push_bit 4 (of_bool b4) OR
   push_bit 3 (of_bool b3) OR push_bit 2 (of_bool b2) OR push_bit 1 (of_bool b1) OR of_bool b0 =
   (horner_sum of_bool 2 [b0, b1, b2, b3, b4, b5, b6, b7] :: u8)"
  by (cases b7; cases b6; cases b5; cases b4; cases b3; cases b2; cases b1; cases b0; simp)

lemma column_byte:
  "push_bit 7 (of_bool b7) OR push_bit 6 (of_bool b6) OR push_bit 5 (of_bool b5) OR push_bit 4 (of_bool b4) OR
   push_bit 3 (of_bool b3) OR push_bit 2 (of_bool b2) = (push_bit 2 (horner_sum of_bool 2 [b2, b3, b4, b5, b6, b7]) :: u8)"
  by (cases b7; cases b6; cases b5; cases b4; cases b3; cases b2; simp)

lemma to_byte_less: "unat (to_byte r) < 256"
  by (simp add: to_byte_def Let_def unat_and_ff)

lemma to_byte_and_less: "unat (to_byte r AND x) < 256"
  using word_and_le2 [of "to_byte r" x] to_byte_less [of r] by (simp add: word_le_nat_alt and.commute)

lemma calculate_ecc_hamming:
  assumes "m = 1 \<or> m = 2" "256 * m \<le> length buf" "unat (drop_bit 8 sz) = m"
  shows "calculate_ecc smc buf sz = Some (hamming smc m buf)"
proof -
  have n: "16 * (m * 4) = 64 * m" by simp
  define e where "e b = to_byte (xor_words (\<lambda>k. \<not> bit k b) (word_at buf) (64 * m))" for b
  define p where "p = xor_words (\<lambda>k. True) (word_at buf) (64 * m)"
  have even: "invp (e b) = of_bool (\<not> half m buf (b + 5) False)" for b
    using invp_parity [OF to_byte_less] by (simp add: e_def word_row_even)
  have odd: "invp ((to_byte p XOR e b) AND 0xff) = of_bool (\<not> half m buf (b + 5) True)" for b
    using invp_parity [OF unat_and_ff] by (simp add: e_def p_def word_row_odd)
  have rows: "invp ((drop_bit 16 p XOR drop_bit 8 (drop_bit 16 p)) AND 0xff) = of_bool (\<not> half m buf 4 True)"
    "invp ((p AND 0xffff XOR drop_bit 8 (p AND 0xffff)) AND 0xff) = of_bool (\<not> half m buf 4 False)"
    "invp (drop_bit 8 (p XOR drop_bit 16 p) AND 0xff) = of_bool (\<not> half m buf 3 True)"
    "invp ((p XOR drop_bit 16 p) AND 0xff) = of_bool (\<not> half m buf 3 False)"
    unfolding p_def invp_parity [OF unat_and_ff] byte_rows by (rule refl)+
  have cols: "invp (to_byte p AND 0xf0) = of_bool (\<not> half m buf 2 True)" "invp (to_byte p AND 0x0f) = of_bool (\<not> half m buf 2 False)"
    "invp (to_byte p AND 0xcc) = of_bool (\<not> half m buf 1 True)" "invp (to_byte p AND 0x33) = of_bool (\<not> half m buf 1 False)"
    "invp (to_byte p AND 0xaa) = of_bool (\<not> half m buf 0 True)" "invp (to_byte p AND 0x55) = of_bool (\<not> half m buf 0 False)"
    unfolding p_def invp_parity [OF to_byte_and_less]
    using columns [OF column_masks(1)] columns [OF column_masks(2)] columns [OF column_masks(3)] columns [OF column_masks(4)]
      columns [OF column_masks(5)] columns [OF column_masks(6)] by simp_all
  note sums = loop_sums [of m buf "m * 4", unfolded n]
  have rp: "to_byte (rp4 v) = e 0" "to_byte (rp6 v) = e 1" "to_byte (rp8 v) = e 2" "to_byte (rp10 v) = e 3" "to_byte (rp12 v) = e 4"
    "to_byte (rp14 v) = e 5" "par v = p" "m = 2 \<Longrightarrow> to_byte (rp16 v) = e 6"
    if "v = ecc_loop m buf (m * 4)" for v
    unfolding that e_def p_def using loop_sums(1-6,8) [of m buf "m * 4"] loop_sums(7) [of m buf "m * 4"] by (simp_all add: n)
  have par: "((p XOR drop_bit 16 p) XOR drop_bit 8 (p XOR drop_bit 16 p)) AND 0xff = to_byte p" by (simp only: to_byte_def Let_def)
  note evens = even [of 0] even [of 1] even [of 2] even [of 3] even [of 4] even [of 5] even [of 6]
  note odds = odd [of 0] odd [of 1] odd [of 2] odd [of 3] odd [of 4] odd [of 5] odd [of 6]
  from assms(1) show ?thesis
  proof
    assume m: "m = 1"
    show ?thesis using assms(2)
      unfolding calculate_ecc_def Let_def assms(3) code_byte_def rp [OF refl] par rows cols evens odds byte_of_bits column_byte
      by (simp add: m hamming_def halves_def Let_def)
  next
    assume m: "m = 2"
    show ?thesis using assms(2)
      unfolding calculate_ecc_def Let_def assms(3) code_byte_def rp(1-7) [OF refl] rp(8) [OF refl m] if_P [OF m] par rows cols evens odds or.assoc byte_of_bits
      by (simp add: m hamming_def halves_def Let_def)
  qed
qed

section \<open>Errors\<close>

text \<open>What a changed bit does to the parities.\<close>

lemma half_flip:
  assumes "i < 256 * m" "256 * m \<le> length xs" "j < 8"
  shows "half m (flip xs i j) a v \<longleftrightarrow> half m xs a v \<noteq> (bit (8 * i + j) a = v)"
proof -
  have "bit (flip xs i j ! i') j' \<longleftrightarrow> bit (xs ! i') j' \<noteq> ((i', j') = (i, j))" if "i' < 256 * m" "j' < 8" for i' j'
    using assms that by (auto simp: flip_def nth_list_update bit_simps)
  then have "half m (flip xs i j) a v \<longleftrightarrow>
      oddly ({..<256 * m} \<times> {..<8}) (\<lambda>(i', j'). (bit (8 * i' + j') a = v \<and> bit (xs ! i') j') \<noteq> ((i', j') = (i, j) \<and> bit (8 * i' + j') a = v))"
    unfolding half_def by (intro oddly_cong) auto
  also have "\<dots> \<longleftrightarrow> half m xs a v \<noteq> oddly ({..<256 * m} \<times> {..<8}) (\<lambda>x. x = (i, j) \<and> (case x of (i', j') \<Rightarrow> bit (8 * i' + j') a = v))"
    unfolding half_def oddly_xor [symmetric] by (intro oddly_cong) auto
  finally show ?thesis using assms(1,3) by (subst (asm) oddly_single) auto
qed

lemma horner_xor:
  assumes "length bs = length cs"
  shows "horner_sum of_bool 2 bs XOR horner_sum of_bool 2 cs = (horner_sum of_bool 2 (map2 (\<noteq>) bs cs) :: u8)"
  using assms by (intro bit_word_eqI) (auto simp: bit_simps bit_horner_sum_bit_iff)

text \<open>The tests and tables of the correction, on a byte given by its pairs of bits.\<close>

lemma byte_eq:
  "a = b \<longleftrightarrow> bit a 0 = bit b 0 \<and> bit a 1 = bit b 1 \<and> bit a 2 = bit b 2 \<and> bit a 3 = bit b 3 \<and>
     bit a 4 = bit b 4 \<and> bit a 5 = bit b 5 \<and> bit a 6 = bit b 6 \<and> bit a 7 = bit b 7" for a b :: u8
proof (rule iffI, simp, rule bit_word_eqI)
  fix n
  assume "bit a 0 = bit b 0 \<and> bit a 1 = bit b 1 \<and> bit a 2 = bit b 2 \<and> bit a 3 = bit b 3 \<and>
     bit a 4 = bit b 4 \<and> bit a 5 = bit b 5 \<and> bit a 6 = bit b 6 \<and> bit a 7 = bit b 7" "n < LENGTH(8)"
  moreover from this(2) have "n \<in> {0, 1, 2, 3, 4, 5, 6, 7}" by auto
  ultimately show "bit a n = bit b n" by auto
qed

lemma pair_bits:
  fixes x0 y0 x1 y1 x2 y2 x3 y3 :: bool
  defines "b \<equiv> horner_sum of_bool 2 [x0, y0, x1, y1, x2, y2, x3, y3] :: u8"
  shows "is_single 0x55 b \<longleftrightarrow> x0 \<noteq> y0 \<and> x1 \<noteq> y1 \<and> x2 \<noteq> y2 \<and> x3 \<noteq> y3"
    and "is_single 0x54 b \<longleftrightarrow> x1 \<noteq> y1 \<and> x2 \<noteq> y2 \<and> x3 \<noteq> y3"
    and "drop_bit 2 b = horner_sum of_bool 2 [x1, y1, x2, y2, x3, y3, False, False]"
    and "b AND 3 = horner_sum of_bool 2 [x0, y0, False, False, False, False, False, False]"
    and "b = 0 \<longleftrightarrow> \<not> (x0 \<or> y0 \<or> x1 \<or> y1 \<or> x2 \<or> y2 \<or> x3 \<or> y3)"
  unfolding b_def is_single_def byte_eq bit_and_iff bit_xor_iff bit_drop_bit_eq
  by (simp_all add: bit_horner_sum_bit_iff)

lemma pair_tables:
  fixes x0 y0 x1 y1 x2 y2 x3 y3 :: bool
  defines "b \<equiv> horner_sum of_bool 2 [x0, y0, x1, y1, x2, y2, x3, y3] :: u8"
  shows "unat (addressbits ! unat b) = of_bool y0 + 2 * of_bool y1 + 4 * of_bool y2 + 8 * of_bool y3"
    and "unat (bitsperbyte ! unat b) = of_bool x0 + of_bool y0 + of_bool x1 + of_bool y1 + of_bool x2 + of_bool y2 + of_bool x3 + of_bool y3"
proof -
  have n: "unat b < 2 ^ 8" using unsigned_less [of b] by simp
  have bits: "bit (unat b) 0 = x0" "bit (unat b) 1 = y0" "bit (unat b) 2 = x1" "bit (unat b) 3 = y1" "bit (unat b) 4 = x2"
    "bit (unat b) 5 = y2" "bit (unat b) 6 = x3" "bit (unat b) 7 = y3"
    by (simp_all add: b_def bit_unsigned_iff bit_horner_sum_bit_iff)
  have sum: "(\<Sum>j<8. f j) = f 0 + f 1 + f 2 + f 3 + f 4 + f 5 + f 6 + f (7 :: nat)" for f :: "nat \<Rightarrow> nat"
    by (simp add: eval_nat_numeral lessThan_Suc)
  show "unat (addressbits ! unat b) = of_bool y0 + 2 * of_bool y1 + 4 * of_bool y2 + 8 * of_bool y3"
    using doubled_sum [OF n, of "\<lambda>j. [0, 1, 0, 2, 0, 4, 0, 8] ! j"] by (simp add: addressbits_table sum bits bits(2) [simplified])
  show "unat (bitsperbyte ! unat b) = of_bool x0 + of_bool y0 + of_bool x1 + of_bool y1 + of_bool x2 + of_bool y2 + of_bool x3 + of_bool y3"
    using doubled_sum [OF n, of "\<lambda>j. [1, 1, 1, 1, 1, 1, 1, 1] ! j"] by (simp add: bitsperbyte_table sum bits bits(2) [simplified])
qed

definition pairs :: "(nat \<Rightarrow> bool \<Rightarrow> bool) \<Rightarrow> nat \<Rightarrow> nat \<Rightarrow> nat \<Rightarrow> nat \<Rightarrow> u8" where
  "pairs d a b c e = horner_sum of_bool 2 [d a False, d a True, d b False, d b True, d c False, d c True, d e False, d e True]"

lemma syndrome:
  fixes smc :: bool and xs ys :: "u8 list" and m :: nat
  assumes "m = 1 \<or> m = 2"
  defines "x \<equiv> \<lambda>k. hamming smc m xs ! k XOR hamming smc m ys ! k"
    and "d \<equiv> \<lambda>a v. half m xs a v \<noteq> half m ys a v" and "d' \<equiv> \<lambda>a v. (a \<noteq> 11 \<or> m = 2) \<and> (half m xs a v \<noteq> half m ys a v)"
  shows "(if smc then x 0 else x 1) = pairs d' 3 4 5 6" "(if smc then x 1 else x 0) = pairs d' 7 8 9 10" "x 2 = pairs d' 11 0 1 2"
proof -
  have h: "halves m xs [a, b, c, e] XOR halves m ys [a, b, c, e] = pairs d a b c e" for a b c e
    by (simp add: halves_def horner_xor pairs_def d_def del: horner_sum_simps)
  show "(if smc then x 0 else x 1) = pairs d' 3 4 5 6" "(if smc then x 1 else x 0) = pairs d' 7 8 9 10"
    using h [of 3 4 5 6] h [of 7 8 9 10] by (auto simp: x_def hamming_def Let_def pairs_def d_def d'_def)
  have k: "(push_bit 2 u OR 3) XOR (push_bit 2 w OR 3) = push_bit 2 (u XOR w)" for u w :: u8
    unfolding byte_eq by (simp add: bit_simps)
  have l: "push_bit 2 (horner_sum of_bool 2 bs) = (horner_sum of_bool 2 (False # False # bs) :: u8)" for bs by (simp add: push_bit_eq_mult)
  have k': "(push_bit 2 (horner_sum of_bool 2 bs) OR 3) XOR (push_bit 2 (horner_sum of_bool 2 cs) OR 3) =
      (horner_sum of_bool 2 (False # False # map2 (\<noteq>) bs cs) :: u8)" if "length bs = length cs" for bs cs
    unfolding k horner_xor [OF that] by (rule l)
  show "x 2 = pairs d' 11 0 1 2"
    using assms(1) h [of 11 0 1 2]
    by (auto simp: x_def hamming_def Let_def pairs_def d_def d'_def k' halves_def horner_xor simp del: horner_sum_simps)
qed

text \<open>The correction as a function of the syndrome.\<close>

lemma correct_pairs:
  fixes d :: "nat \<Rightarrow> bool \<Rightarrow> bool" and m :: nat
  assumes "length r = 3" "length c = 3" "drop_bit 8 sz = of_nat m" "m = 1 \<or> m = 2"
    and "(if smc then r ! 0 XOR c ! 0 else r ! 1 XOR c ! 1) = pairs d 3 4 5 6"
    and "(if smc then r ! 1 XOR c ! 1 else r ! 0 XOR c ! 0) = pairs d 7 8 9 10" "r ! 2 XOR c ! 2 = pairs d 11 0 1 2"
    and "m = 1 \<Longrightarrow> \<not> d 11 False \<and> \<not> d 11 True"
  defines "A \<equiv> {..<10 + m}"
    and "n \<equiv> (\<lambda>a. of_bool (d a False) + of_bool (d a True) :: nat)"
    and "bits \<equiv> (\<lambda>as. foldr (\<lambda>a k. of_bool (d a True) + 2 * k) as (0 :: nat))"
  shows "correct_data smc buf r c sz =
    (if \<forall>a \<in> A. \<forall>v. \<not> d a v then Some (0, buf)
     else if \<forall>a \<in> A. d a False \<noteq> d a True then
       (case xor_byte buf (bits [3, 4, 5, 6, 7, 8, 9, 10, 11]) (push_bit (bits [0, 1, 2]) 1) of None \<Rightarrow> None | Some buf \<Rightarrow> Some (1, buf))
     else if sum n A = 1 then Some (1, buf) else Some (- 1, buf))"
proof -
  define b0 b1 b2 where "b0 = pairs d 3 4 5 6" and "b1 = pairs d 7 8 9 10" and "b2 = pairs d 11 0 1 2"
  note p = pair_bits pair_tables
  have A: "A = {0, 1, 2, 3, 4, 5, 6, 7, 8, 9, 10} \<union> (if m = 2 then {11} else {})"
    by (rule set_eqI) (use assms(4) in \<open>elim disjE; simp add: A_def; presburger\<close>)
  have zero: "b0 OR b1 OR b2 = 0 \<longleftrightarrow> (\<forall>a \<in> A. \<forall>v. \<not> d a v)"
    using assms(4,8) by (auto simp: b0_def b1_def b2_def pairs_def or_eq_0_iff p A all_bool_eq simp del: horner_sum_simps)
  have single: "is_single 0x55 b0 \<and> is_single 0x55 b1 \<and> (m = 1 \<and> is_single 0x54 b2 \<or> m = 2 \<and> is_single 0x55 b2) \<longleftrightarrow>
      (\<forall>a \<in> A. d a False \<noteq> d a True)"
    using assms(4) by (elim disjE) (simp_all add: b0_def b1_def b2_def pairs_def p A del: horner_sum_simps, blast+)
  have count: "unat (bitsperbyte ! unat b0) + unat (bitsperbyte ! unat b1) + unat (bitsperbyte ! unat b2) = sum n A"
    using assms(4,8) by (elim disjE) (simp_all add: b0_def b1_def b2_def pairs_def p A n_def del: horner_sum_simps)
  have addr: "unat (addressbits ! unat (drop_bit 2 b2)) = bits [0, 1, 2]"
    "(if m = 1 then unat (addressbits ! unat b1) * 16 + unat (addressbits ! unat b0)
      else unat (addressbits ! unat (b2 AND 3)) * 256 + unat (addressbits ! unat b1) * 16 + unat (addressbits ! unat b0)) = bits [3, 4, 5, 6, 7, 8, 9, 10, 11]"
    using assms(4,8) by (auto simp: b0_def b1_def b2_def pairs_def p bits_def simp del: horner_sum_simps)
  have m: "of_nat m = (1 :: u32) \<longleftrightarrow> m = 1" "of_nat m = (2 :: u32) \<longleftrightarrow> m = 2" using assms(4) by auto
  show ?thesis
    using assms(1,2) unfolding correct_data_def Let_def assms(3,5-7) m b0_def [symmetric] b1_def [symmetric] b2_def [symmetric] zero single count addr by simp
qed

lemma length_hamming [simp]: "length (hamming smc m xs) = 3"
  by (simp add: hamming_def Let_def)

lemma foldr_bits: "foldr (\<lambda>a k. of_bool (bit A a) + 2 * k) [s..<s + n] 0 = take_bit n (drop_bit s A)" for A :: nat
proof (induction n arbitrary: s)
  case (Suc n)
  have "[s..<s + Suc n] = s # [Suc s..<Suc s + n]" by (simp add: upt_rec)
  moreover have "drop_bit s A div 2 = drop_bit (Suc s) A" "drop_bit s A mod 2 = of_bool (bit A s)"
    by (simp_all add: drop_bit_eq_div div_mult2_eq [symmetric] mult.commute bit_iff_odd mod_2_eq_odd)
  ultimately show ?case using Suc.IH [of "Suc s"] by (simp add: take_bit_Suc)
qed simp

lemma correct_hamming:
  fixes xs ys :: "u8 list" and m :: nat
  assumes "m = 1 \<or> m = 2" "drop_bit 8 sz = of_nat m"
  defines "d \<equiv> \<lambda>a v. half m xs a v \<noteq> half m ys a v"
  shows "(\<And>a v. a < 10 + m \<Longrightarrow> \<not> d a v) \<Longrightarrow> correct_data smc buf (hamming smc m xs) (hamming smc m ys) sz = Some (0, buf)"
    and "A < 8 * 256 * m \<Longrightarrow> A div 8 < length buf \<Longrightarrow> (\<And>a v. a < 10 + m \<Longrightarrow> d a v = (bit A a = v)) \<Longrightarrow>
      correct_data smc buf (hamming smc m xs) (hamming smc m ys) sz = Some (1, flip buf (A div 8) (A mod 8))"
    and "(\<And>a v. a < 10 + m \<Longrightarrow> d a v = (bit A a \<noteq> bit B a)) \<Longrightarrow> b < 10 + m \<Longrightarrow> bit A b \<noteq> bit B b \<Longrightarrow>
      correct_data smc buf (hamming smc m xs) (hamming smc m ys) sz = Some (- 1, buf)"
proof -
  define d' where "d' = (\<lambda>a v. (a \<noteq> 11 \<or> m = 2) \<and> (half m xs a v \<noteq> half m ys a v))"
  define r c where "r = hamming smc m xs" and "c = hamming smc m ys"
  have d': "d' a v = d a v" if "a < 10 + m" for a v using that assms(1) by (auto simp: d'_def d_def)
  note s = syndrome [OF assms(1), of smc xs ys, folded d'_def r_def c_def]
  have "correct_data smc buf r c sz =
    (if \<forall>a \<in> {..<10 + m}. \<forall>v. \<not> d' a v then Some (0, buf)
     else if \<forall>a \<in> {..<10 + m}. d' a False \<noteq> d' a True then
       (case xor_byte buf (foldr (\<lambda>a k. of_bool (d' a True) + 2 * k) [3, 4, 5, 6, 7, 8, 9, 10, 11] 0)
         (push_bit (foldr (\<lambda>a k. of_bool (d' a True) + 2 * k) [0, 1, 2] 0) 1) of None \<Rightarrow> None | Some buf \<Rightarrow> Some (1, buf))
     else if (\<Sum>a<10 + m. of_bool (d' a False) + of_bool (d' a True)) = (1 :: nat) then Some (1, buf) else Some (- 1, buf))"
    by (rule correct_pairs [OF _ _ assms(2,1) s]) (simp_all add: r_def c_def, simp add: d'_def)
  note eq = this [unfolded r_def c_def]
  show "correct_data smc buf (hamming smc m xs) (hamming smc m ys) sz = Some (0, buf)" if "\<And>a v. a < 10 + m \<Longrightarrow> \<not> d a v"
    unfolding eq using that d' by simp
  show "correct_data smc buf (hamming smc m xs) (hamming smc m ys) sz = Some (1, flip buf (A div 8) (A mod 8))"
    if "A < 8 * 256 * m" "A div 8 < length buf" "\<And>a v. a < 10 + m \<Longrightarrow> d a v = (bit A a = v)"
  proof -
    have "d' a True = bit A a" if "a < 12" for a
    proof (cases "a < 10 + m")
      case False
      then have "a = 11" "m = 1" using that assms(1) by auto
      then show ?thesis using \<open>A < 8 * 256 * m\<close> by (simp add: d'_def bit_iff_odd)
    qed (use d' \<open>\<And>a v. a < 10 + m \<Longrightarrow> d a v = (bit A a = v)\<close> in simp)
    then have f: "foldr (\<lambda>a k. of_bool (d' a True) + 2 * k) as (0 :: nat) = foldr (\<lambda>a k. of_bool (bit A a) + 2 * k) as 0"
      if "set as \<subseteq> {..<12}" for as using that by (induction as) simp_all
    have "take_bit 9 (drop_bit 3 A) = A div 8" "take_bit 3 (drop_bit 0 A) = A mod 8"
      using that(1) assms(1) by (auto simp: take_bit_eq_mod drop_bit_eq_div less_mult_imp_div_less)
    then have "foldr (\<lambda>a k. of_bool (d' a True) + 2 * k) [3..<3 + 9] 0 = A div 8"
      "foldr (\<lambda>a k. of_bool (d' a True) + 2 * k) [0..<0 + 3] 0 = A mod 8"
      by (subst f, fastforce, simp only: foldr_bits)+
    then have addr: "foldr (\<lambda>a k. of_bool (d' a True) + 2 * k) [3, 4, 5, 6, 7, 8, 9, 10, 11] 0 = A div 8"
      "foldr (\<lambda>a k. of_bool (d' a True) + 2 * k) [0, 1, 2] 0 = A mod 8" by (simp_all add: upt_rec numeral_2_eq_2)
    show ?thesis unfolding eq addr using that(2,3) d' by (auto simp: xor_byte_def flip_def intro!: exI [of _ 0])
  qed
  show "correct_data smc buf (hamming smc m xs) (hamming smc m ys) sz = Some (- 1, buf)"
    if "\<And>a v. a < 10 + m \<Longrightarrow> d a v = (bit A a \<noteq> bit B a)" "b < 10 + m" "bit A b \<noteq> bit B b"
  proof -
    have e: "(\<Sum>a<10 + m. of_bool (d' a False) + of_bool (d' a True)) = 2 * (\<Sum>a<10 + m. of_bool (bit A a \<noteq> bit B a) :: nat)"
      unfolding sum_distrib_left using that(1) d' by (intro sum.cong) auto
    have "(\<Sum>a<10 + m. of_bool (d' a False) + of_bool (d' a True)) \<noteq> (1 :: nat)" unfolding e by presburger
    moreover have "d' 0 False = d' 0 True" using that(1) d' by simp
    moreover have "\<exists>a \<in> {..<10 + m}. \<exists>v. d' a v" using that d' by blast
    moreover have "\<exists>a \<in> {..<10 + m}. d' a False = d' a True" using calculation(2) by (intro bexI [of _ 0]) simp_all
    ultimately show ?thesis unfolding eq by (simp only: if_False) meson
  qed
qed

lemma correct_code_error:
  assumes "m = 1 \<or> m = 2" "drop_bit 8 sz = of_nat m" "length c = 3" "k < 3" "j < 8"
  shows "correct_data smc buf (flip c k j) c sz = Some (1, buf)"
proof -
  have "j \<in> {0, 1, 2, 3, 4, 5, 6, 7}" using assms(5) by auto
  then have one: "unat (bitsperbyte ! unat (push_bit j 1 :: u8)) = 1" by (elim insertE) (simp_all add: bitsperbyte_def)
  have none: "unat (bitsperbyte ! unat (0 :: u8)) = 0" "\<not> is_single 0x55 0" by (simp_all add: bitsperbyte_def is_single_def)
  have "flip c k j ! i XOR c ! i = (if i = k then push_bit j 1 else 0)" if "i < 3" for i
    using that assms(3) by (simp add: flip_def nth_list_update xor.assoc xor.commute [of _ "c ! k"] xor.left_commute)
  moreover have "push_bit j 1 \<noteq> (0 :: u8)" using assms(5) by simp
  moreover have "length (flip c k j) = 3" using assms(3) by (simp add: flip_def)
  moreover have "k = 0 \<or> k = 1 \<or> k = 2" using assms(4) by auto
  ultimately show ?thesis
    using assms(3) one none by (elim disjE; cases smc) (simp_all add: correct_data_def Let_def del: push_bit_of_1)
qed

section \<open>Theorems\<close>

text \<open>C18: \<open>__nand_calculate_ecc\<close>, an unrolled loop over the words of the data followed by foldings and table lookups, computes the Hamming code of
  its reference definition, for blocks of 256 and of 512 bytes and for both orders of the code bytes.\<close>

theorem soft_ecc_is_hamming:
  assumes "m = 1 \<or> m = 2" "length buf = 256 * m"
  shows "calculate_ecc smc buf (of_nat (256 * m)) = Some (hamming smc m buf)"
proof (rule calculate_ecc_hamming [OF assms(1)])
  show "256 * m \<le> length buf" using assms(2) by simp
  show "unat (drop_bit 8 (of_nat (256 * m) :: u32)) = m" using assms(1) by (auto simp: drop_bit_eq_div)
qed

theorem soft_ecc_is_hamming_witness:
  "calculate_ecc False (replicate 512 0x5a) 512 = Some (hamming False 2 (replicate 512 0x5a))"
  using soft_ecc_is_hamming [of 2 "replicate 512 0x5a" False] by simp

text \<open>C16: with the code of the data that was written, \<open>__nand_correct_data\<close> leaves data without errors alone and returns 0; it restores data in which one
  bit has changed, whichever it is, and returns 1; it returns 1 and leaves the data alone if one bit of the code has changed; and it reports
  -1 whenever two different bits of the data have changed.\<close>

theorem soft_ecc_corrects:
  assumes "m = 1 \<or> m = 2" "length buf = 256 * m" "i < 256 * m" "j < 8" "i' < 256 * m" "j' < 8" "(i, j) \<noteq> (i', j')" "k < 3" "l < 8"
    and "calculate_ecc smc buf (of_nat (256 * m)) = Some code"
  shows "\<exists>code1 code2. calculate_ecc smc (flip buf i j) (of_nat (256 * m)) = Some code1 \<and>
    calculate_ecc smc (flip (flip buf i j) i' j') (of_nat (256 * m)) = Some code2 \<and>
    correct_data smc buf code code (of_nat (256 * m)) = Some (0, buf) \<and>
    correct_data smc (flip buf i j) code code1 (of_nat (256 * m)) = Some (1, buf) \<and>
    correct_data smc buf (flip code k l) code (of_nat (256 * m)) = Some (1, buf) \<and>
    correct_data smc (flip (flip buf i j) i' j') code code2 (of_nat (256 * m)) = Some (- 1, flip (flip buf i j) i' j')"
proof -
  have len [simp]: "length (flip xs a b) = length xs" for xs a b by (simp add: flip_def)
  have sz: "drop_bit 8 (of_nat (256 * m) :: u32) = of_nat m" "unat (drop_bit 8 (of_nat (256 * m) :: u32)) = m"
    using assms(1) by (auto simp: drop_bit_eq_div)
  have calc: "calculate_ecc smc xs (of_nat (256 * m)) = Some (hamming smc m xs)" if "length xs = 256 * m" for xs
    using calculate_ecc_hamming [OF assms(1) _ sz(2)] that by simp
  have code: "code = hamming smc m buf" using assms(2,10) calc [of buf] by simp
  note c = correct_hamming [OF assms(1) sz(1), where xs = buf]
  define A B where "A = 8 * i + j" and "B = 8 * i' + j'"
  have one: "half m (flip buf i j) a v \<longleftrightarrow> half m buf a v \<noteq> (bit A a = v)" for a v
    using half_flip [OF assms(3) _ assms(4), of buf] assms(2) by (simp add: A_def)
  have two: "half m (flip (flip buf i j) i' j') a v \<longleftrightarrow> (half m buf a v \<noteq> (bit A a = v)) \<noteq> (bit B a = v)" for a v
    using half_flip [OF assms(5) _ assms(6), of "flip buf i j"] assms(2) by (simp add: B_def one)
  have "correct_data smc buf code code (of_nat (256 * m)) = Some (0, buf)" unfolding code by (rule c(1)) simp
  moreover have "correct_data smc (flip buf i j) code (hamming smc m (flip buf i j)) (of_nat (256 * m)) = Some (1, buf)"
  proof -
    have "A < 8 * 256 * m" "A div 8 = i" "A mod 8 = j" using assms(3,4) by (simp_all add: A_def)
    then show ?thesis unfolding code using c(2) [where A = A and ys = "flip buf i j" and buf = "flip buf i j"] assms(2,3) one by (auto simp: flip_flip)
  qed
  moreover have "correct_data smc buf (flip code k l) code (of_nat (256 * m)) = Some (1, buf)"
    using correct_code_error [OF assms(1) sz(1) _ assms(8,9)] by (simp add: code)
  moreover have "correct_data smc (flip (flip buf i j) i' j') code (hamming smc m (flip (flip buf i j) i' j')) (of_nat (256 * m)) =
      Some (- 1, flip (flip buf i j) i' j')"
  proof -
    have "A \<noteq> B" using assms(4,6,7) unfolding A_def B_def prod.inject by presburger
    moreover have "A < 2 ^ (10 + m)" "B < 2 ^ (10 + m)" using assms(1,3-6) by (auto simp: A_def B_def)
    ultimately obtain b where "b < 10 + m" "bit A b \<noteq> bit B b"
      by (metis bit_take_bit_iff bit_eqI take_bit_nat_eq_self)
    then show ?thesis unfolding code using c(3) [where A = A and B = B and b = b and ys = "flip (flip buf i j) i' j'" and buf = "flip (flip buf i j) i' j'"] two by auto
  qed
  ultimately show ?thesis using calc [of "flip buf i j"] calc [of "flip (flip buf i j) i' j'"] assms(2) by auto
qed

theorem soft_ecc_corrects_witness:
  "\<exists>code code1. calculate_ecc False (replicate 256 0x5a) 256 = Some code \<and> calculate_ecc False (flip (replicate 256 0x5a) 100 7) 256 = Some code1 \<and>
    correct_data False (flip (replicate 256 0x5a) 100 7) code code1 256 = Some (1, replicate 256 0x5a)"
  using soft_ecc_corrects [of 1 "replicate 256 0x5a" 100 7 3 2 1 4 False] calculate_ecc_hamming [of 1 "replicate 256 0x5a" 256 False] by auto

end
