(* ===== verification/SoftPage.thy ===== *)
theory SoftPage
  imports NandEcc SoftEcc
begin

text \<open>
  The page functions with software ECC of \<open>nand_base.c\<close> together with \<open>nand_ecc.c\<close>: what the driver does when it is built without hardware
  ECC.  The results hold for every layout whose places for the code bytes are distinct.
\<close>

section \<open>Interface\<close>

text \<open>The pointers after \<open>nand_scan_tail\<close> for \<open>NAND_ECC_SOFT\<close>.\<close>

definition soft_calculate :: "bool \<Rightarrow> chip \<Rightarrow> u8 list \<Rightarrow> 'd nand \<Rightarrow> (u8 list \<times> 'd nand) option" where
  "soft_calculate smc c dat n = map_option (\<lambda>code. (code, n)) (nand_calculate_ecc smc c dat)"

definition soft_correct :: "bool \<Rightarrow> chip \<Rightarrow> u8 list \<Rightarrow> u8 list \<Rightarrow> u8 list option \<Rightarrow> 'd nand \<Rightarrow> (int \<times> u8 list \<times> 'd nand) option" where
  "soft_correct smc c dat code calc n =
     (case calc of None \<Rightarrow> None | Some calc \<Rightarrow> map_option (\<lambda>(r, dat). (r, dat, n)) (nand_correct_data smc c dat code calc))"

definition s3c_soft_ops :: "bool \<Rightarrow> 'd machine \<Rightarrow> nat \<Rightarrow> chip \<Rightarrow> 'd page_ops" where
  "s3c_soft_ops smc k HZ c = (s3c_small_ops k HZ c)\<lparr>e_calculate := soft_calculate smc c, e_correct := soft_correct smc c\<rparr>"

lemma soft_page_pointers:
  assumes "ec_mode e = NAND_ECC_SOFT" "ec_size e = 0"
  shows "\<exists>e'. ecc_functions ws e = Some e' \<and> ec_calculate e' = Some Nand_calculate_ecc \<and> ec_correct e' = Some Nand_correct_data \<and>
    ec_read_page e' = Some Nand_read_page_swecc \<and> ec_write_page e' = Some Nand_write_page_swecc \<and>
    ec_read_page_raw e' = Some Nand_read_page_raw \<and> ec_write_page_raw e' = Some Nand_write_page_raw \<and> ec_size e' = 256 \<and> ec_bytes e' = 3"
  using assms by (simp add: ecc_functions_def case_soft_def)

definition soft_chip :: "nat \<Rightarrow> chip \<Rightarrow> bool" where
  "soft_chip m c \<longleftrightarrow> (m = 1 \<or> m = 2) \<and> ecc_size c = 256 * m \<and> ecc_bytes c = 3 \<and> ecc_total c = 3 * ecc_steps c \<and> ecc_total c \<le> 448 \<and>
     distinct (eccpos (ecc_layout c)) \<and> ecc_total c \<le> length (eccpos (ecc_layout c)) \<and> (\<forall>p \<in> set (eccpos (ecc_layout c)). p < oobsize c)"

section \<open>One step\<close>

lemma half_cong: "take (256 * m) xs = take (256 * m) ys \<Longrightarrow> half m xs a v = half m ys a v"
proof -
  assume "take (256 * m) xs = take (256 * m) ys"
  then have "xs ! i = ys ! i" if "i < 256 * m" for i using that by (metis nth_take)
  then show ?thesis unfolding half_def by (intro oddly_cong) auto
qed

lemma hamming_cong: "take (256 * m) xs = take (256 * m) ys \<Longrightarrow> hamming smc m xs = hamming smc m ys"
proof -
  assume "take (256 * m) xs = take (256 * m) ys"
  then have h: "half m xs = half m ys" using half_cong by (intro ext) blast
  show ?thesis unfolding hamming_def halves_def h ..
qed

lemma flip_append: "i < length xs \<Longrightarrow> flip (xs @ ys) i j = flip xs i j @ ys"
  by (simp add: flip_def list_update_append nth_append)

lemma correct_data_take:
  assumes "3 \<le> length r" "3 \<le> length c"
  shows "correct_data smc buf r c sz = correct_data smc buf (take 3 r) (take 3 c) sz"
  using assms by (simp add: correct_data_def)

lemma step_corrects:
  assumes "m = 1 \<or> m = 2" "drop_bit 8 sz = of_nat m" "256 * m \<le> length xs" "near (take (256 * m) xs) (take (256 * m) ys)"
  shows "correct_data smc ys (hamming smc m xs) (hamming smc m ys) sz =
    Some (if take (256 * m) ys = take (256 * m) xs then 0 else 1, take (256 * m) xs @ drop (256 * m) ys)"
proof (cases "take (256 * m) ys = take (256 * m) xs")
  case True
  have "correct_data smc ys (hamming smc m xs) (hamming smc m ys) sz = Some (0, ys)"
    by (rule correct_hamming(1) [OF assms(1,2)]) (use half_cong [OF True] in simp)
  moreover have "take (256 * m) xs @ drop (256 * m) ys = ys" using append_take_drop_id [of "256 * m" ys] by (simp only: True)
  ultimately show ?thesis using True by simp
next
  case False
  then obtain i j where f: "i < 256 * m" "j < 8" "take (256 * m) ys = flip (take (256 * m) xs) i j"
    using assms(3,4) by (auto simp: near_def)
  have len: "length (flip zs i j) = length zs" for zs by (simp add: flip_def)
  have ys: "256 * m \<le> length ys" using arg_cong [OF f(3), of length] assms(3) by (simp add: len)
  have h: "half m ys a v \<longleftrightarrow> half m xs a v \<noteq> (bit (8 * i + j) a = v)" for a v
    using half_flip [OF f(1) _ f(2), of xs] half_cong [of m ys "flip xs i j"] f assms(3) by (simp add: flip_def take_update_swap)
  have "correct_data smc ys (hamming smc m xs) (hamming smc m ys) sz = Some (1, flip ys i j)"
    using correct_hamming(2) [OF assms(1,2), of "8 * i + j" ys xs ys smc] f(1,2) ys h by auto
  moreover have "flip ys i j = flip (take (256 * m) ys) i j @ drop (256 * m) ys"
    using flip_append [of i "take (256 * m) ys" "drop (256 * m) ys" j] f(1) ys by simp
  ultimately show ?thesis using False f assms(3) by (simp add: flip_flip)
qed

section \<open>The codes in the spare area\<close>

lemma place_ecc_fold:
  assumes "\<And>i. i \<in> set is \<Longrightarrow> i < length calc \<and> i < 448 \<and> i < length pos \<and> pos ! i < length oob"
  shows "place_ecc pos calc is oob = Some (fold (\<lambda>i ys. ys[pos ! i := calc ! i]) is oob)"
  using assms
proof (induction "is" arbitrary: oob)
  case (Cons i "is")
  have "get_bytes calc i 1 = Some [calc ! i]" "eccpos_at pos i = Some (pos ! i)" "put_bytes oob (pos ! i) [calc ! i] = Some (oob[pos ! i := calc ! i])"
    using Cons.prems [of i] by (simp_all add: get_bytes_def eccpos_at_def put_bytes_def take_Suc_conv_app_nth upd_conv_take_nth_drop)
  then show ?case using Cons.IH [of "oob[pos ! i := calc ! i]"] Cons.prems by simp
qed simp

lemma codes_from_map:
  assumes "\<And>i. i \<in> set is \<Longrightarrow> i < 448 \<and> i < length pos \<and> pos ! i < length oob"
  shows "codes_from pos oob is = Some (map (\<lambda>i. oob ! (pos ! i)) is)"
  using assms
proof (induction "is")
  case (Cons i "is")
  have "eccpos_at pos i = Some (pos ! i)" "get_bytes oob (pos ! i) 1 = Some [oob ! (pos ! i)]"
    using Cons.prems [of i] by (simp_all add: get_bytes_def eccpos_at_def take_Suc_conv_app_nth)
  then show ?case using Cons by simp
qed simp

lemma length_fold_update [simp]: "length (fold (\<lambda>i ys. ys[f i := g i]) is ys) = length ys"
  by (induction "is" arbitrary: ys) simp_all

lemma fold_update_other: "p \<notin> f ` set is \<Longrightarrow> fold (\<lambda>i ys. ys[f i := g i]) is ys ! p = ys ! p"
  by (induction "is" arbitrary: ys) auto

lemma fold_update_nth:
  assumes "inj_on f (set is)" "distinct is" "i \<in> set is" "f i < length ys"
  shows "fold (\<lambda>i ys. ys[f i := g i]) is ys ! f i = g i"
  using assms
proof (induction "is" arbitrary: ys)
  case (Cons a "is")
  show ?case
  proof (cases "i = a")
    case True
    moreover from this have "f a \<notin> f ` set is" using Cons.prems(1,2) by auto
    ultimately show ?thesis using Cons.prems(4) by (simp add: fold_update_other)
  qed (use Cons in auto)
qed simp

text \<open>The spare area with the codes of the data.\<close>

definition soft_codes :: "bool \<Rightarrow> nat \<Rightarrow> nat \<Rightarrow> u8 list \<Rightarrow> u8 list" where
  "soft_codes smc m steps buf = concat (map (\<lambda>t. hamming smc m (drop (256 * m * t) buf)) [0..<steps])"

definition soft_spare :: "bool \<Rightarrow> nat \<Rightarrow> chip \<Rightarrow> u8 list \<Rightarrow> u8 list \<Rightarrow> u8 list" where
  "soft_spare smc m c buf oob =
     fold (\<lambda>i ys. ys[eccpos (ecc_layout c) ! i := soft_codes smc m (ecc_steps c) buf ! i]) [0..<ecc_total c] oob"

lemma length_soft_codes [simp]: "length (soft_codes smc m steps buf) = 3 * steps"
  by (simp add: soft_codes_def length_concat comp_def sum_list_triv)

lemma soft_codes_step:
  assumes "t < steps"
  shows "take 3 (drop (3 * t) (soft_codes smc m steps buf)) = hamming smc m (drop (256 * m * t) buf)"
proof -
  have "[0..<steps] = [0..<t] @ t # [Suc t..<steps]"
    using upt_add_eq_append [of 0 t "steps - t"] upt_conv_Cons [OF assms] assms by simp
  then have "soft_codes smc m steps buf = soft_codes smc m t buf @ hamming smc m (drop (256 * m * t) buf) @
      concat (map (\<lambda>t. hamming smc m (drop (256 * m * t) buf)) [Suc t..<steps])"
    by (simp add: soft_codes_def)
  then show ?thesis by simp
qed

lemma spare_round_trip:
  assumes "soft_chip m c" "length oob = oobsize c"
  shows "codes_from (eccpos (ecc_layout c)) (soft_spare smc m c buf oob) [0..<ecc_total c] = Some (soft_codes smc m (ecc_steps c) buf)"
proof -
  let ?pos = "eccpos (ecc_layout c)"
  have c: "ecc_total c \<le> 448" "ecc_total c \<le> length ?pos" "distinct ?pos" "\<And>p. p \<in> set ?pos \<Longrightarrow> p < length oob" "ecc_total c = 3 * ecc_steps c"
    using assms by (auto simp: soft_chip_def)
  have "soft_spare smc m c buf oob ! (?pos ! i) = soft_codes smc m (ecc_steps c) buf ! i" if "i < ecc_total c" for i
    unfolding soft_spare_def using that c by (intro fold_update_nth) (auto simp: inj_on_def nth_eq_iff_index_eq)
  then have "map (\<lambda>i. soft_spare smc m c buf oob ! (?pos ! i)) [0..<ecc_total c] = soft_codes smc m (ecc_steps c) buf"
    using c(5) by (intro nth_equalityI) auto
  moreover have "codes_from ?pos (soft_spare smc m c buf oob) [0..<ecc_total c] =
      Some (map (\<lambda>i. soft_spare smc m c buf oob ! (?pos ! i)) [0..<ecc_total c])"
    using c by (intro codes_from_map) (auto simp: soft_spare_def)
  ultimately show ?thesis by simp
qed

section \<open>The loops\<close>

lemma soft_size:
  assumes "soft_chip m c"
  shows "drop_bit 8 (of_nat (ecc_size c) :: u32) = of_nat m" "unat (drop_bit 8 (of_nat (ecc_size c) :: u32)) = m" "m = 1 \<or> m = 2"
  using assms by (auto simp: soft_chip_def drop_bit_eq_div)

lemma soft_codes_Suc: "soft_codes smc m (Suc s) xs = hamming smc m xs @ soft_codes smc m s (drop (256 * m) xs)"
proof -
  have "[0..<Suc s] = 0 # map Suc [0..<s]" by (simp add: upt_conv_Cons map_Suc_upt del: upt_Suc)
  then show ?thesis by (simp add: soft_codes_def comp_def algebra_simps del: upt_Suc)
qed

lemma soft_calculate_steps:
  assumes "e_calculate e = soft_calculate smc c" "soft_chip m c" "i + 3 * s \<le> length (ecccalc n)" "p + 256 * m * s \<le> length buf"
  shows "calculate_steps e c buf s i p n =
    Some (n\<lparr>ecccalc := take i (ecccalc n) @ soft_codes smc m s (drop p buf) @ drop (i + 3 * s) (ecccalc n)\<rparr>)"
  using assms(3,4)
proof (induction s arbitrary: i p n)
  case 0
  then show ?case by (simp add: soft_codes_def)
next
  case (Suc s)
  have c: "ecc_size c = 256 * m" "ecc_bytes c = 3" using assms(2) by (simp_all add: soft_chip_def)
  have "nand_calculate_ecc smc c (drop p buf) = Some (hamming smc m (drop p buf))"
    unfolding nand_calculate_ecc_def using Suc.prems(2) by (intro calculate_ecc_hamming [OF soft_size(3) [OF assms(2)] _ soft_size(2) [OF assms(2)]]) simp
  then have "calculate_to e buf p i n = Some (n\<lparr>ecccalc := take i (ecccalc n) @ hamming smc m (drop p buf) @ drop (i + 3) (ecccalc n)\<rparr>)"
    using Suc.prems(1) by (simp add: calculate_to_def assms(1) soft_calculate_def put_bytes_def)
  then show ?case
    using Suc.prems by (simp add: Suc.IH c soft_codes_Suc algebra_simps)
qed

text \<open>The number of steps from \<open>t\<close> on in which the data has changed.\<close>

definition changed_steps :: "nat \<Rightarrow> u8 list \<Rightarrow> u8 list \<Rightarrow> nat \<Rightarrow> nat \<Rightarrow> nat" where
  "changed_steps m data q t S = length (filter (\<lambda>u. take (256 * m) (drop (256 * m * u) q) \<noteq> take (256 * m) (drop (256 * m * u) data)) [t..<S])"

lemma soft_correct_steps:
  assumes "e_correct e = soft_correct smc c" "soft_chip m c" "S = ecc_steps c" "length data = 256 * m * S" "length q = 256 * m * S"
    and "\<And>t. t < S \<Longrightarrow> near (take (256 * m) (drop (256 * m * t) data)) (take (256 * m) (drop (256 * m * t) q))"
    and "ecccalc n = soft_codes smc m S q @ r" "t + s = S"
  shows "correct_steps e c (soft_codes smc m S data) s (3 * t) (256 * m * t) (take (256 * m * t) data @ drop (256 * m * t) q) n =
    Some (data, n\<lparr>ecc_corrected := ecc_corrected n + of_nat (changed_steps m data q t S)\<rparr>)"
  using assms(7,8)
proof (induction s arbitrary: t n)
  case 0
  then show ?case using assms(4,5) by (simp add: changed_steps_def)
next
  case (Suc s)
  let ?p = "256 * m * t" and ?L = "256 * m"
  have t: "t < S" using Suc.prems(2) by simp
  have L: "?p + ?L \<le> 256 * m * S" using mult_le_mono2 [of "Suc t" S "256 * m"] t by simp
  let ?same = "take ?L (drop ?p q) = take ?L (drop ?p data)"
  have fixed: "correct_data smc (drop ?p q) (hamming smc m (drop ?p data)) (hamming smc m (drop ?p q)) (of_nat (ecc_size c)) =
      Some (if ?same then 0 else 1, take ?L (drop ?p data) @ drop (?p + ?L) q)"
    using step_corrects [OF soft_size(3,1) [OF assms(2)] _ assms(6) [OF t]] L assms(4) by (simp add: add.commute)
  have codes: "take 3 (drop (3 * t) (soft_codes smc m S data)) = hamming smc m (drop ?p data)"
    "take 3 (drop (3 * t) (soft_codes smc m S q @ r)) = hamming smc m (drop ?p q)"
    using soft_codes_step [OF t] t by simp_all
  define n1 where "n1 = n\<lparr>ecc_corrected := ecc_corrected n + (if ?same then 0 else 1)\<rparr>"
  have buf: "take ?p (take ?p data @ drop ?p q) = take ?p data" "drop ?p (take ?p data @ drop ?p q) = drop ?p q"
  proof -
    have "length (take ?p data) = ?p" using L assms(4) by (metis add_leD1 length_take min.absorb2)
    then show "take ?p (take ?p data @ drop ?p q) = take ?p data" "drop ?p (take ?p data @ drop ?p q) = drop ?p q"
      by (metis append_eq_conv_conj)+
  qed
  have one: "correct_at e (take ?p data @ drop ?p q) ?p (drop (3 * t) (soft_codes smc m S data)) (Some (drop (3 * t) (ecccalc n))) n =
      Some (take ?p data @ take ?L (drop ?p data) @ drop (?p + ?L) q, n1)"
    using fixed t unfolding correct_at_def buf assms(1) soft_correct_def Suc.prems(1) nand_correct_data_def
    by (simp add: correct_data_take [of "drop (3 * t) (soft_codes smc m S data)"] codes soft_codes_step [OF t] count_stat_def n1_def)
  have c: "ecc_size c = 256 * m" "ecc_bytes c = 3" using assms(2) by (simp_all add: soft_chip_def)
  have up: "[t..<S] = t # [Suc t..<S]" using t by (simp add: upt_conv_Cons)
  have idx: "3 * t + 3 = 3 * Suc t" "?p + ?L = 256 * m * Suc t" by simp_all
  have buf': "take ?p data @ take ?L (drop ?p data) @ drop (?p + ?L) q = take (256 * m * Suc t) data @ drop (256 * m * Suc t) q"
    unfolding idx(2) [symmetric] by (simp add: take_add)
  have "correct_steps e c (soft_codes smc m S data) (Suc s) (3 * t) ?p (take ?p data @ drop ?p q) n =
      correct_steps e c (soft_codes smc m S data) s (3 * Suc t) (256 * m * Suc t) (take (256 * m * Suc t) data @ drop (256 * m * Suc t) q) n1"
    using one unfolding buf' by (simp add: c idx)
  also have "\<dots> = Some (data, n1\<lparr>ecc_corrected := ecc_corrected n1 + of_nat (changed_steps m data q (Suc t) S)\<rparr>)"
    using Suc.prems by (intro Suc.IH) (simp_all add: n1_def)
  also have "n1\<lparr>ecc_corrected := ecc_corrected n1 + of_nat (changed_steps m data q (Suc t) S)\<rparr> =
      n\<lparr>ecc_corrected := ecc_corrected n + of_nat (changed_steps m data q t S)\<rparr>"
    by (simp add: n1_def changed_steps_def up add.assoc)
  finally show ?case .
qed

section \<open>Pages\<close>

lemma soft_write:
  assumes "e_calculate e = soft_calculate smc c" "soft_chip m c" "length data = 256 * m * ecc_steps c"
    and "length (oob_poi n) = oobsize c" "ecc_total c \<le> length (ecccalc n)"
  shows "nand_write_page_swecc e c data n = e_write_page_raw e data
    (n\<lparr>ecccalc := soft_codes smc m (ecc_steps c) data @ drop (ecc_total c) (ecccalc n), oob_poi := soft_spare smc m c data (oob_poi n)\<rparr>)"
proof -
  let ?codes = "soft_codes smc m (ecc_steps c) data" and ?pos = "eccpos (ecc_layout c)"
  have c: "ecc_total c = 3 * ecc_steps c" "ecc_total c \<le> 448" "ecc_total c \<le> length ?pos" "\<And>p. p \<in> set ?pos \<Longrightarrow> p < length (oob_poi n)"
    using assms(2,4) by (auto simp: soft_chip_def)
  define n1 where "n1 = n\<lparr>ecccalc := ?codes @ drop (ecc_total c) (ecccalc n)\<rparr>"
  have calc: "calculate_steps e c data (ecc_steps c) 0 0 n = Some n1"
    using soft_calculate_steps [OF assms(1,2), where i = 0 and p = 0 and n = n and s = "ecc_steps c" and buf = data] assms(3,5) c(1) by (simp add: n1_def)
  have "place_ecc ?pos (ecccalc n1) [0..<ecc_total c] (oob_poi n) =
      Some (fold (\<lambda>i ys. ys[?pos ! i := ecccalc n1 ! i]) [0..<ecc_total c] (oob_poi n))"
    using assms(5) c by (intro place_ecc_fold) (auto simp: n1_def)
  also have "fold (\<lambda>i ys. ys[?pos ! i := ecccalc n1 ! i]) [0..<ecc_total c] (oob_poi n) = soft_spare smc m c data (oob_poi n)"
    unfolding soft_spare_def using c(1) by (intro fold_cong) (auto simp: n1_def nth_append)
  finally have "place_codes c n1 = Some (n1\<lparr>oob_poi := soft_spare smc m c data (oob_poi n)\<rparr>)" by (simp add: place_codes_def n1_def)
  then show ?thesis by (simp add: nand_write_page_swecc_def calc) (simp add: n1_def)
qed

lemma soft_read:
  assumes "e_calculate e = soft_calculate smc c" "e_correct e = soft_correct smc c" "soft_chip m c" "length data = 256 * m * ecc_steps c"
    and "e_read_page_raw e out page n = Some (q, n1)" "oob_poi n1 = soft_spare smc m c data oob" "length oob = oobsize c"
    and "length q = length data" "\<And>t. t < ecc_steps c \<Longrightarrow> near (take (256 * m) (drop (256 * m * t) data)) (take (256 * m) (drop (256 * m * t) q))"
    and "ecc_total c \<le> length (ecccalc n1)"
  shows "\<exists>n2. nand_read_page_swecc e c out page n = Some (data, n2) \<and> oob_poi n2 = oob_poi n1 \<and> dev n2 = dev n1 \<and>
    ecc_failed n2 = ecc_failed n1 \<and> ecc_corrected n2 = ecc_corrected n1 + of_nat (changed_steps m data q 0 (ecc_steps c))"
proof -
  let ?S = "ecc_steps c"
  define n2 where "n2 = n1\<lparr>ecccalc := soft_codes smc m ?S q @ drop (ecc_total c) (ecccalc n1)\<rparr>"
  have c: "ecc_total c = 3 * ?S" using assms(3) by (simp add: soft_chip_def)
  have "calculate_steps e c q ?S 0 0 n1 = Some n2"
    using soft_calculate_steps [OF assms(1,3), where i = 0 and p = 0 and n = n1 and s = ?S and buf = q] assms(4,8,10) c by (simp add: n2_def)
  moreover have "codes_from (eccpos (ecc_layout c)) (oob_poi n2) [0..<ecc_total c] = Some (soft_codes smc m ?S data)"
    using spare_round_trip [OF assms(3,7)] assms(6) by (simp add: n2_def)
  moreover have "correct_steps e c (soft_codes smc m ?S data) ?S 0 0 q n2 =
      Some (data, n2\<lparr>ecc_corrected := ecc_corrected n2 + of_nat (changed_steps m data q 0 ?S)\<rparr>)"
    using soft_correct_steps [OF assms(2,3) refl assms(4) _ assms(9), where n = n2 and r = "drop (ecc_total c) (ecccalc n1)" and t = 0 and s = ?S] assms(4,8)
    by (simp add: n2_def)
  ultimately show ?thesis using assms(5) by (simp add: nand_read_page_swecc_def n2_def)
qed

section \<open>Pages on the chip\<close>

context nand_device
begin

lemma raw_write:
  assumes "ready_at (dev n) \<le> clock (dev n)" "programming (fl (dev n)) page cs (writesize c + oobsize c) []"
    and "length buf = writesize c" "length (oob_poi n) = oobsize c"
  shows "\<exists>n'. nand_write_page_raw k c buf n = Some n' \<and> programming (fl (dev n')) page cs (writesize c + oobsize c) (buf @ oob_poi n) \<and>
    ready_at (dev n') \<le> clock (dev n')"
proof -
  define s1 where "s1 = nand_write_buf k buf (dev n)"
  have s1: "programming (fl s1) page cs (writesize c + oobsize c) buf" "ready_at s1 \<le> clock s1"
    using write_buf_programming [OF assms(2) _ assms(1), of buf] assms(3) by (simp_all add: s1_def)
  define s2 where "s2 = nand_write_buf k (oob_poi n) s1"
  have s2: "programming (fl s2) page cs (writesize c + oobsize c) (buf @ oob_poi n)" "ready_at s2 \<le> clock s2"
    using write_buf_programming [OF s1(1) _ s1(2), of "oob_poi n"] assms(3,4) by (simp_all add: s2_def)
  have "nand_write_page_raw k c buf n = Some (n\<lparr>dev := s2\<rparr>)"
    using assms(3,4) by (simp add: nand_write_page_raw_def get_bytes_def write_buf_def s1_def s2_def)
  then show ?thesis using s2 by simp
qed

lemma raw_read:
  assumes "ready_at (dev n) \<le> clock (dev n)" "fcmd (fl (dev n)) \<notin> {0x70, 0x90}" "fcol (fl (dev n)) = 0" "preg (fl (dev n)) = q @ sp"
    and "length q = writesize c" "length sp = oobsize c" "length (oob_poi n) = oobsize c"
  shows "\<exists>s. nand_read_page_raw k c n = Some (q, n\<lparr>dev := s, oob_poi := sp\<rparr>) \<and> cells (fl s) = cells (fl (dev n))"
proof -
  obtain xs s1 where xs: "(xs, s1) = nand_read_buf k (writesize c) (dev n)" by (metis surj_pair)
  have s1: "xs = q" "cells (fl s1) = cells (fl (dev n))" "preg (fl s1) = q @ sp" "fcmd (fl s1) = fcmd (fl (dev n))" "fcol (fl s1) = writesize c"
    "ready_at s1 \<le> clock s1"
    using read_buf_register [OF assms(2) _ assms(1) xs] assms(3-5) by auto
  obtain ys s2 where ys: "(ys, s2) = nand_read_buf k (oobsize c) s1" by (metis surj_pair)
  have s2: "ys = sp" "cells (fl s2) = cells (fl (dev n))"
    using read_buf_register [OF _ _ s1(6) ys] s1 assms(2,5,6) by auto
  show ?thesis using xs [symmetric] ys [symmetric] s1(1) s2 assms(6,7)
    by (intro exI [of _ s2]) (simp add: nand_read_page_raw_def read_oob_poi_def read_buf_def put_bytes_def)
qed

end

text \<open>C17: the page functions with software ECC, on any layout with distinct places for the codes.  After \<open>SEQIN\<close>, \<open>nand_write_page_swecc\<close> sends the data and
  the spare area with the Hamming codes of its blocks; and whenever the page register holds these bytes again, up to one changed bit in
  each block of data, \<open>nand_read_page_swecc\<close> gives the data that was written, counts one correction for each block that had changed and no failure,
  and changes nothing on the chip.\<close>

theorem soft_page_recovers:
  assumes "nand_device k fl clock ready_at spin ecc eccerr" "soft_chip m c" "writesize c = 256 * m * ecc_steps c" "length data = writesize c"
    and "ready_at (dev n) \<le> clock (dev n)" "programming (fl (dev n)) page cs (writesize c + oobsize c) []"
    and "length (oob_poi n) = oobsize c" "ecc_total c \<le> length (ecccalc n)"
    and "ready_at (dev r) \<le> clock (dev r)" "fcmd (fl (dev r)) \<notin> {0x70, 0x90}" "fcol (fl (dev r)) = 0"
    and "preg (fl (dev r)) = q @ soft_spare smc m c data (oob_poi n)" "length q = writesize c"
    and "\<And>t. t < ecc_steps c \<Longrightarrow> near (take (256 * m) (drop (256 * m * t) data)) (take (256 * m) (drop (256 * m * t) q))"
    and "length (oob_poi r) = oobsize c" "ecc_total c \<le> length (ecccalc r)"
  shows "\<exists>n' r'. nand_write_page_swecc (s3c_soft_ops smc k HZ c) c data n = Some n' \<and>
    programming (fl (dev n')) page cs (writesize c + oobsize c) (data @ soft_spare smc m c data (oob_poi n)) \<and>
    nand_read_page_swecc (s3c_soft_ops smc k HZ c) c out row r = Some (data, r') \<and> oob_poi r' = soft_spare smc m c data (oob_poi n) \<and>
    ecc_failed r' = ecc_failed r \<and> ecc_corrected r' = ecc_corrected r + of_nat (changed_steps m data q 0 (ecc_steps c)) \<and>
    cells (fl (dev r')) = cells (fl (dev r))"
proof -
  let ?e = "s3c_soft_ops smc k HZ c" and ?sp = "soft_spare smc m c data (oob_poi n)"
  have e: "e_calculate ?e = soft_calculate smc c" "e_correct ?e = soft_correct smc c" "e_write_page_raw ?e = nand_write_page_raw k c"
    "e_read_page_raw ?e = (\<lambda>buf page. nand_read_page_raw k c)"
    by (simp_all add: s3c_soft_ops_def s3c_small_ops_def)
  have len: "length ?sp = oobsize c" "length data = 256 * m * ecc_steps c" using assms(3,4,7) by (simp_all add: soft_spare_def)
  obtain s where s: "nand_read_page_raw k c r = Some (q, r\<lparr>dev := s, oob_poi := ?sp\<rparr>)" "cells (fl s) = cells (fl (dev r))"
    using nand_device.raw_read [OF assms(1,9-13) len(1) assms(15)] by blast
  obtain r' where "nand_read_page_swecc ?e c out row r = Some (data, r')" "oob_poi r' = ?sp" "dev r' = s" "ecc_failed r' = ecc_failed r"
    "ecc_corrected r' = ecc_corrected r + of_nat (changed_steps m data q 0 (ecc_steps c))"
    using soft_read [OF e(1,2) assms(2) len(2), of out row r q "r\<lparr>dev := s, oob_poi := ?sp\<rparr>" "oob_poi n"] s assms(4,7,13,14,16) e(4) by auto
  moreover define n1 where "n1 = n\<lparr>ecccalc := soft_codes smc m (ecc_steps c) data @ drop (ecc_total c) (ecccalc n), oob_poi := ?sp\<rparr>"
  obtain n' where "nand_write_page_raw k c data n1 = Some n'" "programming (fl (dev n')) page cs (writesize c + oobsize c) (data @ ?sp)"
    using nand_device.raw_write [OF assms(1), of n1 page cs c data] assms(4-6) len(1) by (auto simp: n1_def)
  then have "nand_write_page_swecc ?e c data n = Some n'" using soft_write [OF e(1) assms(2) len(2) assms(7,8)] by (simp add: e(3) n1_def)
  ultimately show ?thesis using \<open>programming (fl (dev n')) page cs (writesize c + oobsize c) (data @ ?sp)\<close> s(2) by auto
qed

text \<open>A chip with large pages and the default layout of \<open>nand_base.c\<close>, for the witness.\<close>

definition soft_tiny :: chip where
  "soft_tiny = tiny_chip\<lparr>ecc_size := 256, ecc_bytes := 3, ecc_steps := 8, ecc_total := 24, ecc_layout := nand_oob_64\<rparr>"

definition soft_nand :: "u8 \<Rightarrow> u8 list \<Rightarrow> sim nand" where
  "soft_nand cmd reg = (tiny_nand (\<lambda>_. []))\<lparr>dev := \<lparr>sim_flash = (tiny_flash (\<lambda>_. []))\<lparr>preg := reg, fcmd := cmd, faddr := [0, 0, 0, 0, 0]\<rparr>,
     sim_now = 0, sim_until = 0\<rparr>\<rparr>"

lemma soft_tiny_chip [simp]: "soft_chip 1 soft_tiny"
  by (simp add: soft_chip_def soft_tiny_def tiny_chip_def nand_oob_64_def)

lemma soft_flip:
  defines "data \<equiv> replicate 2048 (0x5a :: u8)"
  shows "near (take 256 (drop (256 * t) data)) (take 256 (drop (256 * t) (flip data 100 7)))" "changed_steps 1 data (flip data 100 7) 0 8 = 1"
proof -
  have zero: "take 256 (flip data 100 7) = flip (take 256 data) 100 7" by (simp add: flip_def data_def take_update_swap)
  have rest: "take 256 (drop (256 * t) (flip data 100 7)) = take 256 (drop (256 * t) data)" if "0 < t" for t
    using that by (simp add: flip_def drop_update_cancel)
  have n: "near (take 256 data) (flip (take 256 data) 100 7)" unfolding near_def by (rule disjI2, rule exI [of _ 100]) (auto simp: data_def intro: exI [of _ 7])
  then show "near (take 256 (drop (256 * t) data)) (take 256 (drop (256 * t) (flip data 100 7)))"
    using rest [of t] zero by (cases "t = 0") (auto simp: near_def)
  have "flip (take 256 data) 100 7 \<noteq> take 256 data"
  proof
    assume "flip (take 256 data) 100 7 = take 256 data"
    from arg_cong [OF this, of "\<lambda>xs. xs ! 100"] show False by (simp add: flip_def data_def)
  qed
  then show "changed_steps 1 data (flip data 100 7) 0 8 = 1"
    using zero rest [of 1] rest [of 2] rest [of 3] rest [of 4] rest [of 5] rest [of 6] rest [of 7]
    by (simp add: changed_steps_def upt_rec)
qed

theorem soft_page_recovers_witness:
  "let data = replicate 2048 0x5a; sp = soft_spare False 1 soft_tiny data (replicate 64 0xff); ops = s3c_soft_ops False sim_machine 200 soft_tiny
   in (\<exists>n'. nand_write_page_swecc ops soft_tiny data (soft_nand 0x80 (replicate 2112 0xff)) = Some n' \<and> preg (sim_flash (dev n')) = data @ sp) \<and>
      (\<exists>r'. nand_read_page_swecc ops soft_tiny (replicate 2048 0) 3 (soft_nand 0 (flip data 100 7 @ sp)) = Some (data, r') \<and>
        ecc_failed r' = 0 \<and> ecc_corrected r' = 1)"
proof -
  define data where "data = replicate 2048 (0x5a :: u8)"
  define sp where "sp = soft_spare False 1 soft_tiny data (replicate 64 0xff)"
  have c: "writesize soft_tiny = 2048" "oobsize soft_tiny = 64" "ecc_steps soft_tiny = 8" "ecc_total soft_tiny = 24"
    by (simp_all add: soft_tiny_def tiny_chip_def)
  have s: "oob_poi (soft_nand x reg) = replicate 64 0xff" "length (ecccalc (soft_nand x reg)) = 640" "ecc_failed (soft_nand x reg) = 0"
    "ecc_corrected (soft_nand x reg) = 0" "preg (sim_flash (dev (soft_nand x reg))) = reg" "fcol (sim_flash (dev (soft_nand x reg))) = 0"
    "fcmd (sim_flash (dev (soft_nand x reg))) = x" "sim_until (dev (soft_nand x reg)) \<le> sim_now (dev (soft_nand x reg))" for x reg
    by (simp_all add: soft_nand_def tiny_nand_def tiny_flash_def)
  have "programming (sim_flash (dev (soft_nand 0x80 (replicate 2112 0xff)))) 0 (\<lambda>_. []) 2112 []"
    by (simp add: programming_def soft_nand_def tiny_nand_def tiny_flash_def addr_row_def)
  moreover have len: "length (flip data 100 7) = 2048" "length sp = 64" "length data = 2048" by (simp_all add: flip_def data_def sp_def soft_spare_def)
  moreover have sp: "soft_spare False (Suc 0) soft_tiny data (replicate 64 0xff) = sp" by (simp add: sp_def)
  moreover have "preg f = data @ sp" if "programming f 0 cs 2112 (data @ sp)" for f cs using that len by (simp add: programming_def)
  ultimately show ?thesis
    using soft_page_recovers [OF sim.nand_device_axioms soft_tiny_chip, of data "soft_nand 0x80 (replicate 2112 0xff)" 0 "\<lambda>_. []"
      "soft_nand 0 (flip data 100 7 @ sp)" "flip data 100 7" False 200 "replicate 2048 0" 3] soft_flip [folded data_def]
    unfolding Let_def data_def [symmetric] sp_def [symmetric] by (auto simp: c s)
qed

end
