(* ===== verification/BareNand.thy ===== *)
theory BareNand
  imports NandPage Uart "HOL-Library.Signed_Division"
begin

text \<open>
  The NAND functions of the bare-metal programs, \<open>no-os/nand/nand.c\<close>: set-up, reset, read ID, and reading and writing
  whole pages without ECC; and the two functions for unaligned ranges that \<open>workspace/nand/nand.c\<close> adds.  A buffer is
  the list of the bytes stored to or fetched from it.  The chip is that of \<open>NandFlash\<close>; the locale \<open>bare_chip\<close> says how
  the registers of the controller reach it.
\<close>

section \<open>Registers and commands\<close>

definition ELFIN_NAND_BASE :: u32 where "ELFIN_NAND_BASE = 0x70200000"
definition NFCONF :: u32 where "NFCONF = ELFIN_NAND_BASE + 0x00"
definition NFCONT :: u32 where "NFCONT = ELFIN_NAND_BASE + 0x04"
definition NFCMMD :: u32 where "NFCMMD = ELFIN_NAND_BASE + 0x08"
definition NFADDR :: u32 where "NFADDR = ELFIN_NAND_BASE + 0x0c"
definition NFDATA :: u32 where "NFDATA = ELFIN_NAND_BASE + 0x10"
definition NFSTAT :: u32 where "NFSTAT = ELFIN_NAND_BASE + 0x28"
definition NAND_PAGE_SIZE :: nat where "NAND_PAGE_SIZE = 2048"
definition NAND_PAGE_MASK :: u32 where "NAND_PAGE_MASK = of_nat (NAND_PAGE_SIZE - 1)"
definition NFCONF_TWRPH1 :: u32 where "NFCONF_TWRPH1 = 0x7"
definition NFCONF_TWRPH0 :: u32 where "NFCONF_TWRPH0 = 0xf"
definition NFCONF_TACLS :: u32 where "NFCONF_TACLS = 0x2"
definition NFCONF_ECC_TYPE :: u32 where "NFCONF_ECC_TYPE = 0"
definition NFCONF_MSGLENGTH :: u32 where "NFCONF_MSGLENGTH = 0"
definition NFCONF_MLCCLKCTRL :: u32 where "NFCONF_MLCCLKCTRL = 0"

lemmas bare_nand_addrs = ELFIN_NAND_BASE_def NFCONF_def NFCONT_def NFCMMD_def NFADDR_def NFDATA_def NFSTAT_def

text \<open>The commands of this program; some names of the kernel stand for other commands.\<close>

definition bare_CMD_READ :: u32 where "bare_CMD_READ = 0x0"
definition bare_CMD_READ_START :: u32 where "bare_CMD_READ_START = 0x30"
definition bare_CMD_PAGEPROG :: u32 where "bare_CMD_PAGEPROG = 0x80"
definition bare_CMD_PAGEPROG_START :: u32 where "bare_CMD_PAGEPROG_START = 0x10"
definition bare_CMD_STATUS :: u32 where "bare_CMD_STATUS = 0x70"
definition bare_CMD_READID :: u32 where "bare_CMD_READID = 0x90"
definition bare_CMD_RESET :: u32 where "bare_CMD_RESET = 0xff"

lemmas bare_cmd_defs = bare_CMD_READ_def bare_CMD_READ_START_def bare_CMD_PAGEPROG_def bare_CMD_PAGEPROG_START_def
  bare_CMD_STATUS_def bare_CMD_READID_def bare_CMD_RESET_def

section \<open>Operations\<close>

definition NAND_DISABLE_CE :: "'d bus \<Rightarrow> 'd \<Rightarrow> 'd" where
  "NAND_DISABLE_CE b s = reg_or b NFCONT (push_bit 1 1) s"

definition NAND_ENABLE_CE :: "'d bus \<Rightarrow> 'd \<Rightarrow> 'd" where
  "NAND_ENABLE_CE b s = reg_and b NFCONT (NOT (push_bit 1 1)) s"

partial_function (option) nand_wait_idle :: "'d bus \<Rightarrow> 'd \<Rightarrow> 'd option" where
  "nand_wait_idle b s = (let (x, s') = rd32 b NFSTAT s in if x AND 0x1 = 0 then nand_wait_idle b s' else Some s')"

definition nand_reset :: "'d bus \<Rightarrow> 'd \<Rightarrow> 'd option" where
  "nand_reset b s = do {
     let s = NAND_ENABLE_CE b s;
     let s = wr32 b NFCMMD bare_CMD_RESET s;
     s \<leftarrow> nand_wait_idle b s;
     Some (NAND_DISABLE_CE b s) }"

definition nand_init :: "'d bus \<Rightarrow> 'd \<Rightarrow> 'd option" where
  "nand_init b s =
     (let s = wr32 b NFCONF (push_bit 30 NFCONF_MLCCLKCTRL OR push_bit 25 NFCONF_MSGLENGTH OR push_bit 23 NFCONF_ECC_TYPE OR
                push_bit 12 NFCONF_TACLS OR push_bit 8 NFCONF_TWRPH0 OR push_bit 4 NFCONF_TWRPH1) s;
          s = reg_or b NFCONT 0x3 s
      in nand_reset b s)"

text \<open>The bytes that a loop stores through \<open>*buffer++ = NFDATA8_REG\<close>.\<close>

fun data_in :: "'d bus \<Rightarrow> nat \<Rightarrow> 'd \<Rightarrow> u8 list \<times> 'd" where
  "data_in b 0 s = ([], s)"
| "data_in b (Suc n) s =
     (let (x, s) = bus_rd b W8 NFDATA s; (xs, s) = data_in b n s in (ucast x # xs, s))"

fun data_out :: "'d bus \<Rightarrow> u8 list \<Rightarrow> 'd \<Rightarrow> 'd" where
  "data_out b [] s = s"
| "data_out b (x # xs) s = data_out b xs (bus_wr b W8 NFDATA (ucast x) s)"

definition nand_readID :: "'d bus \<Rightarrow> 'd \<Rightarrow> u8 list \<times> 'd" where
  "nand_readID b s =
     (let s = NAND_ENABLE_CE b s;
          s = wr32 b NFCMMD bare_CMD_READID s;
          s = wr32 b NFADDR 0 s
      in data_in b 6 s)"

definition nand_write_address :: "'d bus \<Rightarrow> u32 \<Rightarrow> 'd \<Rightarrow> 'd" where
  "nand_write_address b address s =
     (let page_address = drop_bit 11 address;
          s = wr32 b NFADDR 0 s;
          s = wr32 b NFADDR 0 s;
          s = wr32 b NFADDR (page_address AND 0xff) s;
          s = wr32 b NFADDR (drop_bit 8 page_address AND 0xff) s
      in wr32 b NFADDR (drop_bit 16 page_address AND 0xff) s)"

definition read_one_page :: "'d bus \<Rightarrow> u32 \<Rightarrow> 'd \<Rightarrow> (u8 list \<times> 'd) option" where
  "read_one_page b addr s = do {
     let s = wr32 b NFCMMD bare_CMD_READ s;
     let s = nand_write_address b addr s;
     let s = wr32 b NFCMMD bare_CMD_READ_START s;
     s \<leftarrow> nand_wait_idle b s;
     Some (data_in b NAND_PAGE_SIZE s) }"

text \<open>\<open>for (addr = start_addr; addr < (start_addr + size); addr += NAND_PAGE_SIZE)\<close>\<close>

partial_function (option) read_pages :: "'d bus \<Rightarrow> u32 \<Rightarrow> u32 \<Rightarrow> 'd \<Rightarrow> (u8 list \<times> 'd) option" where
  "read_pages b end_addr addr s =
     (if addr < end_addr then do {
        (xs, s) \<leftarrow> read_one_page b addr s;
        (ys, s) \<leftarrow> read_pages b end_addr (addr + of_nat NAND_PAGE_SIZE) s;
        Some (xs @ ys, s) }
      else Some ([], s))"

definition nand_read_page :: "'d bus \<Rightarrow> u32 \<Rightarrow> u32 \<Rightarrow> 'd \<Rightarrow> (u8 list \<times> 'd) option" where
  "nand_read_page b start_addr sz s =
     (if start_addr AND NAND_PAGE_MASK \<noteq> 0 \<or> sz AND NAND_PAGE_MASK \<noteq> 0 then Some ([], s)
      else do {
        let s = NAND_ENABLE_CE b s;
        (xs, s) \<leftarrow> read_pages b (start_addr + sz) start_addr s;
        Some (xs, NAND_DISABLE_CE b s) })"

definition program_error :: "u8 list" where
  "program_error = [10, 13] @ lit ''Error in Program'' @ [10, 13]"

definition write_one_page :: "'d bus \<Rightarrow> u8 list \<Rightarrow> u32 \<Rightarrow> 'd \<Rightarrow> 'd option" where
  "write_one_page b bytes addr s = do {
     let s = wr32 b NFCMMD bare_CMD_PAGEPROG s;
     let s = nand_write_address b addr s;
     let s = data_out b bytes s;
     let s = wr32 b NFCMMD bare_CMD_PAGEPROG_START s;
     s \<leftarrow> nand_wait_idle b s;
     let s = wr32 b NFCMMD bare_CMD_STATUS s;
     let (x, s) = bus_rd b W8 NFDATA s;
     if (ucast x :: u8) AND 0x1 \<noteq> 0 then UART0_SendString b (c_array program_error) s else Some s }"

text \<open>\<open>buffer\<close> is what is left of the buffer; reading past its end is an error.\<close>

partial_function (option) write_pages :: "'d bus \<Rightarrow> u32 \<Rightarrow> u8 list \<Rightarrow> u32 \<Rightarrow> 'd \<Rightarrow> 'd option" where
  "write_pages b end_addr buffer addr s =
     (if addr < end_addr then do {
        xs \<leftarrow> get_bytes buffer 0 NAND_PAGE_SIZE;
        s \<leftarrow> write_one_page b xs addr s;
        write_pages b end_addr (drop NAND_PAGE_SIZE buffer) (addr + of_nat NAND_PAGE_SIZE) s }
      else Some s)"

definition bare_nand_write_page :: "'d bus \<Rightarrow> u8 list \<Rightarrow> u32 \<Rightarrow> u32 \<Rightarrow> 'd \<Rightarrow> 'd option" where
  "bare_nand_write_page b buffer sz start_addr s =
     (if start_addr AND NAND_PAGE_MASK \<noteq> 0 \<or> sz AND NAND_PAGE_MASK \<noteq> 0 then Some s
      else do {
        let s = NAND_ENABLE_CE b s;
        s \<leftarrow> write_pages b (start_addr + sz) buffer start_addr s;
        Some (NAND_DISABLE_CE b s) })"

text \<open>The two functions that \<open>workspace/nand/nand.c\<close> adds; \<open>size\<close> is an \<open>int\<close>, and the loop runs while \<open>index < size\<close>.\<close>

definition nand_read_in_page :: "'d bus \<Rightarrow> u32 \<Rightarrow> s32 \<Rightarrow> 'd \<Rightarrow> (u8 list \<times> 'd) option" where
  "nand_read_in_page b srcAddr sz s =
     (if srcAddr AND NOT NAND_PAGE_MASK \<noteq> (srcAddr + sz - 1) AND NOT NAND_PAGE_MASK then Some ([], s)
      else do {
        let s = NAND_ENABLE_CE b s;
        let s = nand_write_address b srcAddr s;
        let s = wr32 b NFCMMD bare_CMD_READ_START s;
        s \<leftarrow> nand_wait_idle b s;
        let (xs, s) = data_in b (nat (sint sz)) s;
        Some (xs, NAND_DISABLE_CE b s) })"

text \<open>
  The bytes stored at \<open>aim\<close> by each of the calls: the pointer is passed by value and \<open>copy2addr\<close> never advances it.
\<close>

definition copy2addr :: "'d bus \<Rightarrow> u32 \<Rightarrow> s32 \<Rightarrow> 'd \<Rightarrow> (u8 list list \<times> 'd) option" where
  "copy2addr b srcAddr sz s = do {
     (first, srcAddr, sz, s) \<leftarrow>
       (if srcAddr AND NAND_PAGE_MASK \<noteq> 0 then do {
          let len = of_nat NAND_PAGE_SIZE - (srcAddr AND NAND_PAGE_MASK);
          (xs, s) \<leftarrow> nand_read_in_page b srcAddr len s;
          Some ([xs], srcAddr + len, sz - len, s) }
        else Some ([], srcAddr, sz, s));
     if sz AND NAND_PAGE_MASK \<noteq> 0 then do {
       let len = word_of_int (sint sz sdiv int NAND_PAGE_SIZE) * of_nat NAND_PAGE_SIZE;
       (xs, s) \<leftarrow> nand_read_page b srcAddr len s;
       (ys, s) \<leftarrow> nand_read_in_page b srcAddr (sz - len) s;
       Some (first @ [xs, ys], s) }
     else do {
       (xs, s) \<leftarrow> nand_read_page b srcAddr sz s;
       Some (first @ [xs], s) } }"

section \<open>The chip\<close>

text \<open>
  The chip of \<open>NandFlash\<close> behind registers that are written as words, with a ready line that comes after finitely many
  polls; there is no clock.
\<close>

locale bare_chip =
  fixes b :: "'d bus" and fl :: "'d \<Rightarrow> flash" and rdy :: "'d \<Rightarrow> bool" and busy :: "'d \<Rightarrow> nat"
  assumes stat_rd: "fl (snd (rd32 b NFSTAT s)) = fl s" "fst (rd32 b NFSTAT s) AND 1 \<noteq> 0 \<Longrightarrow> rdy (snd (rd32 b NFSTAT s))"
      "fst (rd32 b NFSTAT s) AND 1 = 0 \<Longrightarrow> busy (snd (rd32 b NFSTAT s)) < busy s"
    and cont_rd: "fl (snd (rd32 b NFCONT s)) = fl s"
    and cont_wr: "fl (wr32 b NFCONT v s) = flash_cont v (fl s)"
    and cmd_wr: "fl (wr32 b NFCMMD v s) = flash_cmd (ucast v) (fl s)" "ucast v \<notin> busy_cmds \<Longrightarrow> rdy s \<Longrightarrow> rdy (wr32 b NFCMMD v s)"
    and addr_wr: "fl (wr32 b NFADDR v s) = flash_addr (ucast v) (fl s)"
    and data_rd: "rdy s \<Longrightarrow> ucast (fst (bus_rd b W8 NFDATA s)) = flash_byte (fl s) \<and> fl (snd (bus_rd b W8 NFDATA s)) = flash_get (fl s) \<and>
      rdy (snd (bus_rd b W8 NFDATA s))"
    and data_wr: "fl (bus_wr b W8 NFDATA v s) = flash_put (ucast v) (fl s)"

lemma page_byte: "(ucast (drop_bit n (of_nat p :: u32) AND 0xff) :: u8) = of_nat (p div 2 ^ n)" if "n \<le> 16" "p < 2 ^ 24"
proof (rule bit_word_eqI)
  fix j assume j: "j < LENGTH(8)"
  have m: "(0xff :: u32) = mask 8" by (simp add: mask_eq_exp_minus_1)
  show "bit (ucast (drop_bit n (of_nat p :: u32) AND 0xff) :: u8) j = bit (of_nat (p div 2 ^ n) :: u8) j"
    unfolding m using j that(1) by (auto simp: bit_simps bit_of_nat_iff drop_bit_eq_div [symmetric])
qed

lemma flash_cont_simps [simp]:
  "cells (flash_cont v f) = cells f" "preg (flash_cont v f) = preg f" "fcmd (flash_cont v f) = fcmd f"
  by (simp_all add: flash_cont_def)

lemma erased_and: "map2 (AND) (replicate (length xs) 0xff) xs = (xs :: u8 list)"
  by (induction xs) (simp_all add: and_byte_mask)

context bare_chip
begin

lemma ce_keeps:
  "cells (fl (NAND_ENABLE_CE b s)) = cells (fl s)" "preg (fl (NAND_ENABLE_CE b s)) = preg (fl s)"
  "cells (fl (NAND_DISABLE_CE b s)) = cells (fl s)" "preg (fl (NAND_DISABLE_CE b s)) = preg (fl s)"
  by (simp_all add: NAND_ENABLE_CE_def NAND_DISABLE_CE_def reg_and_def reg_or_def reg_update_def case_prod_beta Let_def cont_rd cont_wr)

lemma nand_wait_idle_ends: "\<exists>s'. nand_wait_idle b s = Some s' \<and> fl s' = fl s \<and> rdy s'"
proof (induction "busy s" arbitrary: s rule: less_induct)
  case less
  show ?case
  proof (cases "fst (rd32 b NFSTAT s) AND 1 = 0")
    case True
    from less.hyps [OF stat_rd(3) [OF this]] True show ?thesis
      by (subst nand_wait_idle.simps) (simp add: case_prod_beta Let_def stat_rd(1))
  next
    case False
    then show ?thesis using stat_rd(1,2) by (subst nand_wait_idle.simps) (simp add: case_prod_beta Let_def)
  qed
qed

lemma write_address:
  assumes "faddr (fl s) = []"
  shows "\<exists>a. fl (nand_write_address b addr s) =
      (fl s)\<lparr>faddr := a, fcol := (if fcmd (fl s) = 0x80 then 0 else fcol (fl s))\<rparr> \<and>
    addr_row a = unat (drop_bit 11 addr) \<and> addr_col a = 0"
proof -
  define p where "p = unat (drop_bit 11 addr)"
  have p: "p < 2 ^ 24" "drop_bit 11 addr = of_nat p"
  proof -
    have "unat addr < 2 ^ LENGTH(32)" by (rule unsigned_less)
    then have "unat addr div 2048 < 2 ^ 24" by simp
    then show "p < 2 ^ 24" unfolding p_def unat_drop_bit_eq by (simp add: drop_bit_eq_div)
    show "drop_bit 11 addr = of_nat p" by (simp add: p_def)
  qed
  have "(ucast (of_nat p AND 0xff :: u32) :: u8) = of_nat p" using page_byte [of 0 p] p(1) by simp
  moreover have "(ucast (drop_bit 8 (of_nat p :: u32) AND 0xff) :: u8) = of_nat (p div 256)"
    "(ucast (drop_bit 16 (of_nat p :: u32) AND 0xff) :: u8) = of_nat (p div 65536)"
    using page_byte [of 8 p] page_byte [of 16 p] p(1) by simp_all
  ultimately show ?thesis using assms p
    by (intro exI [of _ "[0, 0, of_nat p, of_nat (p div 256), of_nat (p div 65536)]"])
      (simp add: nand_write_address_def Let_def addr_wr flash_addr_def addr_row_bytes addr_col_def unat_of_nat del: of_nat_unat)
qed

lemma data_in_register:
  assumes "fcmd (fl s) \<notin> {0x70, 0x90}" "fcol (fl s) + n \<le> length (preg (fl s))" "rdy s" "(xs, s') = data_in b n s"
  shows "xs = take n (drop (fcol (fl s)) (preg (fl s))) \<and> cells (fl s') = cells (fl s) \<and> preg (fl s') = preg (fl s) \<and> rdy s'"
  using assms
proof (induction n arbitrary: s xs)
  case (Suc n)
  define x s1 where "x = (ucast (fst (bus_rd b W8 NFDATA s)) :: u8)" and "s1 = snd (bus_rd b W8 NFDATA s)"
  have x: "x = preg (fl s) ! fcol (fl s)" and s1: "fl s1 = flash_get (fl s)" "rdy s1"
    using data_rd [OF Suc.prems(3)] Suc.prems(1) by (auto simp: x_def s1_def flash_byte_def)
  obtain ys where ys: "xs = x # ys" "(ys, s') = data_in b n s1"
    using Suc.prems(4) by (auto simp: x_def s1_def case_prod_beta Let_def)
  have f1: "fcmd (fl s1) = fcmd (fl s)" "preg (fl s1) = preg (fl s)" "fcol (fl s1) = Suc (fcol (fl s))" "cells (fl s1) = cells (fl s)"
    by (simp_all add: s1 flash_get_def engine_def)
  show ?case
    using Suc.IH [OF _ _ s1(2) ys(2), unfolded f1, OF Suc.prems(1)] Suc.prems(2) ys(1) x
    by (simp add: Cons_nth_drop_Suc [symmetric])
qed simp

lemma data_out_programming:
  "programming (fl s) page cs m xs \<Longrightarrow> length xs + length ys \<le> m \<Longrightarrow> programming (fl (data_out b ys s)) page cs m (xs @ ys)"
proof (induction ys arbitrary: s xs)
  case (Cons y ys)
  have "programming (fl (bus_wr b W8 NFDATA (ucast y) s)) page cs m (xs @ [y])"
    using programming_put(1) [OF Cons.prems(1)] Cons.prems(2) by (simp add: data_wr)
  from Cons.IH [OF this] Cons.prems(2) show ?case by simp
qed simp

lemma read_one_page_runs:
  assumes "p = unat (drop_bit 11 addr)" "2048 \<le> length (cells (fl s) p)"
  shows "\<exists>s'. read_one_page b addr s = Some (take 2048 (cells (fl s) p), s') \<and> cells (fl s') = cells (fl s)"
proof -
  define s1 where "s1 = wr32 b NFCMMD bare_CMD_READ s"
  have s1: "faddr (fl s1) = []" "cells (fl s1) = cells (fl s)" "fcmd (fl s1) = 0" by (simp_all add: s1_def cmd_wr bare_cmd_defs flash_cmd_def)
  obtain a where a: "fl (nand_write_address b addr s1) = (fl s1)\<lparr>faddr := a, fcol := fcol (fl s1)\<rparr>"
    "addr_row a = p" "addr_col a = 0"
    using write_address [OF s1(1), of addr] s1(3) assms(1) by auto
  define s2 where "s2 = wr32 b NFCMMD bare_CMD_READ_START (nand_write_address b addr s1)"
  have s2: "preg (fl s2) = cells (fl s) p" "fcol (fl s2) = 0" "fcmd (fl s2) = 0x30" "cells (fl s2) = cells (fl s)"
    by (simp_all add: s2_def cmd_wr bare_cmd_defs flash_cmd_def a s1)
  obtain s3 where s3: "nand_wait_idle b s2 = Some s3" "fl s3 = fl s2" "rdy s3" using nand_wait_idle_ends by blast
  obtain xs s4 where s4: "(xs, s4) = data_in b 2048 s3" by (metis surj_pair)
  have "read_one_page b addr s = Some (xs, s4)"
    using s3(1) s4 by (simp add: read_one_page_def s1_def s2_def NAND_PAGE_SIZE_def Let_def)
  then show ?thesis using data_in_register [OF _ _ s3(3) s4] s3(2) s2 assms(2) by simp
qed

lemma write_one_page_runs:
  assumes "p = unat (drop_bit 11 addr)" "length (preg (fl s)) = 2112" "length bytes = 2048"
  shows "\<exists>s'. write_one_page b bytes addr s = Some s' \<and> length (preg (fl s')) = 2112 \<and>
    cells (fl s') = (cells (fl s))(p := map2 (AND) (cells (fl s) p) (bytes @ replicate 64 0xff))"
proof -
  define s1 where "s1 = wr32 b NFCMMD bare_CMD_PAGEPROG s"
  have s1: "faddr (fl s1) = []" "cells (fl s1) = cells (fl s)" "fcmd (fl s1) = 0x80" "preg (fl s1) = replicate 2112 0xff"
    using assms(2) by (simp_all add: s1_def cmd_wr bare_cmd_defs flash_cmd_def)
  have "programming (fl (nand_write_address b addr s1)) p (cells (fl s)) 2112 []"
    using write_address [OF s1(1), of addr] s1 assms(1) by (auto simp: programming_def)
  from data_out_programming [OF this, of bytes] assms(3)
  have prog: "programming (fl (data_out b bytes (nand_write_address b addr s1))) p (cells (fl s)) 2112 bytes" by simp
  define s2 where "s2 = wr32 b NFCMMD bare_CMD_PAGEPROG_START (data_out b bytes (nand_write_address b addr s1))"
  have s2: "cells (fl s2) = (cells (fl s))(p := map2 (AND) (cells (fl s) p) (bytes @ replicate 64 0xff))" "length (preg (fl s2)) = 2112"
    using prog assms(3) by (auto simp: s2_def cmd_wr bare_cmd_defs flash_cmd_def programming_def)
  obtain s3 where s3: "nand_wait_idle b s2 = Some s3" "fl s3 = fl s2" "rdy s3" using nand_wait_idle_ends by blast
  define s4 where "s4 = wr32 b NFCMMD bare_CMD_STATUS s3"
  have s4: "fl s4 = (fl s3)\<lparr>fcmd := 0x70, faddr := []\<rparr>" "rdy s4"
    using s3(3) cmd_wr [of bare_CMD_STATUS s3] by (simp_all add: s4_def bare_cmd_defs flash_cmd_def busy_cmds_def)
  have s5: "ucast (fst (bus_rd b W8 NFDATA s4)) = (0xC0 :: u8)" "cells (fl (snd (bus_rd b W8 NFDATA s4))) = cells (fl s2)"
    "preg (fl (snd (bus_rd b W8 NFDATA s4))) = preg (fl s2)"
    using data_rd [OF s4(2)] by (simp_all add: s4 s3 flash_byte_def flash_get_def engine_def)
  have "write_one_page b bytes addr s = Some (snd (bus_rd b W8 NFDATA s4))"
    using s3(1) s5(1) by (simp add: write_one_page_def s1_def [symmetric] s2_def [symmetric] s4_def [symmetric] case_prod_beta Let_def)
  then show ?thesis using s5 s2 by simp
qed

text \<open>The loops over the pages; addresses are multiples of the page size and do not wrap around.\<close>

lemma read_pages_run:
  assumes "unat addr = 2048 * p" "2048 * (p + n) < 2 ^ 32" "\<And>i. i < n \<Longrightarrow> 2048 \<le> length (cells (fl s) (p + i))"
  shows "\<exists>s'. read_pages b (of_nat (2048 * (p + n))) addr s =
      Some (concat (map (\<lambda>i. take 2048 (cells (fl s) i)) [p..<p + n]), s') \<and> cells (fl s') = cells (fl s)"
  using assms
proof (induction n arbitrary: p addr s)
  case 0
  have "\<not> addr < of_nat (2048 * (p + 0))" using 0(1,2) by (simp add: word_less_nat_alt unat_of_nat del: of_nat_mult of_nat_add)
  then show ?case by (subst read_pages.simps) simp
next
  case (Suc n)
  have lt: "addr < of_nat (2048 * (p + Suc n))" using Suc.prems(1,2) by (simp add: word_less_nat_alt unat_of_nat del: of_nat_mult of_nat_add)
  have page: "p = unat (drop_bit 11 addr)" using Suc.prems(1) unfolding unat_drop_bit_eq by (simp add: drop_bit_eq_div)
  have next_addr: "unat (addr + 2048) = 2048 * Suc p" using Suc.prems(1,2) by (simp add: unat_word_ariths)
  obtain s1 where s1: "read_one_page b addr s = Some (take 2048 (cells (fl s) p), s1)" "cells (fl s1) = cells (fl s)"
    using read_one_page_runs [OF page, of s] Suc.prems(3) [of 0] by auto
  have "\<exists>s'. read_pages b (of_nat (2048 * (Suc p + n))) (addr + 2048) s1 =
      Some (concat (map (\<lambda>i. take 2048 (cells (fl s1) i)) [Suc p..<Suc p + n]), s') \<and> cells (fl s') = cells (fl s1)"
  proof (rule Suc.IH [OF next_addr])
    show "2048 * (Suc p + n) < 2 ^ 32" using Suc.prems(2) by simp
    show "2048 \<le> length (cells (fl s1) (Suc p + i))" if "i < n" for i using Suc.prems(3) [of "Suc i"] s1(2) that by simp
  qed
  then obtain s2 where s2: "read_pages b (of_nat (2048 * (p + Suc n))) (addr + 2048) s1 =
      Some (concat (map (\<lambda>i. take 2048 (cells (fl s) i)) [Suc p..<p + Suc n]), s2)" "cells (fl s2) = cells (fl s)"
    using s1(2) by auto
  have "[p..<p + Suc n] = p # [Suc p..<p + Suc n]" by (simp add: upt_conv_Cons)
  then show ?case using lt s1(1) s2 by (subst read_pages.simps) (simp add: NAND_PAGE_SIZE_def del: of_nat_mult of_nat_add)
qed

lemma write_pages_run:
  assumes "unat addr = 2048 * p" "2048 * (p + n) < 2 ^ 32" "length (preg (fl s)) = 2112" "length buffer = 2048 * n"
    and "\<And>i. i < n \<Longrightarrow> cells (fl s) (p + i) = replicate 2112 0xff"
  shows "\<exists>s'. write_pages b (of_nat (2048 * (p + n))) buffer addr s = Some s' \<and> length (preg (fl s')) = 2112 \<and>
    (\<forall>i. cells (fl s') i = (if p \<le> i \<and> i < p + n then take 2048 (drop (2048 * (i - p)) buffer) @ replicate 64 0xff
      else cells (fl s) i))"
  using assms
proof (induction n arbitrary: p addr s buffer)
  case 0
  have "\<not> addr < of_nat (2048 * (p + 0))" using 0(1,2) by (simp add: word_less_nat_alt unat_of_nat del: of_nat_mult of_nat_add)
  then show ?case using 0(3) by (subst write_pages.simps) auto
next
  case (Suc n)
  have lt: "addr < of_nat (2048 * (p + Suc n))" using Suc.prems(1,2) by (simp add: word_less_nat_alt unat_of_nat del: of_nat_mult of_nat_add)
  have page: "p = unat (drop_bit 11 addr)" using Suc.prems(1) unfolding unat_drop_bit_eq by (simp add: drop_bit_eq_div)
  have next_addr: "unat (addr + 2048) = 2048 * Suc p" using Suc.prems(1,2) by (simp add: unat_word_ariths)
  have len: "length (take 2048 buffer) = 2048" using Suc.prems(4) by simp
  obtain s1 where s1: "write_one_page b (take 2048 buffer) addr s = Some s1" "length (preg (fl s1)) = 2112"
    "cells (fl s1) = (cells (fl s))(p := map2 (AND) (cells (fl s) p) (take 2048 buffer @ replicate 64 0xff))"
    using write_one_page_runs [OF page Suc.prems(3) len] by blast
  have c1: "cells (fl s1) = (cells (fl s))(p := take 2048 buffer @ replicate 64 0xff)"
    using s1(3) Suc.prems(5) [of 0] erased_and [of "take 2048 buffer @ replicate 64 0xff"] len by simp
  have "\<exists>s'. write_pages b (of_nat (2048 * (Suc p + n))) (drop 2048 buffer) (addr + 2048) s1 = Some s' \<and>
      length (preg (fl s')) = 2112 \<and>
      (\<forall>i. cells (fl s') i = (if Suc p \<le> i \<and> i < Suc p + n then take 2048 (drop (2048 * (i - Suc p)) (drop 2048 buffer)) @ replicate 64 0xff
        else cells (fl s1) i))"
  proof (rule Suc.IH [OF next_addr _ s1(2)])
    show "2048 * (Suc p + n) < 2 ^ 32" using Suc.prems(2) by simp
    show "length (drop 2048 buffer) = 2048 * n" using Suc.prems(4) by simp
    show "cells (fl s1) (Suc p + i) = replicate 2112 0xff" if "i < n" for i using Suc.prems(5) [of "Suc i"] c1 that by simp
  qed
  then obtain s2 where s2: "write_pages b (of_nat (2048 * (p + Suc n))) (drop 2048 buffer) (addr + 2048) s1 = Some s2"
    "length (preg (fl s2)) = 2112"
    "\<And>i. cells (fl s2) i = (if Suc p \<le> i \<and> i < Suc p + n then take 2048 (drop (2048 * (i - Suc p)) (drop 2048 buffer)) @ replicate 64 0xff
        else cells (fl s1) i)"
    by auto
  have "cells (fl s2) i = (if p \<le> i \<and> i < p + Suc n then take 2048 (drop (2048 * (i - p)) buffer) @ replicate 64 0xff
      else cells (fl s) i)" for i
  proof -
    have "drop (2048 * (i - Suc p)) (drop 2048 buffer) = drop (2048 * (i - p)) buffer" if "Suc p \<le> i"
    proof -
      have "2048 * (i - Suc p) + 2048 = 2048 * (i - p)" using that by linarith
      then show ?thesis by simp
    qed
    then show ?thesis using s2(3) [of i] c1 by auto
  qed
  moreover have "write_pages b (of_nat (2048 * (p + Suc n))) buffer addr s = Some s2"
    using lt s1(1) s2(1) Suc.prems(4)
    by (subst write_pages.simps) (simp add: NAND_PAGE_SIZE_def get_bytes_def del: of_nat_mult of_nat_add)
  ultimately show ?case using s2(2) by blast
qed

end

section \<open>A chip that becomes ready after two polls\<close>

record polled =
  polled_flash :: flash
  polled_busy :: nat

definition polled_bus :: "polled bus" where
  "polled_bus = \<lparr>
     bus_rd = \<lambda>w a s.
       if a = NFSTAT then (if polled_busy s = 0 then 1 else 0, s\<lparr>polled_busy := polled_busy s - 1\<rparr>)
       else if a = NFDATA then (ucast (flash_byte (polled_flash s)), s\<lparr>polled_flash := flash_get (polled_flash s)\<rparr>)
       else if a = NFCONT then (cont (polled_flash s), s)
       else (0, s),
     bus_wr = \<lambda>w a v s.
       if a = NFCMMD then s\<lparr>polled_flash := flash_cmd (ucast v) (polled_flash s),
         polled_busy := (if ucast v \<in> busy_cmds then 2 else polled_busy s)\<rparr>
       else if a = NFADDR then s\<lparr>polled_flash := flash_addr (ucast v) (polled_flash s)\<rparr>
       else if a = NFDATA then s\<lparr>polled_flash := flash_put (ucast v) (polled_flash s)\<rparr>
       else if a = NFCONT then s\<lparr>polled_flash := flash_cont v (polled_flash s)\<rparr>
       else s \<rparr>"

interpretation polled: bare_chip polled_bus polled_flash "\<lambda>s. polled_busy s = 0" polled_busy
  by unfold_locales (auto simp: polled_bus_def rd32_def wr32_def bare_nand_addrs split: if_splits)

section \<open>Properties\<close>

lemma page_aligned: "of_nat (2048 * p) AND NAND_PAGE_MASK = 0"
proof -
  have m: "NAND_PAGE_MASK = mask 11" by (simp add: NAND_PAGE_MASK_def NAND_PAGE_SIZE_def mask_eq_exp_minus_1)
  have p: "(of_nat (2048 * p) :: u32) = push_bit 11 (of_nat p)" by (simp add: push_bit_eq_mult)
  show ?thesis unfolding m p by (rule bit_word_eqI) (auto simp: bit_simps)
qed

lemma chunks_concat: "length xs = k * n \<Longrightarrow> concat (map (\<lambda>i. take k (drop (k * i) xs)) [0..<n]) = xs"
proof -
  assume len: "length xs = k * n"
  have "concat (map (\<lambda>i. take k (drop (k * i) xs)) [0..<m]) = take (k * m) xs" for m
    by (induction m) (simp_all add: take_add [symmetric] add.commute)
  from this [of n] show ?thesis using len by simp
qed

text \<open>C14: The NAND functions of the bare-metal program.  Writing whole pages to erased pages stores exactly these pages,
  with untouched spare areas, and no other page changes; reading the same range afterwards gives the buffer back.  Both
  end whatever the chip was doing before, for every range below the top of the address space.\<close>

theorem bare_nand_roundtrip:
  assumes "bare_chip b fl rdy busy" "2048 * (p + n) < 2 ^ 32" "length (preg (fl s)) = 2112" "length buffer = 2048 * n"
    and "\<And>i. i < n \<Longrightarrow> cells (fl s) (p + i) = replicate 2112 0xff"
  shows "\<exists>s' s''. bare_nand_write_page b buffer (of_nat (2048 * n)) (of_nat (2048 * p)) s = Some s' \<and>
    (\<forall>i. cells (fl s') i = (if p \<le> i \<and> i < p + n then take 2048 (drop (2048 * (i - p)) buffer) @ replicate 64 0xff
      else cells (fl s) i)) \<and>
    nand_read_page b (of_nat (2048 * p)) (of_nat (2048 * n)) s' = Some (buffer, s'') \<and> cells (fl s'') = cells (fl s')"
proof -
  note C = bare_chip.ce_keeps [OF assms(1)]
  have addr: "unat (of_nat (2048 * p) :: u32) = 2048 * p"
    using assms(2) by (simp add: unat_of_nat del: of_nat_mult)
  have sum: "of_nat (2048 * p) + of_nat (2048 * n) = (of_nat (2048 * (p + n)) :: u32)" by (simp add: algebra_simps)
  obtain s1 where s1: "write_pages b (of_nat (2048 * (p + n))) buffer (of_nat (2048 * p)) (NAND_ENABLE_CE b s) = Some s1"
    and c1: "\<forall>i. cells (fl s1) i = (if p \<le> i \<and> i < p + n then take 2048 (drop (2048 * (i - p)) buffer) @ replicate 64 0xff
      else cells (fl s) i)"
    using bare_chip.write_pages_run [OF assms(1) addr assms(2), of "NAND_ENABLE_CE b s" buffer] assms(3-5) C by auto
  define s2 where "s2 = NAND_DISABLE_CE b s1"
  have c2: "cells (fl (NAND_ENABLE_CE b s2)) = cells (fl s1)" "cells (fl s2) = cells (fl s1)" by (simp_all add: s2_def C)
  have "2048 \<le> length (cells (fl (NAND_ENABLE_CE b s2)) (p + i))" if "i < n" for i
  proof -
    have "2048 * (i + 1) \<le> 2048 * n" using that by simp
    then show ?thesis using that c1 assms(4) by (simp add: c2)
  qed
  then obtain s3 where s3: "read_pages b (of_nat (2048 * (p + n))) (of_nat (2048 * p)) (NAND_ENABLE_CE b s2) =
      Some (concat (map (\<lambda>i. take 2048 (cells (fl s1) i)) [p..<p + n]), s3)" "cells (fl s3) = cells (fl s1)"
    using bare_chip.read_pages_run [OF assms(1) addr assms(2), of "NAND_ENABLE_CE b s2"] c2 by auto
  have "map (\<lambda>i. take 2048 (cells (fl s1) i)) [p..<p + n] = map (\<lambda>i. take 2048 (drop (2048 * i) buffer)) [0..<n]"
  proof (rule nth_equalityI)
    fix i assume "i < length (map (\<lambda>i. take 2048 (cells (fl s1) i)) [p..<p + n])"
    then have i: "i < n" by simp
    then have "2048 * (i + 1) \<le> 2048 * n" by simp
    then show "map (\<lambda>i. take 2048 (cells (fl s1) i)) [p..<p + n] ! i = map (\<lambda>i. take 2048 (drop (2048 * i) buffer)) [0..<n] ! i"
      using i c1 assms(4) by simp
  qed simp
  then have buf: "concat (map (\<lambda>i. take 2048 (cells (fl s1) i)) [p..<p + n]) = buffer"
    using chunks_concat [OF assms(4)] by simp
  have "bare_nand_write_page b buffer (of_nat (2048 * n)) (of_nat (2048 * p)) s = Some s2"
    using s1 by (simp only: bare_nand_write_page_def page_aligned sum Let_def) (simp add: s2_def del: of_nat_mult)
  moreover have "nand_read_page b (of_nat (2048 * p)) (of_nat (2048 * n)) s2 = Some (buffer, NAND_DISABLE_CE b s3)"
    using s3(1) buf by (simp only: nand_read_page_def page_aligned sum Let_def) (simp del: of_nat_mult)
  ultimately show ?thesis using c1 c2 s3(2) C by (intro exI [of _ s2] exI [of _ "NAND_DISABLE_CE b s3"]) simp
qed

text \<open>\<open>nand_read_in_page\<close>, with which \<open>copy2addr\<close> reads the unaligned parts, sends no column: from any two
  offsets in one page it reads the same bytes, those from the start of the page, whatever the chip does.\<close>

lemma nand_read_in_page_ignores_offset:
  assumes "a AND NOT NAND_PAGE_MASK = a' AND NOT NAND_PAGE_MASK"
    and "(a + sz - 1) AND NOT NAND_PAGE_MASK = a AND NOT NAND_PAGE_MASK" "(a' + sz - 1) AND NOT NAND_PAGE_MASK = a' AND NOT NAND_PAGE_MASK"
  shows "nand_read_in_page b a sz s = nand_read_in_page b a' sz s"
proof -
  have m: "NAND_PAGE_MASK = mask 11" by (simp add: NAND_PAGE_MASK_def NAND_PAGE_SIZE_def mask_eq_exp_minus_1)
  have "drop_bit 11 x = drop_bit 11 (x AND NOT NAND_PAGE_MASK)" for x :: u32
  proof (unfold m, rule bit_word_eqI)
    fix n
    have "bit x (11 + n) \<Longrightarrow> 11 + n < 32" using bit_imp_le_length [of x "11 + n"] by simp
    then show "bit (drop_bit 11 x) n = bit (drop_bit 11 (x AND NOT (mask 11))) n" by (auto simp: bit_simps)
  qed
  from trans [OF this [of a, unfolded assms(1)] this [of a', symmetric]] have "drop_bit 11 a = drop_bit 11 a'" .
  then have "nand_write_address b a = nand_write_address b a'" by (intro ext) (simp only: nand_write_address_def)
  then show ?thesis using assms(2,3) by (simp add: nand_read_in_page_def)
qed

theorem bare_nand_roundtrip_witness:
  "\<exists>s' s''. bare_nand_write_page polled_bus (replicate 4096 0x5a) (of_nat (2048 * 2)) (of_nat (2048 * 7))
      \<lparr>polled_flash = tiny_flash (\<lambda>_. replicate 2112 0xff), polled_busy = 3\<rparr> = Some s' \<and>
    nand_read_page polled_bus (of_nat (2048 * 7)) (of_nat (2048 * 2)) s' = Some (replicate 4096 0x5a, s'')"
  using bare_nand_roundtrip [OF polled.bare_chip_axioms, of 7 2
    "\<lparr>polled_flash = tiny_flash (\<lambda>_. replicate 2112 0xff), polled_busy = 3\<rparr>" "replicate 4096 0x5a"]
  by (auto simp: tiny_flash_def simp del: of_nat_mult)

lemma nand_read_in_page_ignores_offset_witness:
  "nand_read_in_page polled_bus 0x100 0x10 \<lparr>polled_flash = tiny_flash (\<lambda>_. []), polled_busy = 0\<rparr> =
   nand_read_in_page polled_bus 0x200 0x10 \<lparr>polled_flash = tiny_flash (\<lambda>_. []), polled_busy = 0\<rparr>"
  using nand_read_in_page_ignores_offset [of "0x100" "0x200" "0x10" polled_bus]
  by (simp add: NAND_PAGE_MASK_def NAND_PAGE_SIZE_def)

end
