(* ===== verification/CharDev.thy ===== *)
theory CharDev
  imports Bus
begin

text \<open>
  Two loadable kernel modules, \<open>linux/drives/char_dev/char_dev.c\<close> and the LED driver
  \<open>linux/drives/leds_dev/char_leds/char_leds.c\<close>.  A module keeps a few static variables and calls services of the
  kernel.  The services are a parameter, a record of functions on a kernel state of type \<open>'k\<close>; their documented
  laws are the assumptions of the locales below.  Messages printed with \<open>printk\<close> have no effect on the state.
\<close>

section \<open>Services of the kernel\<close>

text \<open>
  \<open>copy_to_user\<close> and \<open>copy_from_user\<close> return the number of bytes not copied; \<open>copy_from_user\<close> returns in addition the
  bytes it left in the destination.  Results of type \<^typ>\<open>s32\<close> are 0 or a negative error number.
\<close>

record 'k kernel =
  copy_to_user :: "ptr \<Rightarrow> u8 list \<Rightarrow> 'k \<Rightarrow> u32 \<times> 'k"
  copy_from_user :: "ptr \<Rightarrow> nat \<Rightarrow> 'k \<Rightarrow> u32 \<times> u8 list \<times> 'k"
  alloc_chrdev_region :: "'k \<Rightarrow> s32 \<times> u32 \<times> 'k"
  register_chrdev_region :: "u32 \<Rightarrow> 'k \<Rightarrow> s32 \<times> 'k"
  unregister_chrdev_region :: "u32 \<Rightarrow> 'k \<Rightarrow> 'k"
  cdev_init :: "'k \<Rightarrow> 'k"
  cdev_add :: "u32 \<Rightarrow> 'k \<Rightarrow> s32 \<times> 'k"
  cdev_del :: "'k \<Rightarrow> 'k"
  misc_register :: "'k \<Rightarrow> s32 \<times> 'k"
  misc_deregister :: "'k \<Rightarrow> 'k"
  request_irq :: "s32 \<Rightarrow> 'k \<Rightarrow> s32 \<times> 'k"
  disable_irq :: "s32 \<Rightarrow> 'k \<Rightarrow> 'k"
  free_irq :: "s32 \<Rightarrow> 'k \<Rightarrow> 'k"

section \<open>The buffer device\<close>

definition BUFFER_CLEAR_CMD :: u32 where "BUFFER_CLEAR_CMD = 0x909090"
definition BUFFER_SIZE :: u32 where "BUFFER_SIZE = 1025"

record chr =
  char_dev_buffer :: "u8 list"
  char_dev_string_len :: s32
  open_use :: s32
  ndev :: u32

text \<open>The initial values: the text \<open>20151108\<close> with its NUL, and zeros up to the size of the array.\<close>

definition chr_static :: chr where
  "chr_static =
     \<lparr> char_dev_buffer = [50, 48, 49, 53, 49, 49, 48, 56] @ replicate (unat BUFFER_SIZE - 8) 0,
       char_dev_string_len = 9, open_use = 0, ndev = 0 \<rparr>"

definition chr_open :: "chr \<Rightarrow> s32 \<times> chr" where
  "chr_open c = (if open_use c = 1 then (- 1, c) else (0, c\<lparr>open_use := 1\<rparr>))"

definition chr_close :: "chr \<Rightarrow> s32 \<times> chr" where
  "chr_close c = (0, c\<lparr>open_use := 0\<rparr>)"

text \<open>The length is converted to \<open>size_t\<close> for the comparison.  The result of \<open>copy_to_user\<close> is dropped.\<close>

definition chr_read :: "'k kernel \<Rightarrow> ptr \<Rightarrow> u32 \<Rightarrow> chr \<times> 'k \<Rightarrow> s32 \<times> chr \<times> 'k" where
  "chr_read K buf count = (\<lambda>(c, k).
     let count = (if count > char_dev_string_len c then char_dev_string_len c else count);
         (_, k) = copy_to_user K buf (take (unat count) (char_dev_buffer c)) k
     in (0, c, k))"

definition chr_write :: "'k kernel \<Rightarrow> ptr \<Rightarrow> u32 \<Rightarrow> chr \<times> 'k \<Rightarrow> s32 \<times> chr \<times> 'k" where
  "chr_write K buf count = (\<lambda>(c, k).
     let count = count mod BUFFER_SIZE;
         (c, k) = (if count \<noteq> 0
                   then (let (_, xs, k) = copy_from_user K buf (unat count) k
                         in (c\<lparr>char_dev_buffer := xs @ drop (unat count) (char_dev_buffer c)\<rparr>, k))
                   else (c, k))
     in (count, c\<lparr>char_dev_string_len := count\<rparr>, k))"

definition chr_ioctl :: "u32 \<Rightarrow> u32 \<Rightarrow> chr \<Rightarrow> s32 \<times> chr" where
  "chr_ioctl cmd arg c =
     (if cmd = BUFFER_CLEAR_CMD then (0, c\<lparr>char_dev_string_len := 0\<rparr>) else (0, c))"

definition chr_init :: "'k kernel \<Rightarrow> chr \<times> 'k \<Rightarrow> s32 \<times> chr \<times> 'k" where
  "chr_init K = (\<lambda>(c, k).
     let k = cdev_init K k;
         (ret, dev, k) = alloc_chrdev_region K k
     in if ret <s 0 then (ret, c, k)
        else (let c = c\<lparr>ndev := dev\<rparr>;
                  (ret, k) = cdev_add K dev k
              in if ret <s 0 then (ret, c, k) else (0, c, k)))"

definition chr_exit :: "'k kernel \<Rightarrow> chr \<times> 'k \<Rightarrow> 'k" where
  "chr_exit K = (\<lambda>(c, k). unregister_chrdev_region K (ndev c) (cdev_del K k))"

text \<open>What the file operations table offers to user programs.\<close>

datatype chr_op = Open | Close | Read ptr u32 | Write ptr u32 | Ioctl u32 u32

definition chr_ops :: "'k kernel \<Rightarrow> chr_op \<Rightarrow> chr \<times> 'k \<Rightarrow> s32 \<times> chr \<times> 'k" where
  "chr_ops K op = (\<lambda>(c, k). case op of
       Open \<Rightarrow> (let (r, c) = chr_open c in (r, c, k))
     | Close \<Rightarrow> (let (r, c) = chr_close c in (r, c, k))
     | Read buf count \<Rightarrow> chr_read K buf count (c, k)
     | Write buf count \<Rightarrow> chr_write K buf count (c, k)
     | Ioctl cmd arg \<Rightarrow> (let (r, c) = chr_ioctl cmd arg c in (r, c, k)))"

text \<open>A sequence of calls: their results, oldest first, and the final state.\<close>

primrec chr_calls :: "'k kernel \<Rightarrow> chr_op list \<Rightarrow> chr \<times> 'k \<Rightarrow> s32 list \<times> chr \<times> 'k" where
  "chr_calls K [] s = ([], s)"
| "chr_calls K (op # ops) s =
     (let (r, s) = chr_ops K op s; (rs, s) = chr_calls K ops s in (r # rs, s))"

section \<open>The LED device\<close>

text \<open>
  The addresses \<open>S3C64XX_GPKCON\<close> and \<open>S3C64XX_GPKDAT\<close> come from a header that is not part of the repository; they are
  the parameters \<open>con\<close> and \<open>dat\<close>.
\<close>

definition s3c6410_leds_open :: "'d bus \<Rightarrow> u32 \<Rightarrow> u32 \<Rightarrow> s32 \<times> 'd \<Rightarrow> s32 \<times> s32 \<times> 'd" where
  "s3c6410_leds_open b con dat = (\<lambda>(leds_status, s).
     if leds_status = 0
     then (let (tmp, s) = rd32 b con s;
               tmp = (tmp AND NOT 0xFFFF0000) OR 0x11110000;
               s = wr32 b con tmp s;
               (tmp, s) = rd32 b dat s;
               s = wr32 b dat (tmp OR push_bit 4 0xF) s
           in (0, 1, s))
     else (0, leds_status, s))"

definition s3c6410_leds_close :: "s32 \<times> 'd \<Rightarrow> s32 \<times> s32 \<times> 'd" where
  "s3c6410_leds_close s = (0, s)"

definition s3c6410_leds_ioctl :: "'d bus \<Rightarrow> u32 \<Rightarrow> u32 \<Rightarrow> u32 \<Rightarrow> 'd \<Rightarrow> s32 \<times> 'd" where
  "s3c6410_leds_ioctl b dat cmd arg s =
     (if cmd = 0 \<or> cmd = 1
      then (if arg > 4 then (- EINVAL, s)
            else if arg = 0
            then (let (tmp, s) = rd32 b dat s;
                      tmp = (if cmd = 1 then tmp AND NOT (push_bit 4 0xF) else tmp OR push_bit 4 0xF)
                  in (0, wr32 b dat tmp s))
            else (let (tmp, s) = rd32 b dat s;
                      n = unat (3 + arg);
                      tmp = tmp AND NOT (push_bit n 1);
                      tmp = tmp OR push_bit n (if cmd = 0 then 1 else 0)
                  in (0, wr32 b dat tmp s)))
      else (- EINVAL, s))"

text \<open>Four bytes are copied whatever \<open>count\<close> is, and the result is 0, not their number.\<close>

definition s3c6410_leds_read :: "'d bus \<Rightarrow> 'k kernel \<Rightarrow> u32 \<Rightarrow> ptr \<Rightarrow> u32 \<Rightarrow> 'd \<times> 'k \<Rightarrow> s32 \<times> 'd \<times> 'k" where
  "s3c6410_leds_read b K dat buf count = (\<lambda>(s, k).
     let (tmp, s) = rd32 b dat s;
         tmp = drop_bit 4 (tmp AND push_bit 4 0xF);
         (failed, k) = copy_to_user K buf (map (\<lambda>i. ucast (drop_bit (8 * i) tmp)) [0, 1, 2, 3]) k
     in (if failed \<noteq> 0 then - EFAULT else 0, s, k))"

definition DEVICE_MAJOR :: u32 where "DEVICE_MAJOR = 0"
definition MKDEV :: "u32 \<Rightarrow> u32 \<Rightarrow> u32" where "MKDEV ma mi = push_bit 20 ma OR mi"

definition s3c6410_leds_init :: "'k kernel \<Rightarrow> u32 \<times> 'k \<Rightarrow> s32 \<times> u32 \<times> 'k" where
  "s3c6410_leds_init K = (\<lambda>(leds_dev_t, k).
     let (ret, leds_dev_t, k) =
           (if DEVICE_MAJOR \<noteq> 0
            then (let dev = MKDEV DEVICE_MAJOR 0; (ret, k) = register_chrdev_region K dev k in (ret, dev, k))
            else (let (ret, dev, k) = alloc_chrdev_region K k
                  in (ret, if ret <s 0 then leds_dev_t else dev, k)))
     in if ret <s 0 then (ret, leds_dev_t, k)
        else (let (_, k) = cdev_add K leds_dev_t (cdev_init K k) in (0, leds_dev_t, k)))"

definition s3c6410_leds_exit :: "'k kernel \<Rightarrow> u32 \<times> 'k \<Rightarrow> 'k" where
  "s3c6410_leds_exit K = (\<lambda>(leds_dev_t, k). unregister_chrdev_region K leds_dev_t (cdev_del K k))"

text \<open>
  The older driver \<open>leds_dev.c\<close> has the same \<open>ioctl\<close>, no \<open>open\<close> and no \<open>read\<close>, and sets the port up when it is loaded.
\<close>

definition leds_misc_init :: "'d bus \<Rightarrow> 'k kernel \<Rightarrow> u32 \<Rightarrow> u32 \<Rightarrow> 'd \<times> 'k \<Rightarrow> s32 \<times> 'd \<times> 'k" where
  "leds_misc_init b K con dat = (\<lambda>(s, k).
     let (tmp, s) = rd32 b con s;
         tmp = (tmp AND NOT 0xFFFF0000) OR 0x11110000;
         s = wr32 b con tmp s;
         (tmp, s) = rd32 b dat s;
         s = wr32 b dat (tmp OR push_bit 4 0xF) s;
         (ret, k) = misc_register K k
     in (if ret <s 0 then ret else 0, s, k))"

definition leds_misc_exit :: "'k kernel \<Rightarrow> 'k \<Rightarrow> 'k" where
  "leds_misc_exit K k = misc_deregister K k"

section \<open>Contracts of the kernel services\<close>

text \<open>
  User memory.  \<open>acc p n\<close> says that the calling process may access the \<open>n\<close> bytes at \<open>p\<close>; copies to and from such
  memory succeed.
\<close>

locale user_access =
  fixes K :: "'k kernel" and umem :: "'k \<Rightarrow> mem" and acc :: "ptr \<Rightarrow> nat \<Rightarrow> bool"
  assumes acc_mono: "acc p n \<Longrightarrow> m \<le> n \<Longrightarrow> acc p m"
    and copy_to: "acc p (length xs) \<Longrightarrow>
      fst (copy_to_user K p xs k) = 0 \<and> umem (snd (copy_to_user K p xs k)) = store_bytes (umem k) p xs"
    and copy_from: "acc p n \<Longrightarrow>
      fst (copy_from_user K p n k) = 0 \<and> fst (snd (copy_from_user K p n k)) = load_bytes (umem k) p n \<and>
      umem (snd (snd (copy_from_user K p n k))) = umem k"

text \<open>Interrupt lines.  \<open>owned\<close> is the set of lines whose handler the module has installed; they are not shared.\<close>

locale irq_lines =
  fixes K :: "'k kernel" and owned :: "'k \<Rightarrow> s32 set"
  assumes request_ok: "fst (request_irq K i k) = 0 \<Longrightarrow>
      i \<notin> owned k \<and> owned (snd (request_irq K i k)) = insert i (owned k)"
    and request_fails: "fst (request_irq K i k) \<noteq> 0 \<Longrightarrow> owned (snd (request_irq K i k)) = owned k"
    and disable_keeps: "owned (disable_irq K i k) = owned k"
    and free_drops: "owned (free_irq K i k) = owned k - {i}"

section \<open>The buffer device as an abstract store\<close>

text \<open>What the device promises: a string, an exclusive-use flag, and what reads and writes do to user memory.\<close>

record chr_spec =
  contents :: "u8 list"
  busy :: bool
  user :: mem

fun spec_op :: "chr_op \<Rightarrow> chr_spec \<Rightarrow> s32 \<times> chr_spec" where
  "spec_op Open a = (if busy a then (- 1, a) else (0, a\<lparr>busy := True\<rparr>))"
| "spec_op Close a = (0, a\<lparr>busy := False\<rparr>)"
| "spec_op (Read p n) a = (0, a\<lparr>user := store_bytes (user a) p (take (unat n) (contents a))\<rparr>)"
| "spec_op (Write p n) a =
     (let m = unat n mod 1025 in (of_nat m, a\<lparr>contents := load_bytes (user a) p m\<rparr>))"
| "spec_op (Ioctl cmd arg) a = (0, if cmd = 0x909090 then a\<lparr>contents := []\<rparr> else a)"

primrec spec_calls :: "chr_op list \<Rightarrow> chr_spec \<Rightarrow> s32 list \<times> chr_spec" where
  "spec_calls [] a = ([], a)"
| "spec_calls (op # ops) a = (let (r, a) = spec_op op a; (rs, a) = spec_calls ops a in (r # rs, a))"

definition chr_abs :: "chr \<Rightarrow> mem \<Rightarrow> chr_spec" where
  "chr_abs c m = \<lparr> contents = take (unat (char_dev_string_len c)) (char_dev_buffer c), busy = (open_use c = 1), user = m \<rparr>"

definition chr_inv :: "chr \<Rightarrow> bool" where
  "chr_inv c \<longleftrightarrow> length (char_dev_buffer c) = 1025 \<and> unat (char_dev_string_len c) \<le> 1024 \<and> open_use c \<in> {0, 1}"

fun op_ok :: "(ptr \<Rightarrow> nat \<Rightarrow> bool) \<Rightarrow> chr_op \<Rightarrow> bool" where
  "op_ok acc (Read p n) \<longleftrightarrow> acc p (unat n)"
| "op_ok acc (Write p n) \<longleftrightarrow> acc p (unat n)"
| "op_ok acc _ \<longleftrightarrow> True"

lemma chr_inv_static: "chr_inv chr_static"
  by (simp add: chr_inv_def chr_static_def BUFFER_SIZE_def)

lemma unat_mod_BUFFER_SIZE: "unat (n mod BUFFER_SIZE) = unat n mod 1025"
  by (simp add: BUFFER_SIZE_def unat_mod)

context user_access begin

lemma chr_read_refines:
  assumes "chr_inv c" "acc p (unat n)"
  shows "\<exists>c' k'. chr_read K p n (c, k) = (0, c', k') \<and> chr_inv c' \<and>
    spec_op (Read p n) (chr_abs c (umem k)) = (0, chr_abs c' (umem k'))"
proof -
  let ?n = "if n > char_dev_string_len c then char_dev_string_len c else n"
  let ?xs = "take (unat ?n) (char_dev_buffer c)"
  have n: "unat ?n = min (unat n) (unat (char_dev_string_len c))" by (simp add: word_less_nat_alt)
  have "acc p (length ?xs)" using acc_mono [OF assms(2)] n by simp
  then have "umem (snd (copy_to_user K p ?xs k)) = store_bytes (umem k) p ?xs" using copy_to by blast
  moreover have "take (unat n) (contents (chr_abs c (umem k))) = ?xs" by (simp only: n) (simp add: chr_abs_def)
  ultimately show ?thesis using assms(1)
    by (auto simp: chr_read_def Let_def case_prod_beta chr_abs_def split: if_splits)
qed

lemma chr_write_refines:
  assumes "chr_inv c" "acc p (unat n)"
  shows "\<exists>c' k'. chr_write K p n (c, k) = (of_nat (unat n mod 1025), c', k') \<and> chr_inv c' \<and>
    spec_op (Write p n) (chr_abs c (umem k)) = (of_nat (unat n mod 1025), chr_abs c' (umem k'))"
proof -
  let ?n = "n mod BUFFER_SIZE"
  have n: "unat ?n = unat n mod 1025" "unat ?n \<le> 1024" by (simp_all add: unat_mod_BUFFER_SIZE)
  have "acc p (unat ?n)" using acc_mono [OF assms(2)] by (simp add: n)
  note copied = copy_from [OF this, of k]
  have eq: "of_nat (unat n mod 1025) = ?n" by (simp flip: n(1))
  show ?thesis
  proof (cases "?n = 0")
    case True
    then show ?thesis using assms(1) n
      by (auto simp: chr_write_def chr_abs_def chr_inv_def eq)
  next
    case False
    then show ?thesis using assms(1) n copied
      by (auto simp: chr_write_def chr_abs_def chr_inv_def eq case_prod_beta Let_def)
  qed
qed

lemma chr_ops_refine:
  assumes "chr_inv c" "op_ok acc op"
  shows "\<exists>r c' k'. chr_ops K op (c, k) = (r, c', k') \<and> chr_inv c' \<and>
    spec_op op (chr_abs c (umem k)) = (r, chr_abs c' (umem k'))"
proof (cases op)
  case (Read p n)
  then show ?thesis using chr_read_refines [OF assms(1), of p n k] assms(2) by (auto simp: chr_ops_def)
next
  case (Write p n)
  then show ?thesis using chr_write_refines [OF assms(1), of p n k] assms(2) by (auto simp: chr_ops_def)
qed (use assms in \<open>auto simp: chr_ops_def chr_open_def chr_close_def chr_ioctl_def chr_abs_def chr_inv_def
    BUFFER_CLEAR_CMD_def\<close>)

lemma chr_calls_refine:
  assumes "chr_inv c" "\<forall>op\<in>set ops. op_ok acc op"
  shows "\<exists>rs c' k'. chr_calls K ops (c, k) = (rs, c', k') \<and> chr_inv c' \<and>
    spec_calls ops (chr_abs c (umem k)) = (rs, chr_abs c' (umem k'))"
  using assms
proof (induction ops arbitrary: c k)
  case (Cons op ops)
  obtain r c1 k1 where one: "chr_ops K op (c, k) = (r, c1, k1)" "chr_inv c1"
    "spec_op op (chr_abs c (umem k)) = (r, chr_abs c1 (umem k1))"
    using chr_ops_refine [of c op k] Cons.prems by auto
  obtain rs c2 k2 where "chr_calls K ops (c1, k1) = (rs, c2, k2)" "chr_inv c2"
    "spec_calls ops (chr_abs c1 (umem k1)) = (rs, chr_abs c2 (umem k2))"
    using Cons.IH [OF one(2), of k1] Cons.prems(2) by auto
  with one show ?case by simp
qed simp

end

section \<open>A kernel\<close>

text \<open>
  A concrete kernel that keeps the laws: user memory below \<open>0xC0000000\<close>, interrupt lines that other drivers may hold,
  device numbers handed out in order.
\<close>

record ksim =
  user_mem :: mem
  lines :: "s32 set"
  taken :: "s32 set"
  regions :: "u32 list"

definition below_kernel :: "ptr \<Rightarrow> nat \<Rightarrow> bool" where
  "below_kernel p n \<longleftrightarrow> unat p + n \<le> 0xC0000000"

definition ksim_kernel :: "ksim kernel" where
  "ksim_kernel = \<lparr>
     copy_to_user = \<lambda>p xs k. if below_kernel p (length xs)
       then (0, k\<lparr>user_mem := store_bytes (user_mem k) p xs\<rparr>) else (of_nat (length xs), k),
     copy_from_user = \<lambda>p n k. if below_kernel p n
       then (0, load_bytes (user_mem k) p n, k) else (of_nat n, replicate n 0, k),
     alloc_chrdev_region = \<lambda>k. let dev = push_bit 20 (253 - of_nat (length (regions k))) in (0, dev, k\<lparr>regions := dev # regions k\<rparr>),
     register_chrdev_region = \<lambda>dev k. if dev \<in> set (regions k) then (- EBUSY, k) else (0, k\<lparr>regions := dev # regions k\<rparr>),
     unregister_chrdev_region = \<lambda>dev k. k\<lparr>regions := removeAll dev (regions k)\<rparr>,
     cdev_init = \<lambda>k. k,
     cdev_add = \<lambda>dev k. (0, k),
     cdev_del = \<lambda>k. k,
     misc_register = \<lambda>k. (0, k),
     misc_deregister = \<lambda>k. k,
     request_irq = \<lambda>i k. if i \<in> lines k \<union> taken k then (- EBUSY, k) else (0, k\<lparr>lines := insert i (lines k)\<rparr>),
     disable_irq = \<lambda>i k. k,
     free_irq = \<lambda>i k. k\<lparr>lines := lines k - {i}\<rparr> \<rparr>"

interpretation ksim: user_access ksim_kernel user_mem below_kernel
  by unfold_locales (auto simp: ksim_kernel_def below_kernel_def)

interpretation ksim_irq: irq_lines ksim_kernel lines
  by unfold_locales (auto simp: ksim_kernel_def EBUSY_def split: if_splits)



section \<open>The LED device\<close>

lemma nibble_mask: "push_bit 4 0xF = (push_bit 4 (mask 4) :: u32)" "(0xF :: u32) = mask 4"
  by (simp_all add: mask_numeral)

lemma low_half_mask: "x AND NOT 0xFFFF0000 = take_bit 16 (x :: u32)"
proof -
  have "NOT 0xFFFF0000 = (mask 16 :: u32)" by code_simp
  then show ?thesis by (simp add: take_bit_eq_mask)
qed

lemma and_low_half: "x AND 65535 = take_bit 16 (x :: u32)"
  by (simp add: take_bit_eq_mask mask_numeral)

lemma port_output: "drop_bit 16 (take_bit 16 x OR 0x11110000) = (0x1111 :: u32)"
    "take_bit 16 (take_bit 16 x OR 0x11110000) = take_bit 16 (x :: u32)"
  by (simp_all add: drop_bit_take_bit)

context register_file begin

lemma open_sets_up:
  assumes "con \<in> A" "dat \<in> A" "con \<noteq> dat"
  shows "\<exists>s'. s3c6410_leds_open b con dat (0, s) = (0, 1, s') \<and>
    drop_bit 16 (view s' con) = 0x1111 \<and> take_bit 16 (view s' con) = take_bit 16 (view s con) \<and>
    (\<forall>n. bit (view s' dat) n \<longleftrightarrow> n \<in> {4..7} \<or> bit (view s dat) n)"
  using assms
  by (auto simp: s3c6410_leds_open_def case_prod_beta Let_def access nibble_mask low_half_mask and_low_half port_output bit_simps)

lemma ioctl_bits:
  assumes "dat \<in> A" "cmd \<in> {0, 1}" "arg \<le> 4"
  shows "\<exists>s'. s3c6410_leds_ioctl b dat cmd arg s = (0, s') \<and>
    (\<forall>n. bit (view s' dat) n \<longleftrightarrow> (if arg = 0 \<and> n \<in> {4..7} \<or> arg \<noteq> 0 \<and> n = unat arg + 3 then cmd = 0 else bit (view s dat) n))"
proof (cases "arg = 0")
  case True
  then show ?thesis using assms(1,2)
    by (auto simp: s3c6410_leds_ioctl_def case_prod_beta Let_def access nibble_mask bit_simps dest: bit_imp_le_length)
next
  case False
  have arg: "unat arg \<le> 4" using assms(3) by (simp add: word_le_nat_alt)
  then have "unat (3 + arg) = unat arg + 3" by (subst unat_add_lem [THEN iffD1]) simp_all
  then show ?thesis using assms False arg
    by (auto simp: s3c6410_leds_ioctl_def case_prod_beta Let_def access bit_simps dest: bit_imp_le_length)
qed

lemma ioctl_rejects:
  "cmd \<notin> {0, 1} \<or> arg > 4 \<Longrightarrow> s3c6410_leds_ioctl b dat cmd arg s = (- EINVAL, s)"
  by (auto simp: s3c6410_leds_ioctl_def)

lemma read_nibble:
  assumes "dat \<in> A" "user_access K umem acc" "acc buf 4"
  shows "\<exists>s' k' x. s3c6410_leds_read b K dat buf count (s, k) = (0, s', k') \<and> view s' dat = view s dat \<and>
    umem k' = store_bytes (umem k) buf [x, 0, 0, 0] \<and>
    (\<forall>n. bit x n \<longleftrightarrow> n < 4 \<and> bit (view s dat) (n + 4))"
proof -
  define t where "t = drop_bit 4 (view s dat AND push_bit 4 0xF)"
  have t: "bit t n \<longleftrightarrow> n < 4 \<and> bit (view s dat) (n + 4)" for n
    unfolding t_def nibble_mask(1) by (auto simp: bit_simps add.commute dest: bit_imp_le_length)
  have bytes: "ucast (drop_bit (8 * i) t) = (0 :: u8)" if "i > 0" for i
    using that by (intro bit_word_eqI) (simp add: bit_unsigned_iff bit_drop_bit_eq t)
  define y :: u8 where "y = ucast t"
  have copied: "map (\<lambda>i. ucast (drop_bit (8 * i) t)) [0, 1, 2, 3] = [y, 0, 0, 0]"
    using bytes [of 1] bytes [of 2] bytes [of 3] by (simp add: y_def)
  have x: "bit y n \<longleftrightarrow> n < 4 \<and> bit (view s dat) (n + 4)" for n
    unfolding y_def by (simp add: bit_unsigned_iff t) linarith
  have "length [y, 0, 0, 0] = 4" by simp
  then have "acc buf (length [y, 0, 0, 0])" using assms(3) by (simp only:)
  note written = user_access.copy_to [OF assms(2) this, of k]
  have sent: "fst (copy_to_user K buf [y, 0, 0, 0] k) = 0"
    "umem (snd (copy_to_user K buf [y, 0, 0, 0] k)) = store_bytes (umem k) buf [y, 0, 0, 0]"
    using written by blast+
  have "s3c6410_leds_read b K dat buf count (s, k) =
      (0, snd (rd32 b dat s), snd (copy_to_user K buf [y, 0, 0, 0] k))"
    by (simp only: s3c6410_leds_read_def case_prod_beta Let_def prod.case access(1) [OF assms(1)]
        t_def [symmetric] copied fst_conv snd_conv sent(1)) simp
  then show ?thesis using x sent(2) assms(1) by (auto simp: access simp del: store_bytes.simps)
qed

end

text \<open>
  The LED device.  A valid \<open>ioctl\<close> switches the LED named, or all four for 0, and no other bit of the port; the
  next \<open>read\<close> delivers the levels of the four LED pins, a lit LED as 0, and leaves the port as it is.  Any other
  command or LED number is refused with \<open>EINVAL\<close> before the port is touched.
\<close>

lemma leds_ioctl_read:
  assumes "register_file b view A" "dat \<in> A" "user_access K umem acc" "acc buf 4"
  shows "if cmd \<in> {0, 1} \<and> arg \<le> 4
    then \<exists>s1 s2 k' x. s3c6410_leds_ioctl b dat cmd arg s = (0, s1) \<and>
      s3c6410_leds_read b K dat buf count (s1, k) = (0, s2, k') \<and> umem k' = store_bytes (umem k) buf [x, 0, 0, 0] \<and>
      (\<forall>n. bit x n \<longleftrightarrow> n < 4 \<and> (if arg = 0 \<or> n + 1 = unat arg then cmd = 0 else bit (view s dat) (n + 4))) \<and>
      (\<forall>n. n \<notin> {4..7} \<longrightarrow> bit (view s2 dat) n = bit (view s dat) n)
    else s3c6410_leds_ioctl b dat cmd arg s = (- EINVAL, s)"
proof (cases "cmd \<in> {0, 1} \<and> arg \<le> 4")
  case True
  then obtain s1 where s1: "s3c6410_leds_ioctl b dat cmd arg s = (0, s1)"
    "\<And>n. bit (view s1 dat) n \<longleftrightarrow>
      (if arg = 0 \<and> n \<in> {4..7} \<or> arg \<noteq> 0 \<and> n = unat arg + 3 then cmd = 0 else bit (view s dat) n)"
    using register_file.ioctl_bits [OF assms(1,2), of cmd arg s] by blast
  obtain s2 k' x where s2: "s3c6410_leds_read b K dat buf count (s1, k) = (0, s2, k')" "view s2 dat = view s1 dat"
    "umem k' = store_bytes (umem k) buf [x, 0, 0, 0]" "\<And>n. bit x n \<longleftrightarrow> n < 4 \<and> bit (view s1 dat) (n + 4)"
    using register_file.read_nibble [OF assms, of count s1 k] by blast
  have arg: "unat arg \<le> 4" using True by (simp add: word_le_nat_alt)
  have pos: "arg \<noteq> 0 \<Longrightarrow> 1 \<le> unat arg" using unat_gt_0 [of arg] by linarith
  have "bit x n \<longleftrightarrow> n < 4 \<and> (if arg = 0 \<or> n + 1 = unat arg then cmd = 0 else bit (view s dat) (n + 4))" for n
    using pos unfolding s2(4) s1(2) by auto
  moreover have "bit (view s2 dat) n = bit (view s dat) n" if "n \<notin> {4..7}" for n
    using that arg pos by (auto simp: s2(2) s1(2))
  ultimately show ?thesis using s1(1) s2(1,3) unfolding if_P [OF True] by blast
next
  case False
  then show ?thesis using register_file.ioctl_rejects [OF assms(1), of cmd arg dat s] by (auto simp: not_le)
qed

lemma leds_ioctl_read_witness:
  "\<exists>s1 s2 k' x. s3c6410_leds_ioctl ram_bus 0xF6500808 1 2 (\<lambda>_. 0xFF) = (0, s1) \<and>
    s3c6410_leds_read ram_bus ksim_kernel 0xF6500808 0x1000 4
      (s1, \<lparr>user_mem = \<lambda>_. 0, lines = {}, taken = {}, regions = []\<rparr>) = (0, s2, k') \<and>
    user_mem k' 0x1000 = x \<and> bit x 0 \<and> \<not> bit x 1"
proof -
  have "below_kernel 0x1000 4" by (simp add: below_kernel_def)
  from leds_ioctl_read [OF ram.register_file_axioms UNIV_I ksim.user_access_axioms this,
      of 1 2 "0xF6500808" "\<lambda>_. 0xFF" 4 "\<lparr>user_mem = \<lambda>_. 0, lines = {}, taken = {}, regions = []\<rparr>"]
  show ?thesis by force
qed

end
