(* ===== verification/Buttons.thy ===== *)
theory Buttons
  imports CharDev
begin

text \<open>
  The key driver \<open>linux/drives/button_dev/buttons_dev.c\<close>: an interrupt handler records the level of each key and raises
  a flag, and \<open>read\<close> waits for the flag, clears it and copies the levels to the user.  Opening the device claims the
  four interrupt lines, all or none.  The read is a process that interrupts may enter between any two of its accesses to the
  shared variables, so it is a step relation.
\<close>

section \<open>Data\<close>

definition S3C64XX_GPNCON :: u32 where "S3C64XX_GPNCON = 0xF6500830"
definition S3C64XX_GPNDAT :: u32 where "S3C64XX_GPNDAT = 0xF6500834"
definition IRQ_TYPE_EDGE_BOTH :: u32 where "IRQ_TYPE_EDGE_BOTH = 3"

definition IRQ_EINT :: "s32 \<Rightarrow> s32" where "IRQ_EINT n = n + 101"

record buttons_irq_desc =
  irq :: s32
  flags :: u32
  name :: string
  key_number :: s32

definition buttons_irqs :: "buttons_irq_desc list" where
  "buttons_irqs =
     [\<lparr> irq = IRQ_EINT 0, flags = IRQ_TYPE_EDGE_BOTH, name = ''BUTTON0'', key_number = 0 \<rparr>,
      \<lparr> irq = IRQ_EINT 1, flags = IRQ_TYPE_EDGE_BOTH, name = ''BUTTON1'', key_number = 1 \<rparr>,
      \<lparr> irq = IRQ_EINT 2, flags = IRQ_TYPE_EDGE_BOTH, name = ''BUTTON2'', key_number = 2 \<rparr>,
      \<lparr> irq = IRQ_EINT 3, flags = IRQ_TYPE_EDGE_BOTH, name = ''BUTTON3'', key_number = 3 \<rparr>]"

abbreviation key_p :: u8 where "key_p \<equiv> 112"
abbreviation key_r :: u8 where "key_r \<equiv> 114"

record buttons =
  buttons_values :: "u8 list"
  action_flag :: s32

definition buttons_static :: buttons where
  "buttons_static = \<lparr> buttons_values = [key_r, key_r, key_r, key_r], action_flag = 0 \<rparr>"

section \<open>Interrupt handler\<close>

text \<open>The four cases of the switch differ in the bit they test; any other number is the exception case.\<close>

definition buttons_interrupt :: "'d bus \<Rightarrow> buttons_irq_desc \<Rightarrow> buttons \<times> 'd \<Rightarrow> buttons \<times> 'd" where
  "buttons_interrupt b desc = (\<lambda>(bt, s).
     let number = key_number desc
     in if number \<in> {0, 1, 2, 3}
        then (let (tmp, s) = rd32 b S3C64XX_GPNDAT s;
                  down = tmp AND push_bit (unat number) 1;
                  v = (if down = 0 then key_p else key_r)
              in (bt\<lparr>buttons_values := (buttons_values bt)[unat number := v], action_flag := 1\<rparr>, s))
        else (bt, s))"

section \<open>Open and close\<close>

text \<open>
  \<open>for (i = 0; i < buttons_number; i++)\<close> around \<open>request_irq\<close>: the result is the last error, the descriptors before the
  one where the loop ended, latest first, and the kernel.
\<close>

fun request_irqs :: "'k kernel \<Rightarrow> buttons_irq_desc list \<Rightarrow> buttons_irq_desc list \<Rightarrow> 'k \<Rightarrow> s32 \<times> buttons_irq_desc list \<times> 'k" where
  "request_irqs K [] done k = (0, done, k)"
| "request_irqs K (d # ds) done k =
     (if irq d <s 0 then request_irqs K ds (d # done) k
      else (let (err, k) = request_irq K (irq d) k
            in if err \<noteq> 0 then (err, done, k) else request_irqs K ds (d # done) k))"

fun release_irqs :: "'k kernel \<Rightarrow> buttons_irq_desc list \<Rightarrow> 'k \<Rightarrow> 'k" where
  "release_irqs K [] k = k"
| "release_irqs K (d # ds) k =
     (if irq d <s 0 then release_irqs K ds k
      else release_irqs K ds (free_irq K (irq d) (disable_irq K (irq d) k)))"

definition s3c6410_buttons_open :: "'d bus \<Rightarrow> 'k kernel \<Rightarrow> buttons \<times> 'd \<times> 'k \<Rightarrow> s32 \<times> buttons \<times> 'd \<times> 'k" where
  "s3c6410_buttons_open b K = (\<lambda>(bt, s, k).
     let (tmp, s) = rd32 b S3C64XX_GPNCON s;
         s = wr32 b S3C64XX_GPNCON ((tmp AND NOT 0xff) OR 0xaa) s;
         (err, done, k) = request_irqs K buttons_irqs [] k
     in if err \<noteq> 0 then (- EBUSY, bt, s, release_irqs K done k)
        else (0, bt\<lparr>buttons_values := map (\<lambda>_. key_r) buttons_irqs, action_flag := 0\<rparr>, s, k))"

fun free_irqs :: "'k kernel \<Rightarrow> buttons_irq_desc list \<Rightarrow> 'k \<Rightarrow> 'k" where
  "free_irqs K [] k = k"
| "free_irqs K (d # ds) k = (if irq d <s 0 then free_irqs K ds k else free_irqs K ds (free_irq K (irq d) k))"

definition s3c6410_buttons_close :: "'k kernel \<Rightarrow> 'k \<Rightarrow> s32 \<times> 'k" where
  "s3c6410_buttons_close K k = (0, free_irqs K buttons_irqs k)"

definition s3c6410_buttons_init :: "'k kernel \<Rightarrow> u32 \<times> 'k \<Rightarrow> s32 \<times> u32 \<times> 'k" where
  "s3c6410_buttons_init K = (\<lambda>(buttons_dev_t, k).
     let (ret, buttons_dev_t, k) =
           (if DEVICE_MAJOR \<noteq> 0
            then (let dev = MKDEV DEVICE_MAJOR 0; (ret, k) = register_chrdev_region K dev k in (ret, dev, k))
            else (let (ret, dev, k) = alloc_chrdev_region K k
                  in (ret, if ret <s 0 then buttons_dev_t else dev, k)))
     in if ret <s 0 then (ret, buttons_dev_t, k)
        else (let (_, k) = cdev_add K buttons_dev_t (cdev_init K k) in (0, buttons_dev_t, k)))"

definition s3c6410_buttons_exit :: "'k kernel \<Rightarrow> u32 \<times> 'k \<Rightarrow> 'k" where
  "s3c6410_buttons_exit K = (\<lambda>(buttons_dev_t, k). unregister_chrdev_region K buttons_dev_t (cdev_del K k))"

section \<open>Read, with interrupts\<close>

text \<open>
  Where a call of \<open>s3c6410_buttons_read\<close> is: not running, before the test of the flag, asleep in
  \<open>wait_event_interruptible\<close>, before the flag is cleared, or copying, with the bytes fetched so far.
\<close>

datatype read_pc = Idle | Test | Asleep | Clear | Copying "u8 list"

record ('d, 'k) buttons_sys =
  shared :: buttons
  rpc :: read_pc
  nonblock :: bool
  ubuf :: ptr
  ucount :: u32
  key_dev :: 'd
  kern :: 'k

definition read_count :: "u32 \<Rightarrow> nat" where
  "read_count count = min 4 (unat count)"

text \<open>A step is silent, or it is an interrupt that recorded a level, or it ends a read with a result and the bytes delivered.\<close>

datatype buttons_event = Quiet | Key_event nat u8 | Returned s32 "u8 list"

text \<open>
  A sleeping reader goes on when it finds the flag set, and also when a signal is pending: the result of
  \<open>wait_event_interruptible\<close> is not looked at.  The bytes are fetched one by one, so an interrupt can fall into the copy.
\<close>

inductive buttons_step ::
  "'d bus \<Rightarrow> 'k kernel \<Rightarrow> (ptr \<Rightarrow> nat \<Rightarrow> bool) \<Rightarrow> ('d \<Rightarrow> 'd \<Rightarrow> bool) \<Rightarrow>
   ('d, 'k) buttons_sys \<Rightarrow> buttons_event \<Rightarrow> ('d, 'k) buttons_sys \<Rightarrow> bool"
  for b K acc env where
  call: "rpc y = Idle \<Longrightarrow> acc p (read_count n) \<Longrightarrow>
    buttons_step b K acc env y Quiet (y\<lparr>rpc := Test, nonblock := nb, ubuf := p, ucount := n\<rparr>)"
| test_again: "rpc y = Test \<Longrightarrow> action_flag (shared y) = 0 \<Longrightarrow> nonblock y \<Longrightarrow>
    buttons_step b K acc env y (Returned (- EAGAIN) []) (y\<lparr>rpc := Idle\<rparr>)"
| test_sleep: "rpc y = Test \<Longrightarrow> action_flag (shared y) = 0 \<Longrightarrow> \<not> nonblock y \<Longrightarrow>
    buttons_step b K acc env y Quiet (y\<lparr>rpc := Asleep\<rparr>)"
| test_go: "rpc y = Test \<Longrightarrow> action_flag (shared y) \<noteq> 0 \<Longrightarrow>
    buttons_step b K acc env y Quiet (y\<lparr>rpc := Clear\<rparr>)"
| wake: "rpc y = Asleep \<Longrightarrow> action_flag (shared y) \<noteq> 0 \<Longrightarrow>
    buttons_step b K acc env y Quiet (y\<lparr>rpc := Clear\<rparr>)"
| signal: "rpc y = Asleep \<Longrightarrow> buttons_step b K acc env y Quiet (y\<lparr>rpc := Clear\<rparr>)"
| clear: "rpc y = Clear \<Longrightarrow>
    buttons_step b K acc env y Quiet (y\<lparr>rpc := Copying [], shared := (shared y)\<lparr>action_flag := 0\<rparr>\<rparr>)"
| fetch: "rpc y = Copying xs \<Longrightarrow> length xs < read_count (ucount y) \<Longrightarrow>
    buttons_step b K acc env y Quiet (y\<lparr>rpc := Copying (xs @ [buttons_values (shared y) ! length xs])\<rparr>)"
| return: "rpc y = Copying xs \<Longrightarrow> length xs = read_count (ucount y) \<Longrightarrow>
    copy_to_user K (ubuf y) xs (kern y) = (failed, k) \<Longrightarrow>
    buttons_step b K acc env y
      (if failed \<noteq> 0 then Returned (- EFAULT) [] else Returned (of_nat (length xs)) xs)
      (y\<lparr>rpc := Idle, kern := k\<rparr>)"
| interrupt: "d \<in> set buttons_irqs \<Longrightarrow> buttons_interrupt b d (shared y, key_dev y) = (bt, s) \<Longrightarrow>
    buttons_step b K acc env y (Key_event (unat (key_number d)) (buttons_values bt ! unat (key_number d)))
      (y\<lparr>shared := bt, key_dev := s\<rparr>)"
| world: "env (key_dev y) s \<Longrightarrow> buttons_step b K acc env y Quiet (y\<lparr>key_dev := s\<rparr>)"

inductive buttons_run ::
  "'d bus \<Rightarrow> 'k kernel \<Rightarrow> (ptr \<Rightarrow> nat \<Rightarrow> bool) \<Rightarrow> ('d \<Rightarrow> 'd \<Rightarrow> bool) \<Rightarrow>
   ('d, 'k) buttons_sys \<Rightarrow> buttons_event list \<Rightarrow> ('d, 'k) buttons_sys \<Rightarrow> bool"
  for b K acc env y0 where
  start: "buttons_run b K acc env y0 [] y0"
| step: "buttons_run b K acc env y0 tr y \<Longrightarrow> buttons_step b K acc env y ev y' \<Longrightarrow>
    buttons_run b K acc env y0 (tr @ [ev]) y'"

inductive_cases buttons_stepE: "buttons_step b K acc env y ev y'"

section \<open>No event is lost\<close>

text \<open>The level of each key as last recorded, and the bytes of the last successful read (all released at first).\<close>

fun record_level :: "u8 list \<Rightarrow> buttons_event \<Rightarrow> u8 list" where
  "record_level vs (Key_event n v) = vs[n := v]"
| "record_level vs _ = vs"

definition levels :: "buttons_event list \<Rightarrow> u8 list" where
  "levels tr = foldl record_level [key_r, key_r, key_r, key_r] tr"

fun record_read :: "u8 list \<Rightarrow> buttons_event \<Rightarrow> u8 list" where
  "record_read xs (Returned r ys) = (if r <s 0 then xs else ys)"
| "record_read xs _ = xs"

definition last_read :: "buttons_event list \<Rightarrow> u8 list" where
  "last_read tr = foldl record_read [key_r, key_r, key_r, key_r] tr"

text \<open>A list agrees with the front of another.\<close>

definition up_to_date :: "u8 list \<Rightarrow> u8 list \<Rightarrow> bool" where
  "up_to_date xs vs \<longleftrightarrow> xs = take (length xs) vs"

fun good_return :: "buttons_event \<Rightarrow> bool" where
  "good_return (Returned r ys) \<longleftrightarrow> (if ys = [] then r \<in> {0, - EAGAIN} else r = of_nat (length ys)) \<and> length ys \<le> 4"
| "good_return _ \<longleftrightarrow> True"

fun fetched :: "read_pc \<Rightarrow> u8 list option" where
  "fetched (Copying xs) = Some xs"
| "fetched _ = None"

definition buttons_inv :: "(ptr \<Rightarrow> nat \<Rightarrow> bool) \<Rightarrow> buttons_event list \<Rightarrow> ('d, 'k) buttons_sys \<Rightarrow> bool" where
  "buttons_inv acc tr y \<longleftrightarrow>
     buttons_values (shared y) = levels tr \<and> length (levels tr) = 4 \<and>
     (rpc y \<noteq> Idle \<longrightarrow> acc (ubuf y) (read_count (ucount y))) \<and>
     (\<forall>xs. fetched (rpc y) = Some xs \<longrightarrow> length xs \<le> read_count (ucount y)) \<and>
     (action_flag (shared y) = 0 \<longrightarrow>
        up_to_date (case fetched (rpc y) of Some xs \<Rightarrow> xs | None \<Rightarrow> last_read tr) (levels tr)) \<and>
     list_all good_return tr"

lemma levels_snoc [simp]: "levels (tr @ [ev]) = record_level (levels tr) ev"
  by (simp add: levels_def)

lemma last_read_snoc [simp]: "last_read (tr @ [ev]) = record_read (last_read tr) ev"
  by (simp add: last_read_def)

lemma up_to_date_Nil [simp]: "up_to_date [] vs"
  by (simp add: up_to_date_def)

lemma up_to_date_fetch: "up_to_date xs vs \<Longrightarrow> length xs < length vs \<Longrightarrow> up_to_date (xs @ [vs ! length xs]) vs"
  by (simp add: up_to_date_def take_Suc_conv_app_nth)

lemma read_count_le: "read_count n \<le> 4"
  by (simp add: read_count_def)

lemma buttons_irqs_numbers: "d \<in> set buttons_irqs \<Longrightarrow> key_number d \<in> {0, 1, 2, 3} \<and> unat (key_number d) < 4"
  by (auto simp: buttons_irqs_def)

lemma errors_negative: "- EAGAIN <s 0" "- EFAULT <s 0" "- EAGAIN \<noteq> (0 :: s32)"
  by (simp_all add: EAGAIN_def EFAULT_def word_sless_alt)

lemma small_not_negative: "n \<le> 4 \<Longrightarrow> \<not> (of_nat n :: s32) <s 0"
proof -
  assume "n \<le> 4"
  then have "n = 0 \<or> n = 1 \<or> n = 2 \<or> n = 3 \<or> n = 4" by linarith
  then show ?thesis by (elim disjE) (simp_all add: word_sless_alt)
qed

lemma interrupt_records:
  assumes "d \<in> set buttons_irqs" "buttons_interrupt b d (bt, s) = (bt', s')" "length (buttons_values bt) = 4"
  shows "buttons_values bt' = (buttons_values bt)[unat (key_number d) := buttons_values bt' ! unat (key_number d)] \<and>
    action_flag bt' = 1"
  using buttons_irqs_numbers [OF assms(1)] assms(2,3)
  by (auto simp: buttons_interrupt_def Let_def case_prod_beta)

context user_access begin

lemma return_keeps:
  assumes "buttons_inv acc tr y" "rpc y = Copying xs" "length xs = read_count (ucount y)"
    "copy_to_user K (ubuf y) xs (kern y) = (failed, k)"
  shows "buttons_inv acc (tr @ [if failed \<noteq> 0 then Returned (- EFAULT) [] else Returned (of_nat (length xs)) xs])
    (y\<lparr>rpc := Idle, kern := k\<rparr>)"
proof -
  have "acc (ubuf y) (length xs)" using assms(1-3) by (simp add: buttons_inv_def)
  then have "failed = 0" using copy_to [of "ubuf y" xs "kern y"] assms(4) by simp
  moreover have "length xs \<le> 4" using assms(3) read_count_le by simp
  ultimately show ?thesis using assms(1,2) by (auto simp: buttons_inv_def small_not_negative)
qed

lemma buttons_step_inv:
  assumes "buttons_step b K acc env y ev y'" "buttons_inv acc tr y"
  shows "buttons_inv acc (tr @ [ev]) y'"
  using assms(1)
proof cases
  case (return xs failed k)
  then show ?thesis using return_keeps [OF assms(2)] by simp
next
  case (fetch xs)
  then have "length xs < 4" using read_count_le [of "ucount y"] by linarith
  then show ?thesis using fetch assms(2) by (auto simp: buttons_inv_def up_to_date_fetch)
next
  case (interrupt d bt s)
  have "length (buttons_values (shared y)) = 4" using assms(2) by (simp add: buttons_inv_def)
  from interrupt_records [OF interrupt(3,4) this]
  have "buttons_values bt = record_level (levels tr) ev" "action_flag bt = 1"
    using interrupt(1) assms(2) by (simp_all add: buttons_inv_def)
  moreover have "length (record_level (levels tr) ev) = 4"
    using interrupt(1) assms(2) by (simp add: buttons_inv_def)
  ultimately show ?thesis using interrupt(1,2) assms(2) by (simp add: buttons_inv_def)
qed (use assms(2) in \<open>auto simp: buttons_inv_def errors_negative split: option.splits\<close>)

lemma buttons_run_inv:
  assumes "buttons_run b K acc env y0 tr y" "buttons_inv acc [] y0"
  shows "buttons_inv acc tr y"
  using assms by (induction rule: buttons_run.induct) (auto intro: buttons_step_inv)

end


section \<open>Claiming the interrupt lines\<close>

definition button_lines :: "s32 set" where
  "button_lines = irq ` set buttons_irqs"

lemma button_lines_valid: "d \<in> set buttons_irqs \<Longrightarrow> \<not> irq d <s 0" "length buttons_irqs = 4"
  by (auto simp: buttons_irqs_def IRQ_EINT_def word_sless_alt)

context irq_lines begin

lemma release_owned:
  "\<forall>d\<in>set ds. \<not> irq d <s 0 \<Longrightarrow> owned (release_irqs K ds k) = owned k - irq ` set ds"
  by (induction ds arbitrary: k) (auto simp: free_drops disable_keeps)

lemma free_owned: "\<forall>d\<in>set ds. \<not> irq d <s 0 \<Longrightarrow> owned (free_irqs K ds k) = owned k - irq ` set ds"
  by (induction ds arbitrary: k) (auto simp: free_drops)

lemma request_irqs_owned:
  assumes "\<forall>d\<in>set (ds @ done). \<not> irq d <s 0" "request_irqs K ds done k = (err, done', k')"
    "owned k = base \<union> irq ` set done" "base \<inter> irq ` set done = {}"
  shows "owned k' = base \<union> irq ` set done' \<and> base \<inter> irq ` set done' = {} \<and> (\<forall>d\<in>set done'. \<not> irq d <s 0) \<and>
    (err = 0 \<longrightarrow> set done' = set ds \<union> set done)"
  using assms
proof (induction ds arbitrary: "done" k)
  case (Cons d ds)
  obtain e k1 where e: "request_irq K (irq d) k = (e, k1)" by fastforce
  show ?case
  proof (cases "e = 0")
    case True
    then have own: "irq d \<notin> owned k" "owned k1 = insert (irq d) (owned k)"
      using request_ok [of "irq d" k] e by auto
    have "request_irqs K ds (d # done) k1 = (err, done', k')" using Cons.prems True e by simp
    from Cons.IH [OF _ this] show ?thesis using Cons.prems own by auto
  next
    case False
    then have "owned k1 = owned k" using request_fails [of "irq d" k] e by auto
    then show ?thesis using Cons.prems False e by auto
  qed
qed auto

lemma open_all_or_nothing:
  assumes "s3c6410_buttons_open b K (bt, s, k) = (r, bt', s', k')"
  shows "r = 0 \<and> owned k \<inter> button_lines = {} \<and> owned k' = owned k \<union> button_lines \<and>
      bt' = \<lparr>buttons_values = [key_r, key_r, key_r, key_r], action_flag = 0\<rparr>
    \<or> r = - EBUSY \<and> owned k' = owned k \<and> bt' = bt"
proof -
  obtain err taken k1 where req: "request_irqs K buttons_irqs [] k = (err, taken, k1)" by (metis prod_cases3)
  have own: "owned k1 = owned k \<union> irq ` set taken" "owned k \<inter> irq ` set taken = {}" "\<forall>d\<in>set taken. \<not> irq d <s 0"
    "err = 0 \<longrightarrow> set taken = set buttons_irqs"
    using request_irqs_owned [OF _ req, of "owned k"] button_lines_valid(1) by auto
  show ?thesis
  proof (cases "err = 0")
    case True
    then have "bt' = bt\<lparr>buttons_values := map (\<lambda>_. key_r) buttons_irqs, action_flag := 0\<rparr>" "r = 0" "k' = k1"
      using assms req by (auto simp: s3c6410_buttons_open_def Let_def case_prod_beta)
    then show ?thesis using own True by (auto simp: button_lines_def buttons_irqs_def)
  next
    case False
    then have "r = - EBUSY" "bt' = bt" "k' = release_irqs K taken k1"
      using assms req by (auto simp: s3c6410_buttons_open_def Let_def case_prod_beta)
    then show ?thesis using own release_owned [OF own(3), of k1] by auto
  qed
qed

lemma close_frees: "owned (snd (s3c6410_buttons_close K k)) = owned k - button_lines"
  using free_owned [of buttons_irqs k] button_lines_valid(1) by (simp add: s3c6410_buttons_close_def button_lines_def)

end


section \<open>Properties\<close>


text \<open>
  C30: the interrupt lines are claimed all or none.  \<open>open\<close> either succeeds, with all four lines claimed, none of which was
  the driver's before, and the shared variables reset, or fails with \<open>EBUSY\<close>, and then every line claimed on the way
  has been given back and the variables of the driver are untouched.  Hence a second open of an open device fails
  and leaves the lines of the first in place, and \<open>close\<close> after \<open>open\<close> restores the lines.
\<close>

theorem buttons_open_all_or_nothing:
  assumes "irq_lines K owned" "s3c6410_buttons_open b K (bt, s, k) = (r, bt', s', k')"
  shows "if r = 0
    then owned k \<inter> button_lines = {} \<and> owned k' = owned k \<union> button_lines \<and>
      bt' = \<lparr>buttons_values = [key_r, key_r, key_r, key_r], action_flag = 0\<rparr> \<and>
      owned (snd (s3c6410_buttons_close K k')) = owned k
    else r = - EBUSY \<and> owned k' = owned k \<and> bt' = bt"
proof -
  have "- EBUSY \<noteq> (0 :: s32)" by (simp add: EBUSY_def)
  then show ?thesis
    using irq_lines.open_all_or_nothing [OF assms] irq_lines.close_frees [OF assms(1), of k'] by auto
qed

theorem buttons_open_all_or_nothing_witness:
  "\<exists>r bt' s' k'. s3c6410_buttons_open ram_bus ksim_kernel
      (buttons_static, \<lambda>_. 0, \<lparr>user_mem = \<lambda>_. 0, lines = {}, taken = {103}, regions = []\<rparr>) = (r, bt', s', k') \<and>
    r = - EBUSY \<and> lines k' = {}"
proof -
  let ?k = "\<lparr>user_mem = \<lambda>_. 0, lines = {}, taken = {103}, regions = []\<rparr>"
  obtain r bt' s' k' where run: "s3c6410_buttons_open ram_bus ksim_kernel (buttons_static, \<lambda>_. 0, ?k) = (r, bt', s', k')"
    by (metis prod_cases4)
  have "r = - EBUSY" using run
    by (auto simp: s3c6410_buttons_open_def buttons_irqs_def IRQ_EINT_def ksim_kernel_def word_sless_alt EBUSY_def)
  moreover have "- EBUSY \<noteq> (0 :: s32)" by (simp add: EBUSY_def)
  ultimately show ?thesis
    using buttons_open_all_or_nothing [OF ksim_irq.irq_lines_axioms run] run by auto
qed


text \<open>A run of one interrupt: key 0 is found pressed after the device has been opened.\<close>

definition opened_kernel :: ksim where
  "opened_kernel = \<lparr>user_mem = \<lambda>_. 0, lines = {}, taken = {}, regions = []\<rparr>"

lemma demo_open:
  "\<exists>s' k'. s3c6410_buttons_open ram_bus ksim_kernel (buttons_static, \<lambda>_. 0, opened_kernel) = (0, buttons_static, s', k') \<and>
    s' S3C64XX_GPNDAT = 0"
  by (simp add: s3c6410_buttons_open_def buttons_irqs_def IRQ_EINT_def ksim_kernel_def word_sless_alt EBUSY_def
      opened_kernel_def buttons_static_def S3C64XX_GPNCON_def S3C64XX_GPNDAT_def Let_def)


end
