(* ===== verification/UdevLeds.thy ===== *)
theory UdevLeds
  imports CharDev
begin

text \<open>
  The LED driver that makes its own device node (\<open>linux/drives/leds_dev/char_leds/char_udev_leds/char_udev_leds.c\<close>).  Its file operations are
  those of \<open>char_leds.c\<close> word for word (theory \<open>CharDev\<close>); loading and unloading differ: a device class and a node in it come on top of the
  device number and the character device.
\<close>

section \<open>Definitions\<close>

text \<open>\<open>class_create\<close> and \<open>device_create\<close> return a pointer, or an error number in place of a pointer.\<close>

record 'k class_services =
  class_create :: "'k \<Rightarrow> ptr \<times> 'k"
  class_destroy :: "ptr \<Rightarrow> 'k \<Rightarrow> 'k"
  device_create :: "ptr \<Rightarrow> u32 \<Rightarrow> 'k \<Rightarrow> ptr \<times> 'k"
  device_destroy :: "ptr \<Rightarrow> u32 \<Rightarrow> 'k \<Rightarrow> 'k"

definition MAX_ERRNO :: u32 where "MAX_ERRNO = 4095"
definition IS_ERR :: "ptr \<Rightarrow> bool" where "IS_ERR p \<longleftrightarrow> p \<ge> - MAX_ERRNO"
definition PTR_ERR :: "ptr \<Rightarrow> s32" where "PTR_ERR p = p"
definition MAJOR :: "u32 \<Rightarrow> u32" where "MAJOR dev = drop_bit 20 dev"

record udev_leds =
  udev_major :: u32
  leds_dev_t :: u32
  s3c6410_leds_class :: ptr
  s3c6410_leds_device :: ptr

definition udev_static :: udev_leds where
  "udev_static = \<lparr>udev_major = 0, leds_dev_t = 0, s3c6410_leds_class = 0, s3c6410_leds_device = 0\<rparr>"

text \<open>The number: the one of the variable, or a new one.\<close>

definition udev_number :: "'k kernel \<Rightarrow> udev_leds \<times> 'k \<Rightarrow> s32 \<times> u32 \<times> udev_leds \<times> 'k" where
  "udev_number K = (\<lambda>(s, k).
     let leds_major = udev_major s
     in if leds_major \<noteq> 0
        then (let s = s\<lparr>leds_dev_t := MKDEV leds_major 0\<rparr>;
                  (ret, k) = register_chrdev_region K (leds_dev_t s) k
              in (ret, leds_major, s, k))
        else (let (ret, dev, k) = alloc_chrdev_region K k
              in if ret <s 0 then (ret, leds_major, s, k) else (ret, MAJOR dev, s\<lparr>leds_dev_t := dev\<rparr>, k)))"

definition udev_leds_init :: "'k kernel \<Rightarrow> 'k class_services \<Rightarrow> udev_leds \<times> 'k \<Rightarrow> s32 \<times> udev_leds \<times> 'k" where
  "udev_leds_init K U sk =
     (let (ret, leds_major, s, k) = udev_number K sk
      in if ret <s 0 then (ret, s, k)
         else
           (let s = s\<lparr>udev_major := leds_major\<rparr>;
                (_, k) = cdev_add K (leds_dev_t s) (cdev_init K k);
                (c, k) = class_create U k;
                s = s\<lparr>s3c6410_leds_class := c\<rparr>
            in if IS_ERR c then (PTR_ERR c, s, k)
               else
                 (let (d, k) = device_create U c (leds_dev_t s) k
                  in (0, s\<lparr>s3c6410_leds_device := d\<rparr>, k))))"

definition udev_leds_exit :: "'k kernel \<Rightarrow> 'k class_services \<Rightarrow> udev_leds \<times> 'k \<Rightarrow> 'k" where
  "udev_leds_exit K U = (\<lambda>(s, k).
     let k = device_destroy U (s3c6410_leds_class s) (leds_dev_t s) k;
         k = class_destroy U (s3c6410_leds_class s) k
     in unregister_chrdev_region K (leds_dev_t s) (cdev_del K k))"

section \<open>What a module holds\<close>

text \<open>
  The device numbers in use, the number the module's character device serves, the classes, and the nodes.  A call that fails changes nothing.
\<close>

record holdings =
  h_numbers :: "u32 set"
  h_cdev :: "u32 option"
  h_classes :: "ptr set"
  h_nodes :: "(ptr \<times> u32) set"

lemma error_negative:
  assumes "IS_ERR c"
  shows "c <s 0"
proof (rule ccontr)
  assume "\<not> c <s 0"
  then have "0 \<le> sint c" "sint c < 2 ^ 31" using sint_lt [of c] by (auto simp: word_sless_alt)
  then have "uint c < 2 ^ 31" by (simp add: uint_sint take_bit_int_eq_self)
  moreover have "uint (- MAX_ERRNO) \<le> uint c" using assms by (simp add: IS_ERR_def word_le_def)
  ultimately show False by (simp add: MAX_ERRNO_def)
qed

locale device_registry =
  fixes K :: "'k kernel" and U :: "'k class_services" and held :: "'k \<Rightarrow> holdings"
  assumes alloc_ok: "alloc_chrdev_region K k = (r, dev, k') \<Longrightarrow> \<not> r <s 0 \<Longrightarrow>
      dev \<notin> h_numbers (held k) \<and> held k' = held k\<lparr>h_numbers := insert dev (h_numbers (held k))\<rparr>"
    and alloc_fails: "alloc_chrdev_region K k = (r, dev, k') \<Longrightarrow> r <s 0 \<Longrightarrow> held k' = held k"
    and unregister: "held (unregister_chrdev_region K dev k) = held k\<lparr>h_numbers := h_numbers (held k) - {dev}\<rparr>"
    and init_keeps: "held (cdev_init K k) = held k"
    and add: "held (snd (cdev_add K dev k)) = (if fst (cdev_add K dev k) = 0 then held k\<lparr>h_cdev := Some dev\<rparr> else held k)"
    and del: "held (cdev_del K k) = held k\<lparr>h_cdev := None\<rparr>"
    and class_ok: "class_create U k = (c, k') \<Longrightarrow> \<not> IS_ERR c \<Longrightarrow>
      c \<notin> h_classes (held k) \<and> held k' = held k\<lparr>h_classes := insert c (h_classes (held k))\<rparr>"
    and class_fails: "class_create U k = (c, k') \<Longrightarrow> IS_ERR c \<Longrightarrow> held k' = held k"
    and class_gone: "held (class_destroy U c k) = held k\<lparr>h_classes := h_classes (held k) - {c}\<rparr>"
    and node: "held (snd (device_create U c dev k)) =
      (if IS_ERR (fst (device_create U c dev k)) then held k else held k\<lparr>h_nodes := insert (c, dev) (h_nodes (held k))\<rparr>)"
    and node_gone: "held (device_destroy U c dev k) = held k\<lparr>h_nodes := h_nodes (held k) - {(c, dev)}\<rparr>"
begin

lemma number_ok:
  assumes "udev_number K (udev_static, k) = (r, m, s, k')" "\<not> r <s 0"
  shows "leds_dev_t s \<notin> h_numbers (held k) \<and> m = MAJOR (leds_dev_t s) \<and> held k' = held k\<lparr>h_numbers := insert (leds_dev_t s) (h_numbers (held k))\<rparr>"
  using assms alloc_ok [of k] by (auto simp: udev_number_def udev_static_def Let_def split: prod.splits if_splits)

lemma number_fails:
  assumes "udev_number K (udev_static, k) = (r, m, s, k')" "r <s 0"
  shows "held k' = held k"
  using assms alloc_fails [of k] by (auto simp: udev_number_def udev_static_def Let_def split: prod.splits if_splits)

lemma unload_undoes:
  assumes "udev_leds_init K U (udev_static, k) = (0, s, k')" "h_cdev (held k) = None" "\<forall>c. (c, leds_dev_t s) \<notin> h_nodes (held k)"
  shows "held (udev_leds_exit K U (s, k')) = held k"
proof -
  obtain r m s0 k1 where n: "udev_number K (udev_static, k) = (r, m, s0, k1)" by (metis surj_pair)
  obtain a k2 where a: "cdev_add K (leds_dev_t s0) (cdev_init K k1) = (a, k2)" by fastforce
  obtain c k3 where c: "class_create U k2 = (c, k3)" by fastforce
  obtain d k4 where d: "device_create U c (leds_dev_t s0) k3 = (d, k4)" by fastforce
  have r: "\<not> r <s 0" and e: "\<not> IS_ERR c" and s: "s = s0\<lparr>udev_major := m, s3c6410_leds_class := c, s3c6410_leds_device := d\<rparr>" and k': "k' = k4"
    using assms(1) n a c d by (auto simp: udev_leds_init_def Let_def IS_ERR_def PTR_ERR_def MAX_ERRNO_def split: if_splits)
  have "held k1 = held k\<lparr>h_numbers := insert (leds_dev_t s0) (h_numbers (held k))\<rparr>" "leds_dev_t s0 \<notin> h_numbers (held k)"
    using number_ok [OF n r] by simp_all
  moreover have "held k2 = held k1 \<or> held k2 = held k1\<lparr>h_cdev := Some (leds_dev_t s0)\<rparr>"
    using add [of "leds_dev_t s0" "cdev_init K k1"] a init_keeps by (auto split: if_splits)
  moreover have "c \<notin> h_classes (held k2)" "held k3 = held k2\<lparr>h_classes := insert c (h_classes (held k2))\<rparr>"
    using class_ok [OF c e] by simp_all
  moreover have "held k4 = held k3 \<or> held k4 = held k3\<lparr>h_nodes := insert (c, leds_dev_t s0) (h_nodes (held k3))\<rparr>"
    using node [of c "leds_dev_t s0" k3] d by (auto split: if_splits)
  ultimately show ?thesis using assms(2,3) s k'
    by (cases "held k") (auto simp: udev_leds_exit_def Let_def unregister del class_gone node_gone)
qed

text \<open>A flaw: when the class cannot be made, the number and the character device stay, and a module that failed to load is not unloaded.\<close>

lemma failed_class_leaks:
  assumes "udev_leds_init K U (udev_static, k) = (ret, s, k')" "s3c6410_leds_class s \<noteq> 0" "IS_ERR (s3c6410_leds_class s)"
  shows "ret = s3c6410_leds_class s \<and> ret <s 0 \<and> h_numbers (held k') = insert (leds_dev_t s) (h_numbers (held k)) \<and>
    leds_dev_t s \<notin> h_numbers (held k)"
proof -
  obtain r m s0 k1 where n: "udev_number K (udev_static, k) = (r, m, s0, k1)" by (metis surj_pair)
  have static: "s3c6410_leds_class s0 = 0" using n by (auto simp: udev_number_def udev_static_def Let_def split: prod.splits if_splits)
  obtain a k2 where a: "cdev_add K (leds_dev_t s0) (cdev_init K k1) = (a, k2)" by fastforce
  obtain c k3 where c: "class_create U k2 = (c, k3)" by fastforce
  obtain d k4 where d: "device_create U c (leds_dev_t s0) k3 = (d, k4)" by fastforce
  have r: "\<not> r <s 0" using assms n static by (auto simp: udev_leds_init_def)
  have e: "IS_ERR c" "ret = c" "s = s0\<lparr>udev_major := m, s3c6410_leds_class := c\<rparr>" "k' = k3"
    using assms n r a c d by (auto simp: udev_leds_init_def Let_def PTR_ERR_def split: if_splits)
  have "held k3 = held k2" using class_fails [OF c e(1)] .
  moreover have "h_numbers (held k2) = h_numbers (held k1)"
    using add [of "leds_dev_t s0" "cdev_init K k1"] a init_keeps by (auto split: if_splits)
  moreover have "c <s 0" using e(1) by (rule error_negative)
  ultimately show ?thesis using number_ok [OF n r] e by simp
qed

end

text \<open>A registry in memory that keeps the laws.\<close>

definition held_kernel :: "holdings kernel" where
  "held_kernel = \<lparr>copy_to_user = \<lambda>_ xs k. (of_nat (length xs), k), copy_from_user = \<lambda>_ n k. (of_nat n, replicate n 0, k),
     alloc_chrdev_region = \<lambda>k. (case filter (\<lambda>dev. dev \<notin> h_numbers k) (map (\<lambda>m. MKDEV (of_nat m) 0) (rev [1..<255])) of
         [] \<Rightarrow> (- EBUSY, 0, k) | dev # _ \<Rightarrow> (0, dev, k\<lparr>h_numbers := insert dev (h_numbers k)\<rparr>)),
     register_chrdev_region = \<lambda>dev k. if dev \<in> h_numbers k then (- EBUSY, k) else (0, k\<lparr>h_numbers := insert dev (h_numbers k)\<rparr>),
     unregister_chrdev_region = \<lambda>dev k. k\<lparr>h_numbers := h_numbers k - {dev}\<rparr>,
     cdev_init = \<lambda>k. k, cdev_add = \<lambda>dev k. (0, k\<lparr>h_cdev := Some dev\<rparr>), cdev_del = \<lambda>k. k\<lparr>h_cdev := None\<rparr>,
     misc_register = \<lambda>k. (0, k), misc_deregister = \<lambda>k. k, request_irq = \<lambda>_ k. (0, k), disable_irq = \<lambda>_ k. k, free_irq = \<lambda>_ k. k\<rparr>"

definition held_classes :: "holdings class_services" where
  "held_classes = \<lparr>class_create = \<lambda>k. if 0xC8000000 \<in> h_classes k then (- 17, k) else (0xC8000000, k\<lparr>h_classes := insert 0xC8000000 (h_classes k)\<rparr>),
     class_destroy = \<lambda>c k. k\<lparr>h_classes := h_classes k - {c}\<rparr>,
     device_create = \<lambda>c dev k. (0xC9000000, k\<lparr>h_nodes := insert (c, dev) (h_nodes k)\<rparr>),
     device_destroy = \<lambda>c dev k. k\<lparr>h_nodes := h_nodes k - {(c, dev)}\<rparr>\<rparr>"

interpretation registry: device_registry held_kernel held_classes "\<lambda>k. k"
proof
  fix k :: holdings and r dev k'
  assume a: "alloc_chrdev_region held_kernel k = (r, dev, k')"
  { assume "\<not> r <s 0"
    then show "dev \<notin> h_numbers k \<and> k' = k\<lparr>h_numbers := insert dev (h_numbers k)\<rparr>"
      using a by (auto simp: held_kernel_def word_sless_alt EBUSY_def filter_eq_Cons_iff split: list.splits) }
  { assume "r <s 0"
    then show "k' = k" using a by (auto simp: held_kernel_def word_sless_alt split: list.splits) }
qed (auto simp: held_kernel_def held_classes_def IS_ERR_def MAX_ERRNO_def split: if_splits)

end
