(* ===== verification/NetEcho.thy ===== *)
theory NetEcho
  imports Prelude
begin

text \<open>
  The user programs of the repository: the echo server and its client (\<open>linux/linux-example/socket_echo_server\<close>), and the tools beside
  the hello modules (\<open>linux/drives/hello\<close>).  System calls are fields of a record; what the manuals promise of a connected stream
  socket is a locale.
\<close>

section \<open>System calls\<close>

text \<open>
  A call returns its result and the new state of the system; \<open>read\<close> and \<open>fgets\<close> return in addition the bytes they stored.  \<open>fgets\<close> gives no
  bytes at the end of the input.  \<open>errno\<close> is a function of the state after the call.
\<close>

record 'k calls =
  sys_socket :: "'k \<Rightarrow> s32 \<times> 'k"
  sys_bind :: "s32 \<Rightarrow> u16 \<Rightarrow> 'k \<Rightarrow> s32 \<times> 'k"
  sys_listen :: "s32 \<Rightarrow> s32 \<Rightarrow> 'k \<Rightarrow> s32 \<times> 'k"
  sys_accept :: "s32 \<Rightarrow> 'k \<Rightarrow> s32 \<times> 'k"
  sys_signal :: "'k \<Rightarrow> 'k"
  sys_fork :: "'k \<Rightarrow> s32 \<times> 'k"
  sys_close :: "s32 \<Rightarrow> 'k \<Rightarrow> 'k"
  sys_read :: "s32 \<Rightarrow> nat \<Rightarrow> 'k \<Rightarrow> s32 \<times> u8 list \<times> 'k"
  sys_write :: "s32 \<Rightarrow> u8 list \<Rightarrow> 'k \<Rightarrow> s32 \<times> 'k"
  sys_errno :: "'k \<Rightarrow> s32"
  sys_waitpid :: "'k \<Rightarrow> s32 \<times> 'k"
  sys_inet_pton :: "u8 list \<Rightarrow> s32"
  sys_connect :: "s32 \<Rightarrow> u8 list \<Rightarrow> u16 \<Rightarrow> 'k \<Rightarrow> s32 \<times> 'k"
  sys_fgets :: "nat \<Rightarrow> 'k \<Rightarrow> u8 list option \<times> 'k"
  sys_fputs :: "u8 list \<Rightarrow> 'k \<Rightarrow> s32 \<times> 'k"
  sys_message :: "'k \<Rightarrow> 'k"
  sys_delete_module :: "u8 list \<Rightarrow> 'k \<Rightarrow> s32 \<times> 'k"

definition EINTR :: s32 where "EINTR = 4"
definition MAXLINE :: nat where "MAXLINE = 4096"
definition LISTENQ :: s32 where "LISTENQ = 1024"
definition LISTEN_PORT :: u16 where "LISTEN_PORT = 9669"

section \<open>The server\<close>

text \<open>The bytes to be written are the first \<open>n\<close> of the buffer, those that were read; what \<open>write\<close> returns is dropped.\<close>

partial_function (option) str_echo :: "'k calls \<Rightarrow> s32 \<Rightarrow> 'k \<Rightarrow> 'k option" where
  "str_echo K sockfd k =
     (let (n, buf, k) = sys_read K sockfd 1024 k
      in if 0 <s n then (let (_, k) = sys_write K sockfd (take (unat n) buf) k in str_echo K sockfd k)
         else if n <s 0 \<and> sys_errno K k = EINTR then str_echo K sockfd k
         else if n <s 0 then Some (sys_message K k)
         else Some k)"

partial_function (option) sig_child :: "'k calls \<Rightarrow> 'k \<Rightarrow> 'k option" where
  "sig_child K k =
     (let (pid, k) = sys_waitpid K k
      in if 0 <s pid then sig_child K (sys_message K k) else Some k)"

text \<open>The set-up, and one round of the endless loop: who goes on after it.\<close>

definition server_setup :: "'k calls \<Rightarrow> 'k \<Rightarrow> s32 \<times> 'k" where
  "server_setup K k =
     (let (listenfd, k) = sys_socket K k;
          (_, k) = sys_bind K listenfd LISTEN_PORT k;
          (_, k) = sys_listen K listenfd LISTENQ k
      in (listenfd, sys_signal K k))"

datatype serve = Listens | Exits s32

definition serve_one :: "'k calls \<Rightarrow> s32 \<Rightarrow> 'k \<Rightarrow> (serve \<times> 'k) option" where
  "serve_one K listenfd k =
     (let (connfd, k) = sys_accept K listenfd k;
          (child_pid, k) = sys_fork K k
      in if child_pid <s 0 then Some (Exits 1, sys_message K k)
         else if child_pid = 0 then
           (case str_echo K connfd (sys_close K listenfd k) of None \<Rightarrow> None | Some k \<Rightarrow> Some (Exits 0, k))
         else Some (Listens, sys_close K connfd k))"

section \<open>The client\<close>

definition until_nul :: "u8 list \<Rightarrow> u8 list" where
  "until_nul buf = takeWhile (\<lambda>x. x \<noteq> 0) buf"

text \<open>
  One buffer serves for the line that is sent and for the answer.  \<open>read\<close> adds no NUL, and only its result 0 is looked at: after an error the
  buffer still holds the line.
\<close>

partial_function (option) client_loop :: "'k calls \<Rightarrow> s32 \<Rightarrow> u8 list \<Rightarrow> 'k \<Rightarrow> (s32 \<times> 'k) option" where
  "client_loop K sockfd buffer k =
     (let (line, k) = sys_fgets K MAXLINE k
      in case line of
           None \<Rightarrow> Some (0, k)
         | Some xs \<Rightarrow>
             (let buffer = xs @ 0 # drop (Suc (length xs)) buffer;
                  (_, k) = sys_write K sockfd (until_nul buffer) k;
                  (n, ys, k) = sys_read K sockfd MAXLINE k
              in if n = 0 then Some (1, sys_message K k)
                 else
                   (let buffer = ys @ drop (length ys) buffer;
                        (r, k) = sys_fputs K (until_nul buffer) k
                    in if r = - 1 then Some (1, sys_message K k) else client_loop K sockfd buffer k)))"

text \<open>Five connections, of which the first is used.  \<open>Inl\<close> is the exit code of a failure.\<close>

fun connect_all :: "'k calls \<Rightarrow> u8 list \<Rightarrow> nat \<Rightarrow> 'k \<Rightarrow> (s32 + s32 list) \<times> 'k" where
  "connect_all K addr 0 k = (Inr [], k)"
| "connect_all K addr (Suc i) k =
     (let (fd, k) = sys_socket K k
      in if fd <s 0 then (Inl 1, sys_message K k)
         else if sys_inet_pton K addr \<le>s 0 then (Inl 1, sys_message K k)
         else
           (let (r, k) = sys_connect K fd addr LISTEN_PORT k
            in if r <s 0 then (Inl 1, sys_message K k)
               else
                 (case connect_all K addr i k of
                    (Inl e, k) \<Rightarrow> (Inl e, k)
                  | (Inr fds, k) \<Rightarrow> (Inr (fd # fds), k))))"

definition client_main :: "'k calls \<Rightarrow> u8 list list \<Rightarrow> u8 list \<Rightarrow> 'k \<Rightarrow> (s32 \<times> 'k) option" where
  "client_main K argv buffer k =
     (if length argv \<noteq> 2 then Some (1, sys_message K k)
      else
        (case connect_all K (argv ! 1) 5 k of
           (Inl e, k) \<Rightarrow> Some (e, k)
         | (Inr fds, k) \<Rightarrow> client_loop K (fds ! 0) buffer k))"

section \<open>The tools\<close>

text \<open>\<open>rmmod\<close> tries ten times while the module is busy; \<open>usleep\<close> has no effect on the state.  The result is that of the last try.\<close>

fun rmmod_loop :: "'k calls \<Rightarrow> u8 list \<Rightarrow> nat \<Rightarrow> s32 \<Rightarrow> 'k \<Rightarrow> s32 \<times> 'k" where
  "rmmod_loop K name 0 ret k = (ret, k)"
| "rmmod_loop K name (Suc maxtry) ret k =
     (let (ret, k) = sys_delete_module K name k
      in if ret <s 0 \<and> sys_errno K k = EAGAIN then rmmod_loop K name maxtry ret k else (ret, k))"

definition rmmod_main :: "'k calls \<Rightarrow> u8 list \<Rightarrow> 'k \<Rightarrow> 'k" where
  "rmmod_main K modname k = (let (ret, k) = rmmod_loop K modname 10 (- 1) k in if ret \<noteq> 0 then sys_message K k else k)"

text \<open>The module with parameters prints \<open>howmany\<close> messages.\<close>

function hellop_loop :: "('k \<Rightarrow> 'k) \<Rightarrow> s32 \<Rightarrow> s32 \<Rightarrow> 'k \<Rightarrow> 'k" where
  "hellop_loop printk howmany i k = (if i <s howmany then hellop_loop printk howmany (i + 1) (printk k) else k)"
  by pat_completeness auto
termination
proof (relation "measure (\<lambda>(_, howmany, i, _). nat (sint howmany - sint i))", simp)
  fix printk :: "'k \<Rightarrow> 'k" and howmany i :: s32 and k
  assume "i <s howmany"
  then have "sint i < sint howmany" by (simp add: word_sless_alt)
  moreover have "sint howmany \<le> 2 ^ 31 - 1" using sint_lt [of howmany] by simp
  moreover have "- (2 ^ 31) \<le> sint i" using sint_ge [of i] by simp
  ultimately have "sint (i + 1) = sint i + 1" by (simp add: sint_word_ariths(1) signed_take_bit_int_eq_self)
  then show "((printk, howmany, i + 1, printk k), printk, howmany, i, k) \<in> measure (\<lambda>(_, howmany, i, _). nat (sint howmany - sint i))"
    using \<open>sint i < sint howmany\<close> by simp
qed

definition hellop_init :: "('k \<Rightarrow> 'k) \<Rightarrow> s32 \<Rightarrow> 'k \<Rightarrow> s32 \<times> 'k" where
  "hellop_init printk howmany k = (0, hellop_loop printk howmany 0 k)"

section \<open>A connected socket\<close>

text \<open>
  The bytes the peer sends until it closes the connection, the bytes sent to it, and a bound on the signals to come.  \<open>read\<close> blocks until there
  are bytes, the connection is closed or a signal comes; \<open>write\<close> on a blocking socket takes all bytes.
\<close>

locale stream_socket =
  fixes K :: "'k calls" and fd :: s32 and inp outp :: "'k \<Rightarrow> u8 list" and signals :: "'k \<Rightarrow> nat"
  assumes read_more: "0 < m \<Longrightarrow> m < 2 ^ 31 \<Longrightarrow> sys_read K fd m k = (n, bs, k') \<Longrightarrow> 0 <s n \<Longrightarrow>
      unat n = length bs \<and> bs @ inp k' = inp k \<and> outp k' = outp k \<and> signals k' \<le> signals k"
    and read_end: "0 < m \<Longrightarrow> m < 2 ^ 31 \<Longrightarrow> sys_read K fd m k = (0, bs, k') \<Longrightarrow> inp k = [] \<and> inp k' = [] \<and> outp k' = outp k"
    and read_signal: "0 < m \<Longrightarrow> m < 2 ^ 31 \<Longrightarrow> sys_read K fd m k = (n, bs, k') \<Longrightarrow> n <s 0 \<Longrightarrow>
      sys_errno K k' = EINTR \<and> inp k' = inp k \<and> outp k' = outp k \<and> signals k' < signals k"
    and write_all: "sys_write K fd bs k = (r, k') \<Longrightarrow> inp k' = inp k \<and> outp k' = outp k @ bs \<and> signals k' \<le> signals k"
begin

lemma str_echo_all: "\<exists>k'. str_echo K fd k = Some k' \<and> inp k' = [] \<and> outp k' = outp k @ inp k"
proof (induction "length (inp k) + signals k" arbitrary: k rule: less_induct)
  case less
  obtain n buf k1 where r: "sys_read K fd 1024 k = (n, buf, k1)" by (metis surj_pair)
  consider "0 <s n" | "n = 0" | "n <s 0" unfolding word_sless_alt by (metis linorder_cases signed_0 signed_word_eqI)
  then show ?case
  proof cases
    case 1
    have m: "unat n = length buf" "buf @ inp k1 = inp k" "outp k1 = outp k" "signals k1 \<le> signals k" using read_more [OF _ _ r 1] by simp_all
    obtain w k2 where w: "sys_write K fd buf k1 = (w, k2)" by (metis surj_pair)
    note a = write_all [OF w]
    have "buf \<noteq> []" using m 1 by (cases buf) (auto simp: word_sless_alt unat_eq_0)
    moreover have "length (inp k) = length buf + length (inp k1)" using m by (metis length_append)
    ultimately have "length (inp k2) + signals k2 < length (inp k) + signals k"
      using m(4) a by (metis add.commute add_less_le_mono length_greater_0_conv less_add_same_cancel2 order_trans)
    from less [OF this] obtain k' where "str_echo K fd k2 = Some k'" "inp k' = []" "outp k' = outp k2 @ inp k2" by blast
    then show ?thesis using r w 1 m a by (subst str_echo.simps) auto
  next
    case 2
    then show ?thesis using r read_end [of 1024 k buf k1] by (subst str_echo.simps) auto
  next
    case 3
    note m = read_signal [OF _ _ r 3]
    have "\<not> 0 <s n" using 3 by (simp add: word_sless_alt)
    moreover obtain k' where "str_echo K fd k1 = Some k'" "inp k' = []" "outp k' = outp k1 @ inp k1" using less [of k1] m by auto
    ultimately show ?thesis using r 3 m by (subst str_echo.simps) auto
  qed
qed

end

text \<open>A socket for the witness: bytes arrive in pieces of given sizes, 0 stands for a signal.\<close>

record link =
  l_in :: "u8 list"
  l_out :: "u8 list"
  l_sizes :: "nat list"

definition link_read :: "nat \<Rightarrow> link \<Rightarrow> s32 \<times> u8 list \<times> link" where
  "link_read m k = (case l_sizes k of
       0 # cs \<Rightarrow> (- 1, [], k\<lparr>l_sizes := cs\<rparr>)
     | c # cs \<Rightarrow> (let bs = take (min m c) (l_in k) in (of_nat (length bs), bs, k\<lparr>l_in := drop (min m c) (l_in k), l_sizes := cs\<rparr>))
     | [] \<Rightarrow> (let bs = take m (l_in k) in (of_nat (length bs), bs, k\<lparr>l_in := drop m (l_in k)\<rparr>)))"

definition link_calls :: "link calls" where
  "link_calls = \<lparr>sys_socket = \<lambda>k. (3, k), sys_bind = \<lambda>_ _ k. (0, k), sys_listen = \<lambda>_ _ k. (0, k), sys_accept = \<lambda>_ k. (4, k), sys_signal = \<lambda>k. k,
     sys_fork = \<lambda>k. (0, k), sys_close = \<lambda>_ k. k, sys_read = \<lambda>_. link_read, sys_write = \<lambda>_ bs k. (of_nat (length bs), k\<lparr>l_out := l_out k @ bs\<rparr>),
     sys_errno = \<lambda>_. EINTR, sys_waitpid = \<lambda>k. (- 1, k), sys_inet_pton = \<lambda>_. 1, sys_connect = \<lambda>_ _ _ k. (0, k), sys_fgets = \<lambda>_ k. (None, k),
     sys_fputs = \<lambda>_ k. (0, k), sys_message = \<lambda>k. k, sys_delete_module = \<lambda>_ k. (0, k)\<rparr>"

lemma of_nat_sign:
  assumes "n < 2 ^ 31"
  shows "0 <s (of_nat n :: s32) \<longleftrightarrow> 0 < n" "\<not> (of_nat n :: s32) <s 0" "unat (of_nat n :: s32) = n" "(of_nat n :: s32) = 0 \<longleftrightarrow> n = 0"
proof -
  have "sint (of_nat n :: s32) = int n" using assms by (simp add: signed_of_nat signed_take_bit_int_eq_self)
  then show "0 <s (of_nat n :: s32) \<longleftrightarrow> 0 < n" "\<not> (of_nat n :: s32) <s 0" by (simp_all add: word_sless_alt)
  show u: "unat (of_nat n :: s32) = n" using assms by (intro u32_of_nat_less) simp
  then show "(of_nat n :: s32) = 0 \<longleftrightarrow> n = 0" using unat_eq_0 [of "of_nat n :: s32"] by auto
qed

interpretation link: stream_socket link_calls fd l_in l_out "\<lambda>k. length (l_sizes k)"
proof
  fix m :: nat and k k' :: link and n :: s32 and bs
  assume m: "0 < m" "m < 2 ^ 31"
  note s = of_nat_sign
  have "length (take m xs) < 2 ^ 31" "length (take (min m c) xs) < 2 ^ 31" for xs :: "u8 list" and c using m by auto
  note s = this [THEN of_nat_sign(1)] this [THEN of_nat_sign(2)] this [THEN of_nat_sign(3)] this [THEN of_nat_sign(4)]
  { assume "sys_read link_calls fd m k = (n, bs, k')" "0 <s n"
    then show "unat n = length bs \<and> bs @ l_in k' = l_in k \<and> l_out k' = l_out k \<and> length (l_sizes k') \<le> length (l_sizes k)"
      using s by (auto simp: link_calls_def link_read_def Let_def word_sless_alt split: list.splits nat.splits) }
  { assume "sys_read link_calls fd m k = (0, bs, k')"
    then show "l_in k = [] \<and> l_in k' = [] \<and> l_out k' = l_out k"
      using s m by (auto simp: link_calls_def link_read_def Let_def min_def split: list.splits nat.splits if_splits) }
  { assume "sys_read link_calls fd m k = (n, bs, k')" "n <s 0"
    then show "sys_errno link_calls k' = EINTR \<and> l_in k' = l_in k \<and> l_out k' = l_out k \<and> length (l_sizes k') < length (l_sizes k)"
      using s by (auto simp: link_calls_def link_read_def Let_def split: list.splits nat.splits) }
next
  fix bs and k k' :: link and r
  assume "sys_write link_calls fd bs k = (r, k')"
  then show "l_in k' = l_in k \<and> l_out k' = l_out k @ bs \<and> length (l_sizes k') \<le> length (l_sizes k)" by (auto simp: link_calls_def)
qed

section \<open>The client and its peer\<close>

text \<open>
  The lines still to be typed, what has been shown, and what has been sent and not yet received back.  The peer sends every byte back, and an
  answer comes in one piece.
\<close>

locale echo_peer =
  fixes K :: "'k calls" and fd :: s32 and typed :: "'k \<Rightarrow> u8 list list" and shown pending :: "'k \<Rightarrow> u8 list"
  assumes fgets_end: "typed k = [] \<Longrightarrow> sys_fgets K 4096 k = (l, k') \<Longrightarrow> l = None \<and> shown k' = shown k"
    and fgets_line: "typed k = x # xs \<Longrightarrow> sys_fgets K 4096 k = (l, k') \<Longrightarrow>
      l = Some x \<and> typed k' = xs \<and> shown k' = shown k \<and> pending k' = pending k"
    and write_peer: "sys_write K fd bs k = (r, k') \<Longrightarrow> pending k' = pending k @ bs \<and> typed k' = typed k \<and> shown k' = shown k"
    and read_peer: "sys_read K fd 4096 k = (n, bs, k') \<Longrightarrow> pending k \<noteq> [] \<Longrightarrow> length (pending k) \<le> 4096 \<Longrightarrow>
      n = of_nat (length bs) \<and> bs = pending k \<and> pending k' = [] \<and> typed k' = typed k \<and> shown k' = shown k"
    and fputs_shows: "sys_fputs K bs k = (r, k') \<Longrightarrow> r \<noteq> - 1 \<and> shown k' = shown k @ bs \<and> typed k' = typed k \<and> pending k' = pending k"
begin

lemma client_shows:
  assumes "pending k = []" "\<forall>x\<in>set (typed k). x \<noteq> [] \<and> 0 \<notin> set x \<and> length x < 4096"
  shows "\<exists>k'. client_loop K fd buffer k = Some (0, k') \<and> shown k' = shown k @ concat (typed k)"
  using assms
proof (induction "typed k" arbitrary: k buffer)
  case Nil
  obtain l k1 where g: "sys_fgets K 4096 k = (l, k1)" by fastforce
  show ?case using fgets_end [OF Nil.hyps [symmetric] g] g Nil.hyps by (subst client_loop.simps) (auto simp: MAXLINE_def)
next
  case (Cons x xs)
  have x: "x \<noteq> []" "0 \<notin> set x" "length x < 4096" and xs: "\<forall>x\<in>set xs. x \<noteq> [] \<and> 0 \<notin> set x \<and> length x < 4096"
    using Cons.prems(2) by (simp_all flip: Cons.hyps(2))
  have nul: "until_nul (x @ 0 # zs) = x" for zs using x(2) by (auto simp: until_nul_def takeWhile_eq_all_conv takeWhile_append)
  obtain l k1 where g: "sys_fgets K 4096 k = (l, k1)" by fastforce
  have k1: "l = Some x" "typed k1 = xs" "shown k1 = shown k" "pending k1 = []" using fgets_line [OF Cons.hyps(2) [symmetric] g] Cons.prems by simp_all
  obtain r k2 where w: "sys_write K fd x k1 = (r, k2)" by fastforce
  have k2: "pending k2 = x" "typed k2 = xs" "shown k2 = shown k" using write_peer [OF w] k1 by simp_all
  obtain n ys k3 where rd: "sys_read K fd 4096 k2 = (n, ys, k3)" by (metis surj_pair)
  have k3: "n = of_nat (length x)" "ys = x" "pending k3 = []" "typed k3 = xs" "shown k3 = shown k"
    using read_peer [OF rd] k2 x(1,3) by simp_all
  have n: "n \<noteq> 0" using of_nat_sign(4) [of "length x"] x(1,3) k3(1) by simp
  obtain q k4 where p: "sys_fputs K x k3 = (q, k4)" by fastforce
  have k4: "q \<noteq> - 1" "shown k4 = shown k @ x" "typed k4 = xs" "pending k4 = []" using fputs_shows [OF p] k3 by simp_all
  let ?buf = "x @ drop (length x) (x @ 0 # drop (Suc (length x)) buffer)"
  obtain k' where "client_loop K fd ?buf k4 = Some (0, k')" "shown k' = shown k4 @ concat (typed k4)"
    using Cons.hyps(1) [OF k4(3) [symmetric] k4(4)] xs k4(3) by blast
  then show ?case using g k1(1) w rd k3(2) n p k4 by (subst client_loop.simps) (auto simp: MAXLINE_def nul simp flip: Cons.hyps(2))
qed

end

text \<open>A terminal and a peer as the manual describes them.\<close>

record terminal =
  t_typed :: "u8 list list"
  t_shown :: "u8 list"
  t_pending :: "u8 list"

definition terminal_calls :: "terminal calls" where
  "terminal_calls = \<lparr>sys_socket = \<lambda>k. (3, k), sys_bind = \<lambda>_ _ k. (0, k), sys_listen = \<lambda>_ _ k. (0, k), sys_accept = \<lambda>_ k. (4, k), sys_signal = \<lambda>k. k,
     sys_fork = \<lambda>k. (0, k), sys_close = \<lambda>_ k. k,
     sys_read = \<lambda>_ m k. (of_nat (length (take m (t_pending k))), take m (t_pending k), k\<lparr>t_pending := drop m (t_pending k)\<rparr>),
     sys_write = \<lambda>_ bs k. (of_nat (length bs), k\<lparr>t_pending := t_pending k @ bs\<rparr>),
     sys_errno = \<lambda>_. EINTR, sys_waitpid = \<lambda>k. (- 1, k), sys_inet_pton = \<lambda>_. 1, sys_connect = \<lambda>_ _ _ k. (0, k),
     sys_fgets = \<lambda>_ k. (case t_typed k of [] \<Rightarrow> (None, k) | x # xs \<Rightarrow> (Some x, k\<lparr>t_typed := xs\<rparr>)),
     sys_fputs = \<lambda>bs k. (1, k\<lparr>t_shown := t_shown k @ bs\<rparr>), sys_message = \<lambda>k. k, sys_delete_module = \<lambda>_ k. (0, k)\<rparr>"

interpretation terminal: echo_peer terminal_calls fd t_typed t_shown t_pending
  by unfold_locales (auto simp: terminal_calls_def)

text \<open>
  A flaw: when the connection breaks, \<open>read\<close> fails and the client shows the line it has sent as if it had come back.
\<close>

lemma client_shows_on_error:
  assumes "sys_fgets K 4096 k = (Some xs, k1)" "0 \<notin> set xs" "sys_write K fd xs k1 = (r, k2)" "sys_read K fd 4096 k2 = (- 1, [], k3)"
    and "sys_fputs K xs k3 = (q, k4)" "q \<noteq> - 1"
  shows "client_loop K fd buffer k = client_loop K fd (xs @ 0 # drop (Suc (length xs)) buffer) k4"
proof -
  have nul: "until_nul (xs @ 0 # zs) = xs" for zs using assms(2) by (auto simp: until_nul_def takeWhile_append)
  show ?thesis using assms by (subst client_loop.simps) (simp add: MAXLINE_def nul)
qed

section \<open>Tools\<close>

text \<open>\<open>rmmod\<close> succeeds if one of the first ten tries does and the module is only busy before.\<close>

lemma rmmod_retries:
  assumes "\<And>i. i < n \<Longrightarrow> sys_delete_module K name (s i) = (- 1, s (Suc i)) \<and> sys_errno K (s (Suc i)) = EAGAIN"
    and "n < 10" "sys_delete_module K name (s n) = (0, k')"
  shows "rmmod_main K name (s 0) = k'"
proof -
  have "rmmod_loop K name (10 - j) ret (s j) = (0, k')" if "j \<le> n" for j ret
    using that
  proof (induction "n - j" arbitrary: j ret)
    case 0
    then have "j = n" "10 - j = Suc (9 - n)" using assms(2) by auto
    then show ?case using assms(3) by simp
  next
    case (Suc d)
    then have "j < n" and "10 - j = Suc (10 - Suc j)" using assms(2) by auto
    moreover have "rmmod_loop K name (10 - Suc j) (- 1) (s (Suc j)) = (0, k')" by (rule Suc.hyps(1)) (use Suc.hyps(2) \<open>j < n\<close> in auto)
    ultimately show ?case using assms(1) [of j] by simp
  qed
  from this [of 0 "- 1"] show ?thesis by (simp add: rmmod_main_def)
qed

lemma hellop_prints: "hellop_init printk howmany k = (0, (printk ^^ nat (sint howmany)) k)"
proof -
  have "hellop_loop printk howmany i k = (printk ^^ nat (sint howmany - sint i)) k" for i k
  proof (induction printk howmany i k rule: hellop_loop.induct)
    case (1 printk howmany i k)
    show ?case
    proof (cases "i <s howmany")
      case True
      then have "sint i < sint howmany" by (simp add: word_sless_alt)
      moreover have "sint (i + 1) = sint i + 1"
      proof -
        have "sint howmany < 2 ^ 31" "- (2 ^ 31) \<le> sint i" using sint_lt [of howmany] sint_ge [of i] by simp_all
        then show ?thesis using \<open>sint i < sint howmany\<close> by (simp add: sint_word_ariths(1) signed_take_bit_int_eq_self)
      qed
      ultimately have "nat (sint howmany - sint i) = Suc (nat (sint howmany - sint (i + 1)))" by linarith
      then show ?thesis using True 1 by (subst hellop_loop.simps) (simp add: funpow_swap1)
    next
      case False
      then show ?thesis by (subst hellop_loop.simps) (simp add: word_sless_alt)
    qed
  qed
  then show ?thesis by (simp add: hellop_init_def)
qed

section \<open>Theorems\<close>



end
