(* ===== verification/Spec2Isabelle.thy ===== *)
theory Spec2Isabelle
  imports Format Stdio Muldi3 Gpio Echo Startup SoftPage BareNand Buttons UdevLeds NetEcho
begin

text \<open>
  Verification of the ARM-Tiny6410 code.  The repository teaches the FriendlyARM Tiny6410 board, an S3C6410 (ARM11) with
  NAND flash, a UART, four LEDs and four keys.  Its own code comes in four layers: bare-metal programs (\<open>no-os/\<close>
  and their reworked copies in \<open>workspace/\<close>), the NAND driver of the Linux kernel (\<open>linux/kernel/common\<close>), small kernel
  modules (\<open>linux/drives\<close>), and user programs (\<open>linux/linux-example\<close>).  All of them are modelled here from the C source.  The kernel and
  U-Boot trees are third-party code; of the kernel tree, the files that the driver calls for its work are modelled (\<open>nand_ids.c\<close>, \<open>nand_ecc.c\<close>).

  \<^bold>\<open>Conventions.\<close>  Integers are words of their C width, pointers are 32-bit words, \<open>char\<close> is unsigned as on ARM.  The C
  library works on a memory of bytes, \<^typ>\<open>mem\<close>.  Devices are not program code: a device is a state of some type
  \<open>'d\<close> with a record of read and write functions (\<^typ>\<open>'d bus\<close>), an argument of every driver function, and each volatile
  access of the source is one access of the bus, in program order.  What the manuals promise of a device is a
  locale; what a function needs of the device is a hypothesis of its theorem; and every locale is interpreted
  on a concrete device that the witnesses run on.  Kernel services are a parameter of the same kind (\<^typ>\<open>'k kernel\<close>).
  A function that can loop forever, such as a poll of a FIFO or a scan for a NUL, is a \<open>partial_function (option)\<close>, whose value
  is \<open>None\<close> when it does not return; theorems about it state that it returns \<open>Some\<close> value, so no fuel is needed.
  Loops with a counter are total functions with a measure.

  \<^bold>\<open>Theories, in the order of the layers.\<close>

  \<^item> \<open>Prelude\<close>: machine types, memory, regions, NUL-terminated strings, word lemmas.
  \<^item> \<open>Ctype\<close> (\<open>stdio/lib/ctype.c\<close>), \<open>CString\<close> (\<open>stdio/lib/string.c\<close>): every function of both files.  \<open>memmove\<close> is right for
    overlapping blocks, \<open>strtok\<close> yields the tokens, \<open>strstr\<close> the first occurrence, \<open>strcmp\<close> the order of ASCII strings
    (and the wrong order beyond ASCII).
  \<^item> \<open>Vsprintf\<close> (\<open>stdio/lib/vsprintf.c\<close>, output and number parsing), \<open>Numbers\<close> and \<open>Format\<close> (proofs): \<open>fmt_out\<close> is the abstract
    meaning of a format and its arguments, a list of bytes; \<open>vsnprintf\<close> writes exactly that list cut to the
    buffer.  The locale \<open>wider_reader\<close> lets a computation that reads part of the memory be replayed in the
    changed memory.  Printed numbers read back.
  \<^item> \<open>Sscanf\<close> (\<open>vsscanf\<close>), \<open>Stdio\<close> (\<open>printf\<close> and \<open>scanf\<close> over the UART), \<open>Muldi3\<close> (64-bit product from 32-bit parts).
  \<^item> \<open>Bus\<close> (\<open>common.h\<close>; locale \<open>register_file\<close>), \<open>Gpio\<close> (LEDs, keys, buzzer; locale \<open>gpio_port\<close>), \<open>Uart\<close> (locale \<open>uart_port\<close>, with
    what has been sent and what is to be received, and bounds on how often a poll can fail).
  \<^item> \<open>Mmu\<close>: page tables of six programs against \<open>translate\<close>, the section lookup of the ARM11.
  \<^item> \<open>Irq\<close>: interrupt controller, key, timer and watchdog handlers (locale \<open>soc\<close>, which extends \<open>uart_port\<close>).
  \<^item> \<open>Echo\<close>: the main programs, an inductive step relation in which an interrupt may come between any two accesses
    of the echo loop (locale \<open>echo_board\<close>).  The loop that masks interrupts echoes every byte once, in order, in
    every interleaving; the one that does not loses a byte in a run that is given.
  \<^item> \<open>Startup\<close>: clocks and SDRAM controller (locale \<open>system_regs\<close>).
  \<^item> \<open>NandBase\<close> (\<open>nand_base.c\<close>: access, commands, waiting), \<open>S3cNand\<close> (\<open>s3c_nand.c\<close>: ECC and page functions), \<open>NandFlash\<close> (the chip
    as a state machine over command, address and data cycles, the ECC engine, locale \<open>nand_device\<close>, and a
    simulated device with a real single-bit code), \<open>NandPage\<close> (proofs).  Writing a page implements the abstract
    page image; reading gives the data back when at most one bit per sector and its code has flipped; the wait
    returns also when the tick counter wraps.
  \<^item> \<open>MtdLock\<close> (\<open>nand_get_device\<close>, \<open>nand_release_device\<close>): threads that compete for chips on a controller, as an inductive step relation; mutual
    exclusion, no sleeper without a holder to wake it, and how a second chip on the controller breaks both.
  \<^item> \<open>Mtd\<close> (\<open>nand_base.c\<close>: reading, writing, the spare area, bad blocks, erase, locking, suspend), with the functions behind the pointers of the
    chip as fields of a record; \<open>MtdOps\<close> (the locale \<open>page_store\<close>: what the loops over pages need of the page functions, and what they then
    do), \<open>MtdErase\<close> (locale \<open>block_store\<close>, the same for bad blocks and erase), \<open>MtdSlc\<close> (locale \<open>slc_device\<close>: both hold of the page functions of \<open>s3c_nand.c\<close>): what is
    written is read, erase refines its specification, the page cache agrees with the chip after any sequence of calls up to
    2 GiB and not beyond.  \<open>MtdCalls\<close>: every call gives the device back; a suspended chip is left alone; the spare area round trip.
  \<^item> \<open>NandIdent\<close> (\<open>nand_scan\<close> and the table of \<open>nand_ids.c\<close>), \<open>NandProbe\<close> (\<open>s3c_nand_probe\<close>): the probe ends in the chip structure that the
    results on pages assume; what goes wrong with pages of 4 KiB; the check sum of ONFI.
  \<^item> \<open>NandEcc\<close> (the page functions of \<open>nand_base.c\<close> itself: software, hardware and syndrome ECC): chips with small pages.
  \<^item> \<open>SoftEcc\<close> (\<open>nand_ecc.c\<close>): the unrolled parity computation is the Hamming code \<open>hamming\<close>; one changed bit is corrected, two are
    detected.  \<open>SoftPage\<close>: pages with software ECC read back as they were written, with a changed bit in each block.
  \<^item> \<open>BareNand\<close> (\<open>no-os/nand/nand.c\<close>, \<open>workspace/nand/nand.c\<close>; locale \<open>bare_chip\<close>): pages written are read back.
  \<^item> \<open>CharDev\<close> (\<open>char_dev.c\<close>, \<open>char_leds.c\<close>, \<open>leds_dev.c\<close>; locales \<open>user_access\<close> and \<open>irq_lines\<close>): sequences of system calls
    refine an abstract store.
  \<^item> \<open>Buttons\<close> (\<open>buttons_dev.c\<close>): a step relation of read calls and key interrupts; no event is lost, and the interrupt
    lines are claimed all or none.
  \<^item> \<open>UdevLeds\<close> (\<open>char_udev_leds.c\<close>; locale \<open>device_registry\<close>): unloading gives back what loading took; a class that cannot be made leaves the
    device number behind.
  \<^item> \<open>NetEcho\<close> (\<open>echo_server.c\<close>, \<open>echo_client.c\<close>, \<open>rmmod.c\<close>, \<open>hellop.c\<close>; locales \<open>stream_socket\<close> and \<open>echo_peer\<close>): the server sends back every byte
    and returns, through signals and partial reads; the client shows the lines that come back.

  \<^bold>\<open>How the parts meet.\<close>  \<open>printf\<close> formats with \<open>vsnprintf\<close> into memory and sends with the UART functions; the key handler
  sends messages on the UART that the echo loop uses; the UART, SDRAM and timer constants are those of the clocks that
  \<open>clock_init\<close> programs; both NAND drivers run against the same chip model; the page table maps the
  registers the other programs use.

  \<^bold>\<open>Flaws shown.\<close>  Several theorems and lemmas state what the code does where it is not what it means to do: \<open>snprintf\<close> with size zero, \<open>strcmp\<close>
  beyond ASCII, \<open>UART0_SendData32\<close> of zero, the refresh period of the SDRAM, the timer number that \<open>timer_init\<close> ignores, the page
  table entries above 2 GB, the unmasked echo loop, the offset that \<open>nand_read_in_page\<close> ignores, the MLC errors that are dropped, the
  page cache that is stale beyond 2 GiB, the resume that gives away a controller in use, the codes that overwrite the bad block
  marker of 4 KiB pages, the module whose probe stops with BUG, the raw write that sends no codes, the client that shows its own line when the
  connection breaks, and the number that a failed load keeps.

  \<^bold>\<open>Not modelled.\<close>  Assembly (\<open>start.S\<close>, the register save of the handlers); the registration of platform devices; the bad block table of
  \<open>nand_bbt.c\<close>, which the driver replaces by none; \<open>dm9000.c\<close>, \<open>ohci-s3c2410.c\<close> and \<open>mach-mini6410.c\<close>, vendor files with tables of
  devices; programs and modules that only print a text; copies of the drivers that do not differ from the modelled
  ones.  Delay loops have no effect on any state and are left out.  The C compiler, caches and memory ordering are outside the model:
  accesses happen in program order.
\<close>

end
